(* ===== verification/Prelude.thy ===== *)
theory Prelude
  imports Main "HOL-Library.Char_ord"
begin

text \<open>
  Shared vocabulary of the development: results with errors as values, the state and
  exception combinators that the models of handlers are written in, decimal printing and
  parsing of integers, and facts on lists and maps used by several components.

  Text. A Python \<open>str\<close> is modelled by its UTF-8 encoding, a \<open>string\<close> whose characters are
  bytes; \<open>bytes\<close> objects are \<open>string\<close>s as well. Equality, concatenation, prefix tests,
  replacing and splitting at ASCII patterns agree under this reading; lengths of non-ASCII
  text do not, and no definition takes the length of a \<open>str\<close>.
\<close>

section \<open>Results and errors as values\<close>

named_theorems result_simps \<open>rewrite rules of the result and state combinators\<close>

type_synonym bytes = string

definition sbind :: "'e + 'a \<Rightarrow> ('a \<Rightarrow> 'e + 'b) \<Rightarrow> 'e + 'b" where
  "sbind m f = (case m of Inl e \<Rightarrow> Inl e | Inr x \<Rightarrow> f x)"

lemma sbind_Inl [simp, result_simps]: "sbind (Inl e) f = Inl e"
  by (simp add: sbind_def)

lemma sbind_Inr [simp, result_simps]: "sbind (Inr x) f = f x"
  by (simp add: sbind_def)

lemma sbind_eq_Inr: "sbind m f = Inr y \<longleftrightarrow> (\<exists>x. m = Inr x \<and> f x = Inr y)"
  by (cases m) auto

lemma sbind_eq_Inl: "sbind m f = Inl e \<longleftrightarrow> m = Inl e \<or> (\<exists>x. m = Inr x \<and> f x = Inl e)"
  by (cases m) auto

lemma sbind_cong [fundef_cong]:
  "m = m' \<Longrightarrow> (\<And>x. m' = Inr x \<Longrightarrow> f x = g x) \<Longrightarrow> sbind m f = sbind m' g"
  by (cases m') auto

text \<open>Elementwise checking of a list, stopping at the first error with its position.\<close>

fun smap_idx :: "(nat \<Rightarrow> 'a \<Rightarrow> 'e + 'b) \<Rightarrow> nat \<Rightarrow> 'a list \<Rightarrow> 'e + 'b list" where
  "smap_idx f i [] = Inr []"
| "smap_idx f i (x # xs) =
     (case f i x of Inl e \<Rightarrow> Inl e
      | Inr y \<Rightarrow> (case smap_idx f (Suc i) xs of Inl e \<Rightarrow> Inl e | Inr ys \<Rightarrow> Inr (y # ys)))"

lemma smap_idx_length: "smap_idx f i xs = Inr ys \<Longrightarrow> length ys = length xs"
  by (induction xs arbitrary: i ys) (auto split: sum.splits)

lemma smap_idx_nth:
  "smap_idx f i xs = Inr ys \<Longrightarrow> k < length xs \<Longrightarrow> f (i + k) (xs ! k) = Inr (ys ! k)"
proof (induction xs arbitrary: i ys k)
  case (Cons x xs)
  then show ?case by (cases k) (fastforce split: sum.splits)+
qed simp

lemma smap_idx_all:
  assumes "smap_idx f i xs = Inr ys" and "\<And>j x y. x \<in> set xs \<Longrightarrow> f j x = Inr y \<Longrightarrow> P y"
  shows "\<forall>y \<in> set ys. P y"
  using assms by (induction xs arbitrary: i ys) (fastforce split: sum.splits)+

lemma smap_idx_fixed:
  "(\<And>j x. x \<in> set xs \<Longrightarrow> f j x = Inr x) \<Longrightarrow> smap_idx f i xs = Inr xs"
  by (induction xs arbitrary: i) auto

lemma smap_idx_first_error:
  "smap_idx f i xs = Inl e \<Longrightarrow>
     \<exists>k < length xs. f (i + k) (xs ! k) = Inl e \<and> (\<forall>j < k. \<exists>y. f (i + j) (xs ! j) = Inr y)"
proof (induction xs arbitrary: i)
  case (Cons x xs)
  show ?case
  proof (cases "f i x")
    case (Inl e')
    with Cons.prems show ?thesis by (intro exI [of _ 0]) auto
  next
    case (Inr y)
    with Cons.prems have "smap_idx f (Suc i) xs = Inl e" by (auto split: sum.splits)
    from Cons.IH [OF this] obtain k where k: "k < length xs" "f (Suc i + k) (xs ! k) = Inl e"
      "\<forall>j < k. \<exists>y. f (Suc i + j) (xs ! j) = Inr y" by blast
    have "\<forall>j < Suc k. \<exists>y. f (i + j) ((x # xs) ! j) = Inr y"
    proof (intro allI impI)
      fix j assume "j < Suc k"
      then show "\<exists>y. f (i + j) ((x # xs) ! j) = Inr y"
        using Inr k(3) by (cases j) auto
    qed
    with k show ?thesis by (intro exI [of _ "Suc k"]) auto
  qed
qed simp

section \<open>State and exceptions\<close>

text \<open>
  A Python statement sequence that may raise is a function from the state to an outcome and
  the state left behind: an exception does not undo what was written before it.
\<close>

type_synonym ('s, 'e, 'a) sem = "'s \<Rightarrow> ('e + 'a) \<times> 's"

definition ret :: "'a \<Rightarrow> ('s, 'e, 'a) sem" where
  "ret x s = (Inr x, s)"

definition raise :: "'e \<Rightarrow> ('s, 'e, 'a) sem" where
  "raise e s = (Inl e, s)"

definition andthen :: "('s, 'e, 'a) sem \<Rightarrow> ('a \<Rightarrow> ('s, 'e, 'b) sem) \<Rightarrow> ('s, 'e, 'b) sem" where
  "andthen m f s = (case m s of (Inl e, s') \<Rightarrow> (Inl e, s') | (Inr x, s') \<Rightarrow> f x s')"

definition attempt :: "('s, 'e, 'a) sem \<Rightarrow> ('e \<Rightarrow> ('s, 'e, 'a) sem) \<Rightarrow> ('s, 'e, 'a) sem" where
  "attempt m h s = (case m s of (Inl e, s') \<Rightarrow> h e s' | (Inr x, s') \<Rightarrow> (Inr x, s'))"

text \<open>\<open>try: m finally: f\<close>: an exception of \<open>f\<close> replaces the outcome of \<open>m\<close>.\<close>

definition finally_do :: "('s, 'e, 'a) sem \<Rightarrow> ('s, 'e, unit) sem \<Rightarrow> ('s, 'e, 'a) sem" where
  "finally_do m f s = (case m s of (r, s') \<Rightarrow>
     (case f s' of (Inl e, s'') \<Rightarrow> (Inl e, s'') | (Inr _, s'') \<Rightarrow> (r, s'')))"

definition modify :: "('s \<Rightarrow> 's) \<Rightarrow> ('s, 'e, unit) sem" where
  "modify f s = (Inr (), f s)"

definition gets :: "('s \<Rightarrow> 'a) \<Rightarrow> ('s, 'e, 'a) sem" where
  "gets f s = (Inr (f s), s)"

definition of_result :: "'e + 'a \<Rightarrow> ('s, 'e, 'a) sem" where
  "of_result r s = (r, s)"

lemma sem_simps [simp, result_simps]:
  "ret x s = (Inr x, s)"
  "raise e s = (Inl e, s)"
  "modify f s = (Inr (), f s)"
  "gets g s = (Inr (g s), s)"
  "of_result r s = (r, s)"
  by (simp_all add: ret_def raise_def modify_def gets_def of_result_def)

lemma andthen_simps [simp, result_simps]:
  "m s = (Inl e, s') \<Longrightarrow> andthen m f s = (Inl e, s')"
  "m s = (Inr x, s') \<Longrightarrow> andthen m f s = f x s'"
  by (simp_all add: andthen_def)

lemma andthen_Inr:
  "andthen m f s = (Inr y, s') \<longleftrightarrow> (\<exists>x t. m s = (Inr x, t) \<and> f x t = (Inr y, s'))"
  by (auto simp: andthen_def split: prod.splits sum.splits)

lemma attempt_simps [simp, result_simps]:
  "m s = (Inl e, s') \<Longrightarrow> attempt m h s = h e s'"
  "m s = (Inr x, s') \<Longrightarrow> attempt m h s = (Inr x, s')"
  by (simp_all add: attempt_def)

lemma finally_do_simps [simp, result_simps]:
  "m s = (r, s') \<Longrightarrow> f s' = (Inl e, s'') \<Longrightarrow> finally_do m f s = (Inl e, s'')"
  "m s = (r, s') \<Longrightarrow> f s' = (Inr u, s'') \<Longrightarrow> finally_do m f s = (r, s'')"
  by (simp_all add: finally_do_def)

text \<open>
  Weakest preconditions: \<open>Q\<close> is asked of a normal outcome and \<open>X\<close> of an exception. The
  rules compute them along a definition.
\<close>

named_theorems wp_simps \<open>weakest preconditions of the combinators and operations\<close>

definition wp ::
  "('s, 'e, 'a) sem \<Rightarrow> ('a \<Rightarrow> 's \<Rightarrow> bool) \<Rightarrow> ('e \<Rightarrow> 's \<Rightarrow> bool) \<Rightarrow> 's \<Rightarrow> bool" where
  "wp m Q X s \<longleftrightarrow> (case m s of (Inl e, s') \<Rightarrow> X e s' | (Inr x, s') \<Rightarrow> Q x s')"

lemma wp_ret [wp_simps]: "wp (ret x) Q X = Q x"
  by (simp add: wp_def fun_eq_iff)

lemma wp_raise [wp_simps]: "wp (raise e) Q X = X e"
  by (simp add: wp_def fun_eq_iff)

lemma wp_modify [wp_simps]: "wp (modify g) Q X = (\<lambda>s. Q () (g s))"
  by (simp add: wp_def fun_eq_iff)

lemma wp_gets [wp_simps]: "wp (gets h) Q X = (\<lambda>s. Q (h s) s)"
  by (simp add: wp_def fun_eq_iff)

lemma wp_of_result [wp_simps]:
  "wp (of_result r) Q X = (case r of Inl e \<Rightarrow> X e | Inr x \<Rightarrow> Q x)"
  by (simp add: wp_def fun_eq_iff split: sum.splits)

lemma wp_andthen [wp_simps]: "wp (andthen m f) Q X = wp m (\<lambda>x. wp (f x) Q X) X"
  by (auto simp: wp_def andthen_def fun_eq_iff split: sum.splits prod.splits)

lemma wp_attempt [wp_simps]: "wp (attempt m k) Q X = wp m Q (\<lambda>e. wp (k e) Q X)"
  by (auto simp: wp_def attempt_def fun_eq_iff split: sum.splits prod.splits)

lemma wp_finally [wp_simps]:
  "wp (finally_do m f) Q X = wp m (\<lambda>x. wp f (\<lambda>_. Q x) X) (\<lambda>e. wp f (\<lambda>_. X e) X)"
proof (rule ext)
  fix s
  obtain r s' where "m s = (r, s')" by (cases "m s") auto
  then show "wp (finally_do m f) Q X s = wp m (\<lambda>x. wp f (\<lambda>_. Q x) X) (\<lambda>e. wp f (\<lambda>_. X e) X) s"
    by (cases r) (auto simp: wp_def finally_do_def split: sum.splits prod.splits)
qed

lemma wp_if [wp_simps]: "wp (if b then m else k) Q X = (if b then wp m Q X else wp k Q X)"
  by simp

lemma wpI: "(\<And>e s'. m s = (Inl e, s') \<Longrightarrow> X e s') \<Longrightarrow> (\<And>x s'. m s = (Inr x, s') \<Longrightarrow> Q x s') \<Longrightarrow> wp m Q X s"
  by (auto simp: wp_def split: sum.splits prod.splits)

lemma wpD:
  "wp m Q X s \<Longrightarrow> m s = (Inr x, s') \<Longrightarrow> Q x s'"
  "wp m Q X s \<Longrightarrow> m s = (Inl e, s') \<Longrightarrow> X e s'"
  by (simp_all add: wp_def)

lemma wp_mono:
  "wp m Q X s \<Longrightarrow> (\<And>x t. Q x t \<Longrightarrow> Q' x t) \<Longrightarrow> (\<And>e t. X e t \<Longrightarrow> X' e t) \<Longrightarrow> wp m Q' X' s"
  by (auto simp: wp_def split: sum.splits prod.splits)

lemma wp_snd: "wp m (\<lambda>_. P) (\<lambda>_. P) s \<longleftrightarrow> P (snd (m s))"
  by (auto simp: wp_def split: sum.splits prod.splits)

text \<open>An operation keeps a predicate of the state whatever its outcome.\<close>

definition keeps :: "('s \<Rightarrow> bool) \<Rightarrow> ('s, 'e, 'a) sem \<Rightarrow> bool" where
  "keeps P m \<longleftrightarrow> (\<forall>s. P s \<longrightarrow> wp m (\<lambda>_. P) (\<lambda>_. P) s)"

lemma keepsI [intro?]: "(\<And>s. P s \<Longrightarrow> wp m (\<lambda>_. P) (\<lambda>_. P) s) \<Longrightarrow> keeps P m"
  by (simp add: keeps_def)

lemma keepsD: "keeps P m \<Longrightarrow> P s \<Longrightarrow> m s = (r, s') \<Longrightarrow> P s'"
  by (cases r) (auto simp: keeps_def wp_def)

lemma keeps_wp: "keeps P m \<Longrightarrow> P s \<Longrightarrow> wp m (\<lambda>_. P) (\<lambda>_. P) s"
  by (simp add: keeps_def)

lemma keeps_bind:
  assumes "keeps P m" and "\<And>x. keeps P (f x)"
  shows "keeps P (andthen m f)"
  using assms by (auto simp: keeps_def wp_simps intro: wp_mono [where m = m and Q = "\<lambda>_. P" and X = "\<lambda>_. P"])

lemma keeps_attempt:
  assumes "keeps P m" and "\<And>e. keeps P (k e)"
  shows "keeps P (attempt m k)"
  using assms by (auto simp: keeps_def wp_simps intro: wp_mono [where m = m and Q = "\<lambda>_. P" and X = "\<lambda>_. P"])

lemma keeps_finally:
  assumes "keeps P m" and "keeps P u"
  shows "keeps P (finally_do m u)"
  using assms by (auto simp: keeps_def wp_simps intro: wp_mono [where m = m and Q = "\<lambda>_. P" and X = "\<lambda>_. P"])

lemma keeps_basic:
  "keeps P (ret x)" "keeps P (raise e)" "keeps P (gets h)" "keeps P (of_result r)"
  by (auto simp: keeps_def wp_simps split: sum.splits)

lemma keeps_if: "keeps P m \<Longrightarrow> keeps P k \<Longrightarrow> keeps P (if b then m else k)"
  by simp

lemma keeps_modify: "(\<And>s. P s \<Longrightarrow> P (f s)) \<Longrightarrow> keeps P (modify f)"
  by (simp add: keeps_def wp_simps)

lemmas keeps_rules = keeps_basic keeps_bind keeps_attempt keeps_finally keeps_if

section \<open>Transition systems\<close>

inductive reachable :: "('s \<Rightarrow> bool) \<Rightarrow> ('s \<Rightarrow> 's \<Rightarrow> bool) \<Rightarrow> 's \<Rightarrow> bool"
  for init :: "'s \<Rightarrow> bool" and step :: "'s \<Rightarrow> 's \<Rightarrow> bool"
where
  reachable_init: "init s \<Longrightarrow> reachable init step s"
| reachable_step: "reachable init step s \<Longrightarrow> step s t \<Longrightarrow> reachable init step t"

text \<open>What an invariant of a transition system has to provide, and what it gives.\<close>

locale inductive_invariant =
  fixes init :: "'s \<Rightarrow> bool" and step :: "'s \<Rightarrow> 's \<Rightarrow> bool" and inv :: "'s \<Rightarrow> bool"
  assumes initially: "init s \<Longrightarrow> inv s"
    and preserved: "inv s \<Longrightarrow> step s t \<Longrightarrow> inv t"
begin

lemma holds: "reachable init step s \<Longrightarrow> inv s"
  by (induction rule: reachable.induct) (auto intro: initially preserved)

lemma holds_along: "inv s \<Longrightarrow> step\<^sup>*\<^sup>* s t \<Longrightarrow> inv t"
  by (rotate_tac, induction rule: rtranclp_induct) (auto intro: preserved)

end

lemma reachable_along: "reachable init step s \<Longrightarrow> step\<^sup>*\<^sup>* s t \<Longrightarrow> reachable init step t"
  by (rotate_tac, induction rule: rtranclp_induct) (auto intro: reachable_step)

section \<open>Decimal numbers\<close>

definition digit_char :: "nat \<Rightarrow> char" where
  "digit_char d = char_of (48 + d)"

definition is_digit :: "char \<Rightarrow> bool" where
  "is_digit c \<longleftrightarrow> 48 \<le> (of_char c :: nat) \<and> (of_char c :: nat) \<le> 57"

definition digit_val :: "char \<Rightarrow> nat" where
  "digit_val c = of_char c - 48"

fun show_nat :: "nat \<Rightarrow> string" where
  "show_nat n = (if n < 10 then [digit_char n] else show_nat (n div 10) @ [digit_char (n mod 10)])"

declare show_nat.simps [simp del]

definition show_int :: "int \<Rightarrow> string" where
  "show_int i = (if i < 0 then CHR ''-'' # show_nat (nat (- i)) else show_nat (nat i))"

definition read_nat :: "string \<Rightarrow> nat" where
  "read_nat s = foldl (\<lambda>n c. 10 * n + digit_val c) 0 s"

lemma digit_char_simps [simp]:
  assumes "d < 10"
  shows "is_digit (digit_char d)" and "digit_val (digit_char d) = d"
  using assms by (simp_all add: digit_char_def is_digit_def digit_val_def of_char_of)

lemma show_nat_nonempty [simp]: "show_nat n \<noteq> []"
  by (subst show_nat.simps) simp

lemma show_nat_digits: "\<forall>c \<in> set (show_nat n). is_digit c"
proof (induction n rule: show_nat.induct)
  case (1 n)
  then show ?case by (subst show_nat.simps) auto
qed

lemma read_nat_snoc: "read_nat (s @ [c]) = 10 * read_nat s + digit_val c"
  by (simp add: read_nat_def)

lemma read_show_nat [simp]: "read_nat (show_nat n) = n"
proof (induction n rule: show_nat.induct)
  case (1 n)
  show ?case
  proof (cases "n < 10")
    case True
    then show ?thesis by (subst show_nat.simps) (simp add: read_nat_def)
  next
    case False
    with 1 show ?thesis by (subst show_nat.simps) (simp add: read_nat_snoc)
  qed
qed

section \<open>Association lists in insertion order\<close>

text \<open>
  Python dicts keep insertion order: storing at a present key replaces the value in place,
  storing at a new key appends.
\<close>

type_synonym ('k, 'v) odict = "('k \<times> 'v) list"

fun od_set :: "'k \<Rightarrow> 'v \<Rightarrow> ('k, 'v) odict \<Rightarrow> ('k, 'v) odict" where
  "od_set k v [] = [(k, v)]"
| "od_set k v ((k', v') # m) = (if k = k' then (k, v) # m else (k', v') # od_set k v m)"

definition od_del :: "'k \<Rightarrow> ('k, 'v) odict \<Rightarrow> ('k, 'v) odict" where
  "od_del k m = filter (\<lambda>(k', _). k' \<noteq> k) m"

definition od_update :: "('k, 'v) odict \<Rightarrow> ('k, 'v) odict \<Rightarrow> ('k, 'v) odict" where
  "od_update m m' = foldl (\<lambda>acc (k, v). od_set k v acc) m m'"

definition od_keys :: "('k, 'v) odict \<Rightarrow> 'k list" where
  "od_keys m = map fst m"

lemma map_of_od_set [simp]: "map_of (od_set k v m) = (map_of m)(k \<mapsto> v)"
  by (induction k v m rule: od_set.induct) (auto simp: fun_eq_iff)

lemma map_of_od_del [simp]: "map_of (od_del k m) = (map_of m)(k := None)"
  by (induction m) (auto simp: od_del_def fun_eq_iff)

lemma set_od_keys_od_set [simp]: "set (od_keys (od_set k v m)) = insert k (set (od_keys m))"
  by (induction k v m rule: od_set.induct) (auto simp: od_keys_def)

lemma set_od_keys_od_del [simp]: "set (od_keys (od_del k m)) = set (od_keys m) - {k}"
  by (auto simp: od_keys_def od_del_def)

lemma distinct_od_set: "distinct (od_keys m) \<Longrightarrow> distinct (od_keys (od_set k v m))"
proof (induction k v m rule: od_set.induct)
  case (2 k v k' v' m)
  then show ?case using set_od_keys_od_set [of k v m] by (auto simp: od_keys_def)
qed (simp add: od_keys_def)

lemma distinct_od_del: "distinct (od_keys m) \<Longrightarrow> distinct (od_keys (od_del k m))"
  unfolding od_keys_def od_del_def by (induction m) auto

lemma od_set_absent: "k \<notin> set (od_keys m) \<Longrightarrow> od_set k v m = m @ [(k, v)]"
  by (induction k v m rule: od_set.induct) (auto simp: od_keys_def)

lemma od_keys_od_set:
  "od_keys (od_set k v m) = (if k \<in> set (od_keys m) then od_keys m else od_keys m @ [k])"
  by (induction k v m rule: od_set.induct) (auto simp: od_keys_def)

lemma od_del_absent: "k \<notin> set (od_keys m) \<Longrightarrow> od_del k m = m"
  by (induction m) (auto simp: od_keys_def od_del_def)

lemma map_of_od_update [simp]:
  "map_of (od_update m m') = (\<lambda>k. case map_of (rev m') k of None \<Rightarrow> map_of m k | Some v \<Rightarrow> Some v)"
proof (induction m' arbitrary: m)
  case (Cons p m')
  then show ?case
    by (cases p) (auto simp: od_update_def fun_eq_iff map_add_def split: option.splits)
qed (simp add: od_update_def)

lemma distinct_od_update:
  "distinct (od_keys m) \<Longrightarrow> distinct (od_keys (od_update m m'))"
proof (induction m' arbitrary: m)
  case (Cons p m')
  then show ?case by (cases p) (simp add: od_update_def distinct_od_set)
qed (simp add: od_update_def)

lemma in_od_keys_iff: "k \<in> set (od_keys m) \<longleftrightarrow> map_of m k \<noteq> None"
  by (auto simp: od_keys_def map_of_eq_None_iff)

section \<open>Prefixes of strings\<close>

definition starts_with :: "string \<Rightarrow> string \<Rightarrow> bool" where
  "starts_with s p \<longleftrightarrow> take (length p) s = p"

lemma starts_with_append [simp]: "starts_with (p @ s) p"
  by (simp add: starts_with_def)

lemma starts_withD: "starts_with s p \<Longrightarrow> s = p @ drop (length p) s"
  by (metis append_take_drop_id starts_with_def)

end
