(* ===== verification/PyValues.thy ===== *)
theory PyValues
  imports Prelude Complex_Main
begin

text \<open>
  The Python values that flow through JSON messages, their classes, \<open>isinstance\<close>, \<open>==\<close> and
  truth, the exceptions of the program as values, strict UTF-8, and the text forms
  (\<open>repr\<close> of a \<open>str\<close>, the JSON form of a \<open>str\<close>) that end up in error messages.

  \<open>Missing\<close> is the empty tuple \<open>()\<close>, which \<open>ptvsd.common.json\<close> uses for "property not
  present"; \<open>JNull\<close> is \<open>None\<close>. A float is the rational it denotes; the infinities and NaN
  are not represented.
\<close>

section \<open>Values\<close>

datatype jv =
    Missing
  | JNull
  | JBool bool
  | JInt int
  | JFloat rat
  | JStr string
  | JList "jv list"
  | JObj "(string \<times> jv) list"

datatype pyclass = ClsTuple | ClsNone | ClsBool | ClsInt | ClsFloat | ClsStr | ClsList | ClsDict

fun class_of :: "jv \<Rightarrow> pyclass" where
  "class_of Missing = ClsTuple"
| "class_of JNull = ClsNone"
| "class_of (JBool _) = ClsBool"
| "class_of (JInt _) = ClsInt"
| "class_of (JFloat _) = ClsFloat"
| "class_of (JStr _) = ClsStr"
| "class_of (JList _) = ClsList"
| "class_of (JObj _) = ClsDict"

fun class_name :: "pyclass \<Rightarrow> string" where
  "class_name ClsTuple = ''tuple''"
| "class_name ClsNone = ''NoneType''"
| "class_name ClsBool = ''bool''"
| "class_name ClsInt = ''int''"
| "class_name ClsFloat = ''float''"
| "class_name ClsStr = ''str''"
| "class_name ClsList = ''list''"
| "class_name ClsDict = ''dict''"

text \<open>The second argument of \<open>isinstance\<close>: a class, or a tuple of such arguments.\<close>

datatype classinfo = Cls pyclass | Tup "classinfo list"

text \<open>\<open>bool\<close> is a subclass of \<open>int\<close>.\<close>

definition is_subclass :: "pyclass \<Rightarrow> pyclass \<Rightarrow> bool" where
  "is_subclass c d \<longleftrightarrow> c = d \<or> c = ClsBool \<and> d = ClsInt"

fun isinstance :: "jv \<Rightarrow> classinfo \<Rightarrow> bool" where
  "isinstance v (Cls c) = is_subclass (class_of v) c"
| "isinstance v (Tup cs) = (\<exists>c \<in> set cs. isinstance v c)"

lemma isinstance_own_class [simp]: "isinstance v (Cls (class_of v))"
  by (simp add: is_subclass_def)

lemma isinstance_Tup_simps [simp]:
  "isinstance v (Tup []) = False"
  "isinstance v (Tup (c # cs)) = (isinstance v c \<or> isinstance v (Tup cs))"
  by simp_all

declare isinstance.simps(2) [simp del]

text \<open>Truth of a value: empty containers, zeros, \<open>None\<close> and \<open>()\<close> are false.\<close>

fun truthy :: "jv \<Rightarrow> bool" where
  "truthy Missing = False"
| "truthy JNull = False"
| "truthy (JBool b) = b"
| "truthy (JInt i) = (i \<noteq> 0)"
| "truthy (JFloat r) = (r \<noteq> 0)"
| "truthy (JStr s) = (s \<noteq> [])"
| "truthy (JList xs) = (xs \<noteq> [])"
| "truthy (JObj m) = (m \<noteq> [])"

text \<open>\<open>==\<close>: numbers and booleans compare by value across their classes.\<close>

fun num_of :: "jv \<Rightarrow> rat option" where
  "num_of (JBool b) = Some (if b then 1 else 0)"
| "num_of (JInt i) = Some (of_int i)"
| "num_of (JFloat r) = Some r"
| "num_of _ = None"

fun py_eq :: "jv \<Rightarrow> jv \<Rightarrow> bool"
and py_eq_list :: "jv list \<Rightarrow> jv list \<Rightarrow> bool"
and py_eq_items :: "(string \<times> jv) list \<Rightarrow> (string \<times> jv) list \<Rightarrow> bool" where
  "py_eq Missing w = (w = Missing)"
| "py_eq JNull w = (w = JNull)"
| "py_eq (JStr s) w = (w = JStr s)"
| "py_eq (JList xs) w = (case w of JList ys \<Rightarrow> py_eq_list xs ys | _ \<Rightarrow> False)"
| "py_eq (JObj m) w =
     (case w of JObj m' \<Rightarrow> length m = length m' \<and> py_eq_items m m' | _ \<Rightarrow> False)"
| "py_eq v w = (num_of w = num_of v)"
| "py_eq_list [] ys = (ys = [])"
| "py_eq_list (x # xs) ys = (case ys of [] \<Rightarrow> False | y # ys' \<Rightarrow> py_eq x y \<and> py_eq_list xs ys')"
| "py_eq_items [] m = True"
| "py_eq_items ((k, v) # m') m =
     ((case map_of m k of None \<Rightarrow> False | Some w \<Rightarrow> py_eq v w) \<and> py_eq_items m' m)"

lemma py_eq_JStr [simp]: "py_eq v (JStr s) = (v = JStr s)"
  by (cases v) auto

definition py_in :: "jv \<Rightarrow> jv list \<Rightarrow> bool" where
  "py_in v vs = list_ex (\<lambda>w. py_eq v w) vs"

lemma py_in_strings [simp]:
  "py_in v (map JStr ss) \<longleftrightarrow> (\<exists>s \<in> set ss. v = JStr s)"
  by (auto simp: py_in_def list_ex_iff)

section \<open>Exceptions\<close>

text \<open>
  The exception classes of the program. A message-handling error carries its reason, the
  identity of the \<open>Message\<close> object that is its cause, if any, and how many times it has been
  copied by \<open>propagate\<close>: the copy is another object than the original, and the program
  compares such objects by identity. \<open>NoMoreMessages\<close> and
  \<open>JsonIOError\<close> carry the identity of their stream.
\<close>

datatype hkind = MessageHandlingError | InvalidMessageError

datatype exn =
    TypeError string
  | ValueError string
  | AttributeError string
  | KeyError string
  | AssertionError string
  | RuntimeError string
  | OSError string
  | UnicodeError string
  | StopIteration
  | Handling hkind string "nat option" nat
  | NoMoreMessages nat string
  | JsonIOError nat string
  | ComponentNotAvailable string

definition is_handling :: "exn \<Rightarrow> bool" where
  "is_handling e = (case e of Handling _ _ _ _ \<Rightarrow> True | _ \<Rightarrow> False)"

text \<open>\<open>JsonIOError\<close> is the base class of \<open>NoMoreMessages\<close>.\<close>

definition is_json_io_error :: "exn \<Rightarrow> bool" where
  "is_json_io_error e = (case e of NoMoreMessages _ _ \<Rightarrow> True | JsonIOError _ _ \<Rightarrow> True | _ \<Rightarrow> False)"

section \<open>Strict UTF-8\<close>

text \<open>
  One code point off the front of a byte string, as the strict decoder reads it: overlong
  forms, surrogates and values above U+10FFFF are errors.
\<close>

definition cont :: "char \<Rightarrow> bool" where
  "cont c \<longleftrightarrow> 128 \<le> (of_char c :: nat) \<and> (of_char c :: nat) < 192"

fun utf8_next :: "bytes \<Rightarrow> (nat \<times> bytes) option" where
  "utf8_next [] = None"
| "utf8_next (a # s) =
    (let x = (of_char a :: nat) in
     if x < 128 then Some (x, s)
     else if 194 \<le> x \<and> x < 224 then
       (case s of b # s' \<Rightarrow>
          if cont b then Some ((x - 192) * 64 + (of_char b - 128), s') else None
        | _ \<Rightarrow> None)
     else if 224 \<le> x \<and> x < 240 then
       (case s of b # c # s' \<Rightarrow>
          (let n = (x - 224) * 4096 + (of_char b - 128) * 64 + (of_char c - 128) in
           if cont b \<and> cont c \<and> 2048 \<le> n \<and> \<not> (55296 \<le> n \<and> n < 57344)
           then Some (n, s') else None)
        | _ \<Rightarrow> None)
     else if 240 \<le> x \<and> x < 245 then
       (case s of b # c # d # s' \<Rightarrow>
          (let n = (x - 240) * 262144 + (of_char b - 128) * 4096 + (of_char c - 128) * 64
                   + (of_char d - 128) in
           if cont b \<and> cont c \<and> cont d \<and> 65536 \<le> n \<and> n < 1114112
           then Some (n, s') else None)
        | _ \<Rightarrow> None)
     else None)"

lemma utf8_next_shorter: "utf8_next s = Some (n, s') \<Longrightarrow> length s' < length s"
  by (cases s) (auto simp: Let_def split: if_splits list.splits)

function utf8_points :: "bytes \<Rightarrow> nat list option" where
  "utf8_points s =
     (if s = [] then Some []
      else case utf8_next s of
          None \<Rightarrow> None
        | Some (n, s') \<Rightarrow> map_option ((#) n) (utf8_points s'))"
  by pat_completeness auto
termination
  by (relation "measure length") (auto dest: utf8_next_shorter)

declare utf8_points.simps [simp del]

definition utf8_ok :: "bytes \<Rightarrow> bool" where
  "utf8_ok s \<longleftrightarrow> utf8_points s \<noteq> None"

definition ascii :: "bytes \<Rightarrow> bool" where
  "ascii s \<longleftrightarrow> (\<forall>c \<in> set s. (of_char c :: nat) < 128)"

lemma utf8_points_ascii: "ascii s \<Longrightarrow> utf8_points s = Some (map of_char s)"
proof (induction s)
  case (Cons a s)
  then show ?case by (subst utf8_points.simps) (simp add: ascii_def Let_def)
qed (simp add: utf8_points.simps)

lemma utf8_ok_ascii: "ascii s \<Longrightarrow> utf8_ok s"
  by (simp add: utf8_ok_def utf8_points_ascii)

section \<open>Text forms\<close>

definition hex_digit :: "nat \<Rightarrow> char" where
  "hex_digit d = (if d < 10 then char_of (48 + d) else char_of (87 + d))"

definition u_escape :: "nat \<Rightarrow> string" where
  "u_escape n = CHR 0x5C # CHR ''u'' #
     [hex_digit (n div 4096 mod 16), hex_digit (n div 256 mod 16),
      hex_digit (n div 16 mod 16), hex_digit (n mod 16)]"

text \<open>The escaping of one code point by the encoder of the \<open>json\<close> module (\<open>ensure_ascii\<close>).\<close>

definition json_escape :: "nat \<Rightarrow> string" where
  "json_escape n =
    (if n = 34 then [CHR 0x5C, CHR 0x22]
     else if n = 92 then [CHR 0x5C, CHR 0x5C]
     else if n = 10 then CHR 0x5C # ''n''
     else if n = 13 then CHR 0x5C # ''r''
     else if n = 9 then CHR 0x5C # ''t''
     else if n = 8 then CHR 0x5C # ''b''
     else if n = 12 then CHR 0x5C # ''f''
     else if 32 \<le> n \<and> n < 127 then [char_of n]
     else if n < 65536 then u_escape n
     else u_escape (55296 + (n - 65536) div 1024) @ u_escape (56320 + (n - 65536) mod 1024))"

definition json_quote :: "string \<Rightarrow> string" where
  "json_quote s =
     CHR 0x22 # concat (map json_escape (case utf8_points s of None \<Rightarrow> [] | Some ns \<Rightarrow> ns)) @ [CHR 0x22]"

text \<open>
  \<open>repr\<close> of a \<open>str\<close>: single quotes unless the text has a single quote and no double quote.
\<close>

definition repr_char :: "char \<Rightarrow> char \<Rightarrow> string" where
  "repr_char q c =
    (if c = q \<or> c = CHR 0x5C then [CHR 0x5C, c]
     else if c = CHR 0x0A then CHR 0x5C # ''n''
     else if c = CHR 0x0D then CHR 0x5C # ''r''
     else if c = CHR 0x09 then CHR 0x5C # ''t''
     else if (of_char c :: nat) < 32 \<or> of_char c = (127 :: nat) then
       CHR 0x5C # CHR ''x'' # [hex_digit (of_char c div 16), hex_digit (of_char c mod 16)]
     else [c])"

definition repr_str :: "string \<Rightarrow> string" where
  "repr_str s =
     (let q = (if CHR 0x27 \<in> set s \<and> CHR 0x22 \<notin> set s then CHR 0x22 else CHR 0x27)
      in q # concat (map (repr_char q) s) @ [q])"

fun join :: "string \<Rightarrow> string list \<Rightarrow> string" where
  "join sep [] = []"
| "join sep [x] = x"
| "join sep (x # xs) = x @ sep @ join sep xs"

end
