(* ===== verification/JsonValidators.thy ===== *)
theory JsonValidators
  imports PyValues
begin

text \<open>
  The property validators of \<open>ptvsd/common/json.py\<close>: \<open>of_type\<close>, \<open>default\<close>, \<open>enum\<close>, \<open>array\<close>
  and \<open>object\<close>. A validator takes the value of a property, or \<open>Missing\<close>, and returns the
  value to use or raises \<open>TypeError\<close> or \<open>ValueError\<close>.
\<close>

type_synonym validator = "jv \<Rightarrow> exn + jv"

section \<open>of_type, default, enum\<close>

fun type_names :: "classinfo list \<Rightarrow> exn + string list" where
  "type_names [] = Inr []"
| "type_names (Tup _ # cs) = Inl (AttributeError ''tuple.__name__'')"
| "type_names (Cls c # cs) = sbind (type_names cs) (\<lambda>ns. Inr (class_name c # ns))"

text \<open>
  \<open>isinstance(value, classinfo)\<close> with the tuple of the arguments. The message names
  \<open>t.__name__\<close> of every argument, which a nested tuple does not have. (\<open>assert len(classinfo)\<close>
  is checked by the source when the validator is made.)
\<close>

definition of_type :: "classinfo list \<Rightarrow> bool \<Rightarrow> validator" where
  "of_type classinfo optional value =
    (if classinfo = [] then Inl (AssertionError ''len(classinfo)'')
     else if optional \<and> value = Missing \<or> isinstance value (Tup classinfo) then Inr value
     else if \<not> optional \<and> value = Missing then Inl (ValueError ''must be specified'')
     else sbind (type_names classinfo)
            (\<lambda>ns. Inl (TypeError (''must be '' @ join '' or '' ns))))"

definition default :: "jv \<Rightarrow> validator" where
  "default dflt value =
    (if value = Missing then Inr dflt
     else if isinstance value (Cls (class_of dflt)) then Inr value
     else Inl (TypeError (''must be '' @ class_name (class_of dflt))))"

text \<open>\<open>"{0!r}".format(list(values))\<close> for the string values the program uses.\<close>

fun repr_value :: "jv \<Rightarrow> string" where
  "repr_value (JStr s) = repr_str s"
| "repr_value (JInt i) = show_int i"
| "repr_value (JBool b) = (if b then ''True'' else ''False'')"
| "repr_value JNull = ''None''"
| "repr_value Missing = ''()''"
| "repr_value _ = ''...''"

definition enum :: "jv list \<Rightarrow> bool \<Rightarrow> validator" where
  "enum vs optional value =
    (case vs of [] \<Rightarrow> Inl (AssertionError ''len(values)'')
     | v # _ \<Rightarrow>
       if optional \<and> value = Missing then Inr v
       else if py_in value vs then Inr value
       else Inl (ValueError (''must be one of: ['' @ join '', '' (map repr_value vs) @ '']'')))"

section \<open>array, object\<close>

text \<open>The \<open>size\<close> argument: \<open>None\<close>, an int, a set, \<open>(min,)\<close> or \<open>(min, max)\<close>.\<close>

datatype size_spec = AnySize | Exactly int | OneOf "int list" | AtLeast int | Between int int

text \<open>\<open>validate_size\<close>: \<open>None\<close> stands for \<open>True\<close>, \<open>Some\<close> for the message.\<close>

definition size_error :: "size_spec \<Rightarrow> int \<Rightarrow> string option" where
  "size_error sz n =
    (case sz of
       AnySize \<Rightarrow> None
     | OneOf ns \<Rightarrow>
         if n \<in> set ns then None
         else Some (''must have '' @ join '' or '' (map show_int (sort (remdups ns))) @ '' elements'')
     | AtLeast lo \<Rightarrow>
         if n < lo then Some (''must have at least '' @ show_int lo @ '' elements'') else None
     | Between lo hi \<Rightarrow>
         if n < lo then Some (''must have at least '' @ show_int lo @ '' elements'')
         else if n < hi then Some (''must have at most '' @ show_int hi @ '' elements'')
         else None
     | Exactly k \<Rightarrow>
         if n = k then None else Some (''must have '' @ show_int k @ '' elements''))"

text \<open>\<open>raise type(exc)(fmt("[{0!j}] {1}", key, exc))\<close> for \<open>TypeError\<close> and \<open>ValueError\<close>.\<close>

definition at_item :: "string \<Rightarrow> exn + jv \<Rightarrow> exn + jv" where
  "at_item key r =
    (case r of
       Inl (TypeError m) \<Rightarrow> Inl (TypeError (''['' @ key @ ''] '' @ m))
     | Inl (ValueError m) \<Rightarrow> Inl (ValueError (''['' @ key @ ''] '' @ m))
     | _ \<Rightarrow> r)"

definition array_value :: "bool \<Rightarrow> jv \<Rightarrow> jv" where
  "array_value vectorize value =
    (if value = Missing then JList []
     else if vectorize \<and> \<not> isinstance value (Tup [Cls ClsList, Cls ClsDict]) then JList [value]
     else value)"

definition array_items :: "validator \<Rightarrow> size_spec \<Rightarrow> jv list \<Rightarrow> exn + jv" where
  "array_items validate_item sz xs =
    (case size_error sz (int (length xs)) of
       Some err \<Rightarrow> Inl (ValueError err)
     | None \<Rightarrow>
         sbind (smap_idx (\<lambda>i x. at_item (show_nat i) (validate_item x)) 0 xs)
           (\<lambda>ys. Inr (JList ys)))"

definition array :: "validator \<Rightarrow> bool \<Rightarrow> size_spec \<Rightarrow> validator" where
  "array validate_item vectorize sz value =
    sbind (of_type [Cls ClsList] False (array_value vectorize value))
      (\<lambda>v. case v of JList xs \<Rightarrow> array_items validate_item sz xs | _ \<Rightarrow> Inr v)"

fun map_items :: "(string \<Rightarrow> jv \<Rightarrow> exn + jv) \<Rightarrow> (string \<times> jv) list \<Rightarrow> exn + (string \<times> jv) list" where
  "map_items f [] = Inr []"
| "map_items f ((k, v) # m) =
     sbind (f k v) (\<lambda>v'. sbind (map_items f m) (\<lambda>m'. Inr ((k, v') # m')))"

definition object :: "validator option \<Rightarrow> validator" where
  "object validate_value value =
    (if value = Missing then Inr (JObj [])
     else sbind (of_type [Cls ClsDict] False value) (\<lambda>v.
        case (validate_value, v) of
          (Some val, JObj m) \<Rightarrow>
            sbind (map_items (\<lambda>k x. at_item (json_quote k) (val x)) m) (\<lambda>m'. Inr (JObj m'))
        | _ \<Rightarrow> Inr v))"

definition any_value :: validator where
  "any_value value = Inr value"

abbreviation array_of_str :: validator where
  "array_of_str \<equiv> array (of_type [Cls ClsStr] False) False AnySize"

abbreviation nonempty_strs :: validator where
  "nonempty_strs \<equiv> array (of_type [Cls ClsStr] False) True (AtLeast 1)"


section \<open>What a validator promises\<close>

text \<open>
  The contract every validator made by the module keeps: what it returns is acceptable,
  what is acceptable is returned unchanged, and it fails only with the two exceptions that
  \<open>MessageDict.__call__\<close> turns into an invalid-message error.
\<close>

definition is_type_or_value_error :: "exn \<Rightarrow> bool" where
  "is_type_or_value_error e = (case e of TypeError _ \<Rightarrow> True | ValueError _ \<Rightarrow> True | _ \<Rightarrow> False)"

lemma is_type_or_value_error_simps [simp]:
  "is_type_or_value_error (TypeError m)" "is_type_or_value_error (ValueError m)"
  by (simp_all add: is_type_or_value_error_def)

lemma at_item_Inr [simp]: "at_item k r = Inr w \<longleftrightarrow> r = Inr w"
  by (auto simp: at_item_def split: sum.splits exn.splits)

lemma at_item_ok [simp]: "at_item k (Inr w) = Inr w"
  by (simp add: at_item_def)

lemma at_item_error:
  "at_item k r = Inl e \<Longrightarrow> \<exists>e'. r = Inl e' \<and> is_type_or_value_error e = is_type_or_value_error e'"
  by (auto simp: at_item_def split: sum.splits exn.splits)

lemma map_items_keys: "map_items f m = Inr m' \<Longrightarrow> map fst m' = map fst m"
  by (induction f m arbitrary: m' rule: map_items.induct) (auto simp: sbind_eq_Inr)

lemma map_items_all:
  "map_items f m = Inr m' \<Longrightarrow> (\<And>k v w. f k v = Inr w \<Longrightarrow> P w) \<Longrightarrow> (k, w) \<in> set m' \<Longrightarrow> P w"
  by (induction f m arbitrary: m' rule: map_items.induct) (fastforce simp: sbind_eq_Inr)+

lemma map_items_fixed:
  "(\<And>k v. (k, v) \<in> set m \<Longrightarrow> f k v = Inr v) \<Longrightarrow> map_items f m = Inr m"
  by (induction f m rule: map_items.induct) auto

lemma map_items_error:
  "map_items f m = Inl e \<Longrightarrow> \<exists>k v. (k, v) \<in> set m \<and> f k v = Inl e"
  by (induction f m rule: map_items.induct) (fastforce simp: sbind_eq_Inl)+

lemma of_type_list [simp]:
  "of_type [Cls ClsList] False v = Inr w \<longleftrightarrow> (\<exists>xs. v = JList xs \<and> w = v)"
  by (cases v) (auto simp: of_type_def is_subclass_def)

lemma of_type_dict [simp]:
  "of_type [Cls ClsDict] False v = Inr w \<longleftrightarrow> (\<exists>m. v = JObj m \<and> w = v)"
  by (cases v) (auto simp: of_type_def is_subclass_def)

lemma of_type_simple_error:
  "of_type [Cls c] False v = Inl e \<Longrightarrow> is_type_or_value_error e"
  by (auto simp: of_type_def split: if_splits)

text \<open>The lengths a \<open>size\<close> argument admits.\<close>

definition size_ok :: "size_spec \<Rightarrow> int \<Rightarrow> bool" where
  "size_ok sz n \<longleftrightarrow> size_error sz n = None"

lemma size_ok_simps [simp]:
  "size_ok AnySize n"
  "size_ok (Exactly k) n \<longleftrightarrow> n = k"
  "size_ok (OneOf ns) n \<longleftrightarrow> n \<in> set ns"
  "size_ok (AtLeast lo) n \<longleftrightarrow> lo \<le> n"
  "size_ok (Between lo hi) n \<longleftrightarrow> lo \<le> n \<and> hi \<le> n"
  by (auto simp: size_ok_def size_error_def)

locale validator_contract =
  fixes val :: "jv \<Rightarrow> exn + jv"
    and ok :: "jv \<Rightarrow> bool"
  assumes sound: "val v = Inr w \<Longrightarrow> ok w"
    and complete: "ok w \<Longrightarrow> val w = Inr w"
    and fails: "val v = Inl e \<Longrightarrow> is_type_or_value_error e"
begin

lemma idempotent: "val v = Inr w \<Longrightarrow> val w = Inr w"
  by (rule complete) (rule sound)

lemma array_items_sound:
  assumes "array_items val sz xs = Inr w"
  shows "\<exists>ys. w = JList ys \<and> size_ok sz (int (length ys)) \<and> (\<forall>y \<in> set ys. ok y)"
proof -
  from assms obtain ys
    where r: "size_ok sz (int (length xs))" "w = JList ys"
      "smap_idx (\<lambda>i x. at_item (show_nat i) (val x)) 0 xs = Inr ys"
    by (auto simp: array_items_def sbind_eq_Inr size_ok_def split: option.splits)
  have "\<forall>y \<in> set ys. ok y"
    using r(3) by (rule smap_idx_all) (auto intro: sound)
  with r show ?thesis by (auto dest: smap_idx_length)
qed

lemma array_items_complete:
  assumes "size_ok sz (int (length ys))" and "\<forall>y \<in> set ys. ok y"
  shows "array_items val sz ys = Inr (JList ys)"
proof -
  have "smap_idx (\<lambda>i x. at_item (show_nat i) (val x)) 0 ys = Inr ys"
    by (rule smap_idx_fixed) (use assms(2) in \<open>simp add: complete\<close>)
  with assms(1) show ?thesis by (simp add: array_items_def size_ok_def)
qed

lemma array_items_fails:
  assumes "array_items val sz xs = Inl e"
  shows "is_type_or_value_error e"
  using assms
  by (auto simp: array_items_def sbind_eq_Inl split: option.splits
      dest!: smap_idx_first_error at_item_error dest: fails)

lemma array_sound:
  "array val vec sz v = Inr w \<Longrightarrow>
     \<exists>ys. w = JList ys \<and> size_ok sz (int (length ys)) \<and> (\<forall>y \<in> set ys. ok y)"
  by (auto simp: array_def sbind_eq_Inr dest: array_items_sound)

lemma array_complete:
  "size_ok sz (int (length ys)) \<Longrightarrow> \<forall>y \<in> set ys. ok y \<Longrightarrow>
     array val vec sz (JList ys) = Inr (JList ys)"
  by (simp add: array_def array_value_def of_type_def is_subclass_def array_items_complete)

lemma array_fails:
  "array val vec sz v = Inl e \<Longrightarrow> is_type_or_value_error e"
  by (auto simp: array_def sbind_eq_Inl dest: of_type_simple_error array_items_fails)

lemma array_contract:
  "validator_contract (array val vec sz)
     (\<lambda>w. \<exists>ys. w = JList ys \<and> size_ok sz (int (length ys)) \<and> (\<forall>y \<in> set ys. ok y))"
  by unfold_locales (auto dest: array_sound array_fails intro: array_complete)

lemma map_items_sound:
  "map_items (\<lambda>k x. at_item (json_quote k) (val x)) m = Inr m' \<Longrightarrow> (k, w) \<in> set m' \<Longrightarrow> ok w"
  by (erule map_items_all [where P = ok]) (auto dest: sound)

lemma object_contract:
  "validator_contract (object (Some val)) (\<lambda>w. \<exists>m. w = JObj m \<and> (\<forall>(k, x) \<in> set m. ok x))"
proof
  fix v w assume "object (Some val) v = Inr w"
  then show "\<exists>m. w = JObj m \<and> (\<forall>(k, x) \<in> set m. ok x)"
    by (clarsimp simp: object_def sbind_eq_Inr split: if_splits) (metis map_items_sound)
next
  fix w assume "\<exists>m. w = JObj m \<and> (\<forall>(k, x) \<in> set m. ok x)"
  then obtain m where m: "w = JObj m" "\<forall>(k, x) \<in> set m. ok x" by blast
  have "map_items (\<lambda>k x. at_item (json_quote k) (val x)) m = Inr m"
    by (rule map_items_fixed) (use m in \<open>auto simp: complete\<close>)
  with m show "object (Some val) w = Inr w"
    by (simp add: object_def of_type_def is_subclass_def)
next
  fix v e assume "object (Some val) v = Inl e"
  then show "is_type_or_value_error e"
    by (auto simp: object_def sbind_eq_Inl dest: of_type_simple_error fails
        dest!: map_items_error at_item_error split: if_splits jv.splits)
qed

end


text \<open>Validators that only check: a value is refused or returned as it is.\<close>

locale filter_validator = validator_contract +
  assumes unchanged: "val v = Inr w \<Longrightarrow> w = v"
begin

lemma val_iff: "val v = Inr w \<longleftrightarrow> w = v \<and> ok v"
  using sound complete unchanged by blast

lemma smap_unchanged:
  "smap_idx (\<lambda>i x. at_item (show_nat i) (val x)) i xs = Inr ys \<Longrightarrow> ys = xs"
  by (induction xs arbitrary: i ys) (auto simp: val_iff split: sum.splits)

lemma array_items_unchanged: "array_items val sz xs = Inr w \<Longrightarrow> w = JList xs"
  by (auto simp: array_items_def sbind_eq_Inr dest: smap_unchanged split: option.splits)

lemma array_items_iff:
  "array_items val sz xs = Inr w \<longleftrightarrow>
     w = JList xs \<and> size_ok sz (int (length xs)) \<and> (\<forall>x \<in> set xs. ok x)"
  using array_items_unchanged [of sz xs w] array_items_sound [of sz xs w]
    array_items_complete [of sz xs] by fastforce

lemma array_iff:
  "array val vec sz v = Inr w \<longleftrightarrow>
     (\<exists>xs. array_value vec v = JList xs \<and> w = JList xs \<and>
        size_ok sz (int (length xs)) \<and> (\<forall>x \<in> set xs. ok x))"
  by (auto simp: array_def sbind_eq_Inr array_items_iff)

end

section \<open>The validators of the program\<close>

definition of_class :: "pyclass \<Rightarrow> jv \<Rightarrow> bool" where
  "of_class c v \<longleftrightarrow> is_subclass (class_of v) c"

lemma of_type_contract: "c \<noteq> ClsTuple \<Longrightarrow> filter_validator (of_type [Cls c] False) (of_class c)"
  by unfold_locales
    (auto simp: of_type_def of_class_def is_subclass_def split: if_splits)

interpretation str_val: filter_validator "of_type [Cls ClsStr] False" "of_class ClsStr"
  by (rule of_type_contract) simp

interpretation int_val: filter_validator "of_type [Cls ClsInt] False" "of_class ClsInt"
  by (rule of_type_contract) simp

interpretation strs_val: validator_contract array_of_str
  "\<lambda>w. \<exists>ys. w = JList ys \<and> size_ok AnySize (int (length ys)) \<and> (\<forall>y \<in> set ys. of_class ClsStr y)"
  by (rule str_val.array_contract)

interpretation nonempty_val: validator_contract nonempty_strs
  "\<lambda>w. \<exists>ys. w = JList ys \<and> size_ok (AtLeast 1) (int (length ys)) \<and> (\<forall>y \<in> set ys. of_class ClsStr y)"
  by (rule str_val.array_contract)

interpretation str_dict_val: validator_contract "object (Some (of_type [Cls ClsStr] False))"
  "\<lambda>w. \<exists>m. w = JObj m \<and> (\<forall>(k, x) \<in> set m. of_class ClsStr x)"
  by (rule str_val.object_contract)

interpretation bool_default: validator_contract "default (JBool b)" "of_class ClsBool" for b
  by unfold_locales
    (auto simp: default_def of_class_def is_subclass_def split: if_splits)

lemma of_class_str [simp]: "of_class ClsStr v \<longleftrightarrow> (\<exists>s. v = JStr s)"
  by (cases v) (auto simp: of_class_def is_subclass_def)

lemma of_class_bool [simp]: "of_class ClsBool v \<longleftrightarrow> (\<exists>b. v = JBool b)"
  by (cases v) (auto simp: of_class_def is_subclass_def)

lemma of_class_int [simp]: "of_class ClsInt v \<longleftrightarrow> (\<exists>b. v = JBool b) \<or> (\<exists>i. v = JInt i)"
  by (cases v) (auto simp: of_class_def is_subclass_def)

lemma strs_list: "(\<forall>y \<in> set ys. \<exists>s. y = JStr s) \<longleftrightarrow> (\<exists>ss. ys = map JStr ss)"
  by (induction ys) (auto simp: Cons_eq_map_conv)

lemma nonempty_strs_cases:
  "nonempty_strs v = Inr w \<longleftrightarrow>
     (\<exists>ss. ss \<noteq> [] \<and> w = JList (map JStr ss) \<and> (v = w \<or> (\<exists>s. v = JStr s \<and> ss = [s])))"
proof -
  have "nonempty_strs v = Inr w \<longleftrightarrow>
      (\<exists>ss. array_value True v = JList (map JStr ss) \<and> w = JList (map JStr ss) \<and> ss \<noteq> [])"
    unfolding str_val.array_iff by (auto simp: strs_list Suc_le_eq)
  also have "\<dots> \<longleftrightarrow>
      (\<exists>ss. ss \<noteq> [] \<and> w = JList (map JStr ss) \<and> (v = w \<or> (\<exists>s. v = JStr s \<and> ss = [s])))"
    by (cases v) (auto simp: array_value_def is_subclass_def map_eq_Cons_conv Cons_eq_map_conv)
  finally show ?thesis .
qed

lemma array_of_str_iff:
  "array_of_str v = Inr w \<longleftrightarrow> (\<exists>ss. w = JList (map JStr ss) \<and> (v = w \<or> v = Missing \<and> ss = []))"
proof -
  have "array_of_str v = Inr w \<longleftrightarrow>
      (\<exists>ss. array_value False v = JList (map JStr ss) \<and> w = JList (map JStr ss))"
    unfolding str_val.array_iff by (auto simp: strs_list)
  then show ?thesis by (cases v) (auto simp: array_value_def)
qed

section \<open>Properties\<close>

text \<open>
  A non-empty string array (\<open>json.array(unicode, vectorize=True, size=(1,))\<close>, used for
  "program", "module", "code" and "python") accepts exactly a non-empty list of strings,
  unchanged, and a single string, as the one-element list; a missing property is refused.
\<close>
theorem nonempty_strs_iff:
  "nonempty_strs v = Inr w \<longleftrightarrow>
     (\<exists>ss. ss \<noteq> [] \<and> w = JList (map JStr ss) \<and> (v = w \<or> (\<exists>s. v = JStr s \<and> ss = [s])))"
  by (rule nonempty_strs_cases)

text \<open>
  A two-element \<open>size\<close> is documented as the minimum and the maximum length. The check of
  the maximum is written with \<open><\<close>, so that the validator accepts exactly the arrays at least
  as long as both numbers, and refuses an array that is within the documented bounds.
\<close>
lemma array_size_pair_iff:
  "array (of_type [Cls ClsStr] False) vec (Between lo hi) (JList (map JStr ss)) = Inr w \<longleftrightarrow>
     w = JList (map JStr ss) \<and> max lo hi \<le> int (length ss)"
  by (auto simp: str_val.array_iff array_value_def is_subclass_def)

text \<open>
  A validator over strings, as a list item or as an object value, only fails with
  \<open>TypeError\<close> or \<open>ValueError\<close>: the two exceptions that \<open>MessageDict.__call__\<close> turns into an
  invalid-message error. An object validated twice is not changed by the second pass.
\<close>
theorem object_of_str_contract:
  "case object (Some (of_type [Cls ClsStr] False)) v of
     Inl e \<Rightarrow> is_type_or_value_error e
   | Inr w \<Rightarrow> (\<exists>m. w = JObj (map (\<lambda>(k, s). (k, JStr s)) m))
       \<and> object (Some (of_type [Cls ClsStr] False)) w = Inr w"
proof -
  have strs: "\<exists>m'. m = map (\<lambda>(k, s). (k, JStr s)) m'"
    if "\<forall>(k, x) \<in> set m. of_class ClsStr x" for m :: "(string \<times> jv) list"
    using that
  proof (induction m)
    case (Cons p m)
    then obtain k s m' where "p = (k, JStr s)" "m = map (\<lambda>(k, s). (k, JStr s)) m'" by auto
    then show ?case by (intro exI [of _ "(k, s) # m'"]) simp
  qed simp
  show ?thesis
    using strs
    by (auto dest: str_dict_val.fails str_dict_val.sound str_dict_val.idempotent split: sum.splits)
qed

text \<open>
  \<open>of_type\<close> with one tuple of classes, the form \<open>MessageDict.__call__\<close> uses for
  \<open>request("processId", (int, unicode), optional=True)\<close>, refuses a value of another class with
  \<open>AttributeError\<close> and not with \<open>TypeError\<close>: the message names \<open>__name__\<close> of the tuple.
\<close>
lemma of_type_tuple_error:
  "of_type [Tup [Cls ClsInt, Cls ClsStr]] True v =
     (if v = Missing \<or> (\<exists>b. v = JBool b) \<or> (\<exists>i. v = JInt i) \<or> (\<exists>s. v = JStr s) then Inr v
      else Inl (AttributeError ''tuple.__name__''))"
  by (cases v) (auto simp: of_type_def is_subclass_def)

end
