(* ===== verification/JsonStream.thy ===== *)
theory JsonStream
  imports PyValues
begin

text \<open>
  \<open>JsonIOStream\<close> of \<open>ptvsd/common/messaging.py\<close>: the framing of JSON values on two byte
  streams (\<open>_read_line\<close>, \<open>read_json\<close>, \<open>write_json\<close>, \<open>close\<close>). The reader and the writer are
  the objects given to the constructor: the definitions take their methods as arguments, as
  the class does, and the locales \<open>byte_reader\<close> and \<open>byte_writer\<close> state what it expects of
  them. A loop that may not end is a \<open>partial_function\<close>: \<open>None\<close> is "never returns".
\<close>

section \<open>Integers in headers\<close>

text \<open>\<open>int(b)\<close> of a \<open>bytes\<close> object: blanks around it, a sign, single underscores between digits.\<close>

definition is_blank :: "char \<Rightarrow> bool" where
  "is_blank c \<longleftrightarrow> c \<in> {CHR '' '', CHR 0x09, CHR 0x0A, CHR 0x0B, CHR 0x0C, CHR 0x0D}"

definition strip :: "string \<Rightarrow> string" where
  "strip s = rev (dropWhile is_blank (rev (dropWhile is_blank s)))"

fun int_body_ok :: "bool \<Rightarrow> string \<Rightarrow> bool" where
  "int_body_ok after_digit [] = after_digit"
| "int_body_ok after_digit (c # s) =
     (if is_digit c then int_body_ok True s
      else c = CHR ''_'' \<and> after_digit \<and> int_body_ok False s)"

definition parse_int :: "string \<Rightarrow> int option" where
  "parse_int s =
    (let t = strip s;
         neg = (case t of c # _ \<Rightarrow> c = CHR ''-'' | [] \<Rightarrow> False);
         u = (case t of c # t' \<Rightarrow> if c = CHR ''-'' \<or> c = CHR ''+'' then t' else t | [] \<Rightarrow> t);
         n = int (read_nat (filter is_digit u))
     in if int_body_ok False u then Some (if neg then - n else n) else None)"

lemma digit_not_blank: "is_digit c \<Longrightarrow> \<not> is_blank c"
  by (auto simp: is_digit_def is_blank_def)

lemma strip_no_blank: "\<forall>c \<in> set s. \<not> is_blank c \<Longrightarrow> strip s = s"
proof -
  assume a: "\<forall>c \<in> set s. \<not> is_blank c"
  have "dropWhile is_blank t = t" if "\<forall>c \<in> set t. \<not> is_blank c" for t
    using that by (cases t) auto
  from this [of s] this [of "rev s"] a show ?thesis by (simp add: strip_def)
qed

lemma int_body_ok_digits: "s \<noteq> [] \<Longrightarrow> \<forall>c \<in> set s. is_digit c \<Longrightarrow> int_body_ok b s"
proof (induction s arbitrary: b)
  case (Cons c s)
  then show ?case by (cases s) auto
qed simp

lemma strip_space: "strip (CHR '' '' # s) = strip s"
  by (simp add: strip_def is_blank_def)

lemma parse_int_space: "parse_int (CHR '' '' # s) = parse_int s"
  by (simp add: parse_int_def strip_space)

lemma parse_int_show_nat [simp]: "parse_int (show_nat n) = Some (int n)"
proof -
  let ?s = "show_nat n"
  have d: "\<forall>c \<in> set ?s. is_digit c" by (rule show_nat_digits)
  then have st: "strip ?s = ?s" by (intro strip_no_blank) (auto dest: digit_not_blank)
  obtain c s where cs: "?s = c # s" by (cases ?s) auto
  with d have c: "c \<noteq> CHR ''-''" "c \<noteq> CHR ''+''" by (auto simp: is_digit_def)
  have f: "filter is_digit ?s = ?s" using d by (simp add: filter_id_conv)
  have i: "int_body_ok False ?s" by (rule int_body_ok_digits) (use d in auto)
  have "(case ?s of c # _ \<Rightarrow> c = CHR ''-'' | [] \<Rightarrow> False) = False"
    and "(case ?s of c # t' \<Rightarrow> if c = CHR ''-'' \<or> c = CHR ''+'' then t' else ?s | [] \<Rightarrow> ?s) = ?s"
    using c by (simp_all add: cs)
  then show ?thesis by (simp only: parse_int_def st Let_def f i read_show_nat if_True if_False)
qed

section \<open>Reading\<close>

abbreviation LF :: char where "LF \<equiv> CHR 0x0A"
abbreviation CR :: char where "CR \<equiv> CHR 0x0D"
abbreviation CRLF :: bytes where "CRLF \<equiv> [CR, LF]"

fun exn_str :: "exn \<Rightarrow> string" where
  "exn_str (TypeError m) = m"
| "exn_str (ValueError m) = m"
| "exn_str (AttributeError m) = m"
| "exn_str (KeyError m) = m"
| "exn_str (AssertionError m) = m"
| "exn_str (RuntimeError m) = m"
| "exn_str (OSError m) = m"
| "exn_str (UnicodeError m) = m"
| "exn_str StopIteration = ''''"
| "exn_str (Handling MessageHandlingError m _ _) = m"
| "exn_str (Handling InvalidMessageError m _ _) = ''Invalid message: '' @ m"
| "exn_str (NoMoreMessages _ m) = m"
| "exn_str (JsonIOError _ m) = m"
| "exn_str (ComponentNotAvailable m) = m @ '' is not available''"

definition no_more_messages :: string where
  "no_more_messages = ''No more messages''"

definition ends_crlf :: "bytes \<Rightarrow> bool" where
  "ends_crlf s \<longleftrightarrow> (\<exists>t. s = t @ CRLF)"

lemma ends_crlf_append [simp]: "ends_crlf (t @ CRLF)"
  by (simp add: ends_crlf_def)

lemma ends_crlf_code [code]:
  "ends_crlf s \<longleftrightarrow> (case rev s of b # a # _ \<Rightarrow> a = CR \<and> b = LF | _ \<Rightarrow> False)"
proof (cases s rule: rev_cases)
  case (snoc t b)
  then show ?thesis
    by (cases t rule: rev_cases) (auto simp: ends_crlf_def)
qed (simp add: ends_crlf_def)

partial_function (option) read_line ::
  "('r \<Rightarrow> (exn + bytes) \<times> 'r) \<Rightarrow> nat \<Rightarrow> bytes \<Rightarrow> 'r \<Rightarrow> ((exn + bytes) \<times> 'r) option" where
  "read_line readline sid line r =
    (case readline r of
       (Inl e, r') \<Rightarrow> Some (Inl (NoMoreMessages sid (exn_str e)), r')
     | (Inr c, r') \<Rightarrow>
         if line @ c = [] then Some (Inl (NoMoreMessages sid no_more_messages), r')
         else if ends_crlf (line @ c) then Some (Inr (butlast (butlast (line @ c))), r')
         else read_line readline sid (line @ c) r')"

definition header_key :: "bytes \<Rightarrow> bytes" where
  "header_key line = takeWhile (\<lambda>c. c \<noteq> CHR '':'') line"

definition header_value :: "bytes \<Rightarrow> bytes" where
  "header_value line = drop 1 (dropWhile (\<lambda>c. c \<noteq> CHR '':'') line)"

partial_function (option) read_headers ::
  "('r \<Rightarrow> (exn + bytes) \<times> 'r) \<Rightarrow> nat \<Rightarrow> (bytes \<rightharpoonup> bytes) \<Rightarrow> 'r
     \<Rightarrow> ((exn + (bytes \<rightharpoonup> bytes)) \<times> 'r) option" where
  "read_headers readline sid headers r =
    (case read_line readline sid [] r of
       None \<Rightarrow> None
     | Some (Inl e, r') \<Rightarrow> Some (Inl e, r')
     | Some (Inr line, r') \<Rightarrow>
         if line = [] then Some (Inr headers, r')
         else read_headers readline sid (headers(header_key line \<mapsto> header_value line)) r')"

definition max_body_size :: nat where
  "max_body_size = 0xFFFFFF"

definition bad_length :: exn where
  "bad_length = OSError ''Content-Length is missing or invalid:''"

definition content_length :: "(bytes \<rightharpoonup> bytes) \<Rightarrow> exn + nat" where
  "content_length headers =
    (case headers ''Content-Length'' of
       None \<Rightarrow> Inl bad_length
     | Some v \<Rightarrow>
         (case parse_int v of
            None \<Rightarrow> Inl bad_length
          | Some n \<Rightarrow>
              if 0 \<le> n \<and> n \<le> int max_body_size then Inr (nat n) else Inl bad_length))"

function read_body ::
  "(nat \<Rightarrow> 'r \<Rightarrow> (exn + bytes) \<times> 'r) \<Rightarrow> nat \<Rightarrow> nat \<Rightarrow> 'r \<Rightarrow> (exn + bytes) \<times> 'r" where
  "read_body read sid body_remaining r =
    (if body_remaining = 0 then (Inr [], r)
     else case read body_remaining r of
         (Inl e, r') \<Rightarrow> (Inl (NoMoreMessages sid (exn_str e)), r')
       | (Inr chunk, r') \<Rightarrow>
           if chunk = [] then (Inl (NoMoreMessages sid ''''), r')
           else if body_remaining < length chunk
           then (Inl (AssertionError ''body_remaining == 0''), r')
           else (case read_body read sid (body_remaining - length chunk) r' of
                   (Inl e, r'') \<Rightarrow> (Inl e, r'')
                 | (Inr rest, r'') \<Rightarrow> (Inr (chunk @ rest), r'')))"
  by pat_completeness auto
termination
  by (relation "measure (\<lambda>(_, _, n, _). n)") auto

declare read_body.simps [simp del]

definition read_json ::
  "('r \<Rightarrow> (exn + bytes) \<times> 'r) \<Rightarrow> (nat \<Rightarrow> 'r \<Rightarrow> (exn + bytes) \<times> 'r) \<Rightarrow> (bytes \<Rightarrow> exn + 'v)
     \<Rightarrow> nat \<Rightarrow> 'r \<Rightarrow> ((exn + 'v) \<times> 'r) option" where
  "read_json readline read decode sid r =
    (case read_headers readline sid Map.empty r of
       None \<Rightarrow> None
     | Some (Inl e, r') \<Rightarrow> Some (Inl e, r')
     | Some (Inr headers, r') \<Rightarrow>
         (case content_length headers of
            Inl e \<Rightarrow> Some (Inl e, r')
          | Inr len \<Rightarrow>
              (case read_body read sid len r' of
                 (Inl e, r'') \<Rightarrow> Some (Inl e, r'')
               | (Inr body, r'') \<Rightarrow>
                   Some (if utf8_ok body then decode body else Inl (UnicodeError ''utf-8''), r''))))"


section \<open>What the stream expects of a reader\<close>

text \<open>The bytes before the first CRLF, and those after it.\<close>

fun split_crlf :: "bytes \<Rightarrow> (bytes \<times> bytes) option" where
  "split_crlf (a # b # s) =
     (if a = CR \<and> b = LF then Some ([], s)
      else map_option (\<lambda>(l, t). (a # l, t)) (split_crlf (b # s)))"
| "split_crlf _ = None"

lemma split_crlf_Some:
  "split_crlf s = Some (l, t) \<Longrightarrow> s = l @ CRLF @ t"
  by (induction s arbitrary: l rule: split_crlf.induct) (auto split: if_splits)

lemma split_crlf_append: "split_crlf s = Some (l, t) \<Longrightarrow> split_crlf (s @ u) = Some (l, t @ u)"
  by (induction s arbitrary: l rule: split_crlf.induct) (auto split: if_splits)

lemma split_crlf_None_prefix: "split_crlf (s @ u) = None \<Longrightarrow> split_crlf s = None"
  by (cases "split_crlf s") (auto dest: split_crlf_append [where u = u])

lemma split_crlf_snoc: "split_crlf s = None \<Longrightarrow> split_crlf (s @ CRLF @ t) = Some (s, t)"
  by (induction s rule: split_crlf.induct) (auto split: if_splits)

lemma not_ends_crlf: "split_crlf s = None \<Longrightarrow> \<not> ends_crlf s"
proof
  assume n: "split_crlf s = None" and "ends_crlf s"
  then obtain t where t: "s = t @ CRLF" by (auto simp: ends_crlf_def)
  with n have "split_crlf t = None" using split_crlf_None_prefix by blast
  from split_crlf_snoc [OF this, of "[]"] n t show False by simp
qed

lemma no_crlf_no_LF: "LF \<notin> set l \<Longrightarrow> split_crlf l = None"
  by (induction l rule: split_crlf.induct) (auto split: if_splits)

locale byte_reader =
  fixes readline :: "'r \<Rightarrow> (exn + bytes) \<times> 'r"
    and read :: "nat \<Rightarrow> 'r \<Rightarrow> (exn + bytes) \<times> 'r"
    and rest :: "'r \<Rightarrow> bytes"
  assumes readline_line:
      "rest r = l @ LF # t \<Longrightarrow> LF \<notin> set l \<Longrightarrow>
         \<exists>r'. readline r = (Inr (l @ [LF]), r') \<and> rest r' = t"
    and read_some:
      "rest r \<noteq> [] \<Longrightarrow> 0 < n \<Longrightarrow>
         \<exists>c r'. read n r = (Inr c, r') \<and> c \<noteq> [] \<and> length c \<le> n \<and> rest r = c @ rest r'"
begin

lemma read_line_found:
  assumes "rest r = l @ CRLF @ t" and "split_crlf (line @ l) = None"
  shows "\<exists>r'. read_line readline sid line r = Some (Inr (line @ l), r') \<and> rest r' = t"
  using assms
proof (induction "length l" arbitrary: line l r rule: less_induct)
  case less
  show ?case
  proof (cases "LF \<in> set l")
    case False
    then have "LF \<notin> set (l @ [CR])" by simp
    then obtain r' where r': "readline r = (Inr (l @ CRLF), r')" "rest r' = t"
      using readline_line [of r "l @ [CR]" t] less.prems(1) by auto
    with ends_crlf_append [of "line @ l"] show ?thesis
      by (subst read_line.simps) (simp add: butlast_append)
  next
    case True
    then obtain l1 l2 where l: "l = l1 @ LF # l2" "LF \<notin> set l1"
      using split_list_first by metis
    then obtain r' where r': "readline r = (Inr (l1 @ [LF]), r')" "rest r' = l2 @ CRLF @ t"
      using readline_line [of r l1 "l2 @ CRLF @ t"] less.prems(1) by auto
    have "split_crlf (line @ l1 @ [LF]) = None"
      using split_crlf_None_prefix [of "line @ l1 @ [LF]" l2] less.prems(2) l by simp
    then have "\<not> ends_crlf (line @ l1 @ [LF])" by (rule not_ends_crlf)
    moreover obtain r'' where "read_line readline sid (line @ l1 @ [LF]) r' = Some (Inr (line @ l), r'')"
      "rest r'' = t"
      using less.hyps [of l2 r' "line @ l1 @ [LF]"] less.prems(2) l r' by auto
    ultimately show ?thesis using r' by (subst read_line.simps) simp
  qed
qed

lemma read_line_split:
  assumes "split_crlf (rest r) = Some (l, t)"
  shows "\<exists>r'. read_line readline sid [] r = Some (Inr l, r') \<and> rest r' = t"
proof -
  have "rest r = l @ CRLF @ t" using assms by (rule split_crlf_Some)
  moreover have "split_crlf l = None"
  proof (rule ccontr)
    assume "split_crlf l \<noteq> None"
    then obtain l1 t1 where s: "split_crlf l = Some (l1, t1)" by auto
    from split_crlf_append [OF this, of "CRLF @ t"] assms calculation
    have "l = l1" by simp
    with split_crlf_Some [OF s] show False by simp
  qed
  ultimately show ?thesis using read_line_found [of r l t "[]"] by simp
qed

lemma read_body_exact:
  assumes "rest r = b @ t" and "length b = n"
  shows "\<exists>r'. read_body read sid n r = (Inr b, r') \<and> rest r' = t"
  using assms
proof (induction n arbitrary: b r rule: less_induct)
  case (less n)
  show ?case
  proof (cases "n = 0")
    case True
    with less.prems show ?thesis by (simp add: read_body.simps)
  next
    case False
    with less.prems have "rest r \<noteq> []" by auto
    then obtain c r' where c: "read n r = (Inr c, r')" "c \<noteq> []" "length c \<le> n" "rest r = c @ rest r'"
      using read_some False by blast
    then obtain b' where b': "b = c @ b'" "rest r' = b' @ t"
      using less.prems by (metis append_eq_append_conv_if append_eq_conv_conj)
    have "length b' = n - length c" and "n - length c < n"
      using b' less.prems c False by auto
    then obtain r'' where "read_body read sid (n - length c) r' = (Inr b', r'')" "rest r'' = t"
      using less.IH b'(2) by blast
    with c b' False show ?thesis by (subst read_body.simps) simp
  qed
qed

lemma read_headers_one:
  assumes "rest r = l @ CRLF @ CRLF @ t" and "LF \<notin> set l" and "l \<noteq> []"
  shows "\<exists>r'. read_headers readline sid m r = Some (Inr (m(header_key l \<mapsto> header_value l)), r')
           \<and> rest r' = t"
proof -
  have "split_crlf (rest r) = Some (l, CRLF @ t)"
    using split_crlf_snoc [OF no_crlf_no_LF [OF assms(2)], of "CRLF @ t"] assms(1) by simp
  then obtain r1 where r1: "read_line readline sid [] r = Some (Inr l, r1)" "rest r1 = CRLF @ t"
    using read_line_split by blast
  have "split_crlf (rest r1) = Some ([], t)" by (simp add: r1)
  then obtain r2 where r2: "read_line readline sid [] r1 = Some (Inr [], r2)" "rest r2 = t"
    using read_line_split by blast
  have "read_headers readline sid (m(header_key l \<mapsto> header_value l)) r1
          = Some (Inr (m(header_key l \<mapsto> header_value l)), r2)"
    by (subst read_headers.simps) (simp add: r2)
  with r1 r2 assms(3) show ?thesis by (subst read_headers.simps) simp
qed

end

section \<open>Frames\<close>

definition header_name :: bytes where
  "header_name = ''Content-Length''"

definition header :: "nat \<Rightarrow> bytes" where
  "header n = header_name @ '': '' @ show_nat n @ CRLF @ CRLF"

definition frame :: "bytes \<Rightarrow> bytes" where
  "frame body = header (length body) @ body"

lemma header_line_facts:
  defines "l n \<equiv> header_name @ '': '' @ show_nat n"
  shows "LF \<notin> set (l n)" and "header_key (l n) = header_name"
    and "header_value (l n) = CHR '' '' # show_nat n"
proof -
  have "LF \<notin> set (show_nat n)" using show_nat_digits [of n] by (auto simp: is_digit_def)
  then show "LF \<notin> set (l n)" by (simp add: l_def header_name_def)
qed (simp_all add: l_def header_name_def header_key_def header_value_def)

lemma content_length_show:
  "content_length (m(header_name \<mapsto> CHR '' '' # show_nat n)) =
     (if n \<le> max_body_size then Inr n else Inl bad_length)"
  by (simp add: content_length_def header_name_def parse_int_space)

context byte_reader begin

lemma read_headers_frame:
  assumes "rest r = header n @ t"
  shows "\<exists>r'. read_headers readline sid Map.empty r
           = Some (Inr [header_name \<mapsto> CHR '' '' # show_nat n], r') \<and> rest r' = t"
  using read_headers_one [of r "header_name @ '': '' @ show_nat n" t sid Map.empty]
    header_line_facts [of n] assms
  by (simp add: header_def header_name_def)

lemma read_json_frame:
  assumes "rest r = frame b @ t" and "length b \<le> max_body_size"
  shows "\<exists>r'. read_json readline read decode sid r =
           Some (if utf8_ok b then decode b else Inl (UnicodeError ''utf-8''), r') \<and> rest r' = t"
proof -
  obtain r1 where r1: "read_headers readline sid Map.empty r
      = Some (Inr [header_name \<mapsto> CHR '' '' # show_nat (length b)], r1)" "rest r1 = b @ t"
    using read_headers_frame [of r "length b" "b @ t"] assms(1) by (auto simp: frame_def)
  obtain r2 where r2: "read_body read sid (length b) r1 = (Inr b, r2)" "rest r2 = t"
    using read_body_exact [OF r1(2)] by blast
  show ?thesis using r1 r2 assms(2) by (simp add: read_json_def content_length_show)
qed

lemma read_json_too_long:
  assumes "rest r = frame b @ t" and "max_body_size < length b"
  shows "\<exists>r'. read_json readline read decode sid r = Some (Inl bad_length, r') \<and> rest r' = b @ t"
proof -
  obtain r1 where "read_headers readline sid Map.empty r
      = Some (Inr [header_name \<mapsto> CHR '' '' # show_nat (length b)], r1)" "rest r1 = b @ t"
    using read_headers_frame [of r "length b" "b @ t"] assms(1) by (auto simp: frame_def)
  with assms(2) show ?thesis by (simp add: read_json_def content_length_show)
qed

end

section \<open>Readers\<close>

text \<open>
  The unbuffered file of a socket (\<open>sock.makefile("rwb", 0)\<close>): the bytes still to come, how
  many of them each \<open>read\<close> delivers (at least one; everything asked for once the list is
  used up), and what happens after the last byte: end of file, or an error.
\<close>

record reader =
  rd_data :: bytes
  rd_sched :: "nat list"
  rd_fail :: "string option"

definition rd_at_end :: "reader \<Rightarrow> (exn + bytes) \<times> reader" where
  "rd_at_end r = (case rd_fail r of None \<Rightarrow> (Inr [], r) | Some e \<Rightarrow> (Inl (OSError e), r))"

definition sock_readline :: "reader \<Rightarrow> (exn + bytes) \<times> reader" where
  "sock_readline r =
    (case dropWhile (\<lambda>c. c \<noteq> LF) (rd_data r) of
       _ # t \<Rightarrow> (Inr (takeWhile (\<lambda>c. c \<noteq> LF) (rd_data r) @ [LF]), r\<lparr>rd_data := t\<rparr>)
     | [] \<Rightarrow>
         if rd_data r = [] \<or> rd_fail r \<noteq> None then rd_at_end (r\<lparr>rd_data := []\<rparr>)
         else (Inr (rd_data r), r\<lparr>rd_data := []\<rparr>))"

definition sock_read :: "nat \<Rightarrow> reader \<Rightarrow> (exn + bytes) \<times> reader" where
  "sock_read n r =
    (if rd_data r = [] then rd_at_end r
     else let k = (case rd_sched r of [] \<Rightarrow> n | m # _ \<Rightarrow> min n (max 1 m))
          in (Inr (take k (rd_data r)),
              r\<lparr>rd_data := drop k (rd_data r), rd_sched := tl (rd_sched r)\<rparr>))"

text \<open>An in-memory reader (\<open>io.BytesIO\<close>): every read gets all it asks for.\<close>

definition mem_readline :: "bytes \<Rightarrow> (exn + bytes) \<times> bytes" where
  "mem_readline s =
    (case dropWhile (\<lambda>c. c \<noteq> LF) s of
       _ # t \<Rightarrow> (Inr (takeWhile (\<lambda>c. c \<noteq> LF) s @ [LF]), t)
     | [] \<Rightarrow> (Inr s, []))"

definition mem_read :: "nat \<Rightarrow> bytes \<Rightarrow> (exn + bytes) \<times> bytes" where
  "mem_read n s = (Inr (take n s), drop n s)"

lemma takeWhile_LF: "LF \<notin> set l \<Longrightarrow> takeWhile (\<lambda>c. c \<noteq> LF) (l @ LF # t) = l"
  and dropWhile_LF: "LF \<notin> set l \<Longrightarrow> dropWhile (\<lambda>c. c \<noteq> LF) (l @ LF # t) = LF # t"
  by (induction l) auto

interpretation sock: byte_reader sock_readline sock_read rd_data
proof
  fix r :: reader and l t assume "rd_data r = l @ LF # t" and "LF \<notin> set l"
  then show "\<exists>r'. sock_readline r = (Inr (l @ [LF]), r') \<and> rd_data r' = t"
    by (simp add: sock_readline_def takeWhile_LF dropWhile_LF)
next
  fix r :: reader and n :: nat assume "rd_data r \<noteq> []" and "0 < n"
  then show "\<exists>c r'. sock_read n r = (Inr c, r') \<and> c \<noteq> [] \<and> length c \<le> n \<and> rd_data r = c @ rd_data r'"
    by (auto simp: sock_read_def Let_def split: list.splits)
qed

interpretation mem: byte_reader mem_readline mem_read "\<lambda>s. s"
proof
  fix r l t :: bytes assume "r = l @ LF # t" and "LF \<notin> set l"
  then show "\<exists>r'. mem_readline r = (Inr (l @ [LF]), r') \<and> r' = t"
    by (simp add: mem_readline_def takeWhile_LF dropWhile_LF)
next
  fix r :: bytes and n :: nat assume "r \<noteq> []" and "0 < n"
  then show "\<exists>c r'. mem_read n r = (Inr c, r') \<and> c \<noteq> [] \<and> length c \<le> n \<and> r = c @ r'"
    by (auto simp: mem_read_def)
qed

section \<open>Writing\<close>

partial_function (option) write_all ::
  "(bytes \<Rightarrow> 'w \<Rightarrow> (exn + nat option) \<times> 'w) \<Rightarrow> bytes \<Rightarrow> 'w \<Rightarrow> ((exn + unit) \<times> 'w) option" where
  "write_all write data w =
    (if data = [] then Some (Inr (), w)
     else case write data w of
         (Inl e, w') \<Rightarrow> Some (Inl e, w')
       | (Inr None, w') \<Rightarrow> Some (Inr (), w')
       | (Inr (Some written), w') \<Rightarrow> write_all write (drop written data) w')"

definition write_json ::
  "(bytes \<Rightarrow> 'w \<Rightarrow> (exn + nat option) \<times> 'w) \<Rightarrow> ('w \<Rightarrow> (exn + unit) \<times> 'w) \<Rightarrow> ('v \<Rightarrow> exn + bytes)
     \<Rightarrow> nat \<Rightarrow> bool \<Rightarrow> 'v \<Rightarrow> 'w \<Rightarrow> ((exn + unit) \<times> 'w) option" where
  "write_json write flush encode sid is_closed value w =
    (if is_closed then Some (Inl (NoMoreMessages sid no_more_messages), w)
     else case encode value of
         Inl e \<Rightarrow> Some (Inl e, w)
       | Inr body \<Rightarrow>
           (case write_all write (header (length body) @ body) w of
              None \<Rightarrow> None
            | Some (Inl e, w') \<Rightarrow> Some (Inl (JsonIOError sid (exn_str e)), w')
            | Some (Inr _, w') \<Rightarrow>
                (case flush w' of
                   (Inl e, w'') \<Rightarrow> Some (Inl (JsonIOError sid (exn_str e)), w'')
                 | (Inr _, w'') \<Rightarrow> Some (Inr (), w''))))"

text \<open>
  What the stream expects of a writer: a \<open>write\<close> takes a prefix of what it is given and
  reports its length (or \<open>None\<close>, for all of it); one that raises has taken nothing.
\<close>

locale byte_writer =
  fixes put :: "bytes \<Rightarrow> 'w \<Rightarrow> (exn + nat option) \<times> 'w"
    and flush :: "'w \<Rightarrow> (exn + unit) \<times> 'w"
    and out :: "'w \<Rightarrow> bytes"
  assumes write_takes: "put d w = (Inr (Some k), w') \<Longrightarrow> k \<le> length d \<and> out w' = out w @ take k d"
    and write_full: "put d w = (Inr None, w') \<Longrightarrow> out w' = out w @ d"
    and write_raises: "put d w = (Inl e, w') \<Longrightarrow> out w' = out w"
    and flush_out: "flush w = (x, w') \<Longrightarrow> out w' = out w"
begin

lemma write_all_prefix:
  assumes "write_all put d w = Some (x, w')"
  shows "\<exists>p q. d = p @ q \<and> out w' = out w @ p \<and> (\<forall>u. x = Inr u \<longrightarrow> q = [])"
proof -
  define Q where "Q wr d w y \<longleftrightarrow> wr = put \<longrightarrow>
      (\<exists>p q. d = p @ q \<and> out (snd y) = out w @ p \<and> (\<forall>u. fst y = Inr u \<longrightarrow> q = []))"
    for wr :: "bytes \<Rightarrow> 'w \<Rightarrow> (exn + nat option) \<times> 'w" and d w and y :: "(exn + unit) \<times> 'w"
  have "Q put d w (x, w')"
  proof (rule write_all.raw_induct [where P = Q, OF _ assms])
    fix f :: "(bytes \<Rightarrow> 'w \<Rightarrow> (exn + nat option) \<times> 'w) \<Rightarrow> bytes \<Rightarrow> 'w \<Rightarrow> ((exn + unit) \<times> 'w) option"
      and wr d w y
    assume IH: "\<And>wr d w y. f wr d w = Some y \<Longrightarrow> Q wr d w y"
      and eq: "(if d = [] then Some (Inr (), w)
         else case wr d w of (Inl e, w') \<Rightarrow> Some (Inl e, w')
            | (Inr None, w') \<Rightarrow> Some (Inr (), w')
            | (Inr (Some k), w') \<Rightarrow> f wr (drop k d) w') = Some y"
    show "Q wr d w y"
      unfolding Q_def
    proof
      assume wr: "wr = put"
      consider "d = []" "y = (Inr (), w)"
        | e w' where "wr d w = (Inl e, w')" "y = (Inl e, w')"
        | w' where "wr d w = (Inr None, w')" "y = (Inr (), w')"
        | k w' where "wr d w = (Inr (Some k), w')" "f wr (drop k d) w' = Some y"
        using eq by (auto split: if_splits prod.splits sum.splits option.splits)
      then show "\<exists>p q. d = p @ q \<and> out (snd y) = out w @ p \<and> (\<forall>u. fst y = Inr u \<longrightarrow> q = [])"
      proof cases
        case (4 k w')
        from IH [OF 4(2)] wr obtain p q where pq: "drop k d = p @ q" "out (snd y) = out w' @ p"
          "\<forall>u. fst y = Inr u \<longrightarrow> q = []" by (auto simp: Q_def)
        moreover have "out w' = out w @ take k d" using write_takes 4(1) wr by blast
        moreover have "d = (take k d @ p) @ q" using pq(1) by (metis append_assoc append_take_drop_id)
        ultimately show ?thesis by (metis append_assoc)
      qed (use wr write_raises write_full in \<open>fastforce+\<close>)
    qed
  qed
  then show ?thesis by (simp add: Q_def)
qed

lemma write_json_prefix:
  assumes "write_json put flush enc sid False v w = Some (x, w')" and "enc v = Inr b"
  shows "\<exists>p q. frame b = p @ q \<and> out w' = out w @ p \<and> (\<forall>u. x = Inr u \<longrightarrow> q = [])
    \<and> (\<forall>e. x = Inl e \<longrightarrow> (\<exists>m. e = JsonIOError sid m))"
  using assms
  by (auto simp: write_json_def frame_def dest!: write_all_prefix flush_out
      split: option.splits sum.splits prod.splits)

end

text \<open>
  A writer that decides for each \<open>write\<close> how much it takes; it takes everything once the
  list is used up. \<open>Unreported\<close> is the \<open>None\<close> of Python 2 socket files.
\<close>

datatype write_step = Takes nat | Unreported | Fails string

record writer =
  wr_out :: bytes
  wr_sched :: "write_step list"
  wr_flush :: "string option"

definition sock_write :: "bytes \<Rightarrow> writer \<Rightarrow> (exn + nat option) \<times> writer" where
  "sock_write d w =
    (case wr_sched w of
       [] \<Rightarrow> (Inr (Some (length d)), w\<lparr>wr_out := wr_out w @ d\<rparr>)
     | Takes k # s \<Rightarrow>
         (Inr (Some (min k (length d))), w\<lparr>wr_out := wr_out w @ take k d, wr_sched := s\<rparr>)
     | Unreported # s \<Rightarrow> (Inr None, w\<lparr>wr_out := wr_out w @ d, wr_sched := s\<rparr>)
     | Fails e # s \<Rightarrow> (Inl (OSError e), w\<lparr>wr_sched := s\<rparr>))"

definition sock_flush :: "writer \<Rightarrow> (exn + unit) \<times> writer" where
  "sock_flush w = (case wr_flush w of None \<Rightarrow> (Inr (), w) | Some e \<Rightarrow> (Inl (OSError e), w))"

interpretation sockw: byte_writer sock_write sock_flush wr_out
  by unfold_locales
    (auto simp: sock_write_def sock_flush_def min_def split: list.splits write_step.splits option.splits)

lemma write_all_returns: "\<exists>x w'. write_all sock_write d w = Some (x, w')"
proof (induction "wr_sched w" arbitrary: d w)
  case Nil
  then show ?case
    by (subst write_all.simps, auto simp: sock_write_def)
      (subst write_all.simps, simp)
next
  case (Cons st s)
  have s: "s = wr_sched (w\<lparr>wr_out := o', wr_sched := s\<rparr>)" for o' by simp
  show ?case
    using Cons.hyps(1) [OF s] Cons.hyps(2) [symmetric]
    by (subst write_all.simps) (auto simp: sock_write_def split: write_step.splits)
qed

definition no_failure :: "writer \<Rightarrow> bool" where
  "no_failure w \<longleftrightarrow> (\<forall>e. Fails e \<notin> set (wr_sched w)) \<and> wr_flush w = None"

lemma write_all_no_failure:
  assumes "no_failure w"
  shows "\<exists>w'. write_all sock_write d w = Some (Inr (), w') \<and> no_failure w'"
  using assms
proof (induction "wr_sched w" arbitrary: d w)
  case Nil
  then show ?case
    by (subst write_all.simps, auto simp: sock_write_def no_failure_def)
      (subst write_all.simps, simp)
next
  case (Cons st s)
  have s: "s = wr_sched (w\<lparr>wr_out := o', wr_sched := s\<rparr>)" for o' by simp
  have nf: "no_failure (w\<lparr>wr_out := o', wr_sched := s\<rparr>)" for o'
    using Cons.hyps(2) [symmetric] Cons.prems by (auto simp: no_failure_def)
  show ?case
    using Cons.hyps(1) [OF s nf] Cons.hyps(2) [symmetric] nf Cons.prems
    by (subst write_all.simps) (auto simp: sock_write_def no_failure_def split: write_step.splits)
qed

section \<open>A line that never ends\<close>

lemma read_line_spins:
  assumes "rd_data r = []" and "rd_fail r = None" and "line \<noteq> []" and "\<not> ends_crlf line"
  shows "read_line sock_readline sid line r = None"
proof (rule ccontr)
  assume "read_line sock_readline sid line r \<noteq> None"
  then obtain y where y: "read_line sock_readline sid line r = Some y" by auto
  define Q where "Q rl s l r' y' \<longleftrightarrow> \<not> (rl = sock_readline \<and> l = line \<and> r' = r)"
    for rl :: "reader \<Rightarrow> (exn + bytes) \<times> reader" and s :: nat and l r' and y' :: "(exn + bytes) \<times> reader"
  have "Q sock_readline sid line r y"
  proof (rule read_line.raw_induct [where P = Q, OF _ y])
    fix f rl s l r' y'
    assume IH: "\<And>rl s l r' y'. f rl s l r' = Some y' \<Longrightarrow> Q rl s l r' y'"
      and eq: "(case rl r' of (Inl e, r'') \<Rightarrow> Some (Inl (NoMoreMessages s (exn_str e)), r'')
         | (Inr c, r'') \<Rightarrow>
             if l @ c = [] then Some (Inl (NoMoreMessages s no_more_messages), r'')
             else if ends_crlf (l @ c) then Some (Inr (butlast (butlast (l @ c))), r'')
             else f rl s (l @ c) r'') = Some y'"
    show "Q rl s l r' y'"
      unfolding Q_def
    proof
      assume a: "rl = sock_readline \<and> l = line \<and> r' = r"
      then have "rl r' = (Inr [], r)"
        using assms(1,2) by (simp add: sock_readline_def rd_at_end_def)
      with eq a assms(3,4) have "f sock_readline s line r = Some y'" by simp
      from IH [OF this] show False by (simp add: Q_def)
    qed
  qed
  then show False by (simp add: Q_def)
qed

lemma sock_readline_cases:
  assumes "rd_data r \<noteq> []"
  obtains (line) l t where "rd_data r = l @ LF # t" "LF \<notin> set l"
      "sock_readline r = (Inr (l @ [LF]), r\<lparr>rd_data := t\<rparr>)"
  | (last) "LF \<notin> set (rd_data r)" "rd_fail r = None"
      "sock_readline r = (Inr (rd_data r), r\<lparr>rd_data := []\<rparr>)"
  | (broken) e where "LF \<notin> set (rd_data r)" "rd_fail r = Some e"
      "sock_readline r = (Inl (OSError e), r\<lparr>rd_data := []\<rparr>)"
proof (cases "LF \<in> set (rd_data r)")
  case True
  then obtain l t where "rd_data r = l @ LF # t" "LF \<notin> set l" using split_list_first by metis
  then show ?thesis using line by (simp add: sock_readline_def takeWhile_LF dropWhile_LF)
next
  case False
  then have d: "dropWhile (\<lambda>c. c \<noteq> LF) (rd_data r) = []" by auto
  have r: "sock_readline r =
      (if rd_data r = [] \<or> rd_fail r \<noteq> None then rd_at_end (r\<lparr>rd_data := []\<rparr>)
       else (Inr (rd_data r), r\<lparr>rd_data := []\<rparr>))"
    unfolding sock_readline_def d by simp
  show ?thesis
  proof (cases "rd_fail r")
    case None
    with False r assms show ?thesis by (intro last) simp_all
  next
    case (Some e)
    with False r show ?thesis by (intro broken) (simp_all add: rd_at_end_def)
  qed
qed

lemma sock_readline_keeps:
  assumes "sock_readline r = (x, r')"
  shows "rd_sched r' = rd_sched r \<and> rd_fail r' = rd_fail r"
proof (cases "dropWhile (\<lambda>c. c \<noteq> LF) (rd_data r)")
  case Nil
  show ?thesis
    using assms unfolding sock_readline_def Nil
    by (auto simp: rd_at_end_def split: if_splits option.splits)
next
  case (Cons c t)
  show ?thesis using assms unfolding sock_readline_def Cons by auto
qed

lemma read_line_keeps:
  assumes "read_line sock_readline sid line r = Some y"
  shows "rd_sched (snd y) = rd_sched r \<and> rd_fail (snd y) = rd_fail r"
proof -
  define Q where "Q rl s l r y \<longleftrightarrow> rl = sock_readline \<longrightarrow> rd_sched (snd y) = rd_sched r \<and> rd_fail (snd y) = rd_fail r"
    for rl :: "reader \<Rightarrow> (exn + bytes) \<times> reader" and s :: nat and l :: bytes and r :: reader
      and y :: "(exn + bytes) \<times> reader"
  have "Q sock_readline sid line r y"
  proof (rule read_line.raw_induct [where P = Q, OF _ assms])
    fix f rl s l r y
    assume IH: "\<And>rl s l r y. f rl s l r = Some y \<Longrightarrow> Q rl s l r y"
      and eq: "(case rl r of (Inl e, r') \<Rightarrow> Some (Inl (NoMoreMessages s (exn_str e)), r')
         | (Inr c, r') \<Rightarrow>
             if l @ c = [] then Some (Inl (NoMoreMessages s no_more_messages), r')
             else if ends_crlf (l @ c) then Some (Inr (butlast (butlast (l @ c))), r')
             else f rl s (l @ c) r') = Some y"
    show "Q rl s l r y"
      unfolding Q_def
    proof
      assume rl: "rl = sock_readline"
      obtain x r1 where x: "rl r = (x, r1)" by (cases "rl r")
      then have r1: "rd_sched r1 = rd_sched r \<and> rd_fail r1 = rd_fail r" using rl sock_readline_keeps by blast
      consider "snd y = r1" | c where "f sock_readline s (l @ c) r1 = Some y"
        using eq x rl by (auto split: sum.splits if_splits)
      then show "rd_sched (snd y) = rd_sched r \<and> rd_fail (snd y) = rd_fail r"
      proof cases
        case (2 c)
        from IH [OF 2] r1 show ?thesis by (simp add: Q_def)
      qed (use r1 in simp)
    qed
  qed
  then show ?thesis by (simp add: Q_def)
qed

lemma sock_read_line_frame:
  assumes "split_crlf (rd_data r) = Some (l, t)"
  shows "read_line sock_readline sid [] r = Some (Inr l, r\<lparr>rd_data := t\<rparr>)"
proof -
  obtain r' where r': "read_line sock_readline sid [] r = Some (Inr l, r')" "rd_data r' = t"
    using sock.read_line_split [OF assms] by blast
  moreover have "r' = r\<lparr>rd_data := t\<rparr>"
    using read_line_keeps [OF r'(1)] r'(2) by (intro reader.equality) simp_all
  ultimately show ?thesis by simp
qed

lemma read_line_no_crlf:
  assumes "split_crlf (line @ rd_data r) = None"
  shows "read_line sock_readline sid line r =
    (case rd_fail r of
       Some e \<Rightarrow> Some (Inl (NoMoreMessages sid e), r\<lparr>rd_data := []\<rparr>)
     | None \<Rightarrow> if line @ rd_data r = [] then Some (Inl (NoMoreMessages sid no_more_messages), r)
               else None)"
  using assms
proof (induction "length (rd_data r)" arbitrary: line r rule: less_induct)
  case less
  show ?case
  proof (cases "rd_data r = []")
    case True
    have "\<not> ends_crlf line" using less.prems True not_ends_crlf by simp
    then show ?thesis
      using True read_line_spins [of r line sid]
      by (cases "rd_fail r"; cases "line = []")
        (auto simp: read_line.simps [of _ _ _ r] sock_readline_def rd_at_end_def)
  next
    case False
    then show ?thesis
    proof (cases rule: sock_readline_cases)
      case (line l t)
      let ?r = "r\<lparr>rd_data := t\<rparr>"
      have n: "split_crlf ((line @ l @ [LF]) @ rd_data ?r) = None" using less.prems line by simp
      then have "split_crlf (line @ l @ [LF]) = None" using split_crlf_None_prefix by blast
      then have e: "\<not> ends_crlf (line @ l @ [LF])" by (rule not_ends_crlf)
      have "length (rd_data ?r) < length (rd_data r)" using line by simp
      from less.hyps [OF this n]
      have IH: "read_line sock_readline sid (line @ l @ [LF]) ?r = (case rd_fail r of
          Some e \<Rightarrow> Some (Inl (NoMoreMessages sid e), r\<lparr>rd_data := []\<rparr>) | None \<Rightarrow> None)"
        by (simp split: option.splits)
      show ?thesis
        by (subst read_line.simps) (use line e IH False in \<open>simp split: option.splits\<close>)
    next
      case last
      let ?r = "r\<lparr>rd_data := []\<rparr>"
      have e: "\<not> ends_crlf (line @ rd_data r)" using less.prems by (rule not_ends_crlf)
      have "read_line sock_readline sid (line @ rd_data r) ?r = None"
        by (rule read_line_spins) (use last e False in auto)
      then show ?thesis
        by (subst read_line.simps) (use last e False in simp)
    next
      case (broken e)
      then show ?thesis by (subst read_line.simps) simp
    qed
  qed
qed

section \<open>Sequences of messages\<close>

fun write_values ::
  "(bytes \<Rightarrow> 'w \<Rightarrow> (exn + nat option) \<times> 'w) \<Rightarrow> ('w \<Rightarrow> (exn + unit) \<times> 'w) \<Rightarrow> ('v \<Rightarrow> exn + bytes)
     \<Rightarrow> nat \<Rightarrow> 'v list \<Rightarrow> 'w \<Rightarrow> ((exn + unit) \<times> 'w) option" where
  "write_values write flush encode sid [] w = Some (Inr (), w)"
| "write_values write flush encode sid (v # vs) w =
     (case write_json write flush encode sid False v w of
        None \<Rightarrow> None
      | Some (Inl e, w') \<Rightarrow> Some (Inl e, w')
      | Some (Inr _, w') \<Rightarrow> write_values write flush encode sid vs w')"

fun read_values ::
  "('r \<Rightarrow> (exn + bytes) \<times> 'r) \<Rightarrow> (nat \<Rightarrow> 'r \<Rightarrow> (exn + bytes) \<times> 'r) \<Rightarrow> (bytes \<Rightarrow> exn + 'v)
     \<Rightarrow> nat \<Rightarrow> nat \<Rightarrow> 'r \<Rightarrow> ((exn + 'v) list \<times> 'r) option" where
  "read_values readline read decode sid 0 r = Some ([], r)"
| "read_values readline read decode sid (Suc k) r =
     (case read_json readline read decode sid r of
        None \<Rightarrow> None
      | Some (x, r') \<Rightarrow>
          (case read_values readline read decode sid k r' of
             None \<Rightarrow> None
           | Some (xs, r'') \<Rightarrow> Some (x # xs, r'')))"

text \<open>A value that goes through the stream: what the encoder makes of it is valid UTF-8 within the size limit and decodes to it.\<close>

definition codec_ok :: "('v \<Rightarrow> exn + bytes) \<Rightarrow> (bytes \<Rightarrow> exn + 'v) \<Rightarrow> 'v \<Rightarrow> bool" where
  "codec_ok encode decode v \<longleftrightarrow>
     (\<exists>b. encode v = Inr b \<and> utf8_ok b \<and> length b \<le> max_body_size \<and> decode b = Inr v)"

definition frames :: "('v \<Rightarrow> exn + bytes) \<Rightarrow> 'v list \<Rightarrow> bytes" where
  "frames encode vs = concat (map (\<lambda>v. case encode v of Inr b \<Rightarrow> frame b | Inl _ \<Rightarrow> []) vs)"

lemma write_values_frames:
  assumes "\<forall>v \<in> set vs. codec_ok enc dec v" and "no_failure w"
  shows "\<exists>w'. write_values sock_write sock_flush enc sid vs w = Some (Inr (), w')
    \<and> wr_out w' = wr_out w @ frames enc vs"
  using assms
proof (induction vs arbitrary: w)
  case (Cons v vs)
  then obtain b where b: "enc v = Inr b" by (auto simp: codec_ok_def)
  obtain w1 where w1: "write_all sock_write (header (length b) @ b) w = Some (Inr (), w1)" "no_failure w1"
    using write_all_no_failure [OF Cons.prems(2)] by blast
  have "wr_out w1 = wr_out w @ frame b"
    using sockw.write_all_prefix [OF w1(1)] by (auto simp: frame_def)
  moreover obtain w' where "write_values sock_write sock_flush enc sid vs w1 = Some (Inr (), w')"
    "wr_out w' = wr_out w1 @ frames enc vs"
    using Cons.IH [OF _ w1(2)] Cons.prems(1) by auto
  moreover have "sock_flush w1 = (Inr (), w1)" using w1(2) by (simp add: no_failure_def sock_flush_def)
  ultimately show ?case using b w1 by (simp add: write_json_def frames_def)
qed (simp add: frames_def)

context byte_reader begin

lemma read_values_frames:
  assumes "\<forall>v \<in> set vs. codec_ok enc dec v" and "rest r = frames enc vs @ t"
  shows "\<exists>r'. read_values readline read dec sid (length vs) r = Some (map Inr vs, r') \<and> rest r' = t"
  using assms
proof (induction vs arbitrary: r)
  case (Cons v vs)
  then obtain b where b: "enc v = Inr b" "utf8_ok b" "length b \<le> max_body_size" "dec b = Inr v"
    by (auto simp: codec_ok_def)
  have "rest r = frame b @ (frames enc vs @ t)" using Cons.prems(2) b by (simp add: frames_def)
  from read_json_frame [OF this b(3), of dec sid] obtain r1
    where "read_json readline read dec sid r = Some (Inr v, r1)" "rest r1 = frames enc vs @ t"
    using b by auto
  with Cons.IH [of r1] Cons.prems(1) show ?case by auto
qed (simp add: frames_def)

end

section \<open>Closing the stream\<close>

datatype close_call = CloseWriter | CloseReader | Cleanup

record stream_state =
  st_closed :: bool
  st_calls :: "close_call list"

text \<open>
  The three calls of \<open>close\<close>, with what each of them raises, if anything. \<open>one_object\<close> says
  that the reader and the writer are the same object.
\<close>

definition close_call :: "(close_call \<Rightarrow> exn option) \<Rightarrow> close_call \<Rightarrow> (stream_state, exn, unit) sem" where
  "close_call raises c s =
    (case raises c of None \<Rightarrow> Inr () | Some e \<Rightarrow> Inl e, s\<lparr>st_calls := st_calls s @ [c]\<rparr>)"

definition stream_close :: "(close_call \<Rightarrow> exn option) \<Rightarrow> bool \<Rightarrow> (stream_state, exn, unit) sem" where
  "stream_close raises one_object s =
    (if st_closed s then (Inr (), s)
     else
       finally_do
         (finally_do (close_call raises CloseWriter)
            (if one_object then ret () else close_call raises CloseReader))
         (close_call raises Cleanup)
         (s\<lparr>st_closed := True\<rparr>))"

section \<open>Properties\<close>

text \<open>
  Reading a header line from a socket is fully determined by the bytes before the
  connection ends: it returns the bytes before the first CRLF and leaves those after it; with
  no CRLF it raises \<open>NoMoreMessages\<close> if nothing was received or if the connection breaks with
  an error; and if the peer closes the connection in the middle of a line, it never returns.
\<close>
theorem read_line_spec:
  "read_line sock_readline sid [] r =
    (case split_crlf (rd_data r) of
       Some (l, t) \<Rightarrow> Some (Inr l, r\<lparr>rd_data := t\<rparr>)
     | None \<Rightarrow>
         (case rd_fail r of
            Some e \<Rightarrow> Some (Inl (NoMoreMessages sid e), r\<lparr>rd_data := []\<rparr>)
          | None \<Rightarrow> if rd_data r = [] then Some (Inl (NoMoreMessages sid no_more_messages), r)
                    else None))"
proof (cases "split_crlf (rd_data r)")
  case None
  then show ?thesis using read_line_no_crlf [of "[]" r sid] by simp
next
  case (Some p)
  then show ?thesis using sock_read_line_frame [of r "fst p" "snd p" sid] by (cases p) simp
qed

text \<open>
  C9: Values written one after the other through \<open>write_json\<close>, whatever part of the data each
  \<open>write\<close> takes, are read back by \<open>read_json\<close> in the same order, whatever part of the data
  each \<open>read\<close> delivers, and nothing is left over.
\<close>
theorem stream_roundtrip:
  assumes "\<forall>v \<in> set vs. codec_ok enc dec v" and "no_failure w"
    and "rd_data r = drop (length (wr_out w)) (wr_out w')"
    and "write_values sock_write sock_flush enc sid vs w = Some (res, w')"
  shows "res = Inr () \<and>
    (\<exists>r'. read_values sock_readline sock_read dec sid' (length vs) r = Some (map Inr vs, r')
       \<and> rd_data r' = [])"
  using write_values_frames [OF assms(1,2), of sid] assms(3,4)
    sock.read_values_frames [OF assms(1), of r "[]" sid'] by auto

text \<open>A writer that takes three bytes, then fails to report, and a reader that delivers one byte first.\<close>

definition slow_writer :: writer where
  "slow_writer = \<lparr>wr_out = ''x'', wr_sched = [Takes 3, Unreported], wr_flush = None\<rparr>"

theorem stream_roundtrip_witness:
  "\<exists>w' r'. write_values sock_write sock_flush Inr 0 [''[1]'', ''{}''] slow_writer = Some (Inr (), w') \<and>
     read_values sock_readline sock_read Inr 0 2
       \<lparr>rd_data = drop 1 (wr_out w'), rd_sched = [1], rd_fail = None\<rparr> = Some ([Inr ''[1]'', Inr ''{}''], r') \<and>
     rd_data r' = []"
proof -
  have codec: "\<forall>v \<in> set [''[1]'', ''{}'']. codec_ok Inr Inr v"
    by (auto simp: codec_ok_def max_body_size_def intro!: utf8_ok_ascii) (simp_all add: ascii_def)
  have ok: "no_failure slow_writer" by (simp add: no_failure_def slow_writer_def)
  obtain w' where w': "write_values sock_write sock_flush Inr 0 [''[1]'', ''{}''] slow_writer = Some (Inr (), w')"
    using write_values_frames [OF codec ok, of 0] by blast
  show ?thesis
    using stream_roundtrip [OF codec ok _ w', of "\<lparr>rd_data = drop 1 (wr_out w'), rd_sched = [1], rd_fail = None\<rparr>" 0] w'
    by (simp add: slow_writer_def numeral_2_eq_2)
qed

text \<open>
  C13: \<open>write_json\<close> on an open stream always returns; when it succeeds exactly one frame has been
  appended to the output, and when it fails with \<open>JsonIOError\<close> a prefix of the frame has.
\<close>
theorem write_json_outcome:
  assumes "enc v = Inr b"
  shows "\<exists>x w' p q. write_json sock_write sock_flush enc sid False v w = Some (x, w')
    \<and> frame b = p @ q \<and> wr_out w' = wr_out w @ p
    \<and> (case x of Inr _ \<Rightarrow> q = [] | Inl e \<Rightarrow> \<exists>m. e = JsonIOError sid m)"
proof -
  obtain x w' where w': "write_json sock_write sock_flush enc sid False v w = Some (x, w')"
    using write_all_returns [of "header (length b) @ b" w] assms
    by (fastforce simp: write_json_def split: option.splits sum.splits prod.splits)
  from sockw.write_json_prefix [OF w' assms] w' show ?thesis
    by (cases x) fastforce+
qed

theorem write_json_outcome_witness:
  "\<exists>x w' p q. write_json sock_write sock_flush Inr 0 False ''[]'' (slow_writer\<lparr>wr_sched := [Takes 2, Fails ''broken pipe'']\<rparr>)
      = Some (x, w') \<and> frame ''[]'' = p @ q \<and> wr_out w' = ''x'' @ p"
  using write_json_outcome [of Inr "''[]''" "''[]''" 0 "slow_writer\<lparr>wr_sched := [Takes 2, Fails ''broken pipe'']\<rparr>"]
  by (simp add: slow_writer_def) blast

text \<open>
  The writer puts no bound on a body and the reader does: a frame is read back exactly if
  its body has at most 0xFFFFFF bytes, and otherwise the reader refuses the header and leaves
  the body in the stream, where the next read takes it for headers.
\<close>
theorem read_json_size_limit:
  assumes "rd_data r = frame b @ t" and "utf8_ok b"
  shows "\<exists>r'. read_json sock_readline sock_read dec sid r =
      Some (if length b \<le> max_body_size then dec b else Inl bad_length, r')
    \<and> rd_data r' = (if length b \<le> max_body_size then t else b @ t)"
  using sock.read_json_frame [OF assms(1), of dec sid] sock.read_json_too_long [OF assms(1), of dec sid]
    assms(2) by (cases "length b \<le> max_body_size") auto

theorem read_json_size_limit_witness:
  "\<exists>r'. read_json sock_readline sock_read Inr 0 \<lparr>rd_data = frame ''{}'' @ ''rest'', rd_sched = [], rd_fail = None\<rparr> =
      Some (Inr ''{}'', r') \<and> rd_data r' = ''rest''"
  using read_json_size_limit [of "\<lparr>rd_data = frame ''{}'' @ ''rest'', rd_sched = [], rd_fail = None\<rparr>" "''{}''" "''rest''"
      Inr 0] utf8_ok_ascii [of "''{}''"]
  by (simp add: ascii_def max_body_size_def)

text \<open>
  Closing an open stream calls \<open>close\<close> of the writer, then of the reader unless it is the
  same object, then the cleanup, each exactly once and whatever the others raise; the error
  reported is that of the last one that failed. Closing it again does nothing.
\<close>
theorem stream_close_calls:
  assumes "\<not> st_closed s"
  shows "stream_close raises one_object s =
      (case raises Cleanup of Some e \<Rightarrow> Inl e
       | None \<Rightarrow> (case if one_object then None else raises CloseReader of Some e \<Rightarrow> Inl e
           | None \<Rightarrow> (case raises CloseWriter of Some e \<Rightarrow> Inl e | None \<Rightarrow> Inr ())),
       \<lparr>st_closed = True,
        st_calls = st_calls s @ [CloseWriter] @ (if one_object then [] else [CloseReader]) @ [Cleanup]\<rparr>)
    \<and> (\<forall>raises' s'. s' = snd (stream_close raises one_object s)
          \<longrightarrow> stream_close raises' one_object s' = (Inr (), s'))"
  using assms
  by (cases s) (auto simp: stream_close_def finally_do_def close_call_def split: option.splits)

theorem stream_close_calls_witness:
  "stream_close (\<lambda>c. if c = CloseWriter then Some (OSError ''bad fd'') else None) False \<lparr>st_closed = False, st_calls = []\<rparr> =
     (Inl (OSError ''bad fd''), \<lparr>st_closed = True, st_calls = [CloseWriter, CloseReader, Cleanup]\<rparr>)"
  using stream_close_calls [of "\<lparr>st_closed = False, st_calls = []\<rparr>"
      "\<lambda>c. if c = CloseWriter then Some (OSError ''bad fd'') else None" False]
  by simp

end
