(* ===== verification/Messages.thy ===== *)
theory Messages
  imports JsonValidators JsonStream
begin

text \<open>
  The message layer of \<open>ptvsd/common/messaging.py\<close>: \<open>MessageDict\<close>, the \<open>Message\<close> classes
  with their parsers, \<open>MessageHandlingError\<close>, and the operations of \<open>JsonMessageChannel\<close>
  that send, parse, enqueue and handle messages, as functions on the state of one channel.
  Logging is left out. \<open>Channel.thy\<close> runs these operations on threads.
\<close>

section \<open>Messages and channel state\<close>

datatype mkind = MEvent | MRequest | MResponse | MDisconnect

datatype body = Payload jv | Failure exn

text \<open>
  A \<open>Message\<close> object. \<open>msg_name\<close> is \<open>event\<close> or \<open>command\<close>, \<open>msg_body\<close> is \<open>arguments\<close> or \<open>body\<close>,
  \<open>msg_request\<close> the \<open>request\<close> of a \<open>Response\<close>. \<open>JNull\<close> as \<open>msg_seq\<close> is \<open>None\<close>.
\<close>

record message =
  msg_id :: nat
  msg_kind :: mkind
  msg_seq :: jv
  msg_name :: string
  msg_body :: body
  msg_request :: "nat option"

record outreq =
  o_seq :: int
  o_command :: string
  o_args :: jv
  o_response :: "message option"
  o_handlers :: "nat list"

text \<open>
  What \<open>_enqueue_handlers\<close> is given to call later: a method bound to a message, the
  \<open>run_handlers\<close> closure of a response with the callbacks it captured, or
  \<open>_handle_disconnect\<close>. The functions \<open>Event._handle\<close> and \<open>Request._handle\<close> themselves, which
  \<open>_run_handlers\<close> compares with, are \<open>PlainFunction\<close>s.
\<close>

datatype hfun =
    BoundMethod string nat
  | RunHandlers nat "nat list"
  | HandleDisconnect
  | PlainFunction string

text \<open>Where the thread that runs \<open>_run_handlers\<close> is.\<close>

datatype hthread =
    LoopTop
  | SeenClosed bool
  | Running bool "(message \<times> hfun) list"
  | InHandler bool "message \<times> hfun" "(message \<times> hfun) list"

datatype parser_state = NotStarted | Parsing | Finished

text \<open>
  \<open>ch_id\<close> is the identity of the stream, \<open>ch_broken\<close> what a write to it would raise while it
  is open, \<open>ch_written\<close> what has been written; \<open>ch_responses\<close> is the attribute \<open>response\<close> of
  the incoming requests; \<open>ch_exited\<close> is set by \<open>os._exit(1)\<close>.
\<close>

record chan =
  ch_id :: nat
  ch_closed :: bool
  ch_broken :: "string option"
  ch_next_seq :: int
  ch_sent :: "(int, nat) odict"
  ch_queue :: "(message \<times> hfun) list"
  ch_thread :: "hthread option"
  ch_parser :: parser_state
  ch_outreqs :: "nat \<rightharpoonup> outreq"
  ch_responses :: "nat \<rightharpoonup> body"
  ch_written :: "(string \<times> jv) list list"
  ch_fresh :: nat
  ch_exited :: bool

definition new_channel :: "nat \<Rightarrow> chan" where
  "new_channel i = \<lparr>ch_id = i, ch_closed = False, ch_broken = None, ch_next_seq = 1, ch_sent = [],
     ch_queue = [], ch_thread = None, ch_parser = NotStarted, ch_outreqs = Map.empty,
     ch_responses = Map.empty, ch_written = [], ch_fresh = 0, ch_exited = False\<rparr>"

section \<open>MessageDict\<close>

text \<open>The order of keys on the wire: the known ones last, in this order.\<close>

definition prettify_order :: "string list" where
  "prettify_order = [''seq'', ''type'', ''request_seq'', ''success'', ''command'', ''event'',
     ''message'', ''arguments'', ''body'', ''error'']"

definition prettify_key :: "string \<Rightarrow> (string, jv) odict \<Rightarrow> (string, jv) odict" where
  "prettify_key key d =
    (case map_of d key of None \<Rightarrow> d | Some v \<Rightarrow> od_set key v (od_del key d))"

definition prettify :: "(string, jv) odict \<Rightarrow> (string, jv) odict" where
  "prettify d = fold prettify_key prettify_order d"

definition md_get :: "(string, jv) odict \<Rightarrow> string \<Rightarrow> jv" where
  "md_get d key = (case map_of d key of None \<Rightarrow> Missing | Some v \<Rightarrow> v)"

text \<open>The \<open>validate\<close> argument of \<open>MessageDict.__call__\<close>: a plain value, a type or tuple of types, or a validator.\<close>

datatype vspec = VConst jv | VType classinfo | VFn validator

definition resolve_validator :: "vspec \<Rightarrow> bool \<Rightarrow> validator" where
  "resolve_validator validate optional =
    (case validate of
       VConst c \<Rightarrow> if \<not> truthy c then any_value else default c
     | VType c \<Rightarrow> if c = Tup [] then any_value else of_type [c] optional
     | VFn f \<Rightarrow> f)"

definition payload_validator :: validator where
  "payload_validator value =
    Inr (if value \<noteq> JNull \<and> value \<noteq> Missing then value else JObj [])"

section \<open>Sending\<close>

text \<open>\<open>stream.write_json\<close>: the three outcomes of \<open>JsonStream.write_json\<close> for an encodable value.\<close>

definition write_message :: "(string, jv) odict \<Rightarrow> (chan, exn, unit) sem" where
  "write_message d s =
    (if ch_closed s then (Inl (NoMoreMessages (ch_id s) no_more_messages), s)
     else case ch_broken s of
         Some m \<Rightarrow> (Inl (JsonIOError (ch_id s) m), s)
       | None \<Rightarrow> (Inr (), s\<lparr>ch_written := ch_written s @ [d]\<rparr>))"

definition next_seq :: "(chan, exn, int) sem" where
  "next_seq s = (Inr (ch_next_seq s), s\<lparr>ch_next_seq := ch_next_seq s + 1\<rparr>)"

definition fresh_id :: "(chan, exn, nat) sem" where
  "fresh_id s = (Inr (ch_fresh s), s\<lparr>ch_fresh := Suc (ch_fresh s)\<rparr>)"

definition sealed :: "(string, jv) odict \<Rightarrow> int \<Rightarrow> (string, jv) odict" where
  "sealed d seq = prettify (od_set ''seq'' (JInt seq) d)"

text \<open>\<open>_send_message\<close>; \<open>before\<close> is the body of the with-statement.\<close>

definition send_message :: "(string, jv) odict \<Rightarrow> (int \<Rightarrow> (chan, exn, unit) sem) \<Rightarrow> (chan, exn, int) sem" where
  "send_message d before =
    (if ''seq'' \<in> set (od_keys d) then raise (AssertionError ''\"seq\" not in message'')
     else andthen next_seq (\<lambda>seq.
          andthen (before seq) (\<lambda>_.
          andthen (write_message (sealed d seq)) (\<lambda>_. ret seq))))"

definition optional_member :: "string \<Rightarrow> jv \<Rightarrow> (string, jv) odict" where
  "optional_member key v = (if v = JNull \<or> v = JObj [] then [] else [(key, v)])"

definition request_dict :: "string \<Rightarrow> jv \<Rightarrow> (string, jv) odict" where
  "request_dict command arguments =
    [(''type'', JStr ''request''), (''command'', JStr command)] @ optional_member ''arguments'' arguments"

text \<open>The \<open>with\<close> body of \<open>send_request\<close>: the request is registered before it is written.\<close>

definition register_request :: "string \<Rightarrow> jv \<Rightarrow> nat \<Rightarrow> int \<Rightarrow> (chan, exn, unit) sem" where
  "register_request command arguments rid seq =
    modify (\<lambda>s. s\<lparr>ch_outreqs := (ch_outreqs s)(rid \<mapsto>
        \<lparr>o_seq = seq, o_command = command, o_args = arguments, o_response = None, o_handlers = []\<rparr>),
      ch_sent := od_set seq rid (ch_sent s)\<rparr>)"

definition send_request :: "string \<Rightarrow> jv \<Rightarrow> (chan, exn, nat) sem" where
  "send_request command arguments =
    andthen fresh_id (\<lambda>rid.
    andthen (send_message (request_dict command arguments) (register_request command arguments rid))
      (\<lambda>_. ret rid))"

definition send_event :: "string \<Rightarrow> jv \<Rightarrow> (chan, exn, unit) sem" where
  "send_event event bdy =
    andthen (send_message ([(''type'', JStr ''event''), (''event'', JStr event)] @ optional_member ''body'' bdy)
        (\<lambda>_. ret ())) (\<lambda>_. ret ())"

definition propagate :: "message \<Rightarrow> (chan, exn, nat option) sem" where
  "propagate m =
    (case (msg_kind m, msg_body m) of
       (MRequest, Payload args) \<Rightarrow> andthen (send_request (msg_name m) args) (\<lambda>rid. ret (Some rid))
     | (MEvent, Payload b) \<Rightarrow> andthen (send_event (msg_name m) b) (\<lambda>_. ret None)
     | _ \<Rightarrow> raise (AssertionError ''message.is_request() or message.is_event()''))"

section \<open>Responding and failing\<close>

definition response_dict :: "message \<Rightarrow> body \<Rightarrow> (string, jv) odict" where
  "response_dict m b =
    [(''type'', JStr ''response''), (''request_seq'', msg_seq m), (''command'', JStr (msg_name m))] @
    (case b of
       Failure e \<Rightarrow> [(''success'', JBool False), (''message'', JStr (exn_str e))]
     | Payload v \<Rightarrow> (''success'', JBool True) # optional_member ''body'' v)"

definition respond :: "message \<Rightarrow> body \<Rightarrow> (chan, exn, unit) sem" where
  "respond m b s =
    (if ch_responses s (msg_id m) \<noteq> None then (Inl (AssertionError ''self.response is None''), s)
     else andthen (send_message (response_dict m b) (\<lambda>_. ret ()))
            (\<lambda>_. modify (\<lambda>s. s\<lparr>ch_responses := (ch_responses s)(msg_id m \<mapsto> b)\<rparr>)) s)"

text \<open>\<open>Message.error\<close>: makes the exception, and sends it as the response of a request.\<close>

definition message_error :: "hkind \<Rightarrow> string \<Rightarrow> message \<Rightarrow> (chan, exn, exn) sem" where
  "message_error k reason m =
    (let exc = Handling k reason (Some (msg_id m)) 0 in
     if msg_kind m = MRequest then andthen (respond m (Failure exc)) (\<lambda>_. ret exc) else ret exc)"

abbreviation isnt_valid :: "string \<Rightarrow> message \<Rightarrow> (chan, exn, exn) sem" where
  "isnt_valid \<equiv> message_error InvalidMessageError"

abbreviation cant_handle :: "string \<Rightarrow> message \<Rightarrow> (chan, exn, exn) sem" where
  "cant_handle \<equiv> message_error MessageHandlingError"

text \<open>
  \<open>raise message.isnt_valid(...)\<close> in \<open>MessageDict\<close>, where \<open>message\<close> is the owner, or the class
  \<open>Message\<close> for a dict that has none: the call on the class takes the format string for
  \<open>self\<close> and fails on \<open>self.error\<close>.
\<close>

definition raise_invalid :: "message option \<Rightarrow> string \<Rightarrow> (chan, exn, 'a) sem" where
  "raise_invalid owner reason =
    (case owner of
       None \<Rightarrow> raise (AttributeError ''str.error'')
     | Some m \<Rightarrow> andthen (isnt_valid reason m) raise)"

definition md_call ::
  "message option \<Rightarrow> (string, jv) odict \<Rightarrow> string \<Rightarrow> vspec \<Rightarrow> bool \<Rightarrow> (chan, exn, jv) sem" where
  "md_call owner d key validate optional =
    (case resolve_validator validate optional (md_get d key) of
       Inr v \<Rightarrow> ret v
     | Inl e \<Rightarrow>
         if is_type_or_value_error e
         then (let err = exn_str e in
               raise_invalid owner
                 (json_quote key @ (if starts_with err ''['' then err else CHR '' '' # err)))
         else raise e)"

definition md_getitem :: "message option \<Rightarrow> (string, jv) odict \<Rightarrow> string \<Rightarrow> (chan, exn, jv) sem" where
  "md_getitem owner d key =
    (case map_of d key of
       Some v \<Rightarrow> ret v
     | None \<Rightarrow> raise_invalid owner (''missing property '' @ repr_str key))"

text \<open>\<open>Message.__call__\<close> and \<open>Message.__contains__\<close>.\<close>

definition msg_call :: "message \<Rightarrow> string \<Rightarrow> vspec \<Rightarrow> bool \<Rightarrow> (chan, exn, jv) sem" where
  "msg_call m key validate optional =
    (case msg_body m of
       Payload (JObj d) \<Rightarrow> md_call (Some m) d key validate optional
     | _ \<Rightarrow> raise (TypeError ''object is not callable''))"

definition applies_to :: "exn \<Rightarrow> message \<Rightarrow> bool" where
  "applies_to e m =
    (case e of Handling _ _ None _ \<Rightarrow> True | Handling _ _ (Some c) _ \<Rightarrow> c = msg_id m | _ \<Rightarrow> False)"

section \<open>The handler queue\<close>

definition enqueue_handlers :: "(message \<times> hfun) list \<Rightarrow> (chan, exn, unit) sem" where
  "enqueue_handlers items =
    modify (\<lambda>s. let q = ch_queue s @ items in
      s\<lparr>ch_queue := q,
        ch_thread := (if q \<noteq> [] \<and> ch_thread s = None then Some LoopTop else ch_thread s)\<rparr>)"

definition enqueue_response_handlers :: "nat \<Rightarrow> (chan, exn, unit) sem" where
  "enqueue_response_handlers rid s =
    (case ch_outreqs s rid of
       None \<Rightarrow> (Inr (), s)
     | Some q \<Rightarrow>
         (case o_response q of
            None \<Rightarrow> (Inr (), s)
          | Some resp \<Rightarrow>
              andthen (enqueue_handlers [(resp, RunHandlers rid (o_handlers q))])
                (\<lambda>_. modify (\<lambda>s. s\<lparr>ch_outreqs := (ch_outreqs s)(rid \<mapsto> q\<lparr>o_handlers := []\<rparr>)\<rparr>)) s))"

definition on_response :: "nat \<Rightarrow> nat \<Rightarrow> (chan, exn, unit) sem" where
  "on_response rid callback =
    andthen (modify (\<lambda>s. case ch_outreqs s rid of
        None \<Rightarrow> s
      | Some q \<Rightarrow> s\<lparr>ch_outreqs := (ch_outreqs s)(rid \<mapsto> q\<lparr>o_handlers := o_handlers q @ [callback]\<rparr>)\<rparr>))
    (\<lambda>_. enqueue_response_handlers rid)"

definition channel_close :: "(chan, exn, unit) sem" where
  "channel_close = modify (\<lambda>s. s\<lparr>ch_closed := True\<rparr>)"

section \<open>Parsing\<close>

definition new_message ::
  "mkind \<Rightarrow> jv \<Rightarrow> string \<Rightarrow> body \<Rightarrow> nat option \<Rightarrow> (chan, exn, message) sem" where
  "new_message k seq name b req =
    andthen fresh_id (\<lambda>i. ret \<lparr>msg_id = i, msg_kind = k, msg_seq = seq, msg_name = name,
      msg_body = b, msg_request = req\<rparr>)"

definition str_of :: "jv \<Rightarrow> string" where
  "str_of v = (case v of JStr s \<Rightarrow> s | _ \<Rightarrow> [])"

text \<open>The integer a dict key compares equal to: \<open>True\<close> is 1.\<close>

definition int_of :: "jv \<Rightarrow> int" where
  "int_of v = (case v of JInt i \<Rightarrow> i | JBool b \<Rightarrow> (if b then 1 else 0) | _ \<Rightarrow> 0)"

abbreviation an_int :: vspec where "an_int \<equiv> VType (Cls ClsInt)"
abbreviation a_str :: vspec where "a_str \<equiv> VType (Cls ClsStr)"
abbreviation a_bool :: vspec where "a_bool \<equiv> VType (Cls ClsBool)"

definition parse_event :: "(string, jv) odict \<Rightarrow> (chan, exn, unit) sem" where
  "parse_event d =
    andthen (md_call None d ''seq'' an_int False) (\<lambda>seq.
    andthen (md_call None d ''event'' a_str False) (\<lambda>event.
    andthen (md_call None d ''body'' (VFn payload_validator) False) (\<lambda>bdy.
    andthen (new_message MEvent seq (str_of event) (Payload bdy) None) (\<lambda>m.
    enqueue_handlers [(m, BoundMethod ''Event._handle'' (msg_id m))]))))"

definition parse_request :: "(string, jv) odict \<Rightarrow> (chan, exn, unit) sem" where
  "parse_request d =
    andthen (md_call None d ''seq'' an_int False) (\<lambda>seq.
    andthen (md_call None d ''command'' a_str False) (\<lambda>command.
    andthen (md_call None d ''arguments'' (VFn payload_validator) False) (\<lambda>arguments.
    andthen (new_message MRequest seq (str_of command) (Payload arguments) None) (\<lambda>m.
    enqueue_handlers [(m, BoundMethod ''Request._handle'' (msg_id m))]))))"

definition invalid_prefix :: string where
  "invalid_prefix = ''Invalid message: ''"

text \<open>The exception that a failure response stands for.\<close>

definition response_error :: "string \<Rightarrow> exn" where
  "response_error text =
    (if starts_with text invalid_prefix
     then Handling InvalidMessageError (drop (length invalid_prefix) text) None 0
     else Handling MessageHandlingError text None 0)"

definition with_cause :: "nat \<Rightarrow> exn \<Rightarrow> exn" where
  "with_cause rid e = (case e of Handling k r _ n \<Rightarrow> Handling k r (Some rid) n | _ \<Rightarrow> e)"

text \<open>
  \<open>_sent_requests.pop\<close>, or the synthetic request for an unknown \<open>request_seq\<close>; the flag is
  \<open>known_request\<close>.
\<close>

definition take_request :: "int \<Rightarrow> string \<Rightarrow> (chan, exn, nat \<times> bool) sem" where
  "take_request request_seq command s =
    (case map_of (ch_sent s) request_seq of
       Some rid \<Rightarrow> (Inr (rid, True), s\<lparr>ch_sent := od_del request_seq (ch_sent s)\<rparr>)
     | None \<Rightarrow>
         andthen fresh_id (\<lambda>rid. andthen
           (modify (\<lambda>s. s\<lparr>ch_outreqs := (ch_outreqs s)(rid \<mapsto>
              \<lparr>o_seq = request_seq, o_command = command, o_args = JStr ''<unknown>'',
               o_response = None, o_handlers = []\<rparr>)\<rparr>))
           (\<lambda>_. ret (rid, False))) s)"

definition set_response :: "nat \<Rightarrow> message \<Rightarrow> (chan, exn, unit) sem" where
  "set_response rid resp =
    modify (\<lambda>s. case ch_outreqs s rid of
        None \<Rightarrow> s
      | Some q \<Rightarrow> s\<lparr>ch_outreqs := (ch_outreqs s)(rid \<mapsto> q\<lparr>o_response := Some resp\<rparr>)\<rparr>)"

text \<open>\<open>given\<close> is the argument \<open>body\<close> of \<open>Response._parse\<close>.\<close>

definition response_body :: "(string, jv) odict \<Rightarrow> bool \<Rightarrow> exn option \<Rightarrow> (chan, exn, body) sem" where
  "response_body d success given =
    (case given of
       Some e \<Rightarrow> ret (Failure e)
     | None \<Rightarrow>
         if success then
           andthen (md_call None d ''body'' (VFn payload_validator) False) (\<lambda>v. ret (Payload v))
         else
           andthen (md_call None d ''message'' a_str False)
             (\<lambda>text. ret (Failure (response_error (str_of text)))))"

definition body_with_cause :: "nat \<Rightarrow> body \<Rightarrow> body" where
  "body_with_cause rid b = (case b of Failure e \<Rightarrow> Failure (with_cause rid e) | Payload v \<Rightarrow> Payload v)"

definition parse_response :: "(string, jv) odict \<Rightarrow> exn option \<Rightarrow> (chan, exn, message) sem" where
  "parse_response d given =
    andthen (if given = None then md_call None d ''seq'' an_int False else ret JNull) (\<lambda>seq.
    andthen (md_call None d ''request_seq'' an_int False) (\<lambda>request_seq.
    andthen (md_call None d ''command'' a_str False) (\<lambda>command.
    andthen (md_call None d ''success'' a_bool False) (\<lambda>success.
    andthen (response_body d (truthy success) given) (\<lambda>b.
    andthen (take_request (int_of request_seq) (str_of command)) (\<lambda>(rid, known).
    andthen (new_message MResponse seq (str_of command)
               (if truthy success then b else body_with_cause rid b) (Some rid)) (\<lambda>resp.
    andthen (set_response rid resp) (\<lambda>_.
    andthen (enqueue_response_handlers rid) (\<lambda>_.
    if known then ret resp
    else andthen (isnt_valid (''request_seq='' @ repr_value request_seq @
                    '' does not match any known request'') resp) raise)))))))))"

text \<open>\<open>os._exit(1)\<close>; the outcome is immaterial, nothing of the process runs afterwards.\<close>

definition fatal_exit :: "(chan, exn, unit) sem" where
  "fatal_exit = modify (\<lambda>s. s\<lparr>ch_exited := True\<rparr>)"

definition message_types :: "jv list" where
  "message_types = [JStr ''event'', JStr ''request'', JStr ''response'']"

definition parser_for :: "string \<Rightarrow> (string, jv) odict \<Rightarrow> (chan, exn, unit) sem" where
  "parser_for msg_type d =
    (if msg_type = ''event'' then parse_event d
     else if msg_type = ''request'' then parse_request d
     else andthen (parse_response d None) (\<lambda>_. ret ()))"

definition is_invalid_message :: "exn \<Rightarrow> bool" where
  "is_invalid_message e = (case e of Handling InvalidMessageError _ _ _ \<Rightarrow> True | _ \<Rightarrow> False)"

definition own_no_more :: "nat \<Rightarrow> exn \<Rightarrow> bool" where
  "own_no_more i e = (case e of NoMoreMessages j _ \<Rightarrow> j = i | _ \<Rightarrow> False)"

text \<open>The second half of \<open>_parse_incoming_message\<close>: the dict has been read.\<close>

definition parse_message :: "(string, jv) odict \<Rightarrow> (chan, exn, unit) sem" where
  "parse_message d =
    andthen (md_call None d ''type'' (VFn (enum message_types False)) False) (\<lambda>msg_type.
    attempt (parser_for (str_of msg_type) d) (\<lambda>e s.
      if is_invalid_message e then (Inr (), s)
      else if own_no_more (ch_id s) e then (Inl e, s)
      else fatal_exit s))"

text \<open>The decoder's \<open>object_hook\<close>, on every object of the value, innermost first.\<close>

fun object_hook :: "jv \<Rightarrow> jv" where
  "object_hook (JObj m) =
    (let d = map (\<lambda>(k, v). (k, object_hook v)) m in
     JObj (if ''seq'' \<in> set (od_keys d) then prettify d else d))"
| "object_hook (JList xs) = JList (map object_hook xs)"
| "object_hook v = v"

text \<open>\<open>incoming\<close> is what \<open>stream.read_json\<close> gives: an exception or a value.\<close>

definition parse_incoming_message :: "exn + jv \<Rightarrow> (chan, exn, unit) sem" where
  "parse_incoming_message incoming =
    (case incoming of
       Inl e \<Rightarrow> raise e
     | Inr v \<Rightarrow>
         (case object_hook v of
            JObj d \<Rightarrow> parse_message d
          | _ \<Rightarrow> raise (AssertionError ''isinstance(message_dict, MessageDict)'')))"

definition disconnect_dict :: "outreq \<Rightarrow> string \<Rightarrow> (string, jv) odict" where
  "disconnect_dict q err =
    [(''seq'', JInt (-1)), (''request_seq'', JInt (o_seq q)), (''command'', JStr (o_command q)),
     (''success'', JBool False), (''message'', JStr err)]"

fun respond_pending :: "nat list \<Rightarrow> exn \<Rightarrow> (chan, exn, unit) sem" where
  "respond_pending [] exc s = (Inr (), s)"
| "respond_pending (rid # rids) exc s =
    (case ch_outreqs s rid of
       None \<Rightarrow> respond_pending rids exc s
     | Some q \<Rightarrow>
         andthen (parse_response (disconnect_dict q (exn_str exc)) (Some exc))
           (\<lambda>_. respond_pending rids exc) s)"

text \<open>The \<open>except NoMoreMessages\<close> clause of \<open>_parse_incoming_messages\<close>.\<close>

definition finish_parsing :: "exn \<Rightarrow> (chan, exn, unit) sem" where
  "finish_parsing exc =
    andthen (gets (\<lambda>s. map snd (ch_sent s))) (\<lambda>sent_requests.
    andthen (respond_pending sent_requests exc) (\<lambda>_.
    andthen (gets ch_sent) (\<lambda>left.
    if left \<noteq> [] then raise (AssertionError ''not len(self._sent_requests)'')
    else
      andthen (new_message MDisconnect JNull [] (Payload JNull) None) (\<lambda>m.
      andthen (enqueue_handlers [(m, HandleDisconnect)]) (\<lambda>_. channel_close)))))"

text \<open>
  One turn of the loop of \<open>_parse_incoming_messages\<close>. An exception other than
  \<open>NoMoreMessages\<close> leaves the function and ends its thread.
\<close>

definition parser_turn :: "exn + jv \<Rightarrow> chan \<Rightarrow> chan" where
  "parser_turn incoming s =
    (case parse_incoming_message incoming s of
       (Inr _, s') \<Rightarrow> s'
     | (Inl e, s') \<Rightarrow>
         (case e of
            NoMoreMessages _ _ \<Rightarrow> (snd (finish_parsing e s'))\<lparr>ch_parser := Finished\<rparr>
          | _ \<Rightarrow> s'\<lparr>ch_parser := Finished\<rparr>))"

section \<open>Handling\<close>

text \<open>
  What a handler returns: \<open>None\<close>, \<open>NO_RESPONSE\<close>, a new value, an exception object, or the
  very object that it has passed to \<open>respond\<close>.
\<close>

datatype hresult = RNone | RNoResponse | RBody jv | RError exn | RResponded

text \<open>The object given as \<open>handlers\<close>: its attributes.\<close>

type_synonym handlers = "string \<Rightarrow> (message \<Rightarrow> (chan, exn, hresult) sem) option"

definition get_handler_for ::
  "handlers \<Rightarrow> string \<Rightarrow> string \<Rightarrow> exn + (message \<Rightarrow> (chan, exn, hresult) sem)" where
  "get_handler_for hs type name =
    (case hs (name @ ''_'' @ type) of
       Some h \<Rightarrow> Inr h
     | None \<Rightarrow>
         (case hs type of
            Some h \<Rightarrow> Inr h
          | None \<Rightarrow> Inl (AttributeError (''no handler for '' @ type @ '' '' @ repr_str name))))"

text \<open>A message-handling error of the message itself, or one without cause, is the handler's result.\<close>

definition handled_failure :: "exn \<Rightarrow> message \<Rightarrow> bool" where
  "handled_failure e m \<longleftrightarrow> is_handling e \<and> applies_to e m"

definition event_handle :: "handlers \<Rightarrow> message \<Rightarrow> (chan, exn, unit) sem" where
  "event_handle hs m =
    andthen (of_result (get_handler_for hs ''event'' (msg_name m))) (\<lambda>h.
    attempt
      (andthen (h m) (\<lambda>result.
         if result = RNone then ret () else raise (AssertionError ''tried to respond to event'')))
      (\<lambda>e. if handled_failure e m then ret () else raise e))"

definition result_body :: "hresult \<Rightarrow> body option" where
  "result_body result =
    (case result of RBody v \<Rightarrow> Some (Payload v) | RError e \<Rightarrow> Some (Failure e) | _ \<Rightarrow> None)"

text \<open>
  \<open>result is self.response.body\<close>. An exception object that has a request for its cause is known by
  its class, reason and number of copies: \<open>error\<close> makes at most one for a request, as the second call
  fails on its assertion, and every \<open>propagate\<close> makes another object.
\<close>

definition returns_response :: "body option \<Rightarrow> hresult \<Rightarrow> bool" where
  "returns_response sent result =
    (case result of
       RResponded \<Rightarrow> True
     | RError e \<Rightarrow> sent = Some (Failure e)
     | _ \<Rightarrow> False)"

text \<open>The second half of \<open>Request._handle\<close>: what to do with the result.\<close>

definition finish_result :: "message \<Rightarrow> hresult \<Rightarrow> (chan, exn, unit) sem" where
  "finish_result m result s =
    (if result = RNoResponse then
       (if ch_responses s (msg_id m) = None then (Inr (), s)
        else (Inl (AssertionError ''must not return NO_RESPONSE''), s))
     else if ch_responses s (msg_id m) \<noteq> None then
       (if result = RNone \<or> returns_response (ch_responses s (msg_id m)) result then (Inr (), s)
        else (Inl (AssertionError ''must not return a response body''), s))
     else
       (case result_body result of
          None \<Rightarrow> (Inl (AssertionError ''must either call request.respond()''), s)
        | Some b \<Rightarrow>
            attempt (respond m b)
              (\<lambda>e. case e of NoMoreMessages _ _ \<Rightarrow> ret () | _ \<Rightarrow> raise e) s))"

definition request_handle :: "handlers \<Rightarrow> message \<Rightarrow> (chan, exn, unit) sem" where
  "request_handle hs m =
    andthen (of_result (get_handler_for hs ''request'' (msg_name m))) (\<lambda>h.
    andthen (attempt (h m) (\<lambda>e. if handled_failure e m then ret (RError e) else raise e))
      (finish_result m))"

text \<open>The loop of \<open>run_handlers\<close> over the response callbacks, \<open>call\<close> being what a callback does.\<close>

fun run_callbacks ::
  "(nat \<Rightarrow> message \<Rightarrow> (chan, exn, unit) sem) \<Rightarrow> nat list \<Rightarrow> message \<Rightarrow> (chan, exn, unit) sem" where
  "run_callbacks call [] resp s = (Inr (), s)"
| "run_callbacks call (c # cs) resp s =
    andthen (attempt (call c resp) (\<lambda>e. if handled_failure e resp then ret () else raise e))
      (\<lambda>_. run_callbacks call cs resp) s"

definition handle_disconnect :: "handlers \<Rightarrow> message \<Rightarrow> (chan, exn, unit) sem" where
  "handle_disconnect hs m =
    (case hs ''disconnect'' of None \<Rightarrow> ret () | Some h \<Rightarrow> andthen (h m) (\<lambda>_. ret ()))"

text \<open>\<open>Response.result\<close> and the raising half of \<open>wait_for_response\<close>.\<close>

definition response_result :: "message \<Rightarrow> exn + jv" where
  "response_result resp = (case msg_body resp of Failure e \<Rightarrow> Inl e | Payload v \<Rightarrow> Inr v)"

text \<open>\<open>MessageHandlingError.propagate\<close>, and the \<open>except\<close> clause of \<open>delegate\<close>.\<close>

definition propagated :: "exn \<Rightarrow> message \<Rightarrow> exn" where
  "propagated e m = (case e of Handling k r _ n \<Rightarrow> Handling k r (Some (msg_id m)) (Suc n) | _ \<Rightarrow> e)"

text \<open>
  What one queued handler does; \<open>call\<close> is what the response callbacks do, and a plain
  function in the queue would be called without its \<open>self\<close>.
\<close>

definition call_item ::
  "handlers \<Rightarrow> (nat \<Rightarrow> message \<Rightarrow> (chan, exn, unit) sem) \<Rightarrow> message \<times> hfun \<Rightarrow> (chan, exn, unit) sem" where
  "call_item hs call item =
    (case item of (m, h) \<Rightarrow>
      (case h of
         BoundMethod f _ \<Rightarrow> if f = ''Event._handle'' then event_handle hs m else request_handle hs m
       | RunHandlers rid cs \<Rightarrow> run_callbacks call cs m
       | HandleDisconnect \<Rightarrow> handle_disconnect hs m
       | PlainFunction f \<Rightarrow> raise (TypeError ''missing 1 required positional argument'')))"

text \<open>The \<open>except\<close> clause around \<open>handler()\<close>: an escaping exception closes the channel and exits.\<close>

definition run_item ::
  "handlers \<Rightarrow> (nat \<Rightarrow> message \<Rightarrow> (chan, exn, unit) sem) \<Rightarrow> message \<times> hfun \<Rightarrow> chan \<Rightarrow> chan" where
  "run_item hs call item s =
    (case call_item hs call item s of
       (Inr _, s') \<Rightarrow> s'
     | (Inl e, s') \<Rightarrow> snd (andthen channel_close (\<lambda>_. fatal_exit) s'))"

end
