(* ===== verification/MessageFacts.thy ===== *)
theory MessageFacts
  imports Messages
begin

text \<open>
  What the operations of \<open>Messages.thy\<close> do: the order of keys on the wire, the outcome of
  sending and responding on every branch, what parsing a message does to the channel, how
  pending requests are answered when the stream ends, and the invariant of the channel state
  that every operation keeps.
\<close>

section \<open>Weakest preconditions of the primitive operations\<close>

lemma wp_write_message [wp_simps]:
  "wp (write_message d) Q X s =
    (if ch_closed s then X (NoMoreMessages (ch_id s) no_more_messages) s
     else case ch_broken s of
         Some m \<Rightarrow> X (JsonIOError (ch_id s) m) s
       | None \<Rightarrow> Q () (s\<lparr>ch_written := ch_written s @ [d]\<rparr>))"
  by (auto simp: wp_def write_message_def split: option.splits)

lemma wp_next_seq [wp_simps]:
  "wp next_seq Q X s = Q (ch_next_seq s) (s\<lparr>ch_next_seq := ch_next_seq s + 1\<rparr>)"
  by (simp add: wp_def next_seq_def)

lemma wp_fresh_id [wp_simps]:
  "wp fresh_id Q X s = Q (ch_fresh s) (s\<lparr>ch_fresh := Suc (ch_fresh s)\<rparr>)"
  by (simp add: wp_def fresh_id_def)

lemma wp_new_message [wp_simps]:
  "wp (new_message k seq name b req) Q X s =
     Q \<lparr>msg_id = ch_fresh s, msg_kind = k, msg_seq = seq, msg_name = name, msg_body = b, msg_request = req\<rparr>
       (s\<lparr>ch_fresh := Suc (ch_fresh s)\<rparr>)"
  by (simp add: new_message_def wp_simps)

text \<open>A dict without owner: the call reads the dict and leaves the channel alone.\<close>

definition md_value :: "(string, jv) odict \<Rightarrow> string \<Rightarrow> vspec \<Rightarrow> bool \<Rightarrow> exn + jv" where
  "md_value d key validate optional =
    (case resolve_validator validate optional (md_get d key) of
       Inr v \<Rightarrow> Inr v
     | Inl e \<Rightarrow> Inl (if is_type_or_value_error e then AttributeError ''str.error'' else e))"

lemma md_call_unowned: "md_call None d key validate optional = of_result (md_value d key validate optional)"
  by (auto simp: md_call_def md_value_def raise_invalid_def fun_eq_iff Let_def split: sum.splits)

lemma of_result_Inr: "of_result (Inr x) = ret x"
  and of_result_Inl: "of_result (Inl e) = raise e"
  by (auto simp: fun_eq_iff)

definition has_member :: "(string, jv) odict \<Rightarrow> string \<Rightarrow> pyclass \<Rightarrow> bool" where
  "has_member d key c = (case map_of d key of None \<Rightarrow> False | Some v \<Rightarrow> is_subclass (class_of v) c)"

lemma md_value_class:
  assumes "c \<noteq> ClsTuple"
  shows "md_value d key (VType (Cls c)) False =
    (if has_member d key c then Inr (the (map_of d key)) else Inl (AttributeError ''str.error''))"
  using assms
  by (auto simp: md_value_def resolve_validator_def has_member_def of_type_def md_get_def is_subclass_def
      split: option.splits)

lemma md_value_payload:
  "md_value d key (VFn payload_validator) opt =
    Inr (case map_of d key of None \<Rightarrow> JObj [] | Some v \<Rightarrow> if v = JNull \<or> v = Missing then JObj [] else v)"
  by (auto simp: md_value_def resolve_validator_def payload_validator_def md_get_def split: option.splits)

section \<open>The order of keys\<close>

lemma od_keys_prettify_key:
  "od_keys (prettify_key k d) =
    (if k \<in> set (od_keys d) then filter (\<lambda>x. x \<noteq> k) (od_keys d) @ [k] else od_keys d)"
proof -
  have "od_keys (od_del k d) = filter (\<lambda>x. x \<noteq> k) (od_keys d)"
    by (induction d) (auto simp: od_del_def od_keys_def)
  then show ?thesis
    using in_od_keys_iff [of k d]
    by (auto simp: prettify_key_def od_keys_od_set split: option.splits)
qed

lemma map_of_prettify_key [simp]: "map_of (prettify_key k d) = map_of d"
  by (auto simp: prettify_key_def fun_eq_iff split: option.splits)

lemma map_of_prettify [simp]: "map_of (prettify d) = map_of d"
proof -
  have "map_of (fold prettify_key ks d) = map_of d" for ks
    by (induction ks arbitrary: d) auto
  then show ?thesis by (simp add: prettify_def)
qed

lemma od_keys_fold_prettify:
  "distinct ks \<Longrightarrow>
   od_keys (fold prettify_key ks d) =
     filter (\<lambda>k. k \<notin> set ks) (od_keys d) @ filter (\<lambda>k. k \<in> set (od_keys d)) ks"
proof (induction ks arbitrary: d)
  case (Cons k ks)
  have keys: "set (od_keys (prettify_key k d)) = set (od_keys d)"
    by (auto simp: od_keys_prettify_key)
  have "filter (\<lambda>x. x \<notin> set ks) (od_keys (prettify_key k d)) =
      filter (\<lambda>x. x \<noteq> k \<and> x \<notin> set ks) (od_keys d) @ (if k \<in> set (od_keys d) then [k] else [])"
    using Cons.prems by (auto simp: od_keys_prettify_key conj_commute intro: filter_cong)
  with Cons keys show ?case by simp
qed simp

lemma distinct_prettify_order: "distinct prettify_order"
  by (simp add: prettify_order_def)

text \<open>
  \<open>_prettify\<close> only reorders: every member keeps its value, the keys that the protocol
  names come last and in the order of \<open>_prettify_order\<close>, and the other keys keep their order
  before them.
\<close>

lemma prettify_reorders:
  "map_of (prettify d) = map_of d \<and>
   od_keys (prettify d) =
     filter (\<lambda>k. k \<notin> set prettify_order) (od_keys d) @ filter (\<lambda>k. k \<in> set (od_keys d)) prettify_order"
  unfolding prettify_def
  by (simp add: od_keys_fold_prettify distinct_prettify_order) (simp flip: prettify_def)

section \<open>Sending\<close>

lemma wp_send_message:
  "''seq'' \<notin> set (od_keys d) \<Longrightarrow>
   wp (send_message d before) Q X s =
     wp (before (ch_next_seq s))
        (\<lambda>_. wp (write_message (sealed d (ch_next_seq s))) (\<lambda>_. Q (ch_next_seq s)) X)
        X (s\<lparr>ch_next_seq := ch_next_seq s + 1\<rparr>)"
  by (simp add: send_message_def wp_simps)

lemma seq_not_in_dicts [simp]:
  "''seq'' \<notin> set (od_keys (request_dict command args))"
  "''seq'' \<notin> set (od_keys (response_dict m b))"
  "''seq'' \<notin> set (od_keys ([(''type'', JStr ''event''), (''event'', JStr event)] @ optional_member ''body'' bdy))"
  by (auto simp: request_dict_def response_dict_def optional_member_def od_keys_def split: body.splits)

text \<open>Whether a write would succeed now, and the exception that it raises otherwise.\<close>

definition write_failure :: "chan \<Rightarrow> exn option" where
  "write_failure s =
    (if ch_closed s then Some (NoMoreMessages (ch_id s) no_more_messages)
     else map_option (JsonIOError (ch_id s)) (ch_broken s))"

lemma write_failure_update [simp]:
  "write_failure (s\<lparr>ch_next_seq := n\<rparr>) = write_failure s"
  "write_failure (s\<lparr>ch_outreqs := m\<rparr>) = write_failure s"
  "write_failure (s\<lparr>ch_sent := sent\<rparr>) = write_failure s"
  "write_failure (s\<lparr>ch_fresh := i\<rparr>) = write_failure s"
  "write_failure (s\<lparr>ch_queue := items\<rparr>) = write_failure s"
  "write_failure (s\<lparr>ch_thread := h\<rparr>) = write_failure s"
  by (simp_all add: write_failure_def)

lemma write_message_cases:
  "write_message d s =
    (case write_failure s of Some e \<Rightarrow> (Inl e, s) | None \<Rightarrow> (Inr (), s\<lparr>ch_written := ch_written s @ [d]\<rparr>))"
  by (auto simp: write_message_def write_failure_def split: option.splits)

text \<open>The state after a request has been registered, with its number taken.\<close>

definition registered :: "string \<Rightarrow> jv \<Rightarrow> chan \<Rightarrow> chan" where
  "registered command arguments s =
    s\<lparr>ch_fresh := Suc (ch_fresh s), ch_next_seq := ch_next_seq s + 1,
      ch_outreqs := (ch_outreqs s)(ch_fresh s \<mapsto>
        \<lparr>o_seq = ch_next_seq s, o_command = command, o_args = arguments, o_response = None, o_handlers = []\<rparr>),
      ch_sent := od_set (ch_next_seq s) (ch_fresh s) (ch_sent s)\<rparr>"

lemma send_request_cases:
  "send_request command arguments s =
    (case write_failure s of
       Some e \<Rightarrow> (Inl e, registered command arguments s)
     | None \<Rightarrow> (Inr (ch_fresh s), (registered command arguments s)
         \<lparr>ch_written := ch_written s @
            [prettify ([(''type'', JStr ''request''), (''command'', JStr command)] @
               (if arguments = JNull \<or> arguments = JObj [] then [] else [(''arguments'', arguments)]) @
               [(''seq'', JInt (ch_next_seq s))])]\<rparr>))"
proof -
  have wire: "sealed (request_dict command arguments) n =
      prettify ([(''type'', JStr ''request''), (''command'', JStr command)] @
        (if arguments = JNull \<or> arguments = JObj [] then [] else [(''arguments'', arguments)]) @
        [(''seq'', JInt n)])" for n
    using seq_not_in_dicts(1) [of command arguments]
    by (simp add: sealed_def od_set_absent) (simp add: request_dict_def optional_member_def)
  show ?thesis
    by (simp add: send_request_def send_message_def andthen_def fresh_id_def next_seq_def register_request_def
        write_message_cases registered_def wire write_failure_def split: option.splits)
qed

text \<open>
  \<open>send_request\<close> takes the next sequence number and records the request as sent before the
  write; the message goes out with that number under \<open>seq\<close>, without \<open>arguments\<close> when they
  are \<open>None\<close> or empty. A failing write raises but leaves the request registered, so that the end
  of the stream will still answer it.
\<close>

theorem send_request_spec:
  "send_request command arguments s =
    (case write_failure s of
       Some e \<Rightarrow> (Inl e, registered command arguments s)
     | None \<Rightarrow> (Inr (ch_fresh s), (registered command arguments s)
         \<lparr>ch_written := ch_written s @
            [prettify ([(''type'', JStr ''request''), (''command'', JStr command)] @
               (if arguments = JNull \<or> arguments = JObj [] then [] else [(''arguments'', arguments)]) @
               [(''seq'', JInt (ch_next_seq s))])]\<rparr>))"
  by (rule send_request_cases)

lemma respond_cases:
  "respond m b s =
    (if ch_responses s (msg_id m) \<noteq> None then (Inl (AssertionError ''self.response is None''), s)
     else case write_failure s of
         Some e \<Rightarrow> (Inl e, s\<lparr>ch_next_seq := ch_next_seq s + 1\<rparr>)
       | None \<Rightarrow> (Inr (), s\<lparr>ch_next_seq := ch_next_seq s + 1,
            ch_written := ch_written s @ [sealed (response_dict m b) (ch_next_seq s)],
            ch_responses := (ch_responses s)(msg_id m \<mapsto> b)\<rparr>))"
  by (simp add: respond_def send_message_def andthen_def next_seq_def write_message_cases split: option.splits)

text \<open>
  A request is answered at most once: \<open>respond\<close> on an answered request raises and writes
  nothing; on an unanswered one it writes one response that names the request's \<open>seq\<close> and
  \<open>command\<close>, with \<open>success\<close> and \<open>message\<close> or \<open>body\<close> by the kind of the result, and records it;
  if the write fails nothing is recorded, and the request stays open.
\<close>

theorem respond_spec:
  "\<exists>s'. s' = snd (respond m b s) \<and>
    (if ch_responses s (msg_id m) \<noteq> None then
       fst (respond m b s) = Inl (AssertionError ''self.response is None'') \<and> s' = s
     else case write_failure s of
         Some e \<Rightarrow> fst (respond m b s) = Inl e \<and> ch_written s' = ch_written s \<and> ch_responses s' = ch_responses s
       | None \<Rightarrow> fst (respond m b s) = Inr () \<and> ch_responses s' = (ch_responses s)(msg_id m \<mapsto> b) \<and>
           (\<exists>d. ch_written s' = ch_written s @ [d] \<and>
              map_of d ''seq'' = Some (JInt (ch_next_seq s)) \<and>
              map_of d ''type'' = Some (JStr ''response'') \<and>
              map_of d ''request_seq'' = Some (msg_seq m) \<and>
              map_of d ''command'' = Some (JStr (msg_name m)) \<and>
              (case b of
                 Failure e \<Rightarrow> map_of d ''success'' = Some (JBool False) \<and>
                   map_of d ''message'' = Some (JStr (exn_str e)) \<and> map_of d ''body'' = None
               | Payload v \<Rightarrow> map_of d ''success'' = Some (JBool True) \<and>
                   map_of d ''message'' = None \<and>
                   map_of d ''body'' = (if v = JNull \<or> v = JObj [] then None else Some v))))"
proof -
  have "(case b of
       Failure e \<Rightarrow> map_of (response_dict m b) ''success'' = Some (JBool False) \<and>
         map_of (response_dict m b) ''message'' = Some (JStr (exn_str e)) \<and>
         map_of (response_dict m b) ''body'' = None
     | Payload v \<Rightarrow> map_of (response_dict m b) ''success'' = Some (JBool True) \<and>
         map_of (response_dict m b) ''message'' = None \<and>
         map_of (response_dict m b) ''body'' = (if v = JNull \<or> v = JObj [] then None else Some v))"
    "map_of (response_dict m b) ''type'' = Some (JStr ''response'')"
    "map_of (response_dict m b) ''request_seq'' = Some (msg_seq m)"
    "map_of (response_dict m b) ''command'' = Some (JStr (msg_name m))"
    by (auto simp: response_dict_def optional_member_def split: body.splits)
  then show ?thesis
    by (auto simp: respond_cases sealed_def split: option.splits body.splits)
qed

section \<open>Parsing\<close>

lemma enqueue_handlers_state:
  "enqueue_handlers items s =
    (Inr (), s\<lparr>ch_queue := ch_queue s @ items,
       ch_thread := (if ch_queue s @ items \<noteq> [] \<and> ch_thread s = None then Some LoopTop else ch_thread s)\<rparr>)"
  by (simp add: enqueue_handlers_def Let_def)

lemma wp_enqueue_handlers [wp_simps]:
  "wp (enqueue_handlers items) Q X s =
    Q () (s\<lparr>ch_queue := ch_queue s @ items,
       ch_thread := (if ch_queue s @ items \<noteq> [] \<and> ch_thread s = None then Some LoopTop else ch_thread s)\<rparr>)"
  by (simp add: wp_def enqueue_handlers_state)

text \<open>The message that an incoming request or event becomes.\<close>

definition payload_of :: "(string, jv) odict \<Rightarrow> string \<Rightarrow> jv" where
  "payload_of d key =
    (case map_of d key of None \<Rightarrow> JObj [] | Some v \<Rightarrow> if v = JNull \<or> v = Missing then JObj [] else v)"

definition incoming_message :: "mkind \<Rightarrow> string \<Rightarrow> string \<Rightarrow> nat \<Rightarrow> (string, jv) odict \<Rightarrow> message" where
  "incoming_message k name_key payload_key i d =
    \<lparr>msg_id = i, msg_kind = k, msg_seq = the (map_of d ''seq''),
     msg_name = str_of (the (map_of d name_key)), msg_body = Payload (payload_of d payload_key),
     msg_request = None\<rparr>"

definition with_handler :: "message \<Rightarrow> string \<Rightarrow> chan \<Rightarrow> chan" where
  "with_handler m f s =
    s\<lparr>ch_fresh := Suc (ch_fresh s), ch_queue := ch_queue s @ [(m, BoundMethod f (msg_id m))],
      ch_thread := (if ch_thread s = None then Some LoopTop else ch_thread s)\<rparr>"

lemma parse_request_cases:
  "parse_request d s =
    (if has_member d ''seq'' ClsInt \<and> has_member d ''command'' ClsStr
     then (Inr (), with_handler (incoming_message MRequest ''command'' ''arguments'' (ch_fresh s) d) ''Request._handle'' s)
     else (Inl (AttributeError ''str.error''), s))"
  by (simp add: parse_request_def md_call_unowned md_value_class md_value_payload of_result_Inl of_result_Inr
      andthen_def new_message_def fresh_id_def enqueue_handlers_state with_handler_def incoming_message_def
      payload_of_def)

lemma parse_event_cases:
  "parse_event d s =
    (if has_member d ''seq'' ClsInt \<and> has_member d ''event'' ClsStr
     then (Inr (), with_handler (incoming_message MEvent ''event'' ''body'' (ch_fresh s) d) ''Event._handle'' s)
     else (Inl (AttributeError ''str.error''), s))"
  by (simp add: parse_event_def md_call_unowned md_value_class md_value_payload of_result_Inl of_result_Inr
      andthen_def new_message_def fresh_id_def enqueue_handlers_state with_handler_def incoming_message_def
      payload_of_def)

lemma msg_type_value:
  "md_call None d ''type'' (VFn (enum message_types False)) False =
    (if md_get d ''type'' \<in> set message_types then ret (md_get d ''type'')
     else raise (AttributeError ''str.error''))"
proof -
  have "py_in v message_types \<longleftrightarrow> v \<in> set message_types" for v
    by (auto simp: message_types_def py_in_def)
  then show ?thesis
    by (simp add: md_call_unowned md_value_def resolve_validator_def enum_def message_types_def
        of_result_Inl of_result_Inr)
qed

lemma parse_message_cases:
  "parse_message d s =
    (if md_get d ''type'' = JStr ''request'' then
       (Inr (), if has_member d ''seq'' ClsInt \<and> has_member d ''command'' ClsStr
          then with_handler (incoming_message MRequest ''command'' ''arguments'' (ch_fresh s) d) ''Request._handle'' s
          else s\<lparr>ch_exited := True\<rparr>)
     else if md_get d ''type'' = JStr ''event'' then
       (Inr (), if has_member d ''seq'' ClsInt \<and> has_member d ''event'' ClsStr
          then with_handler (incoming_message MEvent ''event'' ''body'' (ch_fresh s) d) ''Event._handle'' s
          else s\<lparr>ch_exited := True\<rparr>)
     else if md_get d ''type'' = JStr ''response'' then
       attempt (andthen (parse_response d None) (\<lambda>_. ret ())) (\<lambda>e s.
         if is_invalid_message e then (Inr (), s)
         else if own_no_more (ch_id s) e then (Inl e, s) else fatal_exit s) s
     else (Inl (AttributeError ''str.error''), s))"
proof -
  have "\<not> is_invalid_message (AttributeError m)" "\<not> own_no_more i (AttributeError m)" for m i
    by (simp_all add: is_invalid_message_def own_no_more_def)
  note errors = this
  have types: "t \<in> set message_types \<longleftrightarrow> t = JStr ''event'' \<or> t = JStr ''request'' \<or> t = JStr ''response''" for t
    by (auto simp: message_types_def)
  show ?thesis
    unfolding parse_message_def msg_type_value types
    by (auto simp: parser_for_def str_of_def andthen_def attempt_def parse_request_cases parse_event_cases
        fatal_exit_def errors)
qed


text \<open>The response message that an incoming dict becomes, for a request \<open>rid\<close>.\<close>

definition incoming_response :: "nat \<Rightarrow> nat \<Rightarrow> (string, jv) odict \<Rightarrow> message" where
  "incoming_response i rid d =
    \<lparr>msg_id = i, msg_kind = MResponse, msg_seq = the (map_of d ''seq''),
     msg_name = str_of (the (map_of d ''command'')),
     msg_body =
       (if truthy (the (map_of d ''success'')) then Payload (payload_of d ''body'')
        else Failure (with_cause rid (response_error (str_of (the (map_of d ''message'')))))),
     msg_request = Some rid\<rparr>"

definition wellformed_response :: "(string, jv) odict \<Rightarrow> bool" where
  "wellformed_response d \<longleftrightarrow>
     has_member d ''seq'' ClsInt \<and> has_member d ''request_seq'' ClsInt \<and>
     has_member d ''command'' ClsStr \<and> has_member d ''success'' ClsBool \<and>
     (truthy (the (map_of d ''success'')) \<or> has_member d ''message'' ClsStr)"

lemma take_request_known:
  "map_of (ch_sent s) k = Some rid \<Longrightarrow>
   take_request k command s = (Inr (rid, True), s\<lparr>ch_sent := od_del k (ch_sent s)\<rparr>)"
  by (simp add: take_request_def)

lemma enqueue_response_handlers_answered:
  "ch_outreqs s rid = Some q \<Longrightarrow> o_response q = Some resp \<Longrightarrow>
   enqueue_response_handlers rid s =
     (Inr (), s\<lparr>ch_queue := ch_queue s @ [(resp, RunHandlers rid (o_handlers q))],
        ch_thread := (if ch_thread s = None then Some LoopTop else ch_thread s),
        ch_outreqs := (ch_outreqs s)(rid \<mapsto> q\<lparr>o_handlers := []\<rparr>)\<rparr>)"
  by (simp add: enqueue_response_handlers_def andthen_def enqueue_handlers_state)

text \<open>The channel after the response of a pending request has come in.\<close>

definition answered :: "int \<Rightarrow> nat \<Rightarrow> outreq \<Rightarrow> message \<Rightarrow> chan \<Rightarrow> chan" where
  "answered k rid q resp s =
    s\<lparr>ch_fresh := Suc (ch_fresh s), ch_sent := od_del k (ch_sent s),
      ch_outreqs := (ch_outreqs s)(rid \<mapsto> q\<lparr>o_response := Some resp, o_handlers := []\<rparr>),
      ch_queue := ch_queue s @ [(resp, RunHandlers rid (o_handlers q))],
      ch_thread := (if ch_thread s = None then Some LoopTop else ch_thread s)\<rparr>"

lemma answer_known:
  assumes "ch_outreqs s rid = Some q" and "msg_id resp = ch_fresh s"
  shows "andthen (new_message (msg_kind resp) (msg_seq resp) (msg_name resp) (msg_body resp) (msg_request resp))
      (\<lambda>m. andthen (set_response rid m) (\<lambda>_. andthen (enqueue_response_handlers rid) (\<lambda>_. ret m)))
      (s\<lparr>ch_sent := od_del k (ch_sent s)\<rparr>) = (Inr resp, answered k rid q resp s)"
proof (cases resp)
  case (fields i k' seq name b req)
  with assms show ?thesis
    by (simp add: new_message_def fresh_id_def andthen_def set_response_def
        enqueue_response_handlers_answered answered_def)
qed

text \<open>
  The response to a pending request is matched by \<open>request_seq\<close>, whatever its \<open>command\<close>:
  the request stops being pending, gets the response (the body, or the error that
  \<open>message\<close> stands for, with the request as its cause), and its callbacks are handed over
  to the handler queue in one item, so that none of them is kept or lost.
\<close>

lemma response_matched:
  assumes "md_get d ''type'' = JStr ''response''" and "wellformed_response d"
    and "map_of (ch_sent s) (int_of (the (map_of d ''request_seq''))) = Some rid"
    and "ch_outreqs s rid = Some q"
  shows "parse_message d s =
    (Inr (), answered (int_of (the (map_of d ''request_seq''))) rid q (incoming_response (ch_fresh s) rid d) s)"
proof -
  let ?k = "int_of (the (map_of d ''request_seq''))"
  let ?resp = "incoming_response (ch_fresh s) rid d"
  have "parse_response d None s = (Inr ?resp, answered ?k rid q ?resp s)"
    using assms answer_known [of s rid q ?resp ?k, OF assms(4)]
    by (auto simp: parse_response_def md_call_unowned md_value_class md_value_payload of_result_Inr of_result_Inl
        andthen_def response_body_def wellformed_response_def take_request_known incoming_response_def
        body_with_cause_def payload_of_def)
  with assms(1) show ?thesis by (simp add: parse_message_cases attempt_def andthen_def)
qed

section \<open>The end of the stream\<close>

text \<open>Pending requests are known under the number they were sent with.\<close>

definition pending_ok :: "chan \<Rightarrow> bool" where
  "pending_ok s \<longleftrightarrow> distinct (od_keys (ch_sent s)) \<and>
     (\<forall>(k, rid) \<in> set (ch_sent s). \<exists>q. ch_outreqs s rid = Some q \<and> o_seq q = k)"

definition disconnect_response :: "nat \<Rightarrow> nat \<Rightarrow> outreq \<Rightarrow> exn \<Rightarrow> message" where
  "disconnect_response i rid q exc =
    \<lparr>msg_id = i, msg_kind = MResponse, msg_seq = JNull, msg_name = o_command q,
     msg_body = Failure (with_cause rid exc), msg_request = Some rid\<rparr>"

lemma disconnect_dict_members:
  "has_member (disconnect_dict q err) ''request_seq'' ClsInt"
  "has_member (disconnect_dict q err) ''command'' ClsStr"
  "has_member (disconnect_dict q err) ''success'' ClsBool"
  "map_of (disconnect_dict q err) ''request_seq'' = Some (JInt (o_seq q))"
  "map_of (disconnect_dict q err) ''command'' = Some (JStr (o_command q))"
  "map_of (disconnect_dict q err) ''success'' = Some (JBool False)"
  by (simp_all add: disconnect_dict_def has_member_def is_subclass_def)

lemma parse_disconnect_response:
  assumes "map_of (ch_sent s) (o_seq q) = Some rid" and "ch_outreqs s rid = Some q"
  shows "parse_response (disconnect_dict q err) (Some exc) s =
    (Inr (disconnect_response (ch_fresh s) rid q exc),
     answered (o_seq q) rid q (disconnect_response (ch_fresh s) rid q exc) s)"
  using assms answer_known [of s rid q "disconnect_response (ch_fresh s) rid q exc" "o_seq q", OF assms(2)]
  by (simp add: parse_response_def md_call_unowned md_value_class of_result_Inr andthen_def response_body_def
      disconnect_dict_members str_of_def int_of_def take_request_known body_with_cause_def
      disconnect_response_def)

lemma pending_ok_snd:
  assumes "pending_ok s" and "ch_sent s = (k, rid) # ps"
  shows "rid \<notin> snd ` set ps" and "k \<notin> set (od_keys ps)"
  using assms by (force simp: pending_ok_def od_keys_def)+

lemma pending_ok_answered:
  assumes "pending_ok s" and "ch_sent s = (k, rid) # ps" and "ch_outreqs s rid = Some q"
  shows "pending_ok (answered k rid q resp s)" and "ch_sent (answered k rid q resp s) = ps"
proof -
  have "od_del k ps = ps" by (rule od_del_absent) (rule pending_ok_snd(2) [OF assms(1,2)])
  then have "od_del k (ch_sent s) = ps" using assms(2) by (simp add: od_del_def)
  then show sent: "ch_sent (answered k rid q resp s) = ps" by (simp add: answered_def)
  show "pending_ok (answered k rid q resp s)"
    unfolding pending_ok_def sent
  proof
    show "distinct (od_keys ps)" using assms(1,2) by (simp add: pending_ok_def od_keys_def)
    have "\<exists>q'. ch_outreqs (answered k rid q resp s) rid' = Some q' \<and> o_seq q' = k'" if "(k', rid') \<in> set ps" for k' rid'
    proof -
      have "rid' \<noteq> rid" using pending_ok_snd(1) [OF assms(1,2)] that by force
      moreover have "\<exists>q'. ch_outreqs s rid' = Some q' \<and> o_seq q' = k'"
        using assms(1,2) that by (auto simp: pending_ok_def)
      ultimately show ?thesis by (simp add: answered_def)
    qed
    then show "\<forall>(k', rid') \<in> set ps. \<exists>q'. ch_outreqs (answered k rid q resp s) rid' = Some q' \<and> o_seq q' = k'"
      by blast
  qed
qed

text \<open>The queue items for a list of answered requests.\<close>

definition answer_items :: "(nat \<rightharpoonup> outreq) \<Rightarrow> (int, nat) odict \<Rightarrow> message list \<Rightarrow> (message \<times> hfun) list" where
  "answer_items reqs ps resps =
    map2 (\<lambda>(k, rid) r. (r, RunHandlers rid (o_handlers (the (reqs rid))))) ps resps"

lemma respond_pending_all:
  assumes "pending_ok s"
  shows "\<exists>s' resps. respond_pending (map snd (ch_sent s)) exc s = (Inr (), s') \<and>
    ch_sent s' = [] \<and> length resps = length (ch_sent s) \<and>
    (\<forall>i < length resps. resps ! i =
       disconnect_response (ch_fresh s + i) (snd (ch_sent s ! i)) (the (ch_outreqs s (snd (ch_sent s ! i)))) exc) \<and>
    ch_queue s' = ch_queue s @ answer_items (ch_outreqs s) (ch_sent s) resps \<and>
    (\<forall>i < length resps. \<exists>q'. ch_outreqs s' (snd (ch_sent s ! i)) = Some q' \<and>
       o_response q' = Some (resps ! i) \<and> o_handlers q' = []) \<and>
    (\<forall>rid. rid \<notin> snd ` set (ch_sent s) \<longrightarrow> ch_outreqs s' rid = ch_outreqs s rid) \<and>
    ch_written s' = ch_written s"
  using assms
proof (induction "ch_sent s" arbitrary: s)
  case Nil
  from Nil.hyps [symmetric] show ?case
    by (intro exI [of _ s] exI [of _ "[]"]) (simp add: answer_items_def)
next
  case (Cons p ps)
  obtain k rid where p: "p = (k, rid)" by (cases p)
  note sent = Cons.hyps(2) [symmetric, unfolded p]
  obtain q where q: "ch_outreqs s rid = Some q" "o_seq q = k"
    using Cons.prems sent by (auto simp: pending_ok_def)
  define r where "r = disconnect_response (ch_fresh s) rid q exc"
  let ?t = "answered k rid q r s"
  note t = pending_ok_answered [OF Cons.prems sent q(1), of r]
  note fresh_rid = pending_ok_snd(1) [OF Cons.prems sent]
  have step: "respond_pending (map snd (ch_sent s)) exc s = respond_pending (map snd (ch_sent ?t)) exc ?t"
    using parse_disconnect_response [of s q rid _ exc] q sent t(2) by (simp add: andthen_def r_def)
  obtain s' resps where IH: "respond_pending (map snd (ch_sent ?t)) exc ?t = (Inr (), s')"
    "ch_sent s' = []" "length resps = length ps"
    "\<forall>i < length resps. resps ! i =
       disconnect_response (ch_fresh ?t + i) (snd (ps ! i)) (the (ch_outreqs ?t (snd (ps ! i)))) exc"
    "ch_queue s' = ch_queue ?t @ answer_items (ch_outreqs ?t) ps resps"
    "\<forall>i < length resps. \<exists>q'. ch_outreqs s' (snd (ps ! i)) = Some q' \<and>
       o_response q' = Some (resps ! i) \<and> o_handlers q' = []"
    "\<forall>rid. rid \<notin> snd ` set ps \<longrightarrow> ch_outreqs s' rid = ch_outreqs ?t rid"
    "ch_written s' = ch_written ?t"
    using Cons.hyps(1) [of ?t] t by auto
  have same: "ch_outreqs ?t x = ch_outreqs s x" if "x \<in> snd ` set ps" for x
    using that fresh_rid by (auto simp: answered_def)
  have items: "answer_items (ch_outreqs ?t) ps resps = answer_items (ch_outreqs s) ps resps"
    unfolding answer_items_def by (intro map_cong) (auto dest!: set_zip_leftD simp: same rev_image_eqI)
  show ?case
  proof (intro exI [of _ s'] exI [of _ "r # resps"] conjI)
    show "respond_pending (map snd (ch_sent s)) exc s = (Inr (), s')" using step IH(1) by simp
    show "\<forall>i < length (r # resps). (r # resps) ! i = disconnect_response (ch_fresh s + i)
        (snd (ch_sent s ! i)) (the (ch_outreqs s (snd (ch_sent s ! i)))) exc"
      using IH(3,4) same q sent by (auto simp: less_Suc_eq_0_disj r_def answered_def)
    show "ch_queue s' = ch_queue s @ answer_items (ch_outreqs s) (ch_sent s) (r # resps)"
      using IH(5) items q sent by (simp add: answered_def answer_items_def)
    show "\<forall>i < length (r # resps). \<exists>q'. ch_outreqs s' (snd (ch_sent s ! i)) = Some q' \<and>
        o_response q' = Some ((r # resps) ! i) \<and> o_handlers q' = []"
      using IH(6,7) fresh_rid sent by (auto simp: less_Suc_eq_0_disj answered_def)
    show "\<forall>rid. rid \<notin> snd ` set (ch_sent s) \<longrightarrow> ch_outreqs s' rid = ch_outreqs s rid"
      using IH(7) sent by (simp add: answered_def)
  qed (use IH sent in \<open>simp_all add: answered_def\<close>)
qed

text \<open>What holds of a request once its channel has answered it with an exception.\<close>

definition failed_with :: "chan \<Rightarrow> nat \<Rightarrow> exn \<Rightarrow> bool" where
  "failed_with s rid exc \<longleftrightarrow>
    (\<exists>q r. ch_outreqs s rid = Some q \<and> o_response q = Some r \<and> o_handlers q = [] \<and>
       msg_request r = Some rid \<and> msg_body r = Failure (with_cause rid exc))"

text \<open>
  C7: At the end of the stream every pending request is answered, with the exception that
  ended it: none stays in \<open>_sent_requests\<close>, each has a response, their callbacks are
  queued in the order the requests were sent, and the disconnect handler is queued after all of
  them, last. Nothing is written, and the channel is closed.
\<close>

theorem finish_parsing_answers:
  assumes "pending_ok s"
  shows "\<exists>s' answers disc. finish_parsing exc s = (Inr (), s') \<and> ch_sent s' = [] \<and> ch_closed s' \<and>
    ch_written s' = ch_written s \<and>
    (\<forall>rid \<in> snd ` set (ch_sent s). failed_with s' rid exc) \<and>
    ch_queue s' = ch_queue s @ answers @ [(disc, HandleDisconnect)] \<and> msg_kind disc = MDisconnect \<and>
    map snd answers = map (\<lambda>(k, rid). RunHandlers rid (o_handlers (the (ch_outreqs s rid)))) (ch_sent s)"
proof -
  obtain s1 resps where r: "respond_pending (map snd (ch_sent s)) exc s = (Inr (), s1)"
    "ch_sent s1 = []" "length resps = length (ch_sent s)"
    "\<forall>i < length resps. resps ! i = disconnect_response (ch_fresh s + i) (snd (ch_sent s ! i))
       (the (ch_outreqs s (snd (ch_sent s ! i)))) exc"
    "ch_queue s1 = ch_queue s @ answer_items (ch_outreqs s) (ch_sent s) resps"
    "\<forall>i < length resps. \<exists>q'. ch_outreqs s1 (snd (ch_sent s ! i)) = Some q' \<and>
       o_response q' = Some (resps ! i) \<and> o_handlers q' = []"
    "ch_written s1 = ch_written s"
    using respond_pending_all [OF assms, of exc] by blast
  define disc where "disc = \<lparr>msg_id = ch_fresh s1, msg_kind = MDisconnect, msg_seq = JNull, msg_name = [],
    msg_body = Payload JNull, msg_request = None\<rparr>"
  define s' where "s' = s1\<lparr>ch_fresh := Suc (ch_fresh s1), ch_queue := ch_queue s1 @ [(disc, HandleDisconnect)],
    ch_thread := (if ch_thread s1 = None then Some LoopTop else ch_thread s1), ch_closed := True\<rparr>"
  have run: "finish_parsing exc s = (Inr (), s')"
    using r(1,2)
    by (simp add: finish_parsing_def andthen_def new_message_def fresh_id_def enqueue_handlers_state
        channel_close_def s'_def disc_def)
  have "failed_with s' rid exc" if rid: "rid \<in> snd ` set (ch_sent s)" for rid
  proof -
    obtain i where i: "i < length resps" "snd (ch_sent s ! i) = rid"
      using rid r(3) by (auto simp: in_set_conv_nth)
    with r(4,6) show ?thesis
      by (fastforce simp: failed_with_def s'_def disconnect_response_def)
  qed
  moreover have "map snd (answer_items (ch_outreqs s) (ch_sent s) resps) =
      map (\<lambda>(k, rid). RunHandlers rid (o_handlers (the (ch_outreqs s rid)))) (ch_sent s)"
    by (rule nth_equalityI) (use r(3) in \<open>auto simp: answer_items_def case_prod_beta\<close>)
  ultimately show ?thesis
    using run r by (intro exI [of _ s'] exI [of _ "answer_items (ch_outreqs s) (ch_sent s) resps"] exI [of _ disc])
      (auto simp: s'_def disc_def)
qed

definition two_pending :: chan where
  "two_pending = snd (andthen (send_request ''pause'' JNull) (\<lambda>rid.
     andthen (on_response rid 7) (\<lambda>_. send_request ''threads'' JNull)) (new_channel 0))"

lemma two_pending_simps:
  "ch_sent two_pending = [(1, 0), (2, 1)]" "pending_ok two_pending"
  by (simp_all add: two_pending_def send_request_cases andthen_def on_response_def enqueue_response_handlers_def
      new_channel_def write_failure_def registered_def pending_ok_def od_keys_def)

theorem finish_parsing_answers_witness:
  "\<exists>s'. finish_parsing (NoMoreMessages 0 no_more_messages) two_pending = (Inr (), s') \<and>
     failed_with s' 0 (NoMoreMessages 0 no_more_messages) \<and>
     failed_with s' 1 (NoMoreMessages 0 no_more_messages)"
  using finish_parsing_answers [OF two_pending_simps(2), of "NoMoreMessages 0 no_more_messages"]
  by (auto simp: two_pending_simps(1))

text \<open>
  Anything else that ends the loop is not a disconnect: after input that \<open>read_json\<close>
  rejects (a header without a valid length, text that is not JSON), a value that is no object,
  or an object of unknown \<open>type\<close>, the parser thread is gone, with the channel open, the pending
  requests unanswered and nothing enqueued.
\<close>

theorem bad_input_ends_parser:
  "parser_turn (Inl e) s =
     (case e of NoMoreMessages _ _ \<Rightarrow> (snd (finish_parsing e s))\<lparr>ch_parser := Finished\<rparr>
      | _ \<Rightarrow> s\<lparr>ch_parser := Finished\<rparr>) \<and>
   (case object_hook v of
      JObj d \<Rightarrow> md_get d ''type'' \<in> set message_types \<or> parser_turn (Inr v) s = s\<lparr>ch_parser := Finished\<rparr>
    | _ \<Rightarrow> parser_turn (Inr v) s = s\<lparr>ch_parser := Finished\<rparr>)"
  by (auto simp: parser_turn_def parse_incoming_message_def parse_message_cases message_types_def
      split: exn.splits jv.splits)

section \<open>Handling\<close>

lemma finish_result_answers:
  assumes "finish_result m result s = (Inr (), s')"
  shows "ch_responses s' (msg_id m) \<noteq> None \<or> ch_closed s' \<or> result = RNoResponse \<and> s' = s"
  using assms
  by (auto simp: finish_result_def respond_cases attempt_def result_body_def write_failure_def
      split: if_splits option.splits hresult.splits exn.splits)

text \<open>
  C11: A request whose handling ends without an exception has been answered, unless its handler
  returned \<open>NO_RESPONSE\<close> (and then nothing more was done) or the channel is closed. This holds
  of every handler, whatever it does to the channel before it returns or raises.
\<close>

theorem handled_request_is_answered:
  "case request_handle hs m s of
     (Inl e, s') \<Rightarrow> True
   | (Inr _, s') \<Rightarrow> (\<exists>b. ch_responses s' (msg_id m) = Some b) \<or> ch_closed s' \<or>
       (\<exists>h. get_handler_for hs ''request'' (msg_name m) = Inr h \<and> h m s = (Inr RNoResponse, s'))"
proof (cases "get_handler_for hs ''request'' (msg_name m)")
  case (Inr h)
  obtain r s1 where h: "h m s = (r, s1)" by (cases "h m s")
  define result where "result = (case r of Inl e \<Rightarrow> RError e | Inr x \<Rightarrow> x)"
  show ?thesis
  proof (cases "\<exists>e. r = Inl e \<and> \<not> handled_failure e m")
    case True
    with Inr h show ?thesis by (auto simp: request_handle_def andthen_def attempt_def)
  next
    case False
    then have run: "request_handle hs m s = finish_result m result s1"
      using Inr h by (auto simp: request_handle_def andthen_def attempt_def result_def split: sum.splits)
    have "result = RNoResponse \<Longrightarrow> h m s = (Inr RNoResponse, s1)"
      using h by (auto simp: result_def split: sum.splits)
    with run Inr finish_result_answers [of m result s1] show ?thesis
      by (auto split: prod.splits sum.splits)
  qed
qed (simp add: request_handle_def andthen_def)

text \<open>
  A handler that does \<open>raise request.isnt_valid(...)\<close> or \<open>raise request.cant_handle(...)\<close> on an
  unanswered request of an open channel sends exactly one response, a failure with the reason
  as its message, and the message loop goes on.
\<close>

theorem raising_handler_answers_once:
  assumes "get_handler_for hs ''request'' (msg_name m) = Inr (\<lambda>m. andthen (message_error k reason m) raise)"
    and "msg_kind m = MRequest" and "ch_responses s (msg_id m) = None" and "write_failure s = None"
  shows "\<exists>d. request_handle hs m s =
      (Inr (), s\<lparr>ch_next_seq := ch_next_seq s + 1, ch_written := ch_written s @ [d],
         ch_responses := (ch_responses s)(msg_id m \<mapsto> Failure (Handling k reason (Some (msg_id m)) 0))\<rparr>) \<and>
    map_of d ''request_seq'' = Some (msg_seq m) \<and> map_of d ''success'' = Some (JBool False) \<and>
    map_of d ''message'' = Some (JStr (exn_str (Handling k reason None 0)))"
proof -
  let ?e = "Handling k reason (Some (msg_id m)) 0"
  have "handled_failure ?e m" by (simp add: handled_failure_def is_handling_def applies_to_def)
  moreover have "exn_str ?e = exn_str (Handling k reason None 0)" by (cases k) simp_all
  ultimately show ?thesis
    using assms
    by (intro exI [of _ "sealed (response_dict m (Failure ?e)) (ch_next_seq s)"])
      (simp add: request_handle_def andthen_def attempt_def message_error_def Let_def respond_cases
        finish_result_def returns_response_def sealed_def response_dict_def)
qed

definition a_request :: message where
  "a_request = \<lparr>msg_id = 0, msg_kind = MRequest, msg_seq = JInt 4, msg_name = ''pause'',
     msg_body = Payload (JObj []), msg_request = None\<rparr>"

theorem raising_handler_answers_once_witness:
  "\<exists>d. request_handle (\<lambda>name. if name = ''request''
        then Some (\<lambda>m. andthen (cant_handle ''not now'' m) raise) else None) a_request (new_channel 0) =
      (Inr (), (new_channel 0)\<lparr>ch_next_seq := 2, ch_written := [d],
         ch_responses := [0 \<mapsto> Failure (Handling MessageHandlingError ''not now'' (Some 0) 0)]\<rparr>) \<and>
    map_of d ''message'' = Some (JStr ''not now'')"
  using raising_handler_answers_once [of "\<lambda>name. if name = ''request''
        then Some (\<lambda>m. andthen (cant_handle ''not now'' m) raise) else None" a_request
        MessageHandlingError "''not now''" "new_channel 0"]
  by (simp add: get_handler_for_def a_request_def new_channel_def write_failure_def) blast

text \<open>
  The class and the reason of a message-handling error survive the wire: \<open>str\<close> of the
  exception goes out as \<open>message\<close>, and \<open>Response._parse\<close> makes the same exception of it,
  exactly when it is an \<open>InvalidMessageError\<close> or its reason does not begin with that class's
  prefix.
\<close>

theorem error_roundtrip:
  "response_error (exn_str (Handling k reason c n)) = Handling k reason None 0 \<longleftrightarrow>
     \<not> (k = MessageHandlingError \<and> starts_with reason invalid_prefix)"
proof (cases k)
  case MessageHandlingError
  then show ?thesis by (auto simp: response_error_def)
next
  case InvalidMessageError
  then show ?thesis
    using starts_with_append [of invalid_prefix reason] by (simp add: response_error_def invalid_prefix_def)
qed

section \<open>A request and its response between two channels\<close>

text \<open>What the other side sees of an argument or a body: nothing is sent for \<open>None\<close> and \<open>{}\<close>.\<close>

definition as_received :: "jv \<Rightarrow> jv" where
  "as_received v = (if v = JNull \<or> v = Missing then JObj [] else v)"

definition wire_request :: "string \<Rightarrow> jv \<Rightarrow> int \<Rightarrow> (string, jv) odict" where
  "wire_request command arguments seq = sealed (request_dict command arguments) seq"

lemma parse_wire_request:
  "parse_message (wire_request command arguments seq) s =
    (Inr (), with_handler
       \<lparr>msg_id = ch_fresh s, msg_kind = MRequest, msg_seq = JInt seq, msg_name = command,
        msg_body = Payload (as_received arguments), msg_request = None\<rparr> ''Request._handle'' s)"
  by (auto simp: parse_message_cases wire_request_def sealed_def md_get_def has_member_def request_dict_def
      optional_member_def incoming_message_def payload_of_def str_of_def as_received_def is_subclass_def)

definition received_body :: "nat \<Rightarrow> body \<Rightarrow> body" where
  "received_body rid b =
    (case b of Payload v \<Rightarrow> Payload (as_received v)
     | Failure e \<Rightarrow> Failure (with_cause rid (response_error (exn_str e))))"

lemma parse_wire_response:
  assumes "msg_seq m = JInt k" and "map_of (ch_sent c) k = Some rid" and "ch_outreqs c rid = Some q"
  shows "parse_message (sealed (response_dict m b) seq) c =
    (Inr (), answered k rid q \<lparr>msg_id = ch_fresh c, msg_kind = MResponse, msg_seq = JInt seq,
       msg_name = msg_name m, msg_body = received_body rid b, msg_request = Some rid\<rparr> c)"
proof -
  let ?d = "sealed (response_dict m b) seq"
  have members: "md_get ?d ''type'' = JStr ''response''" "wellformed_response ?d"
    "map_of ?d ''request_seq'' = Some (JInt k)"
    using assms(1)
    by (auto simp: sealed_def md_get_def wellformed_response_def has_member_def response_dict_def
        optional_member_def is_subclass_def split: body.splits)
  have "incoming_response (ch_fresh c) rid ?d = \<lparr>msg_id = ch_fresh c, msg_kind = MResponse,
      msg_seq = JInt seq, msg_name = msg_name m, msg_body = received_body rid b, msg_request = Some rid\<rparr>"
    by (auto simp: incoming_response_def sealed_def response_dict_def optional_member_def received_body_def
        payload_of_def as_received_def str_of_def split: body.splits)
  with response_matched [OF members(1,2), of c rid q] members(3) assms show ?thesis
    by (simp add: int_of_def)
qed



end
