(* ===== verification/Channel.thy ===== *)
theory Channel
  imports MessageFacts
begin

text \<open>
  \<open>JsonMessageChannel\<close> with its threads: the parser thread, the handler thread of
  \<open>_run_handlers\<close>, and any number of threads that send, respond, register callbacks and
  close, interleaved at the points where the code takes the channel's lock. A handler is any
  sequence of such operations between the start of its call and its end.
\<close>

section \<open>The threads\<close>

text \<open>
  A send that has taken its sequence number in \<open>_send_message\<close> and has not yet entered the second
  \<open>with self\<close>, where the message is written.
\<close>

datatype sending =
    SendRequest string jv
  | SendEvent string jv
  | SendResponse message body

text \<open>
  \<open>sy_handled\<close> lists the queue items whose handler has been called, \<open>sy_skipped\<close> the ones that
  \<open>_run_handlers\<close> passed over, \<open>sy_registered\<close> the callbacks given to \<open>on_response\<close>, each with
  its request, all in order. They record the past and no step reads them.
\<close>

record sys =
  sy_chan :: chan
  sy_sending :: "(int \<times> sending) list"
  sy_handled :: "(message \<times> hfun) list"
  sy_skipped :: "(message \<times> hfun) list"
  sy_registered :: "(nat \<times> nat) list"

text \<open>The second half of a send, under the lock.\<close>

definition sending_dict :: "sending \<Rightarrow> (string, jv) odict" where
  "sending_dict x =
    (case x of
       SendRequest command arguments \<Rightarrow> request_dict command arguments
     | SendEvent event bdy \<Rightarrow>
         [(''type'', JStr ''event''), (''event'', JStr event)] @ optional_member ''body'' bdy
     | SendResponse m b \<Rightarrow> response_dict m b)"

definition complete_send :: "int \<Rightarrow> sending \<Rightarrow> (chan, exn, unit) sem" where
  "complete_send seq x =
    (case x of
       SendRequest command arguments \<Rightarrow>
         andthen fresh_id (\<lambda>rid.
         andthen (register_request command arguments rid seq) (\<lambda>_.
         write_message (sealed (sending_dict x) seq)))
     | SendEvent event bdy \<Rightarrow> write_message (sealed (sending_dict x) seq)
     | SendResponse m b \<Rightarrow>
         andthen (write_message (sealed (sending_dict x) seq)) (\<lambda>_.
         modify (\<lambda>s. s\<lparr>ch_responses := (ch_responses s)(msg_id m \<mapsto> b)\<rparr>)))"

text \<open>
  \<open>closed and handler in (Event._handle, Request._handle)\<close>: a bound method is not equal to
  the function it binds.
\<close>

definition skip_when_closed :: "bool \<Rightarrow> message \<times> hfun \<Rightarrow> bool" where
  "skip_when_closed seen_closed item \<longleftrightarrow>
     seen_closed \<and> snd item \<in> {PlainFunction ''Event._handle'', PlainFunction ''Request._handle''}"

text \<open>What follows the call of the registered handler in \<open>_handle\<close>, given how that call ended.\<close>

definition after_call :: "message \<times> hfun \<Rightarrow> exn + hresult \<Rightarrow> (chan, exn, unit) sem" where
  "after_call item outcome =
    (case snd item of
       BoundMethod f _ \<Rightarrow>
         (if f = ''Event._handle'' then
            (case outcome of
               Inl e \<Rightarrow> if handled_failure e (fst item) then ret () else raise e
             | Inr r \<Rightarrow> if r = RNone then ret () else raise (AssertionError ''tried to respond to event''))
          else
            (case outcome of
               Inl e \<Rightarrow> if handled_failure e (fst item) then finish_result (fst item) (RError e) else raise e
             | Inr r \<Rightarrow> finish_result (fst item) r))
     | _ \<Rightarrow> (case outcome of Inl e \<Rightarrow> raise e | Inr _ \<Rightarrow> ret ()))"

abbreviation upd_chan :: "(chan \<Rightarrow> chan) \<Rightarrow> sys \<Rightarrow> sys" where
  "upd_chan f y \<equiv> y\<lparr>sy_chan := f (sy_chan y)\<rparr>"

definition step_start :: "sys \<Rightarrow> sys option" where
  "step_start y =
    (if ch_parser (sy_chan y) = NotStarted then Some (upd_chan (ch_parser_update (\<lambda>_. Parsing)) y) else None)"

definition step_parse :: "exn + jv \<Rightarrow> sys \<Rightarrow> sys option" where
  "step_parse incoming y =
    (if ch_parser (sy_chan y) = Parsing then Some (upd_chan (parser_turn incoming) y) else None)"

text \<open>The first half of a send; \<open>respond\<close> gets there only if the request has no response.\<close>

definition step_alloc :: "sending \<Rightarrow> sys \<Rightarrow> sys option" where
  "step_alloc x y =
    (if (case x of SendResponse m _ \<Rightarrow> ch_responses (sy_chan y) (msg_id m) \<noteq> None | _ \<Rightarrow> False) then None
     else Some (y\<lparr>sy_sending := sy_sending y @ [(ch_next_seq (sy_chan y), x)],
       sy_chan := snd (next_seq (sy_chan y))\<rparr>))"

definition step_write :: "nat \<Rightarrow> sys \<Rightarrow> sys option" where
  "step_write i y =
    (if i < length (sy_sending y)
     then (case sy_sending y ! i of (seq, x) \<Rightarrow>
       Some (y\<lparr>sy_sending := take i (sy_sending y) @ drop (Suc i) (sy_sending y),
         sy_chan := snd (complete_send seq x (sy_chan y))\<rparr>))
     else None)"

definition step_on_response :: "nat \<Rightarrow> nat \<Rightarrow> sys \<Rightarrow> sys option" where
  "step_on_response rid callback y =
    (if ch_outreqs (sy_chan y) rid = None then None
     else Some (y\<lparr>sy_chan := snd (on_response rid callback (sy_chan y)),
       sy_registered := sy_registered y @ [(rid, callback)]\<rparr>))"

definition step_close :: "sys \<Rightarrow> sys option" where
  "step_close y = Some (upd_chan (\<lambda>s. snd (channel_close s)) y)"

text \<open>
  The handler thread. With the channel seen closed it joins the parser thread; with the channel
  open and nothing queued it waits on the condition.
\<close>

definition step_handler :: "sys \<Rightarrow> sys option" where
  "step_handler y =
    (let s = sy_chan y in
     case ch_thread s of
       None \<Rightarrow> None
     | Some LoopTop \<Rightarrow> Some (upd_chan (ch_thread_update (\<lambda>_. Some (SeenClosed (ch_closed s)))) y)
     | Some (SeenClosed seen) \<Rightarrow>
         if (if seen then ch_parser s \<noteq> Finished else ch_queue s = []) then None
         else if seen \<and> ch_queue s = [] then Some (upd_chan (ch_thread_update (\<lambda>_. None)) y)
         else Some (y\<lparr>sy_chan := s\<lparr>ch_queue := [], ch_thread := Some (Running seen (ch_queue s))\<rparr>\<rparr>)
     | Some (Running seen []) \<Rightarrow> Some (upd_chan (ch_thread_update (\<lambda>_. Some LoopTop)) y)
     | Some (Running seen (item # items)) \<Rightarrow>
         if skip_when_closed seen item
         then Some (y\<lparr>sy_chan := s\<lparr>ch_thread := Some (Running seen items)\<rparr>, sy_skipped := sy_skipped y @ [item]\<rparr>)
         else Some (y\<lparr>sy_chan := s\<lparr>ch_thread := Some (InHandler seen item items)\<rparr>,
           sy_handled := sy_handled y @ [item]\<rparr>)
     | Some (InHandler seen item items) \<Rightarrow> None)"

text \<open>The end of a handler's call; an exception closes the channel and exits the process.\<close>

definition step_return :: "exn + hresult \<Rightarrow> sys \<Rightarrow> sys option" where
  "step_return outcome y =
    (case ch_thread (sy_chan y) of
       Some (InHandler seen item items) \<Rightarrow>
         (case after_call item outcome (sy_chan y) of
            (Inr _, s) \<Rightarrow> Some (y\<lparr>sy_chan := s\<lparr>ch_thread := Some (Running seen items)\<rparr>\<rparr>)
          | (Inl e, s) \<Rightarrow> Some (y\<lparr>sy_chan := s\<lparr>ch_closed := True, ch_exited := True\<rparr>\<rparr>))
     | _ \<Rightarrow> None)"

datatype action =
    Start
  | Parse "exn + jv"
  | Alloc sending
  | WriteOut nat
  | Callback nat nat
  | Close
  | Handler
  | Returns "exn + hresult"

fun perform :: "action \<Rightarrow> sys \<Rightarrow> sys option" where
  "perform Start y = step_start y"
| "perform (Parse incoming) y = step_parse incoming y"
| "perform (Alloc x) y = step_alloc x y"
| "perform (WriteOut i) y = step_write i y"
| "perform (Callback rid cb) y = step_on_response rid cb y"
| "perform Close y = step_close y"
| "perform Handler y = step_handler y"
| "perform (Returns outcome) y = step_return outcome y"

text \<open>Nothing happens in the process after \<open>os._exit\<close>.\<close>

inductive step :: "sys \<Rightarrow> sys \<Rightarrow> bool" where
  step: "\<not> ch_exited (sy_chan y) \<Longrightarrow> perform a y = Some y' \<Longrightarrow> step y y'"

inductive_cases stepE: "step y y'"

fun run :: "action list \<Rightarrow> sys \<Rightarrow> sys option" where
  "run [] y = Some y"
| "run (a # as) y =
     (if ch_exited (sy_chan y) then None else case perform a y of None \<Rightarrow> None | Some y' \<Rightarrow> run as y')"

definition initial :: "sys \<Rightarrow> bool" where
  "initial y \<longleftrightarrow> (\<exists>i b. y = \<lparr>sy_chan = (new_channel i)\<lparr>ch_broken := b\<rparr>, sy_sending = [], sy_handled = [],
     sy_skipped = [], sy_registered = []\<rparr>)"

section \<open>The invariant\<close>

fun thread_items :: "hthread option \<Rightarrow> (message \<times> hfun) list" where
  "thread_items (Some (Running _ items)) = items"
| "thread_items (Some (InHandler _ _ items)) = items"
| "thread_items _ = []"

text \<open>Every request in \<open>_sent_requests\<close> is unanswered and filed under its own number.\<close>

definition requests_ok :: "chan \<Rightarrow> bool" where
  "requests_ok s \<longleftrightarrow>
     distinct (od_keys (ch_sent s)) \<and>
     (\<forall>k rid. (k, rid) \<in> set (ch_sent s) \<longrightarrow>
        (\<exists>q. ch_outreqs s rid = Some q \<and> o_seq q = k \<and> o_response q = None)) \<and>
     (\<forall>rid q. ch_outreqs s rid = Some q \<longrightarrow> rid < ch_fresh s \<and> (o_response q \<noteq> None \<longrightarrow> o_handlers q = []))"

text \<open>The sequence numbers on the wire, and those taken by sends that are under way.\<close>

definition wire_numbers :: "int list \<Rightarrow> chan \<Rightarrow> jv option list" where
  "wire_numbers taken s = map (\<lambda>d. map_of d ''seq'') (ch_written s) @ map (\<lambda>n. Some (JInt n)) taken"

definition wire_ok :: "int list \<Rightarrow> chan \<Rightarrow> bool" where
  "wire_ok taken s \<longleftrightarrow> 0 < ch_next_seq s \<and> distinct (wire_numbers taken s) \<and>
     set (wire_numbers taken s) \<subseteq> (\<lambda>n. Some (JInt n)) ` {0 <..< ch_next_seq s}"

definition is_plain :: "hfun \<Rightarrow> bool" where
  "is_plain h = (case h of PlainFunction _ \<Rightarrow> True | _ \<Rightarrow> False)"

definition queue_ok :: "chan \<Rightarrow> bool" where
  "queue_ok s \<longleftrightarrow> (ch_queue s \<noteq> [] \<longrightarrow> ch_thread s \<noteq> None) \<and>
     (\<forall>item \<in> set (thread_items (ch_thread s) @ ch_queue s). \<not> is_plain (snd item))"

text \<open>The callbacks for one request among queue items, and the ones it still holds itself.\<close>

fun item_callbacks :: "nat \<Rightarrow> hfun \<Rightarrow> nat list" where
  "item_callbacks rid (RunHandlers rid' cs) = (if rid' = rid then cs else [])"
| "item_callbacks rid _ = []"

definition callbacks_in :: "nat \<Rightarrow> (message \<times> hfun) list \<Rightarrow> nat list" where
  "callbacks_in rid items = concat (map (\<lambda>item. item_callbacks rid (snd item)) items)"

definition held_callbacks :: "chan \<Rightarrow> nat \<Rightarrow> nat list" where
  "held_callbacks s rid = (case ch_outreqs s rid of None \<Rightarrow> [] | Some q \<Rightarrow> o_handlers q)"

definition registered_for :: "nat \<Rightarrow> (nat \<times> nat) list \<Rightarrow> nat list" where
  "registered_for rid reg = map snd (filter (\<lambda>(r, _). r = rid) reg)"

definition callbacks_ok :: "(nat \<times> nat) list \<Rightarrow> (message \<times> hfun) list \<Rightarrow> chan \<Rightarrow> bool" where
  "callbacks_ok reg handled s \<longleftrightarrow>
     (\<forall>rid. registered_for rid reg =
        callbacks_in rid (handled @ thread_items (ch_thread s) @ ch_queue s) @ held_callbacks s rid) \<and>
     (\<forall>(rid, _) \<in> set reg. ch_outreqs s rid \<noteq> None)"

definition chan_inv :: "(nat \<times> nat) list \<Rightarrow> (message \<times> hfun) list \<Rightarrow> int list \<Rightarrow> chan \<Rightarrow> bool" where
  "chan_inv reg handled taken s \<longleftrightarrow>
     requests_ok s \<and> wire_ok taken s \<and> queue_ok s \<and> callbacks_ok reg handled s"

definition sys_inv :: "sys \<Rightarrow> bool" where
  "sys_inv y \<longleftrightarrow>
     chan_inv (sy_registered y) (sy_handled y) (map fst (sy_sending y)) (sy_chan y) \<and> sy_skipped y = []"

lemma callbacks_in_append [simp]: "callbacks_in rid (xs @ ys) = callbacks_in rid xs @ callbacks_in rid ys"
  and callbacks_in_simps [simp]: "callbacks_in rid [] = []"
    "callbacks_in rid (item # xs) = item_callbacks rid (snd item) @ callbacks_in rid xs"
  by (simp_all add: callbacks_in_def)

lemma registered_for_simps [simp]:
  "registered_for rid [] = []"
  "registered_for rid (reg @ [(r, c)]) = registered_for rid reg @ (if r = rid then [c] else [])"
  by (simp_all add: registered_for_def)

lemma thread_items_start [simp]: "thread_items (if b then Some LoopTop else t) = (if b then [] else thread_items t)"
  by simp

lemma requests_ok_number:
  "requests_ok s \<Longrightarrow> (k, rid) \<in> set (ch_sent s) \<Longrightarrow> (k', rid) \<in> set (ch_sent s) \<Longrightarrow> k' = k"
  unfolding requests_ok_def by (metis option.inject)

lemma requests_ok_pending: "requests_ok s \<Longrightarrow> pending_ok s"
  by (force simp: requests_ok_def pending_ok_def)

subsection \<open>What enqueuing and answering do to it\<close>

definition enqueued :: "(message \<times> hfun) list \<Rightarrow> chan \<Rightarrow> chan" where
  "enqueued items s = s\<lparr>ch_queue := ch_queue s @ items,
     ch_thread := (if ch_thread s = None then Some LoopTop else ch_thread s)\<rparr>"

lemma chan_inv_enqueued:
  assumes "chan_inv reg handled taken s"
    and "\<And>item. item \<in> set items \<Longrightarrow> \<not> is_plain (snd item)" and "\<And>rid. callbacks_in rid items = []"
  shows "chan_inv reg handled taken (enqueued items s)"
  using assms
  by (auto simp: chan_inv_def enqueued_def requests_ok_def wire_ok_def wire_numbers_def queue_ok_def
      callbacks_ok_def held_callbacks_def)

lemma chan_inv_fresh:
  "chan_inv reg handled taken s \<Longrightarrow> chan_inv reg handled taken (s\<lparr>ch_fresh := Suc (ch_fresh s)\<rparr>)"
  "chan_inv reg handled taken s \<Longrightarrow> chan_inv reg handled taken (s\<lparr>ch_exited := b\<rparr>)"
  "chan_inv reg handled taken s \<Longrightarrow> chan_inv reg handled taken (s\<lparr>ch_closed := b\<rparr>)"
  "chan_inv reg handled taken s \<Longrightarrow> chan_inv reg handled taken (s\<lparr>ch_parser := p\<rparr>)"
  "chan_inv reg handled taken s \<Longrightarrow> chan_inv reg handled taken (s\<lparr>ch_responses := rs\<rparr>)"
  by (auto simp: chan_inv_def requests_ok_def wire_ok_def wire_numbers_def queue_ok_def
      callbacks_ok_def held_callbacks_def less_SucI)

lemma chan_inv_answered:
  assumes inv: "chan_inv reg handled taken s" and q: "ch_outreqs s rid = Some q"
    and k: "\<And>k'. (k', rid) \<in> set (ch_sent s) \<Longrightarrow> k' = k"
  shows "chan_inv reg handled taken (answered k rid q resp s)"
proof -
  have "requests_ok (answered k rid q resp s)"
    using inv q k by (auto simp: chan_inv_def requests_ok_def answered_def distinct_od_del less_SucI)
      (auto simp: od_del_def)
  moreover have "callbacks_ok reg handled (answered k rid q resp s)"
    using inv q by (auto simp: chan_inv_def callbacks_ok_def answered_def held_callbacks_def)
  ultimately show ?thesis
    using inv by (auto simp: chan_inv_def wire_ok_def wire_numbers_def queue_ok_def answered_def is_plain_def)
qed

subsection \<open>Parsing keeps it\<close>

text \<open>A response that answers no pending request gets a request of its own.\<close>

definition synthetic :: "int \<Rightarrow> string \<Rightarrow> outreq" where
  "synthetic k command = \<lparr>o_seq = k, o_command = command, o_args = JStr ''<unknown>'', o_response = None, o_handlers = []\<rparr>"

lemma chan_inv_fresh_free: "chan_inv reg handled taken s \<Longrightarrow> ch_outreqs s (ch_fresh s) = None"
  unfolding chan_inv_def requests_ok_def by (metis less_irrefl option.exhaust)

lemma chan_inv_synthetic:
  assumes "chan_inv reg handled taken s"
  shows "chan_inv reg handled taken
    (s\<lparr>ch_fresh := Suc (ch_fresh s), ch_outreqs := (ch_outreqs s)(ch_fresh s \<mapsto> synthetic k command)\<rparr>)"
proof -
  let ?s = "s\<lparr>ch_fresh := Suc (ch_fresh s), ch_outreqs := (ch_outreqs s)(ch_fresh s \<mapsto> synthetic k command)\<rparr>"
  have fresh: "ch_outreqs s (ch_fresh s) = None" by (rule chan_inv_fresh_free [OF assms])
  have "requests_ok ?s"
    using assms fresh by (force simp: chan_inv_def requests_ok_def synthetic_def less_SucI)
  moreover have "held_callbacks ?s rid = held_callbacks s rid" for rid
    using fresh by (simp add: held_callbacks_def synthetic_def)
  then have "callbacks_ok reg handled ?s"
    using assms by (auto simp: chan_inv_def callbacks_ok_def)
  ultimately show ?thesis
    using assms by (simp add: chan_inv_def wire_ok_def wire_numbers_def queue_ok_def)
qed

lemma answer_then:
  assumes "ch_outreqs s rid = Some q"
  shows "andthen (new_message MResponse seq name b (Some rid))
      (\<lambda>m. andthen (set_response rid m) (\<lambda>_. andthen (enqueue_response_handlers rid) (\<lambda>_. f m)))
      (s\<lparr>ch_sent := od_del k (ch_sent s)\<rparr>) =
    (let resp = \<lparr>msg_id = ch_fresh s, msg_kind = MResponse, msg_seq = seq, msg_name = name, msg_body = b,
       msg_request = Some rid\<rparr> in f resp (answered k rid q resp s))"
  using assms
  by (auto simp: new_message_def fresh_id_def andthen_def set_response_def enqueue_response_handlers_answered
      answered_def Let_def intro!: arg_cong [where f = "f _"])

definition unknown_answered :: "int \<Rightarrow> string \<Rightarrow> message \<Rightarrow> chan \<Rightarrow> chan" where
  "unknown_answered k command resp s = answered k (ch_fresh s) (synthetic k command) resp
     (s\<lparr>ch_fresh := Suc (ch_fresh s), ch_outreqs := (ch_outreqs s)(ch_fresh s \<mapsto> synthetic k command)\<rparr>)"

text \<open>The three things that parsing a response can do to the channel.\<close>

definition response_effect :: "chan \<Rightarrow> chan \<Rightarrow> bool" where
  "response_effect s t \<longleftrightarrow> t = s \<or>
     (\<exists>k rid q resp. map_of (ch_sent s) k = Some rid \<and> ch_outreqs s rid = Some q \<and> t = answered k rid q resp s) \<or>
     (\<exists>k command resp. map_of (ch_sent s) k = None \<and> t = unknown_answered k command resp s)"

lemma take_answer_effect:
  assumes "pending_ok s"
  shows "response_effect s (snd (andthen (take_request k command) (\<lambda>(rid, known).
      andthen (new_message MResponse seq name (b rid) (Some rid)) (\<lambda>resp.
      andthen (set_response rid resp) (\<lambda>_. andthen (enqueue_response_handlers rid) (\<lambda>_.
      if known then ret resp else andthen (isnt_valid reason resp) raise)))) s))"
proof (cases "map_of (ch_sent s) k")
  case (Some rid)
  then obtain q where "ch_outreqs s rid = Some q"
    using assms map_of_SomeD [OF Some] by (force simp: pending_ok_def)
  moreover have "andthen (take_request k command) f s = f (rid, True) (s\<lparr>ch_sent := od_del k (ch_sent s)\<rparr>)"
    for f :: "nat \<times> bool \<Rightarrow> (chan, exn, message) sem"
    by (simp add: andthen_def take_request_known [OF Some])
  ultimately show ?thesis
    using Some by (auto simp: response_effect_def answer_then Let_def)
next
  case None
  let ?s1 = "s\<lparr>ch_fresh := Suc (ch_fresh s), ch_outreqs := (ch_outreqs s)(ch_fresh s \<mapsto> synthetic k command)\<rparr>"
  have take: "take_request k command s = (Inr (ch_fresh s, False), ?s1)"
    using None by (simp add: take_request_def andthen_def fresh_id_def synthetic_def)
  have andthen_take: "andthen (take_request k command) f s = f (ch_fresh s, False) ?s1"
    for f :: "nat \<times> bool \<Rightarrow> (chan, exn, message) sem"
    by (simp add: andthen_def take)
  have andthen_then_raise: "andthen (ret e) raise t = (Inl e, t :: chan)" for e :: exn and t
    by (simp add: andthen_def)
  have "?s1\<lparr>ch_sent := od_del k (ch_sent ?s1)\<rparr> = ?s1"
    using None by (simp add: od_del_absent in_od_keys_iff)
  with answer_then [of ?s1 "ch_fresh s" "synthetic k command" seq name "b (ch_fresh s)"
      "\<lambda>resp. andthen (isnt_valid reason resp) (raise :: exn \<Rightarrow> (chan, exn, message) sem)" k] None
  have "snd (andthen (take_request k command) (\<lambda>(rid, known).
      andthen (new_message MResponse seq name (b rid) (Some rid)) (\<lambda>resp.
      andthen (set_response rid resp) (\<lambda>_. andthen (enqueue_response_handlers rid) (\<lambda>_.
      if known then ret resp else andthen (isnt_valid reason resp) raise)))) s) =
    unknown_answered k command \<lparr>msg_id = Suc (ch_fresh s), msg_kind = MResponse, msg_seq = seq, msg_name = name,
       msg_body = b (ch_fresh s), msg_request = Some (ch_fresh s)\<rparr> s"
    by (simp add: unknown_answered_def andthen_take Let_def message_error_def andthen_then_raise)
  with None show ?thesis unfolding response_effect_def by blast
qed

lemma snd_andthen_of_result:
  "snd (andthen (of_result r) f s) = (case r of Inl e \<Rightarrow> s | Inr x \<Rightarrow> snd (f x s))"
  by (cases r) (auto simp: andthen_def)

lemma parse_response_effect:
  assumes "pending_ok s"
  shows "response_effect s (snd (parse_response d given s))"
proof -
  have skip: "response_effect s s" by (simp add: response_effect_def)
  have body: "response_effect s (snd (andthen (response_body d ok g) f s))"
    if "\<And>b. response_effect s (snd (f b s))" for ok g and f :: "body \<Rightarrow> (chan, exn, message) sem"
    using that skip
    by (auto simp: response_body_def md_call_unowned andthen_def split: option.splits sum.splits)
  show ?thesis
    unfolding parse_response_def md_call_unowned
    using take_answer_effect [OF assms] skip
    by (auto simp: snd_andthen_of_result andthen_simps intro!: body split: sum.splits)
qed

lemma chan_inv_response_effect:
  assumes "chan_inv reg handled taken s" and "response_effect s t"
  shows "chan_inv reg handled taken t"
  using assms(2) unfolding response_effect_def
proof (elim disjE exE conjE)
  fix k rid q resp
  assume t: "t = answered k rid q resp s" and "map_of (ch_sent s) k = Some rid" and q: "ch_outreqs s rid = Some q"
  then have "k' = k" if "(k', rid) \<in> set (ch_sent s)" for k'
    using assms(1) that requests_ok_number [of s k rid k'] by (simp add: chan_inv_def map_of_SomeD)
  then show ?thesis unfolding t by (rule chan_inv_answered [OF assms(1) q])
next
  fix k command resp
  assume t: "t = unknown_answered k command resp s"
  have "(k', ch_fresh s) \<notin> set (ch_sent s)" for k'
    using assms(1) chan_inv_fresh_free [OF assms(1)] by (force simp: chan_inv_def requests_ok_def)
  then show ?thesis
    unfolding t unknown_answered_def by (intro chan_inv_answered chan_inv_synthetic assms(1)) auto
qed (use assms(1) in simp)

lemma chan_inv_pending: "chan_inv reg handled taken s \<Longrightarrow> pending_ok s"
  by (simp add: chan_inv_def requests_ok_pending)

lemma enqueue_handlers_enqueued:
  "items \<noteq> [] \<Longrightarrow> enqueue_handlers items s = (Inr (), enqueued items s)"
  by (simp add: enqueue_handlers_state enqueued_def)

lemma with_handler_enqueued:
  "with_handler m f s = enqueued [(m, BoundMethod f (msg_id m))] (s\<lparr>ch_fresh := Suc (ch_fresh s)\<rparr>)"
  by (simp add: with_handler_def enqueued_def)

text \<open>
  What a predicate of the channel has to satisfy so that the parser thread keeps it: it
  survives the bookkeeping, one more queue item, and the arrival of a response.
\<close>

locale parser_kept =
  fixes P :: "chan \<Rightarrow> bool"
  assumes pending: "P s \<Longrightarrow> pending_ok s"
    and bookkeeping: "P s \<Longrightarrow> P (s\<lparr>ch_fresh := Suc (ch_fresh s)\<rparr>)" "P s \<Longrightarrow> P (s\<lparr>ch_exited := b\<rparr>)"
      "P s \<Longrightarrow> P (s\<lparr>ch_closed := b\<rparr>)" "P s \<Longrightarrow> P (s\<lparr>ch_parser := p\<rparr>)"
    and item: "P s \<Longrightarrow> \<not> is_plain h \<Longrightarrow> (\<And>rid. item_callbacks rid h = []) \<Longrightarrow> P (enqueued [(m, h)] s)"
    and response: "P s \<Longrightarrow> response_effect s t \<Longrightarrow> P t"
begin

lemma with_handler_keeps: "P s \<Longrightarrow> P (with_handler m f s)"
proof -
  assume "P s"
  then have "P (enqueued [(m, BoundMethod f (msg_id m))] (s\<lparr>ch_fresh := Suc (ch_fresh s)\<rparr>))"
    by (intro item bookkeeping(1)) (simp_all add: is_plain_def)
  then show ?thesis by (simp only: with_handler_enqueued)
qed

lemma parse_message_keeps:
  assumes "P s"
  shows "P (snd (parse_message d s))"
proof -
  have "P (snd (parse_response d None s))"
    using assms parse_response_effect [OF pending [OF assms]] by (rule response)
  then have "P (snd (attempt (andthen (parse_response d None) (\<lambda>_. ret ())) (\<lambda>e s.
         if is_invalid_message e then (Inr (), s)
         else if own_no_more (ch_id s) e then (Inl e, s) else fatal_exit s) s))"
    by (auto simp: attempt_def andthen_def fatal_exit_def bookkeeping split: prod.splits sum.splits)
  with assms show ?thesis
    by (simp add: parse_message_cases with_handler_keeps bookkeeping)
qed

lemma respond_pending_keeps: "P s \<Longrightarrow> P (snd (respond_pending rids exc s))"
proof (induction rids arbitrary: s)
  case (Cons rid rids)
  show ?case
  proof (cases "ch_outreqs s rid")
    case None
    with Cons show ?thesis by simp
  next
    case (Some q)
    have "P (snd (parse_response (disconnect_dict q (exn_str exc)) (Some exc) s))"
      using Cons.prems parse_response_effect [OF pending [OF Cons.prems]] by (rule response)
    with Some Cons.IH show ?thesis by (auto simp: andthen_def split: prod.splits sum.splits)
  qed
qed simp

lemma finish_parsing_keeps:
  assumes "P s"
  shows "P (snd (finish_parsing exc s))"
proof -
  let ?run = "respond_pending (map snd (ch_sent s)) exc s"
  have "P (snd ?run)" by (rule respond_pending_keeps [OF assms])
  moreover have "P ((enqueued [(m, HandleDisconnect)] (s'\<lparr>ch_fresh := Suc (ch_fresh s')\<rparr>))\<lparr>ch_closed := True\<rparr>)"
    if "P s'" for s' m
    using that by (intro bookkeeping item) (simp_all add: is_plain_def)
  ultimately show ?thesis
    by (auto simp: finish_parsing_def andthen_def new_message_def fresh_id_def enqueue_handlers_enqueued
        channel_close_def bookkeeping(1) split: prod.splits sum.splits)
qed

lemma parser_turn_keeps:
  assumes "P s"
  shows "P (parser_turn incoming s)"
proof -
  have "P (snd (parse_incoming_message incoming s))"
    using assms parse_message_keeps
    by (auto simp: parse_incoming_message_def split: sum.splits jv.splits)
  then show ?thesis
    by (auto simp: parser_turn_def bookkeeping finish_parsing_keeps split: prod.splits sum.splits exn.splits)
qed

end

interpretation chan_inv: parser_kept "chan_inv reg handled taken" for reg handled taken
  by unfold_locales
    (auto intro: chan_inv_pending chan_inv_fresh chan_inv_enqueued chan_inv_response_effect)

subsection \<open>Sending, responding and registering keep it\<close>

lemma map_of_seq_sealed [simp]: "map_of (sealed d seq) ''seq'' = Some (JInt seq)"
  by (simp add: sealed_def)

lemma chan_inv_written:
  assumes "chan_inv reg handled (taken @ seq # taken') s" and "map_of d ''seq'' = Some (JInt seq)"
  shows "chan_inv reg handled (taken @ taken') (s\<lparr>ch_written := ch_written s @ [d]\<rparr>)"
  using assms
  by (auto simp: chan_inv_def wire_ok_def wire_numbers_def requests_ok_def queue_ok_def callbacks_ok_def held_callbacks_def)

lemma chan_inv_drop:
  "chan_inv reg handled (taken @ seq # taken') s \<Longrightarrow> chan_inv reg handled (taken @ taken') s"
  by (auto simp: chan_inv_def wire_ok_def wire_numbers_def)

lemma chan_inv_write_message:
  assumes "chan_inv reg handled (taken @ seq # taken') s"
  shows "chan_inv reg handled (taken @ taken') (snd (write_message (sealed d seq) s))"
  using chan_inv_written [OF assms, of "sealed d seq"] chan_inv_drop [OF assms]
  by (auto simp: write_message_cases split: option.splits)

lemma chan_inv_next_seq:
  assumes "chan_inv reg handled taken s"
  shows "chan_inv reg handled (taken @ [ch_next_seq s]) (s\<lparr>ch_next_seq := ch_next_seq s + 1\<rparr>)"
proof -
  have "Some (JInt (ch_next_seq s)) \<notin> set (wire_numbers taken s)"
    using assms by (auto simp: chan_inv_def wire_ok_def)
  moreover have "wire_numbers (taken @ [ch_next_seq s]) (s\<lparr>ch_next_seq := n\<rparr>) =
      wire_numbers taken s @ [Some (JInt (ch_next_seq s))]" for n
    by (simp add: wire_numbers_def)
  ultimately have "wire_ok (taken @ [ch_next_seq s]) (s\<lparr>ch_next_seq := ch_next_seq s + 1\<rparr>)"
    using assms by (auto simp: chan_inv_def wire_ok_def)
  with assms show ?thesis
    by (simp add: chan_inv_def requests_ok_def queue_ok_def callbacks_ok_def held_callbacks_def)
qed

lemma chan_inv_register:
  assumes "chan_inv reg handled taken s"
  shows "chan_inv reg handled taken (snd (register_request command arguments (ch_fresh s) seq (s\<lparr>ch_fresh := Suc (ch_fresh s)\<rparr>)))"
proof -
  let ?q = "\<lparr>o_seq = seq, o_command = command, o_args = arguments, o_response = None, o_handlers = []\<rparr>"
  let ?s = "s\<lparr>ch_fresh := Suc (ch_fresh s), ch_outreqs := (ch_outreqs s)(ch_fresh s \<mapsto> ?q),
    ch_sent := od_set seq (ch_fresh s) (ch_sent s)\<rparr>"
  have fresh: "ch_outreqs s (ch_fresh s) = None" by (rule chan_inv_fresh_free [OF assms])
  have old: "requests_ok s" using assms by (simp add: chan_inv_def)
  have entry: "(k, rid) = (seq, ch_fresh s) \<or> (k, rid) \<in> set (ch_sent s)"
    if "(k, rid) \<in> set (od_set seq (ch_fresh s) m)" "set m \<subseteq> set (ch_sent s)" for k rid m
    using that by (induction seq "ch_fresh s" m rule: od_set.induct) (auto split: if_splits)
  have "requests_ok ?s"
    unfolding requests_ok_def
  proof (intro conjI allI impI)
    show "distinct (od_keys (ch_sent ?s))" using old by (simp add: requests_ok_def distinct_od_set)
    fix k rid assume "(k, rid) \<in> set (ch_sent ?s)"
    then consider "k = seq" "rid = ch_fresh s" | "(k, rid) \<in> set (ch_sent s)" using entry by fastforce
    then show "\<exists>q. ch_outreqs ?s rid = Some q \<and> o_seq q = k \<and> o_response q = None"
    proof cases
      case 2
      then have "rid \<noteq> ch_fresh s" using old fresh by (force simp: requests_ok_def)
      with 2 old show ?thesis by (auto simp: requests_ok_def)
    qed simp
  next
    fix rid q assume "ch_outreqs ?s rid = Some q"
    then show "rid < ch_fresh ?s" using old by (auto simp: requests_ok_def less_SucI split: if_splits)
  next
    fix rid q assume "ch_outreqs ?s rid = Some q" "o_response q \<noteq> None"
    then show "o_handlers q = []" using old by (auto simp: requests_ok_def split: if_splits)
  qed
  moreover have "held_callbacks ?s rid = held_callbacks s rid" for rid
    using fresh by (simp add: held_callbacks_def)
  then have "callbacks_ok reg handled ?s"
    using assms by (auto simp: chan_inv_def callbacks_ok_def)
  ultimately have "chan_inv reg handled taken ?s"
    using assms by (simp add: chan_inv_def wire_ok_def wire_numbers_def queue_ok_def)
  then show ?thesis by (simp add: register_request_def)
qed

lemma complete_send_keeps:
  assumes "chan_inv reg handled (taken @ seq # taken') s"
  shows "chan_inv reg handled (taken @ taken') (snd (complete_send seq x s))"
proof (cases x)
  case (SendRequest command arguments)
  have "chan_inv reg handled (taken @ seq # taken')
      (snd (register_request command arguments (ch_fresh s) seq (s\<lparr>ch_fresh := Suc (ch_fresh s)\<rparr>)))"
    by (rule chan_inv_register [OF assms])
  with SendRequest show ?thesis
    by (simp add: complete_send_def andthen_def fresh_id_def register_request_def chan_inv_write_message)
next
  case (SendEvent event bdy)
  with assms show ?thesis by (simp add: complete_send_def chan_inv_write_message)
next
  case (SendResponse m b)
  with chan_inv_write_message [OF assms, of "sending_dict x"] show ?thesis
    by (auto simp: complete_send_def andthen_def chan_inv_fresh split: prod.splits sum.splits)
qed

lemma respond_keeps:
  assumes "chan_inv reg handled taken s"
  shows "chan_inv reg handled taken (snd (respond m b s))"
proof -
  let ?s = "s\<lparr>ch_next_seq := ch_next_seq s + 1\<rparr>"
  have inv: "chan_inv reg handled (taken @ [ch_next_seq s]) ?s" by (rule chan_inv_next_seq [OF assms])
  with chan_inv_drop [of reg handled taken "ch_next_seq s" "[]"] have "chan_inv reg handled taken ?s" by simp
  moreover from inv chan_inv_written [of reg handled taken "ch_next_seq s" "[]" ?s]
  have "chan_inv reg handled taken (?s\<lparr>ch_written := ch_written s @ [sealed d (ch_next_seq s)]\<rparr>)" for d
    by simp
  ultimately show ?thesis
    using assms by (auto simp: respond_cases chan_inv_fresh split: option.splits)
qed

lemma finish_result_state:
  "snd (finish_result m result s) = s \<or> (\<exists>b. snd (finish_result m result s) = snd (respond m b s))"
proof (cases "result_body result")
  case None
  then show ?thesis by (simp add: finish_result_def)
next
  case (Some b)
  have "snd (attempt (respond m b) (\<lambda>e. case e of NoMoreMessages _ _ \<Rightarrow> ret () | _ \<Rightarrow> raise e) s) = snd (respond m b s)"
    by (cases "respond m b s"; cases "fst (respond m b s)") (auto simp: attempt_def split: exn.splits)
  with Some show ?thesis by (simp add: finish_result_def) blast
qed

lemma after_call_state:
  "snd (after_call item outcome s) = s \<or> (\<exists>b. snd (after_call item outcome s) = snd (respond (fst item) b s))"
  using finish_result_state [of "fst item" _ s]
  by (auto simp: after_call_def split: hfun.split sum.split)

lemma after_call_keeps:
  assumes "chan_inv reg handled taken s"
  shows "chan_inv reg handled taken (snd (after_call item outcome s))"
  using after_call_state [of item outcome s] respond_keeps [OF assms] assms by metis

lemma on_response_state:
  assumes "ch_outreqs s rid = Some q"
  shows "snd (on_response rid cb s) =
    (case o_response q of
       None \<Rightarrow> s\<lparr>ch_outreqs := (ch_outreqs s)(rid \<mapsto> q\<lparr>o_handlers := o_handlers q @ [cb]\<rparr>)\<rparr>
     | Some resp \<Rightarrow>
         (enqueued [(resp, RunHandlers rid (o_handlers q @ [cb]))] s)
           \<lparr>ch_outreqs := (ch_outreqs s)(rid \<mapsto> q\<lparr>o_handlers := []\<rparr>)\<rparr>)"
  using assms
  by (simp add: on_response_def andthen_def enqueue_response_handlers_def enqueue_handlers_enqueued enqueued_def
      split: option.splits)

lemma requests_ok_update:
  assumes "requests_ok s" and "ch_outreqs s rid = Some q"
    and "o_seq q' = o_seq q" and "o_response q' = o_response q" and "o_response q = None \<or> o_handlers q' = []"
  shows "requests_ok (s\<lparr>ch_outreqs := (ch_outreqs s)(rid \<mapsto> q')\<rparr>)"
  unfolding requests_ok_def
proof (intro conjI allI impI)
  show "distinct (od_keys (ch_sent (s\<lparr>ch_outreqs := (ch_outreqs s)(rid \<mapsto> q')\<rparr>)))"
    using assms(1) by (simp add: requests_ok_def)
next
  fix k rid' assume "(k, rid') \<in> set (ch_sent (s\<lparr>ch_outreqs := (ch_outreqs s)(rid \<mapsto> q')\<rparr>))"
  then obtain q'' where "ch_outreqs s rid' = Some q''" "o_seq q'' = k" "o_response q'' = None"
    using assms(1) by (auto simp: requests_ok_def)
  with assms show "\<exists>q. ch_outreqs (s\<lparr>ch_outreqs := (ch_outreqs s)(rid \<mapsto> q')\<rparr>) rid' = Some q \<and>
      o_seq q = k \<and> o_response q = None"
    by (cases "rid' = rid") auto
next
  fix rid' q'' assume "ch_outreqs (s\<lparr>ch_outreqs := (ch_outreqs s)(rid \<mapsto> q')\<rparr>) rid' = Some q''"
  then show "rid' < ch_fresh (s\<lparr>ch_outreqs := (ch_outreqs s)(rid \<mapsto> q')\<rparr>)" "o_response q'' \<noteq> None \<Longrightarrow> o_handlers q'' = []"
    using assms by (auto simp: requests_ok_def split: if_splits)
qed

lemma on_response_keeps:
  assumes inv: "chan_inv reg handled taken s" and q: "ch_outreqs s rid = Some q"
  shows "chan_inv (reg @ [(rid, cb)]) handled taken (snd (on_response rid cb s))"
proof -
  have "requests_ok s" using inv by (simp add: chan_inv_def)
  note update = requests_ok_update [OF this q]
  have frame: "requests_ok ((enqueued items s)\<lparr>ch_outreqs := m\<rparr>) = requests_ok (s\<lparr>ch_outreqs := m\<rparr>)" for items m
    by (simp add: requests_ok_def enqueued_def)
  have "requests_ok (snd (on_response rid cb s))"
  proof (cases "o_response q")
    case None
    with update [of "q\<lparr>o_handlers := o_handlers q @ [cb]\<rparr>"] show ?thesis by (simp add: on_response_state [OF q])
  next
    case (Some resp)
    with update [of "q\<lparr>o_handlers := []\<rparr>"] show ?thesis by (simp add: on_response_state [OF q] frame)
  qed
  moreover have "callbacks_ok (reg @ [(rid, cb)]) handled (snd (on_response rid cb s))"
  proof (cases "o_response q")
    case None
    with inv q show ?thesis
      by (auto simp: chan_inv_def callbacks_ok_def held_callbacks_def on_response_state [OF q])
  next
    case (Some resp)
    with inv q show ?thesis
      by (auto simp: chan_inv_def callbacks_ok_def held_callbacks_def on_response_state [OF q] enqueued_def)
  qed
  ultimately show ?thesis
    using inv by (auto simp: chan_inv_def wire_ok_def wire_numbers_def queue_ok_def on_response_state [OF q]
        enqueued_def is_plain_def split: option.splits)
qed

lemma queue_ok_never_skips:
  "queue_ok s \<Longrightarrow> ch_thread s = Some (Running seen (item # items)) \<Longrightarrow> \<not> skip_when_closed seen item"
  by (auto simp: queue_ok_def skip_when_closed_def is_plain_def)

lemma handler_thread_frame [simp]:
  "requests_ok (s\<lparr>ch_thread := t\<rparr>) = requests_ok s" "requests_ok (s\<lparr>ch_queue := items\<rparr>) = requests_ok s"
  "wire_ok taken (s\<lparr>ch_thread := t\<rparr>) = wire_ok taken s" "wire_ok taken (s\<lparr>ch_queue := items\<rparr>) = wire_ok taken s"
  "held_callbacks (s\<lparr>ch_thread := t\<rparr>) rid = held_callbacks s rid"
  "held_callbacks (s\<lparr>ch_queue := items\<rparr>) rid = held_callbacks s rid"
  by (simp_all add: requests_ok_def wire_ok_def wire_numbers_def held_callbacks_def)

lemma step_handler_keeps:
  assumes inv: "sys_inv y" and run: "step_handler y = Some y'"
  shows "sys_inv y'"
proof (cases "ch_thread (sy_chan y)")
  case (Some t)
  show ?thesis
  proof (cases t)
    case (Running seen items)
    show ?thesis
    proof (cases items)
      case (Cons item items')
      have "\<not> skip_when_closed seen item"
        using inv queue_ok_never_skips [of "sy_chan y" seen item items'] Some Running Cons
        by (simp add: sys_inv_def chan_inv_def)
      then show ?thesis
        using inv run Some Running Cons
        by (auto simp: step_handler_def sys_inv_def chan_inv_def queue_ok_def callbacks_ok_def)
    qed (use inv run Some Running in \<open>auto simp: step_handler_def sys_inv_def chan_inv_def queue_ok_def callbacks_ok_def\<close>)
  qed (use inv run Some in \<open>auto simp: step_handler_def sys_inv_def chan_inv_def Let_def queue_ok_def
         callbacks_ok_def split: if_splits\<close>)
qed (use run in \<open>simp add: step_handler_def\<close>)

lemma thread_set_keeps:
  assumes "chan_inv reg handled taken s" and "thread_items t = thread_items (ch_thread s)" and "t \<noteq> None"
  shows "chan_inv reg handled taken (s\<lparr>ch_thread := t\<rparr>)"
  using assms by (auto simp: chan_inv_def queue_ok_def callbacks_ok_def)

lemma respond_thread: "ch_thread (snd (respond m b s)) = ch_thread s"
  by (auto simp: respond_cases split: option.splits)

lemma after_call_thread: "ch_thread (snd (after_call item outcome s)) = ch_thread s"
  using after_call_state [of item outcome s] respond_thread [of "fst item" _ s] by metis

lemma step_return_keeps:
  assumes inv: "sys_inv y" and run: "step_return outcome y = Some y'"
  shows "sys_inv y'"
proof -
  from run obtain seen item items where t: "ch_thread (sy_chan y) = Some (InHandler seen item items)"
    by (auto simp: step_return_def split: option.splits hthread.splits)
  obtain r s where r: "after_call item outcome (sy_chan y) = (r, s)" by (cases "after_call item outcome (sy_chan y)")
  have s: "chan_inv (sy_registered y) (sy_handled y) (map fst (sy_sending y)) s" "ch_thread s = ch_thread (sy_chan y)"
    using after_call_keeps [of _ _ _ "sy_chan y" item outcome] after_call_thread [of item outcome "sy_chan y"] inv r
    by (auto simp: sys_inv_def)
  then have "chan_inv (sy_registered y) (sy_handled y) (map fst (sy_sending y)) (s\<lparr>ch_thread := Some (Running seen items)\<rparr>)"
    using t by (intro thread_set_keeps) auto
  moreover have "chan_inv (sy_registered y) (sy_handled y) (map fst (sy_sending y)) (s\<lparr>ch_closed := True, ch_exited := True\<rparr>)"
    using s(1) by (intro chan_inv_fresh)
  ultimately show ?thesis
    using run t r inv by (auto simp: step_return_def sys_inv_def split: sum.splits)
qed

lemma step_write_keeps:
  assumes inv: "sys_inv y" and run: "step_write i y = Some y'"
  shows "sys_inv y'"
proof -
  let ?sending = "sy_sending y"
  have i: "i < length ?sending" using run by (simp add: step_write_def split: if_splits)
  obtain seq x where x: "?sending ! i = (seq, x)" by (cases "?sending ! i")
  have "map fst ?sending = map fst (take i ?sending) @ seq # map fst (drop (Suc i) ?sending)"
    using i x by (metis fst_conv id_take_nth_drop list.simps(9) map_append)
  with inv have "chan_inv (sy_registered y) (sy_handled y)
      (map fst (take i ?sending) @ seq # map fst (drop (Suc i) ?sending)) (sy_chan y)"
    by (simp add: sys_inv_def)
  from complete_send_keeps [OF this, of x] inv run i x show ?thesis
    by (auto simp: step_write_def sys_inv_def)
qed

lemma step_alloc_keeps: "sys_inv y \<Longrightarrow> step_alloc x y = Some y' \<Longrightarrow> sys_inv y'"
  using chan_inv_next_seq [of _ _ _ "sy_chan y"] by (auto simp: step_alloc_def sys_inv_def next_seq_def split: if_splits)

lemma step_on_response_keeps: "sys_inv y \<Longrightarrow> step_on_response rid cb y = Some y' \<Longrightarrow> sys_inv y'"
  using on_response_keeps [of _ _ _ "sy_chan y" rid]
  by (auto simp: step_on_response_def sys_inv_def split: if_splits)

lemma step_parse_keeps:
  "sys_inv y \<Longrightarrow> step_start y = Some y' \<Longrightarrow> sys_inv y'"
  "sys_inv y \<Longrightarrow> step_parse incoming y = Some y' \<Longrightarrow> sys_inv y'"
  "sys_inv y \<Longrightarrow> step_close y = Some y' \<Longrightarrow> sys_inv y'"
  by (auto simp: step_start_def step_parse_def step_close_def channel_close_def sys_inv_def chan_inv_fresh
      chan_inv.parser_turn_keeps split: if_splits)

lemmas steps_keep = step_parse_keeps step_alloc_keeps step_write_keeps step_on_response_keeps step_handler_keeps
  step_return_keeps

lemma perform_keeps: "perform a y = Some y' \<Longrightarrow> sys_inv y \<Longrightarrow> sys_inv y'"
  by (cases a) (auto intro: steps_keep)

lemma step_keeps: "step y y' \<Longrightarrow> sys_inv y \<Longrightarrow> sys_inv y'"
  by (auto elim!: stepE intro: perform_keeps)

lemma initial_inv: "initial y \<Longrightarrow> sys_inv y"
  by (auto simp: initial_def sys_inv_def chan_inv_def new_channel_def requests_ok_def wire_ok_def wire_numbers_def
      queue_ok_def callbacks_ok_def held_callbacks_def od_keys_def)

interpretation channel: inductive_invariant initial step sys_inv
  by unfold_locales (auto intro: initial_inv step_keeps)


lemma run_steps: "run as y = Some y' \<Longrightarrow> step\<^sup>*\<^sup>* y y'"
proof (induction as arbitrary: y)
  case (Cons a as)
  then obtain z where "\<not> ch_exited (sy_chan y)" "perform a y = Some z" "run as z = Some y'"
    by (auto split: if_splits option.splits)
  with Cons.IH show ?case by (meson converse_rtranclp_into_rtranclp step.step)
qed simp

lemma run_reachable: "initial y \<Longrightarrow> run as y = Some y' \<Longrightarrow> reachable initial step y'"
  by (meson reachable_along reachable_init run_steps)

subsection \<open>The queue as a FIFO\<close>

text \<open>
  The abstract queue: the log of everything that was ever enqueued. What has been handled is a
  prefix of it, what the handler thread holds and what is queued is the rest.
\<close>

definition waiting :: "chan \<Rightarrow> (message \<times> hfun) list" where
  "waiting s = thread_items (ch_thread s) @ ch_queue s"

definition backlog :: "sys \<Rightarrow> (message \<times> hfun) list" where
  "backlog y = sy_handled y @ waiting (sy_chan y)"

definition grown :: "(nat \<times> nat) list \<Rightarrow> (message \<times> hfun) list \<Rightarrow> int list \<Rightarrow> (message \<times> hfun) list \<Rightarrow> chan \<Rightarrow> bool" where
  "grown reg handled taken old s \<longleftrightarrow> chan_inv reg handled taken s \<and> (\<exists>new. waiting s = old @ new)"

lemma waiting_update [simp]:
  "waiting (s\<lparr>ch_fresh := i\<rparr>) = waiting s" "waiting (s\<lparr>ch_exited := b\<rparr>) = waiting s"
  "waiting (s\<lparr>ch_closed := b\<rparr>) = waiting s" "waiting (s\<lparr>ch_parser := p\<rparr>) = waiting s"
  "waiting (s\<lparr>ch_outreqs := reqs\<rparr>) = waiting s" "waiting (s\<lparr>ch_next_seq := n\<rparr>) = waiting s"
  "waiting (enqueued items s) = waiting s @ items"
  "waiting (answered k rid q resp s) = waiting s @ [(resp, RunHandlers rid (o_handlers q))]"
  by (auto simp: waiting_def enqueued_def answered_def)

lemma waiting_unknown [simp]:
  "waiting (unknown_answered k command resp s) = waiting s @ [(resp, RunHandlers (ch_fresh s) [])]"
  by (simp add: unknown_answered_def synthetic_def)

lemma waiting_response_effect: "response_effect s t \<Longrightarrow> \<exists>new. waiting t = waiting s @ new"
  by (auto simp: response_effect_def)

interpretation grown: parser_kept "grown reg handled taken old" for reg handled taken old
proof unfold_locales
  fix s t assume "grown reg handled taken old s" "response_effect s t"
  then show "grown reg handled taken old t"
    using waiting_response_effect [of s t] chan_inv_response_effect by (fastforce simp: grown_def)
qed (auto simp: grown_def chan_inv.pending chan_inv.bookkeeping chan_inv.item)

lemma waiting_sends:
  "waiting (snd (complete_send seq x s)) = waiting s"
  "waiting (snd (respond m b s)) = waiting s"
  "waiting (snd (next_seq s)) = waiting s"
proof -
  have "waiting (snd (write_message d s')) = waiting s'" for d s'
    by (auto simp: write_message_cases waiting_def split: option.splits)
  then show "waiting (snd (complete_send seq x s)) = waiting s"
    by (auto simp: complete_send_def andthen_def fresh_id_def register_request_def waiting_def
        split: sending.splits prod.splits sum.splits) (metis snd_conv)+
  show "waiting (snd (respond m b s)) = waiting s"
    by (auto simp: respond_cases waiting_def split: option.splits)
qed (simp add: next_seq_def)

lemma waiting_after_call: "waiting (snd (after_call item outcome s)) = waiting s"
  using after_call_state [of item outcome s] waiting_sends(2) [of "fst item" _ s] by metis

lemma perform_backlog_same:
  assumes inv: "sys_inv y" and run: "perform a y = Some y'"
    and other: "\<And>incoming. a \<noteq> Parse incoming" "\<And>rid cb. a \<noteq> Callback rid cb"
  shows "backlog y' = backlog y"
proof (cases a)
  case Handler
  with inv run queue_ok_never_skips [of "sy_chan y"] show ?thesis
    by (auto simp: step_handler_def backlog_def waiting_def Let_def sys_inv_def chan_inv_def
        split: option.splits hthread.splits list.splits if_splits)
next
  case (Returns outcome)
  then obtain seen item items r s where t: "ch_thread (sy_chan y) = Some (InHandler seen item items)"
    "after_call item outcome (sy_chan y) = (r, s)"
    using run by (auto simp: step_return_def split: option.splits hthread.splits prod.splits)
  with waiting_after_call [of item outcome "sy_chan y"] after_call_thread [of item outcome "sy_chan y"]
  have "waiting s = waiting (sy_chan y)" "ch_thread s = Some (InHandler seen item items)" by simp_all
  with run Returns t show ?thesis
    by (auto simp: step_return_def backlog_def waiting_def split: sum.splits)
qed (use run waiting_sends other in \<open>auto simp: step_start_def step_alloc_def step_write_def step_close_def
       channel_close_def backlog_def split: if_splits prod.splits\<close>)

lemma callback_backlog:
  "perform (Callback rid cb) y = Some y' \<Longrightarrow>
   backlog y' = backlog y \<or> (\<exists>resp cs. backlog y' = backlog y @ [(resp, RunHandlers rid cs)])"
  by (auto simp: step_on_response_def backlog_def on_response_state split: if_splits option.splits)

lemma perform_backlog:
  assumes inv: "sys_inv y" and run: "perform a y = Some y'"
  shows "\<exists>new. backlog y' = backlog y @ new"
proof (cases a)
  case (Parse incoming)
  have "grown (sy_registered y) (sy_handled y) (map fst (sy_sending y)) (waiting (sy_chan y)) (sy_chan y)"
    using inv by (simp add: grown_def sys_inv_def)
  from grown.parser_turn_keeps [OF this, of incoming] run Parse show ?thesis
    by (auto simp: step_parse_def grown_def backlog_def split: if_splits)
next
  case (Callback rid cb)
  with run callback_backlog [of rid cb y y'] show ?thesis by auto
qed (use perform_backlog_same [OF inv run] in auto)

lemma parser_sends:
  "ch_parser (snd (complete_send seq x s)) = ch_parser s" "ch_parser (snd (respond m b s)) = ch_parser s"
  "ch_parser (snd (next_seq s)) = ch_parser s" "ch_parser (snd (after_call item outcome s)) = ch_parser s"
proof -
  have "ch_parser (snd (write_message d s')) = ch_parser s'" for d s'
    by (auto simp: write_message_cases split: option.splits)
  then show "ch_parser (snd (complete_send seq x s)) = ch_parser s"
    by (auto simp: complete_send_def andthen_def fresh_id_def register_request_def
        split: sending.splits prod.splits sum.splits) (metis snd_conv)+
  show r: "ch_parser (snd (respond m b s)) = ch_parser s" for m b
    by (auto simp: respond_cases split: option.splits)
  show "ch_parser (snd (after_call item outcome s)) = ch_parser s"
    using after_call_state [of item outcome s] r by metis
qed (simp add: next_seq_def)

text \<open>Once the parser thread has ended, nothing but response callbacks is enqueued.\<close>

definition only_callbacks :: "(message \<times> hfun) list \<Rightarrow> bool" where
  "only_callbacks items \<longleftrightarrow> (\<forall>item \<in> set items. \<exists>rid cs. snd item = RunHandlers rid cs)"

lemma finished_perform:
  assumes inv: "sys_inv y" and run: "perform a y = Some y'" and fin: "ch_parser (sy_chan y) = Finished"
  shows "ch_parser (sy_chan y') = Finished \<and> (\<exists>new. backlog y' = backlog y @ new \<and> only_callbacks new)"
proof
  show "ch_parser (sy_chan y') = Finished"
  proof (cases a)
    case Handler
    with run fin show ?thesis
      by (auto simp: step_handler_def Let_def split: option.splits hthread.splits list.splits if_splits)
  next
    case (Returns outcome)
    with run fin parser_sends(4) [of _ outcome "sy_chan y"] show ?thesis
      by (auto simp: step_return_def split: option.splits hthread.splits sum.splits prod.splits) (metis snd_conv)+
  next
    case (Callback rid cb)
    with run fin show ?thesis
      by (auto simp: step_on_response_def on_response_state enqueued_def split: if_splits option.splits)
  qed (use run fin parser_sends in \<open>auto simp: step_start_def step_parse_def step_alloc_def step_write_def
         step_close_def channel_close_def split: if_splits prod.splits\<close>)
  show "\<exists>new. backlog y' = backlog y @ new \<and> only_callbacks new"
  proof (cases a)
    case (Callback rid cb)
    with run callback_backlog [of rid cb y y'] show ?thesis by (auto simp: only_callbacks_def)
  next
    case (Parse incoming)
    with run fin show ?thesis by (simp add: step_parse_def)
  qed (use perform_backlog_same [OF inv run] in \<open>auto simp: only_callbacks_def\<close>)
qed

section \<open>Properties of the running channel\<close>

text \<open>
  C12: The messages on the wire have positive sequence numbers that are pairwise different,
  whatever threads send and respond concurrently.
\<close>

theorem wire_numbers_unique:
  assumes "reachable initial step y"
  shows "distinct (map (\<lambda>d. map_of d ''seq'') (ch_written (sy_chan y))) \<and>
    (\<forall>d \<in> set (ch_written (sy_chan y)). \<exists>n > 0. map_of d ''seq'' = Some (JInt n))"
proof -
  have "wire_ok (map fst (sy_sending y)) (sy_chan y)"
    using channel.holds [OF assms] by (simp add: sys_inv_def chan_inv_def)
  then have nums: "distinct (map (\<lambda>d. map_of d ''seq'') (ch_written (sy_chan y)))"
    "(\<lambda>d. map_of d ''seq'') ` set (ch_written (sy_chan y)) \<subseteq> (\<lambda>n. Some (JInt n)) ` {0 <..< ch_next_seq (sy_chan y)}"
    by (simp_all add: wire_ok_def wire_numbers_def)
  have "\<exists>n > 0. map_of d ''seq'' = Some (JInt n)" if "d \<in> set (ch_written (sy_chan y))" for d
  proof -
    have "map_of d ''seq'' \<in> (\<lambda>n. Some (JInt n)) ` {0 <..< ch_next_seq (sy_chan y)}"
      using nums(2) that by (rule subsetD [OF _ imageI])
    then show ?thesis by auto
  qed
  with nums(1) show ?thesis by blast
qed

definition fresh_sys :: sys where
  "fresh_sys = \<lparr>sy_chan = new_channel 0, sy_sending = [], sy_handled = [], sy_skipped = [], sy_registered = []\<rparr>"

lemma fresh_sys_initial: "initial fresh_sys"
  unfolding initial_def by (intro exI [of _ 0] exI [of _ None]) (simp add: fresh_sys_def new_channel_def)

text \<open>Two threads send: the one that takes its number second writes first.\<close>

definition crossed :: sys where
  "crossed = the (run [Alloc (SendEvent ''output'' JNull), Alloc (SendRequest ''threads'' JNull),
     WriteOut 1, WriteOut 0] fresh_sys)"

lemma crossed_run:
  "run [Alloc (SendEvent ''output'' JNull), Alloc (SendRequest ''threads'' JNull), WriteOut 1, WriteOut 0] fresh_sys =
     Some crossed"
proof -
  have "\<not> Option.is_none (run [Alloc (SendEvent ''output'' JNull), Alloc (SendRequest ''threads'' JNull),
      WriteOut 1, WriteOut 0] fresh_sys)"
    by code_simp
  then show ?thesis by (simp add: crossed_def Option.is_none_def)
qed

lemma crossed_written: "map (\<lambda>d. map_of d ''seq'') (ch_written (sy_chan crossed)) = [Some (JInt 2), Some (JInt 1)]"
  by code_simp

theorem wire_numbers_unique_witness:
  "distinct (map (\<lambda>d. map_of d ''seq'') (ch_written (sy_chan crossed))) \<and>
   map (\<lambda>d. map_of d ''seq'') (ch_written (sy_chan crossed)) = [Some (JInt 2), Some (JInt 1)]"
  using wire_numbers_unique [OF run_reachable [OF fresh_sys_initial crossed_run]] crossed_written by simp




definition a_pause :: jv where
  "a_pause = JObj [(''seq'', JInt 1), (''type'', JStr ''request''), (''command'', JStr ''pause'')]"

definition one_handled :: sys where
  "one_handled = the (run [Start, Parse (Inr a_pause), Parse (Inr a_pause), Handler, Handler, Handler] fresh_sys)"

lemma fresh_sys_reachable: "reachable initial step fresh_sys"
  by (rule reachable_init) (rule fresh_sys_initial)

lemma run_the: "\<not> Option.is_none (run as y) \<Longrightarrow> run as y = Some (the (run as y))"
  by (simp add: Option.is_none_def)

lemma one_handled_run:
  "run [Start, Parse (Inr a_pause), Parse (Inr a_pause), Handler, Handler, Handler] fresh_sys = Some one_handled"
  unfolding one_handled_def by (rule run_the) code_simp

lemma one_handled_counts: "length (sy_handled one_handled) = 1" "length (waiting (sy_chan one_handled)) = 1"
  by code_simp+


text \<open>
  C3: Every callback given to \<open>on_response\<close> is called exactly once, in the order of
  registration: for each request, what was registered is what has been run by the handler
  thread, then what is waiting in its queue, then what the request still holds; and an answered
  request holds none.
\<close>

theorem callbacks_called_once:
  assumes "reachable initial step y"
  shows "registered_for rid (sy_registered y) =
      callbacks_in rid (sy_handled y) @ callbacks_in rid (waiting (sy_chan y)) @ held_callbacks (sy_chan y) rid \<and>
    (case ch_outreqs (sy_chan y) rid of
       None \<Rightarrow> registered_for rid (sy_registered y) = []
     | Some q \<Rightarrow> o_response q = None \<or> held_callbacks (sy_chan y) rid = [])"
proof -
  have inv: "requests_ok (sy_chan y)" "callbacks_ok (sy_registered y) (sy_handled y) (sy_chan y)"
    using channel.holds [OF assms] by (simp_all add: sys_inv_def chan_inv_def)
  have "registered_for rid (sy_registered y) = []" if "ch_outreqs (sy_chan y) rid = None"
  proof -
    have "(rid, c) \<notin> set (sy_registered y)" for c using inv(2) that by (auto simp: callbacks_ok_def)
    then show ?thesis by (auto simp: registered_for_def filter_empty_conv)
  qed
  moreover have "o_response q = None \<or> held_callbacks (sy_chan y) rid = []" if "ch_outreqs (sy_chan y) rid = Some q" for q
    using inv(1) that unfolding requests_ok_def held_callbacks_def by (metis option.simps(5))
  moreover have "registered_for rid (sy_registered y) =
      callbacks_in rid (sy_handled y) @ callbacks_in rid (waiting (sy_chan y)) @ held_callbacks (sy_chan y) rid"
    using inv(2) by (simp add: callbacks_ok_def waiting_def)
  ultimately show ?thesis by (auto split: option.split)
qed

definition a_response :: jv where
  "a_response = JObj [(''seq'', JInt 1), (''type'', JStr ''response''), (''request_seq'', JInt 1),
     (''command'', JStr ''threads''), (''success'', JBool True)]"

definition callbacks_run :: sys where
  "callbacks_run = the (run [Start, Alloc (SendRequest ''threads'' JNull), WriteOut 0, Callback 0 5, Callback 0 6,
     Parse (Inr a_response), Callback 0 7, Handler, Handler, Handler] fresh_sys)"

lemma callbacks_run_run:
  "run [Start, Alloc (SendRequest ''threads'' JNull), WriteOut 0, Callback 0 5, Callback 0 6,
     Parse (Inr a_response), Callback 0 7, Handler, Handler, Handler] fresh_sys = Some callbacks_run"
  unfolding callbacks_run_def by (rule run_the) code_simp

lemma callbacks_run_registered:
  "registered_for 0 (sy_registered callbacks_run) = [5, 6, 7]" "callbacks_in 0 (sy_handled callbacks_run) = [5, 6]"
  by code_simp+

theorem callbacks_called_once_witness:
  "[5, 6, 7] = [5, 6] @ callbacks_in 0 (waiting (sy_chan callbacks_run)) @ held_callbacks (sy_chan callbacks_run) 0"
  using callbacks_called_once [OF run_reachable [OF fresh_sys_initial callbacks_run_run], of 0]
  by (simp add: callbacks_run_registered)


text \<open>How a handler's call can end without an exception escaping.\<close>

lemma after_call_can_succeed: "\<exists>outcome. fst (after_call item outcome s) = Inr () \<and> snd (after_call item outcome s) = s"
proof (cases "snd item")
  case (BoundMethod f i)
  show ?thesis
  proof (cases "f = ''Event._handle''")
    case True
    then show ?thesis by (intro exI [of _ "Inr RNone"]) (simp add: after_call_def BoundMethod)
  next
    case False
    then show ?thesis
      by (cases "ch_responses s (msg_id (fst item)) = None")
        (intro exI [of _ "Inr RNoResponse"], simp add: after_call_def BoundMethod finish_result_def,
         intro exI [of _ "Inr RNone"], simp add: after_call_def BoundMethod finish_result_def)
  qed
qed (intro exI [of _ "Inr RNone"], simp add: after_call_def)+

definition quiet :: "sys \<Rightarrow> bool" where
  "quiet y \<longleftrightarrow> ch_closed (sy_chan y) \<and> ch_parser (sy_chan y) = Finished \<and> \<not> ch_exited (sy_chan y)"

text \<open>How far the handler thread still has to go.\<close>

fun thread_phase :: "hthread option \<Rightarrow> nat" where
  "thread_phase None = 0"
| "thread_phase (Some LoopTop) = 3"
| "thread_phase (Some (SeenClosed seen)) = (if seen then 2 else 7)"
| "thread_phase (Some (Running _ _)) = 4"
| "thread_phase (Some (InHandler _ _ _)) = 5"

definition to_do :: "chan \<Rightarrow> nat" where
  "to_do s = 8 * length (ch_queue s) + 4 * length (thread_items (ch_thread s)) + thread_phase (ch_thread s)"


text \<open>
  The handler thread in the wait on its condition: it has seen the channel open and found the
  queue empty. \<open>close\<close> does not notify it.
\<close>

definition asleep :: "sys \<Rightarrow> bool" where
  "asleep y \<longleftrightarrow> ch_thread (sy_chan y) = Some (SeenClosed False) \<and> ch_queue (sy_chan y) = []"

lemma drain_step:
  assumes inv: "sys_inv y" and q: "quiet y" and awake: "\<not> asleep y" and t: "ch_thread (sy_chan y) = Some t"
  shows "\<exists>y'. step y y' \<and> quiet y' \<and> \<not> asleep y' \<and> backlog y' = backlog y \<and>
    to_do (sy_chan y') < to_do (sy_chan y)"
proof -
  have handler: "\<exists>y'. step y y' \<and> P y'" if "\<exists>z. step_handler y = Some z \<and> P z" for P :: "sys \<Rightarrow> bool"
    using that q step.step [of y Handler] by (auto simp: quiet_def)
  note defs = quiet_def asleep_def backlog_def waiting_def to_do_def
  show ?thesis
  proof (cases t)
    case LoopTop
    with t q show ?thesis by (intro handler) (auto simp: step_handler_def Let_def defs)
  next
    case (SeenClosed seen)
    show ?thesis
    proof (cases "ch_queue (sy_chan y)")
      case Nil
      with SeenClosed t q awake show ?thesis
        by (intro handler) (auto simp: step_handler_def Let_def defs)
    next
      case (Cons item items)
      with SeenClosed t q show ?thesis
        by (intro handler) (auto simp: step_handler_def Let_def defs split: if_splits)
    qed
  next
    case (Running seen items)
    show ?thesis
    proof (cases items)
      case Nil
      with Running t q show ?thesis by (intro handler) (auto simp: step_handler_def Let_def defs)
    next
      case (Cons item items')
      moreover have "\<not> skip_when_closed seen item"
        using inv queue_ok_never_skips [of "sy_chan y" seen item items'] t Running Cons
        by (simp add: sys_inv_def chan_inv_def)
      ultimately show ?thesis
        using Running t q by (intro handler) (auto simp: step_handler_def Let_def defs)
    qed
  next
    case (InHandler seen item items)
    obtain outcome where ok: "after_call item outcome (sy_chan y) = (Inr (), sy_chan y)"
      using after_call_can_succeed [of item "sy_chan y"] by (metis prod.collapse)
    let ?z = "y\<lparr>sy_chan := (sy_chan y)\<lparr>ch_thread := Some (Running seen items)\<rparr>\<rparr>"
    have "step y ?z"
      using q t InHandler ok by (intro step.step [of _ "Returns outcome"]) (auto simp: quiet_def step_return_def)
    then show ?thesis using q t InHandler by (intro exI [of _ ?z]) (simp add: defs)
  qed
qed



text \<open>
  The disconnect handler is queued after everything that came off the wire: once the parser
  thread has ended, later steps add nothing to the handler queue but response callbacks.
\<close>

theorem disconnect_is_last:
  assumes "reachable initial step y" and "ch_parser (sy_chan y) = Finished" and "step\<^sup>*\<^sup>* y y'"
  shows "ch_parser (sy_chan y') = Finished \<and> (\<exists>new. backlog y' = backlog y @ new \<and> only_callbacks new)"
  using assms(3)
proof (induction rule: rtranclp_induct)
  case base
  show ?case using assms(2) by (simp add: only_callbacks_def)
next
  case (step z z')
  have "sys_inv z" using channel.holds_along [OF channel.holds [OF assms(1)] step(1)] .
  with step.IH step(2) finished_perform [of z] show ?case
    by (fastforce simp: only_callbacks_def elim!: stepE)
qed

definition gone :: "exn + jv" where
  "gone = Inl (NoMoreMessages 0 no_more_messages)"

definition disconnected :: sys where
  "disconnected = the (run [Start, Parse (Inr a_pause), Close, Parse gone] fresh_sys)"

lemma disconnected_run: "run [Start, Parse (Inr a_pause), Close, Parse gone] fresh_sys = Some disconnected"
  unfolding disconnected_def by (rule run_the) code_simp

lemma disconnected_facts:
  "ch_parser (sy_chan disconnected) = Finished" "quiet disconnected" "\<not> asleep disconnected"
  "ch_thread (sy_chan disconnected) \<noteq> None"
  "map (\<lambda>item. case snd item of BoundMethod _ _ \<Rightarrow> 0 | HandleDisconnect \<Rightarrow> 1 | _ \<Rightarrow> (2 :: nat)) (backlog disconnected) = [0, 1]"
  by code_simp+

definition after_disconnect :: sys where
  "after_disconnect = the (run [Handler, Handler, Handler, Returns (Inr RNoResponse), Handler] disconnected)"

lemma after_disconnect_run:
  "run [Handler, Handler, Handler, Returns (Inr RNoResponse), Handler] disconnected = Some after_disconnect"
  unfolding after_disconnect_def by (rule run_the) code_simp

theorem disconnect_is_last_witness:
  "ch_parser (sy_chan after_disconnect) = Finished \<and>
   (\<exists>new. backlog after_disconnect = backlog disconnected @ new \<and> only_callbacks new)"
  by (rule disconnect_is_last [OF run_reachable [OF fresh_sys_initial disconnected_run] disconnected_facts(1)
        run_steps [OF after_disconnect_run]])



definition in_request :: "sys \<Rightarrow> bool" where
  "in_request y \<longleftrightarrow>
    (case ch_thread (sy_chan y) of
       Some (InHandler True (m, BoundMethod f _) _) \<Rightarrow> f = ''Request._handle'' \<and> msg_kind m = MRequest
     | _ \<Rightarrow> False)"

definition after_close :: sys where
  "after_close = the (run [Handler, Handler, Handler] disconnected)"

lemma after_close_run: "run [Handler, Handler, Handler] disconnected = Some after_close"
  unfolding after_close_def by (rule run_the) code_simp

lemma after_close_in_request: "ch_closed (sy_chan after_close)" "in_request after_close"
  by code_simp+

text \<open>
  Closing the channel does not stop its handlers. There are runs in which the handler
  thread, having seen the channel closed, calls the handler of a request received before: the
  item holds a bound method, and the test that should skip it compares with the plain functions.
\<close>

theorem request_handled_after_close:
  "\<exists>y m i items. reachable initial step y \<and> ch_closed (sy_chan y) \<and>
     ch_thread (sy_chan y) = Some (InHandler True (m, BoundMethod ''Request._handle'' i) items)"
proof -
  have "reachable initial step after_close"
    using run_reachable [OF fresh_sys_initial disconnected_run] run_steps [OF after_close_run] by (rule reachable_along)
  with after_close_in_request show ?thesis
    by (intro exI [of _ after_close])
      (auto simp: in_request_def split: option.splits hthread.splits prod.splits hfun.splits bool.splits)
qed

definition hung :: sys where
  "hung = the (run [Start, Parse (Inr a_pause), Handler, Handler, Handler, Returns (Inr RNoResponse), Handler, Handler,
     Parse (Inl (ValueError ''Content-Length'')), Close] fresh_sys)"

lemma hung_run:
  "run [Start, Parse (Inr a_pause), Handler, Handler, Handler, Returns (Inr RNoResponse), Handler, Handler,
     Parse (Inl (ValueError ''Content-Length'')), Close] fresh_sys = Some hung"
  unfolding hung_def by (rule run_the) code_simp

lemma hung_facts: "quiet hung" "asleep hung"
  by code_simp+

text \<open>
  \<open>wait\<close> can hang on a closed channel. When the parser thread has died of malformed input
  while the handler thread waits for something to do, \<open>close\<close> does not wake that thread, and
  nothing is left that will: neither of its steps is enabled.
\<close>

theorem wait_can_hang:
  "\<exists>y. reachable initial step y \<and> ch_closed (sy_chan y) \<and> ch_parser (sy_chan y) = Finished \<and>
     ch_thread (sy_chan y) \<noteq> None \<and> \<not> ch_exited (sy_chan y) \<and>
     step_handler y = None \<and> (\<forall>outcome. step_return outcome y = None)"
proof -
  have "step_handler hung = None" "step_return outcome hung = None" for outcome
    using hung_facts(2) by (simp_all add: asleep_def step_handler_def step_return_def)
  with hung_facts run_reachable [OF fresh_sys_initial hung_run] show ?thesis
    by (auto simp: quiet_def asleep_def)
qed

end
