(* ===== verification/Adapter.thy ===== *)
theory Adapter
  imports MessageFacts
begin

text \<open>
  The state of the debug adapter process (\<open>ptvsd/adapter\<close>): sessions with their IDE, launcher
  and server components, and the connections to debug servers; what the rest of the world is
  to it; and the common part of its components, \<open>components.py\<close>. A message handler of the
  adapter holds the lock of its session, and is a sequence of operations on this state.
\<close>

section \<open>State\<close>

text \<open>
  \<open>None\<close> for \<open>ss_ide\<close>, \<open>ss_launcher\<close>, \<open>ss_server\<close> is the dummy made by \<open>components.missing\<close>: it is
  false, and any attribute of it raises \<open>ComponentNotAvailable\<close>. Attributes that start as \<open>None\<close>
  and take a JSON value later are values with \<open>JNull\<close>.
\<close>

record ide =
  ide_chan :: chan
  ide_connected :: bool
  ide_client_id :: jv
  ide_has_started :: bool
  ide_start_request :: "message option"
  ide_initialize_request :: "message option"
  ide_deferred :: "message list option"
  ide_known :: "nat list"
  ide_capabilities :: "(string, jv) odict"
  ide_expectations :: "(string, jv) odict"

record launcher =
  la_chan :: chan
  la_connected :: bool
  la_pid :: jv
  la_exit_code :: jv

record server =
  sv_conn :: nat
  sv_connected :: bool
  sv_capabilities :: "(string, jv) odict"

record session =
  ss_ide :: "ide option"
  ss_launcher :: "launcher option"
  ss_server :: "server option"
  ss_no_debug :: jv
  ss_pid :: "int option"
  ss_debug_options :: "string list"
  ss_finalizing :: bool

text \<open>
  A \<open>servers.Connection\<close>; \<open>cn_handlers\<close> is the session whose \<open>Server\<close> has become the handlers of
  its channel, \<open>None\<close> when the connection itself is.
\<close>

record connection =
  cn_chan :: chan
  cn_pid :: "int option"
  cn_ppid :: "int option"
  cn_server :: "nat option"
  cn_handlers :: "nat option"
  cn_disconnected :: bool

text \<open>
  Sessions and connections are numbered in the order they are made. \<open>w_registered\<close> is
  \<open>sessions._sessions\<close>, \<open>w_connections\<close> is \<open>servers._connections\<close>; the two flags are the events
  \<open>_sessions_changed\<close> and \<open>_connections_changed\<close>. \<open>w_ticks\<close> counts the times that a thread has
  waited for something outside, \<open>w_spawned\<close> lists the processes started.
\<close>

record world =
  w_session :: "nat \<Rightarrow> session"
  w_session_count :: nat
  w_registered :: "nat list"
  w_sessions_changed :: bool
  w_conn :: "nat \<Rightarrow> connection"
  w_conn_count :: nat
  w_connections :: "nat list"
  w_connections_changed :: bool
  w_ticks :: nat
  w_spawned :: "string list list"

text \<open>
  How a statement can fail to end normally: it raises, it waits for ever, or the process is
  gone (\<open>os._exit\<close>). Only the first can be caught.
\<close>

datatype stop = Raised exn | Blocked | Exited

type_synonym 'a act = "(world, stop, 'a) sem"

definition throw :: "exn \<Rightarrow> ('s, stop, 'a) sem" where
  "throw e = raise (Raised e)"

definition catching :: "('s, stop, 'a) sem \<Rightarrow> (exn \<Rightarrow> ('s, stop, 'a) sem) \<Rightarrow> ('s, stop, 'a) sem" where
  "catching m h = attempt m (\<lambda>x. case x of Raised e \<Rightarrow> h e | _ \<Rightarrow> raise x)"

text \<open>\<open>try: m finally: f\<close>; nothing runs after a wait that does not end or after an exit.\<close>

definition ensuring :: "('s, stop, 'a) sem \<Rightarrow> ('s, stop, unit) sem \<Rightarrow> ('s, stop, 'a) sem" where
  "ensuring m f w =
    (case m w of
       (Inl Blocked, w') \<Rightarrow> (Inl Blocked, w')
     | (Inl Exited, w') \<Rightarrow> (Inl Exited, w')
     | (r, w') \<Rightarrow> (case f w' of (Inl x, w'') \<Rightarrow> (Inl x, w'') | (Inr _, w'') \<Rightarrow> (r, w'')))"

text \<open>\<open>try: m except Exception: pass\<close>.\<close>

definition ignoring :: "('s, stop, 'a) sem \<Rightarrow> ('s, stop, unit) sem" where
  "ignoring m = catching (andthen m (\<lambda>_. ret ())) (\<lambda>_. ret ())"

section \<open>The rest of the world\<close>

text \<open>
  The other processes: what comes back for a request (an answer, a refusal with its text, the
  end of the connection, or nothing ever), whether a process can be started and whether the
  launcher connects; what other threads do to the state while this one waits; and the constants
  of the installation: platform, \<open>sys.executable\<close>, directories, addresses of the listeners,
  access tokens, the environment variables for logging, the version.
\<close>

datatype party = Ide nat | Launcher nat | ServerOf nat | Conn nat

datatype reply = Answer jv | Refused string | Gone | NoReply

record env =
  env_reply :: "nat \<Rightarrow> party \<Rightarrow> string \<Rightarrow> jv \<Rightarrow> reply"
  env_meanwhile :: "nat \<Rightarrow> world \<Rightarrow> world"
  env_spawn :: "nat \<Rightarrow> string list \<Rightarrow> exn option"
  env_accept :: "nat \<Rightarrow> exn option"
  env_launcher_port :: "nat \<Rightarrow> nat"
  env_stream_name :: "nat \<Rightarrow> string"
  env_windows :: bool
  env_executable :: string
  env_launcher_dir :: string
  env_ptvsd_dir :: string
  env_inject_code :: string
  env_log_variables :: "(string, jv) odict"
  env_ide_port :: int
  env_server_host :: string
  env_server_port :: int
  env_adapter_token :: "string option"
  env_server_token :: "string option"
  env_version :: string

section \<open>Access to the components\<close>

definition upd_session :: "nat \<Rightarrow> (session \<Rightarrow> session) \<Rightarrow> world \<Rightarrow> world" where
  "upd_session sid f w = w\<lparr>w_session := (w_session w)(sid := f (w_session w sid))\<rparr>"

definition upd_conn :: "nat \<Rightarrow> (connection \<Rightarrow> connection) \<Rightarrow> world \<Rightarrow> world" where
  "upd_conn c f w = w\<lparr>w_conn := (w_conn w)(c := f (w_conn w c))\<rparr>"

definition upd_ide :: "nat \<Rightarrow> (ide \<Rightarrow> ide) \<Rightarrow> world \<Rightarrow> world" where
  "upd_ide sid f = upd_session sid (\<lambda>s. s\<lparr>ss_ide := map_option f (ss_ide s)\<rparr>)"

definition upd_launcher :: "nat \<Rightarrow> (launcher \<Rightarrow> launcher) \<Rightarrow> world \<Rightarrow> world" where
  "upd_launcher sid f = upd_session sid (\<lambda>s. s\<lparr>ss_launcher := map_option f (ss_launcher s)\<rparr>)"

definition upd_server :: "nat \<Rightarrow> (server \<Rightarrow> server) \<Rightarrow> world \<Rightarrow> world" where
  "upd_server sid f = upd_session sid (\<lambda>s. s\<lparr>ss_server := map_option f (ss_server s)\<rparr>)"

text \<open>The component, or the exception of its dummy.\<close>

definition the_ide :: "nat \<Rightarrow> ide act" where
  "the_ide sid w =
    (case ss_ide (w_session w sid) of
       None \<Rightarrow> (Inl (Raised (ComponentNotAvailable ''IDE'')), w) | Some i \<Rightarrow> (Inr i, w))"

definition the_launcher :: "nat \<Rightarrow> launcher act" where
  "the_launcher sid w =
    (case ss_launcher (w_session w sid) of
       None \<Rightarrow> (Inl (Raised (ComponentNotAvailable ''Launcher'')), w) | Some l \<Rightarrow> (Inr l, w))"

definition the_server :: "nat \<Rightarrow> server act" where
  "the_server sid w =
    (case ss_server (w_session w sid) of
       None \<Rightarrow> (Inl (Raised (ComponentNotAvailable ''Server'')), w) | Some v \<Rightarrow> (Inr v, w))"

definition the_chan :: "party \<Rightarrow> chan act" where
  "the_chan p =
    (case p of
       Ide sid \<Rightarrow> andthen (the_ide sid) (\<lambda>i. ret (ide_chan i))
     | Launcher sid \<Rightarrow> andthen (the_launcher sid) (\<lambda>l. ret (la_chan l))
     | ServerOf sid \<Rightarrow> andthen (the_server sid) (\<lambda>v. gets (\<lambda>w. cn_chan (w_conn w (sv_conn v))))
     | Conn c \<Rightarrow> gets (\<lambda>w. cn_chan (w_conn w c)))"

definition set_chan :: "party \<Rightarrow> chan \<Rightarrow> world \<Rightarrow> world" where
  "set_chan p ch w =
    (case p of
       Ide sid \<Rightarrow> upd_ide sid (\<lambda>i. i\<lparr>ide_chan := ch\<rparr>) w
     | Launcher sid \<Rightarrow> upd_launcher sid (\<lambda>l. l\<lparr>la_chan := ch\<rparr>) w
     | ServerOf sid \<Rightarrow>
         (case ss_server (w_session w sid) of
            None \<Rightarrow> w | Some v \<Rightarrow> upd_conn (sv_conn v) (\<lambda>c. c\<lparr>cn_chan := ch\<rparr>) w)
     | Conn c \<Rightarrow> upd_conn c (\<lambda>c. c\<lparr>cn_chan := ch\<rparr>) w)"

text \<open>An operation of \<open>Messages.thy\<close> on the channel of a component.\<close>

definition on :: "party \<Rightarrow> (chan, exn, 'a) sem \<Rightarrow> 'a act" where
  "on p m =
    andthen (the_chan p) (\<lambda>ch.
      case m ch of
        (Inl e, ch') \<Rightarrow> andthen (modify (set_chan p ch')) (\<lambda>_. throw e)
      | (Inr x, ch') \<Rightarrow> andthen (modify (set_chan p ch')) (\<lambda>_. ret x))"

definition tick :: "nat act" where
  "tick w = (Inr (w_ticks w), w\<lparr>w_ticks := Suc (w_ticks w)\<rparr>)"

section \<open>Blocking requests\<close>

text \<open>The message that carries a reply, which the parser thread reads while this one waits.\<close>

definition reply_dict :: "outreq \<Rightarrow> jv \<Rightarrow> bool \<Rightarrow> (string, jv) odict" where
  "reply_dict q v success =
    [(''seq'', JInt 0), (''type'', JStr ''response''), (''request_seq'', JInt (o_seq q)),
     (''command'', JStr (o_command q)), (''success'', JBool success),
     (if success then ''body'' else ''message'', v)]"

definition receive_reply :: "nat \<Rightarrow> reply \<Rightarrow> (chan, exn, unit) sem" where
  "receive_reply rid r s =
    (case ch_outreqs s rid of
       None \<Rightarrow> (Inr (), s)
     | Some q \<Rightarrow>
         (case r of
            Answer v \<Rightarrow> parse_message (reply_dict q v True) s
          | Refused text \<Rightarrow> parse_message (reply_dict q (JStr text) False) s
          | Gone \<Rightarrow> finish_parsing (NoMoreMessages (ch_id s) no_more_messages) s
          | NoReply \<Rightarrow> (Inr (), s)))"

text \<open>\<open>wait_for_response\<close>: the response message, or its exception.\<close>

definition wait_for_response :: "env \<Rightarrow> party \<Rightarrow> nat \<Rightarrow> message act" where
  "wait_for_response E p rid =
    andthen (on p (gets (\<lambda>s. ch_outreqs s rid))) (\<lambda>q.
    andthen tick (\<lambda>n.
    andthen (case q of None \<Rightarrow> ret ()
       | Some q \<Rightarrow> on p (receive_reply rid (env_reply E n p (o_command q) (o_args q)))) (\<lambda>_.
    andthen (on p (gets (\<lambda>s. Option.bind (ch_outreqs s rid) o_response))) (\<lambda>resp.
      case resp of
        None \<Rightarrow> raise Blocked
      | Some m \<Rightarrow> (case response_result m of Inl e \<Rightarrow> throw e | Inr _ \<Rightarrow> ret m)))))"

definition request_wait :: "env \<Rightarrow> party \<Rightarrow> string \<Rightarrow> jv \<Rightarrow> message act" where
  "request_wait E p command arguments =
    andthen (on p (send_request command arguments)) (wait_for_response E p)"

definition payload_value :: "message \<Rightarrow> jv" where
  "payload_value m = (case msg_body m of Payload v \<Rightarrow> v | Failure _ \<Rightarrow> JNull)"

text \<open>\<open>channel.delegate(message)\<close> for a request.\<close>

definition delegate :: "env \<Rightarrow> party \<Rightarrow> message \<Rightarrow> jv act" where
  "delegate E p m =
    catching
      (andthen (on p (propagate m)) (\<lambda>sent.
         case sent of
           None \<Rightarrow> throw (AttributeError ''is_request'')
         | Some rid \<Rightarrow> andthen (wait_for_response E p rid) (\<lambda>resp. ret (payload_value resp))))
      (\<lambda>e. throw (propagated e m))"

section \<open>Component.message_handler\<close>

text \<open>\<open>p\<close> is the component whose channel the message came from.\<close>

definition message_handler :: "env \<Rightarrow> party \<Rightarrow> (message \<Rightarrow> hresult act) \<Rightarrow> message \<Rightarrow> hresult act" where
  "message_handler E p f m =
    catching (f m) (\<lambda>e.
      case e of
        ComponentNotAvailable _ \<Rightarrow> andthen (on p (cant_handle (exn_str e) m)) throw
      | Handling _ _ _ _ \<Rightarrow> throw (propagated e m)
      | NoMoreMessages i _ \<Rightarrow>
          andthen (on p (cant_handle (env_stream_name E i @ '' disconnected unexpectedly'') m)) throw
      | JsonIOError i _ \<Rightarrow>
          andthen (on p (cant_handle (env_stream_name E i @ '' disconnected unexpectedly'') m)) throw
      | _ \<Rightarrow> throw e)"

text \<open>\<open>raise request.isnt_valid(...)\<close> and \<open>raise request.cant_handle(...)\<close> in a handler.\<close>

definition raise_isnt_valid :: "party \<Rightarrow> string \<Rightarrow> message \<Rightarrow> 'a act" where
  "raise_isnt_valid p reason m = andthen (on p (isnt_valid reason m)) throw"

definition raise_cant_handle :: "party \<Rightarrow> string \<Rightarrow> message \<Rightarrow> 'a act" where
  "raise_cant_handle p reason m = andthen (on p (cant_handle reason m)) throw"

section \<open>Capabilities\<close>

text \<open>\<open>PROPERTIES\<close> holds plain values and validators; no class is given in it.\<close>

definition capability_validator :: "vspec \<Rightarrow> validator" where
  "capability_validator validate =
    (case validate of VConst c \<Rightarrow> default c | VType c \<Rightarrow> of_type [c] False | VFn f \<Rightarrow> f)"

fun capabilities_of ::
  "(string \<times> vspec) list \<Rightarrow> (string, jv) odict \<Rightarrow> message \<Rightarrow> (string, jv) odict
     \<Rightarrow> (chan, exn, (string, jv) odict) sem" where
  "capabilities_of [] payload m caps s = (Inr caps, s)"
| "capabilities_of ((name, validate) # ps) payload m caps s =
    (case capability_validator validate (md_get payload name) of
       Inl e \<Rightarrow> andthen (isnt_valid (json_quote name @ '' '' @ exn_str e) m) raise s
     | Inr v \<Rightarrow>
         if v = Missing then (Inl (AssertionError ''must provide a default value for missing properties''), s)
         else capabilities_of ps payload m (od_set name v caps) s)"

definition parse_capabilities :: "(string \<times> vspec) list \<Rightarrow> message \<Rightarrow> (chan, exn, (string, jv) odict) sem" where
  "parse_capabilities properties m =
    (case msg_body m of
       Payload (JObj payload) \<Rightarrow> capabilities_of properties payload m []
     | _ \<Rightarrow> raise (AttributeError ''get''))"

text \<open>\<open>component\<close> is the text of the component.\<close>

fun require :: "string \<Rightarrow> (string, jv) odict \<Rightarrow> string list \<Rightarrow> exn + unit" where
  "require component caps [] = Inr ()"
| "require component caps (key # keys) =
    (case map_of caps key of
       None \<Rightarrow> Inl (KeyError key)
     | Some v \<Rightarrow>
         if truthy v then require component caps keys
         else Inl (Handling MessageHandlingError
                (component @ '' does not have capability '' @ json_quote key) None 0))"

definition off :: vspec where "off = VConst (JBool False)"

definition ide_capability_properties :: "(string \<times> vspec) list" where
  "ide_capability_properties =
    [(''supportsVariableType'', off), (''supportsVariablePaging'', off),
     (''supportsRunInTerminalRequest'', off), (''supportsMemoryReferences'', off)]"

definition ide_expectation_properties :: "(string \<times> vspec) list" where
  "ide_expectation_properties =
    [(''locale'', VConst (JStr ''en-US'')), (''linesStartAt1'', VConst (JBool True)),
     (''columnsStartAt1'', VConst (JBool True)), (''pathFormat'', VFn (enum [JStr ''path''] False))]"

definition server_capability_properties :: "(string \<times> vspec) list" where
  "server_capability_properties =
    map (\<lambda>name. (name, off))
      [''supportsCompletionsRequest'', ''supportsConditionalBreakpoints'',
       ''supportsConfigurationDoneRequest'', ''supportsDataBreakpoints'',
       ''supportsDelayedStackTraceLoading'', ''supportsDisassembleRequest'',
       ''supportsEvaluateForHovers'', ''supportsExceptionInfoRequest'',
       ''supportsExceptionOptions'', ''supportsFunctionBreakpoints'',
       ''supportsGotoTargetsRequest'', ''supportsHitConditionalBreakpoints'',
       ''supportsLoadedSourcesRequest'', ''supportsLogPoints'', ''supportsModulesRequest'',
       ''supportsReadMemoryRequest'', ''supportsRestartFrame'', ''supportsRestartRequest'',
       ''supportsSetExpression'', ''supportsSetVariable'', ''supportsStepBack'',
       ''supportsStepInTargetsRequest'', ''supportsTerminateDebuggee'',
       ''supportsTerminateRequest'', ''supportsTerminateThreadsRequest'',
       ''supportsValueFormattingOptions''] @
    map (\<lambda>name. (name, VConst (JList [])))
      [''exceptionBreakpointFilters'', ''additionalModuleColumns'', ''supportedChecksumAlgorithms'']"

end
