(* ===== verification/Debuggee.thy ===== *)
theory Debuggee
  imports Adapter "HOL-Library.Word"
begin

text \<open>
  The state of the launcher process, and \<open>launcher/debuggee.py\<close>: starting the debuggee, killing it,
  and the thread that waits for its exit. The interpreter is Python 3.
\<close>

unbundle bit_operations_syntax

section \<open>State\<close>

text \<open>\<open>wait_on_exit_predicates\<close> only ever holds the two functions of \<open>launch_request\<close>.\<close>

datatype wait_predicate = CodeIsZero | CodeIsNotZero

fun satisfied :: "wait_predicate \<Rightarrow> int \<Rightarrow> bool" where
  "satisfied CodeIsZero code = (code = 0)"
| "satisfied CodeIsNotZero code = (code \<noteq> 0)"

text \<open>
  A descriptor is a number: the \<open>n\<close>-th \<open>os.pipe()\<close> gives \<open>2 * n\<close> to read and \<open>2 * n + 1\<close> to write.
  \<open>ls_fds\<close> are the open descriptors of the pipes, \<open>ls_closing\<close> is the local \<open>close_fds\<close> of \<open>spawn\<close>,
  \<open>ls_captures\<close> is \<open>CaptureOutput.instances\<close> with the descriptor of each. The processes are numbered
  in the order they are started; \<open>ls_process\<close> is the global \<open>process\<close> with its pid. \<open>ls_killed\<close>
  lists the calls of \<open>process.kill()\<close>, \<open>ls_prompts\<close> what is printed to the launcher's terminal.
\<close>

record spawned =
  sp_cmdline :: "string list"
  sp_cwd :: "string option"
  sp_env :: "(string, string) odict"
  sp_stdout :: "nat option"
  sp_stderr :: "nat option"

record launcher_state =
  ls_chan :: chan
  ls_connected :: bool
  ls_process :: "(nat \<times> int) option"
  ls_predicates :: "wait_predicate list"
  ls_pipes :: nat
  ls_fds :: "nat list"
  ls_closing :: "nat list"
  ls_captures :: "(string \<times> nat) list"
  ls_spawned :: "spawned list"
  ls_killed :: "nat list"
  ls_atexit :: nat
  ls_waiters :: "nat list"
  ls_prompts :: "string list"

type_synonym 'a lact = "(launcher_state, stop, 'a) sem"

text \<open>
  What the launcher asks the system for: its platform and installation, \<open>os.environ\<close>, whether
  \<open>os.pipe\<close> and \<open>Popen\<close> succeed, what \<open>poll\<close>, \<open>kill\<close> and \<open>wait\<close> of the \<open>n\<close>-th process give, which of
  its standard streams exist, and whether the user ever presses a key.
\<close>

record lenv =
  le_windows :: bool
  le_nt_dirname :: "string \<Rightarrow> string"
  le_executable :: string
  le_ptvsd_dir :: string
  le_environ :: "(string, string) odict"
  le_pointer_size :: int
  le_pipe :: "nat \<Rightarrow> exn option"
  le_popen :: "nat \<Rightarrow> spawned \<Rightarrow> exn + int"
  le_poll :: "nat \<Rightarrow> exn + int option"
  le_kill :: "nat \<Rightarrow> exn option"
  le_wait :: "nat \<Rightarrow> exn + int"
  le_returncode :: "nat \<Rightarrow> int option"
  le_captured :: "nat \<Rightarrow> bool"
  le_stream :: "string \<Rightarrow> bool"
  le_isatty :: bool
  le_msvcrt :: bool
  le_key :: bool

text \<open>An operation on \<open>launcher.channel\<close>.\<close>

definition on_channel :: "(chan, exn, 'a) sem \<Rightarrow> 'a lact" where
  "on_channel m s =
    (case m (ls_chan s) of
       (Inl e, ch) \<Rightarrow> (Inl (Raised e), s\<lparr>ls_chan := ch\<rparr>)
     | (Inr x, ch) \<Rightarrow> (Inr x, s\<lparr>ls_chan := ch\<rparr>))"

section \<open>spawn\<close>

definition os_pipe :: "lenv \<Rightarrow> (nat \<times> nat) lact" where
  "os_pipe E s =
    (let n = ls_pipes s; s' = s\<lparr>ls_pipes := Suc n\<rparr> in
     case le_pipe E n of
       Some e \<Rightarrow> (Inl (Raised e), s')
     | None \<Rightarrow> (Inr (2 * n, 2 * n + 1), s'\<lparr>ls_fds := ls_fds s @ [2 * n, 2 * n + 1]\<rparr>))"

text \<open>The pipes for output and errors, and \<open>close_fds\<close> with all of their ends.\<close>

definition open_pipes :: "lenv \<Rightarrow> ((nat \<times> nat) \<times> (nat \<times> nat)) lact" where
  "open_pipes E =
    andthen (os_pipe E) (\<lambda>(out_r, out_w).
    andthen (os_pipe E) (\<lambda>(err_r, err_w).
    andthen (modify (\<lambda>s. s\<lparr>ls_closing := [out_r, out_w, err_r, err_w]\<rparr>)) (\<lambda>_.
      ret ((out_r, out_w), (err_r, err_w)))))"

text \<open>\<open>repr\<close> of a list of strings.\<close>

definition repr_strs :: "string list \<Rightarrow> string" where
  "repr_strs ss = ''['' @ join '', '' (map repr_str ss) @ '']''"

definition popen :: "lenv \<Rightarrow> spawned \<Rightarrow> int lact" where
  "popen E p s =
    (let n = length (ls_spawned s) in
     case le_popen E n p of
       Inl e \<Rightarrow> (Inl (Raised (Handling MessageHandlingError
           (''Couldn't spawn debuggee: '' @ exn_str e @ [CHR 0x0A, CHR 0x0A] @ ''Command line:'' @
            repr_strs (sp_cmdline p)) None 0)), s)
     | Inr pid \<Rightarrow> (Inr pid, s\<lparr>ls_spawned := ls_spawned s @ [p], ls_process := Some (n, pid)\<rparr>))"

definition process_body :: "lenv \<Rightarrow> int \<Rightarrow> string \<Rightarrow> jv" where
  "process_body E pid name =
    JObj [(''startMethod'', JStr ''launch''), (''isLocalProcess'', JBool True),
      (''systemProcessId'', JInt pid), (''name'', JStr name), (''pointerSize'', JInt (le_pointer_size E))]"

text \<open>
  \<open>CaptureOutput(...)\<close>, whose thread is \<open>CaptureOutput.thy\<close>, and \<open>close_fds.remove(fd)\<close>. An instance is
  registered before its stream is looked at.
\<close>

definition capture_output :: "lenv \<Rightarrow> string \<Rightarrow> nat \<Rightarrow> unit lact" where
  "capture_output E category fd s =
    (if category \<in> fst ` set (ls_captures s)
     then (Inl (Raised (AssertionError ''category not in self.instances'')), s)
     else
       let s' = s\<lparr>ls_captures := ls_captures s @ [(category, fd)]\<rparr> in
       if le_stream E category then (Inr (), s'\<lparr>ls_closing := remove1 fd (ls_closing s)\<rparr>)
       else (Inl (Raised (AttributeError ''buffer'')), s'))"

text \<open>The \<open>finally\<close> clause; a failing \<open>os.close\<close> would only be logged.\<close>

definition close_remaining :: "unit lact" where
  "close_remaining =
    modify (\<lambda>s. s\<lparr>ls_fds := filter (\<lambda>fd. fd \<notin> set (ls_closing s)) (ls_fds s), ls_closing := []\<rparr>)"

definition start_debuggee ::
  "lenv \<Rightarrow> string \<Rightarrow> spawned \<Rightarrow> (string \<times> nat) list \<Rightarrow> unit lact" where
  "start_debuggee E name p captures =
    andthen (popen E p) (\<lambda>pid.
    andthen (modify (\<lambda>s. s\<lparr>ls_atexit := Suc (ls_atexit s)\<rparr>)) (\<lambda>_.
    andthen (on_channel (send_event ''process'' (process_body E pid name))) (\<lambda>_.
    andthen (foldr (\<lambda>(category, fd) rest. andthen (capture_output E category fd) (\<lambda>_. rest)) captures (ret ())) (\<lambda>_.
      modify (\<lambda>s. s\<lparr>ls_waiters := ls_waiters s @ [length (ls_spawned s) - 1]\<rparr>)))))"

definition spawn_process ::
  "lenv \<Rightarrow> string \<Rightarrow> string list \<Rightarrow> string option \<Rightarrow> (string, string) odict \<Rightarrow> bool \<Rightarrow> unit lact" where
  "spawn_process E name cmdline cwd environ redirect =
    andthen (modify (\<lambda>s. s\<lparr>ls_closing := []\<rparr>)) (\<lambda>_.
    ensuring
      (if redirect
       then andthen (open_pipes E) (\<lambda>((out_r, out_w), (err_r, err_w)).
              start_debuggee E name
                \<lparr>sp_cmdline = cmdline, sp_cwd = cwd, sp_env = environ, sp_stdout = Some out_w, sp_stderr = Some err_w\<rparr>
                [(''stdout'', out_r), (''stderr'', err_r)])
       else start_debuggee E name
              \<lparr>sp_cmdline = cmdline, sp_cwd = cwd, sp_env = environ, sp_stdout = None, sp_stderr = None\<rparr> [])
      close_remaining)"

section \<open>kill\<close>

definition kill_process :: "lenv \<Rightarrow> unit lact" where
  "kill_process E s =
    (case ls_process s of
       None \<Rightarrow> (Inr (), s)
     | Some (n, pid) \<Rightarrow>
         (case le_poll E n of
            Inr None \<Rightarrow> (case le_kill E n of None \<Rightarrow> (Inr (), s\<lparr>ls_killed := ls_killed s @ [n]\<rparr>) | Some _ \<Rightarrow> (Inr (), s))
          | _ \<Rightarrow> (Inr (), s)))"

section \<open>wait_for_exit\<close>

text \<open>The exit code: on POSIX, \<open>code &= 0xFF\<close> for the negative code of a killed process.\<close>

definition exit_code :: "lenv \<Rightarrow> exn + int \<Rightarrow> int" where
  "exit_code E waited =
    (case waited of
       Inl _ \<Rightarrow> - 1
     | Inr code \<Rightarrow> if \<not> le_windows E \<and> code < 0 then code AND 255 else code)"

text \<open>\<open>output.wait_for_remaining_output()\<close>: every capturing thread is joined.\<close>

definition wait_for_remaining_output :: "lenv \<Rightarrow> unit lact" where
  "wait_for_remaining_output E s =
    (if list_all (\<lambda>(_, fd). le_captured E fd) (ls_captures s) then (Inr (), s) else (Inl Blocked, s))"

definition wait_for_user_input :: "lenv \<Rightarrow> unit lact" where
  "wait_for_user_input E =
    (if le_stream E ''stdout'' \<and> le_stream E ''stdin'' then
       andthen (modify (\<lambda>s. s\<lparr>ls_prompts := ls_prompts s @
         [if le_isatty E \<and> le_msvcrt E then ''Press any key to continue . . . ''
          else ''Press Enter to continue . . . '']\<rparr>))
         (\<lambda>_. if le_key E then ret () else raise Blocked)
     else ret ())"

definition exited_body :: "int \<Rightarrow> jv" where
  "exited_body code = JObj [(''exitCode'', JInt code)]"

text \<open>The thread started for the \<open>n\<close>-th process; it uses the global \<open>process\<close>.\<close>

definition wait_for_exit :: "lenv \<Rightarrow> unit lact" where
  "wait_for_exit E =
    andthen (gets (\<lambda>s. case ls_process s of None \<Rightarrow> Inl (AttributeError ''wait'') | Some (n, _) \<Rightarrow> le_wait E n))
      (\<lambda>waited.
    let code = exit_code E waited in
    andthen (wait_for_remaining_output E) (\<lambda>_.
    andthen (gets (\<lambda>s. list_ex (\<lambda>p. satisfied p code) (ls_predicates s))) (\<lambda>should_wait.
    andthen (ignoring (on_channel (send_event ''exited'' (exited_body code)))) (\<lambda>_.
    andthen (if should_wait then wait_for_user_input E else ret ()) (\<lambda>_.
      ignoring (on_channel (send_event ''terminated'' JNull)))))))"

end
