(* ===== verification/Sessions.thy ===== *)
theory Sessions
  imports Adapter
begin

text \<open>
  \<open>adapter/sessions.py\<close>: registration and the end of a session, \<open>wait_for\<close>, and \<open>finalize\<close>,
  with the operations of the launcher and the server that it uses (\<open>terminate_debuggee\<close>,
  \<open>detach_from_session\<close>) and \<open>Component.disconnect\<close>, which ends in it.
\<close>

section \<open>Registration\<close>

definition register :: "nat \<Rightarrow> unit act" where
  "register sid = modify (\<lambda>w. w\<lparr>w_registered := (if sid \<in> set (w_registered w) then w_registered w
     else w_registered w @ [sid]), w_sessions_changed := True\<rparr>)"

text \<open>Whether all the components of a session are absent or disconnected.\<close>

definition all_disconnected :: "session \<Rightarrow> bool" where
  "all_disconnected s \<longleftrightarrow>
     (case ss_ide s of None \<Rightarrow> True | Some i \<Rightarrow> \<not> ide_connected i) \<and>
     (case ss_launcher s of None \<Rightarrow> True | Some l \<Rightarrow> \<not> la_connected l) \<and>
     (case ss_server s of None \<Rightarrow> True | Some v \<Rightarrow> \<not> sv_connected v)"

text \<open>
  \<open>notify_changed\<close>, which an assignment to any attribute of the session or of its components
  triggers. Its outcome depends on the connected flags only, and it is called where these change.
\<close>

definition notify_changed :: "nat \<Rightarrow> unit act" where
  "notify_changed sid = modify (\<lambda>w.
     if all_disconnected (w_session w sid) \<and> sid \<in> set (w_registered w)
     then w\<lparr>w_registered := removeAll sid (w_registered w), w_sessions_changed := True\<rparr>
     else w)"

text \<open>
  \<open>sessions.get\<close>: a registered session with that process; \<open>None\<close> equals \<open>None\<close>. The order in
  which Python goes through the set is not specified; the one of registration is taken.
\<close>

definition get_session :: "int option \<Rightarrow> world \<Rightarrow> nat option" where
  "get_session pid w = List.find (\<lambda>sid. ss_pid (w_session w sid) = pid) (w_registered w)"

section \<open>Waiting\<close>

text \<open>
  \<open>wait_for\<close>: \<open>env_meanwhile\<close> is all that happens while the session is unlocked, until the
  predicate is found true or the time is up; without a timeout it may wait for ever.
\<close>

definition wait_for :: "env \<Rightarrow> (world \<Rightarrow> exn + bool) \<Rightarrow> bool \<Rightarrow> bool act" where
  "wait_for E predicate timed w =
    (case predicate w of
       Inl e \<Rightarrow> (Inl (Raised e), w)
     | Inr True \<Rightarrow> (Inr True, w)
     | Inr False \<Rightarrow>
         (let w' = env_meanwhile E (w_ticks w) (w\<lparr>w_ticks := Suc (w_ticks w)\<rparr>) in
          case predicate w' of
            Inl e \<Rightarrow> (Inl (Raised e), w')
          | Inr True \<Rightarrow> (Inr True, w')
          | Inr False \<Rightarrow> if timed then (Inr False, w') else (Inl Blocked, w')))"

definition launcher_says :: "nat \<Rightarrow> (launcher \<Rightarrow> bool) \<Rightarrow> world \<Rightarrow> exn + bool" where
  "launcher_says sid p w =
    (case ss_launcher (w_session w sid) of
       None \<Rightarrow> Inl (ComponentNotAvailable ''Launcher'') | Some l \<Rightarrow> Inr (p l))"

text \<open>\<open>wait_until_ended\<close>: one turn of its loop, \<open>Some\<close> when it returns.\<close>

definition wait_until_ended_turn :: "world \<Rightarrow> unit option \<times> world" where
  "wait_until_ended_turn w =
    (if \<not> w_sessions_changed w then (None, w)
     else (if w_registered w = [] then Some () else None, w\<lparr>w_sessions_changed := False\<rparr>))"

section \<open>What finalize uses\<close>

text \<open>\<open>servers.dont_wait_for_first_connection\<close>.\<close>

definition dont_wait_for_first_connection :: "unit act" where
  "dont_wait_for_first_connection = modify (\<lambda>w. w\<lparr>w_connections_changed := True\<rparr>)"

text \<open>\<open>Launcher.terminate_debuggee\<close>.\<close>

definition terminate_debuggee :: "env \<Rightarrow> nat \<Rightarrow> unit act" where
  "terminate_debuggee E sid =
    andthen (the_launcher sid) (\<lambda>l.
      if la_exit_code l = JNull then ignoring (request_wait E (Launcher sid) ''terminate'' JNull)
      else ret ())"

text \<open>\<open>Server.detach_from_session\<close>.\<close>

definition detach_from_session :: "nat \<Rightarrow> unit act" where
  "detach_from_session sid =
    andthen (the_server sid) (\<lambda>v.
    andthen (modify (upd_server sid (\<lambda>v. v\<lparr>sv_connected := False\<rparr>))) (\<lambda>_.
    andthen (notify_changed sid) (\<lambda>_.
    modify (upd_conn (sv_conn v) (\<lambda>c. c\<lparr>cn_handlers := None, cn_server := None\<rparr>)))))"

section \<open>finalize\<close>

definition finalize_server :: "env \<Rightarrow> nat \<Rightarrow> bool \<Rightarrow> unit act" where
  "finalize_server E sid terminate w =
    (let s = w_session w sid in
     case ss_server s of
       None \<Rightarrow> (Inr (), w)
     | Some v \<Rightarrow>
         andthen
           (if \<not> sv_connected v then ret ()
            else if terminate \<and> (case ss_launcher s of None \<Rightarrow> False | Some l \<Rightarrow> la_connected l)
            then terminate_debuggee E sid
            else ignoring (request_wait E (ServerOf sid) ''disconnect''
                   (JObj [(''terminateDebuggee'', JBool terminate)])))
           (\<lambda>_. detach_from_session sid) w)"

definition finalize_launcher :: "env \<Rightarrow> nat \<Rightarrow> unit act" where
  "finalize_launcher E sid w =
    (let s = w_session w sid in
     if (case ss_launcher s of None \<Rightarrow> False | Some l \<Rightarrow> la_connected l) then
       andthen (if ss_server s \<noteq> None
                then andthen (wait_for E (launcher_says sid (\<lambda>l. la_exit_code l \<noteq> JNull)) True) (\<lambda>_. ret ())
                else ret ()) (\<lambda>_.
       andthen (terminate_debuggee E sid) (\<lambda>_.
       andthen (wait_for E (launcher_says sid (\<lambda>l. \<not> la_connected l)) False) (\<lambda>_.
       ignoring (on (Launcher sid) channel_close)))) w
     else (Inr (), w))"

definition finalize_ide :: "nat \<Rightarrow> unit act" where
  "finalize_ide sid w =
    (if (case ss_ide (w_session w sid) of None \<Rightarrow> False | Some i \<Rightarrow> ide_connected i)
     then ignoring (on (Ide sid) (send_event ''terminated'' JNull)) w
     else (Inr (), w))"

text \<open>\<open>_finalize\<close>, and \<open>finalize\<close> with \<open>None\<close> or a truth value for \<open>terminate_debuggee\<close>.\<close>

definition finalize_all :: "env \<Rightarrow> nat \<Rightarrow> bool \<Rightarrow> unit act" where
  "finalize_all E sid terminate =
    andthen dont_wait_for_first_connection (\<lambda>_.
    andthen (finalize_server E sid terminate) (\<lambda>_.
    andthen (finalize_launcher E sid) (\<lambda>_.
    finalize_ide sid)))"

definition finalize :: "env \<Rightarrow> nat \<Rightarrow> bool option \<Rightarrow> unit act" where
  "finalize E sid terminate w =
    (let s = w_session w sid in
     if ss_finalizing s then (Inr (), w)
     else
       andthen (modify (upd_session sid (\<lambda>s. s\<lparr>ss_finalizing := True\<rparr>))) (\<lambda>_.
       catching
         (finalize_all E sid (case terminate of None \<Rightarrow> ss_launcher s \<noteq> None | Some t \<Rightarrow> t))
         (\<lambda>_. raise Exited)) w)"

section \<open>Component.disconnect\<close>

text \<open>The assignment to \<open>is_connected\<close>, with what it triggers, comes first.\<close>

definition ide_gone :: "nat \<Rightarrow> unit act" where
  "ide_gone sid =
    andthen (modify (upd_ide sid (\<lambda>i. i\<lparr>ide_connected := False\<rparr>))) (\<lambda>_. notify_changed sid)"

definition ide_disconnect :: "env \<Rightarrow> nat \<Rightarrow> unit act" where
  "ide_disconnect E sid = andthen (ide_gone sid) (\<lambda>_. finalize E sid None)"

definition launcher_gone :: "nat \<Rightarrow> unit act" where
  "launcher_gone sid =
    andthen (modify (upd_launcher sid (\<lambda>l. l\<lparr>la_connected := False\<rparr>))) (\<lambda>_. notify_changed sid)"

definition launcher_disconnect :: "env \<Rightarrow> nat \<Rightarrow> unit act" where
  "launcher_disconnect E sid = andthen (launcher_gone sid) (\<lambda>_. finalize E sid None)"

text \<open>\<open>Server.disconnect\<close>: \<open>list.remove\<close> raises for a connection that is not in the list.\<close>

definition remove_connection :: "nat \<Rightarrow> unit act" where
  "remove_connection c w =
    (if c \<in> set (w_connections w)
     then (Inr (), w\<lparr>w_connections := remove1 c (w_connections w), w_connections_changed := True\<rparr>)
     else (Inl (Raised (ValueError ''list.remove(x): x not in list'')), w))"

definition server_gone :: "nat \<Rightarrow> unit act" where
  "server_gone sid =
    andthen (the_server sid) (\<lambda>v.
    andthen (remove_connection (sv_conn v)) (\<lambda>_.
    andthen (modify (upd_server sid (\<lambda>v. v\<lparr>sv_connected := False\<rparr>))) (\<lambda>_.
    notify_changed sid)))"

definition server_disconnect :: "env \<Rightarrow> nat \<Rightarrow> unit act" where
  "server_disconnect E sid = andthen (server_gone sid) (\<lambda>_. finalize E sid None)"

end
