(* ===== verification/Servers.thy ===== *)
theory Servers
  imports Sessions
begin

text \<open>
  \<open>adapter/servers.py\<close>: connections of debug servers, their authentication and registration, the
  \<open>Server\<close> component that a connection becomes in a session, its message handlers, waiting for
  a connection and the injection into a process; and the events that the IDE component defers
  or passes on (\<open>IDE.propagate_after_start\<close>, \<open>IDE.notify_of_subprocess\<close>), which these use.
\<close>

section \<open>Events on their way to the IDE\<close>

definition propagate_after_start :: "nat \<Rightarrow> message \<Rightarrow> unit act" where
  "propagate_after_start sid event =
    andthen (the_ide sid) (\<lambda>i.
      case ide_deferred i of
        Some events \<Rightarrow> modify (upd_ide sid (\<lambda>i. i\<lparr>ide_deferred := Some (events @ [event])\<rparr>))
      | None \<Rightarrow> andthen (on (Ide sid) (propagate event)) (\<lambda>_. ret ()))"

fun propagate_all :: "nat \<Rightarrow> message list \<Rightarrow> unit act" where
  "propagate_all sid [] w = (Inr (), w)"
| "propagate_all sid (event # events) w =
     andthen (on (Ide sid) (propagate event)) (\<lambda>_. propagate_all sid events) w"

definition propagate_deferred_events :: "nat \<Rightarrow> unit act" where
  "propagate_deferred_events sid =
    andthen (the_ide sid) (\<lambda>i.
      case ide_deferred i of
        None \<Rightarrow> throw (TypeError ''NoneType object is not iterable'')
      | Some events \<Rightarrow>
          andthen (propagate_all sid events) (\<lambda>_.
          modify (upd_ide sid (\<lambda>i. i\<lparr>ide_deferred := None\<rparr>))))"

definition the_pid :: "int option \<Rightarrow> jv" where
  "the_pid pid = (case pid of None \<Rightarrow> JNull | Some n \<Rightarrow> JInt n)"

definition pid_text :: "int option \<Rightarrow> string" where
  "pid_text pid = (case pid of None \<Rightarrow> ''None'' | Some n \<Rightarrow> show_int n)"

text \<open>The body of \<open>ptvsd_attach\<close>.\<close>

definition subprocess_body :: "env \<Rightarrow> (string, jv) odict \<Rightarrow> int option \<Rightarrow> (string, jv) odict" where
  "subprocess_body E arguments pid =
    (let b = od_set ''name'' (JStr (''Subprocess '' @ pid_text pid)) arguments;
         b = od_set ''request'' (JStr ''attach'') b;
         b = (if ''host'' \<in> set (od_keys b) then b else od_set ''host'' (JStr ''127.0.0.1'') b);
         b = (if ''port'' \<in> set (od_keys b) then b else od_set ''port'' (JInt (env_ide_port E)) b);
         b = od_del ''processId'' b
     in od_set ''subProcessId'' (the_pid pid) b)"

definition notify_of_subprocess :: "env \<Rightarrow> nat \<Rightarrow> nat \<Rightarrow> unit act" where
  "notify_of_subprocess E sid c =
    andthen (the_ide sid) (\<lambda>i.
      case ide_start_request i of
        None \<Rightarrow> ret ()
      | Some start \<Rightarrow>
          if c \<in> set (ide_known i) then ret ()
          else (case payload_value start of
              JObj arguments \<Rightarrow>
                if ''processId'' \<in> set (od_keys arguments) then ret ()
                else
                  andthen (modify (upd_ide sid (\<lambda>i. i\<lparr>ide_known := c # ide_known i\<rparr>))) (\<lambda>_.
                  andthen (gets (\<lambda>w. cn_pid (w_conn w c))) (\<lambda>pid.
                  on (Ide sid) (send_event ''ptvsd_attach'' (JObj (subprocess_body E arguments pid)))))
            | _ \<Rightarrow> throw (TypeError ''arguments'')))"

section \<open>Connections\<close>

definition optional_str :: "string option \<Rightarrow> jv" where
  "optional_str t = (case t of None \<Rightarrow> JNull | Some s \<Rightarrow> JStr s)"

text \<open>\<open>message["key"]\<close> on the body of a response, and \<open>message("key", validate)\<close>.\<close>

definition item_of :: "party \<Rightarrow> message \<Rightarrow> string \<Rightarrow> jv act" where
  "item_of p m key =
    (case payload_value m of
       JObj d \<Rightarrow> on p (md_getitem (Some m) d key) | _ \<Rightarrow> throw (TypeError ''not subscriptable''))"

definition authenticate :: "env \<Rightarrow> nat \<Rightarrow> unit act" where
  "authenticate E c =
    (if env_server_token E = None \<and> env_adapter_token E = None then ret ()
     else
       andthen (request_wait E (Conn c) ''pydevdAuthorize''
                  (JObj [(''debugServerAccessToken'', optional_str (env_server_token E))])) (\<lambda>auth.
       andthen (item_of (Conn c) auth ''clientAccessToken'') (\<lambda>token.
         if token = optional_str (env_adapter_token E) then ret ()
         else andthen (on (Conn c) channel_close)
                (\<lambda>_. throw (RuntimeError ''Mismatched \"clientAccessToken\"; server not authorized.'')))))"

definition optional_int :: "jv \<Rightarrow> int option" where
  "optional_int v = (if v = Missing then None else Some (int_of v))"

text \<open>
  The \<open>try\<close> block of \<open>Connection.__init__\<close>, in its steps; \<open>accept_connection\<close> gives \<open>True\<close>
  when the connection has been listed.
\<close>

definition take_process_info :: "nat \<Rightarrow> message \<Rightarrow> jv \<Rightarrow> unit act" where
  "take_process_info c info process_info =
    (case process_info of
       JObj d \<Rightarrow>
         andthen (on (Conn c) (md_call (Some info) d ''pid'' an_int False)) (\<lambda>pid.
         andthen (modify (upd_conn c (\<lambda>n. n\<lparr>cn_pid := Some (int_of pid)\<rparr>))) (\<lambda>_.
         andthen (on (Conn c) (md_call (Some info) d ''ppid'' an_int True)) (\<lambda>ppid.
         modify (upd_conn c (\<lambda>n. n\<lparr>cn_ppid := optional_int ppid\<rparr>)))))
     | _ \<Rightarrow> throw (TypeError ''object is not callable''))"

definition describe_connection :: "env \<Rightarrow> nat \<Rightarrow> unit act" where
  "describe_connection E c =
    andthen (request_wait E (Conn c) ''pydevdSystemInfo'' JNull) (\<lambda>info.
    andthen (on (Conn c) (msg_call info ''process'' (VFn (object None)) False)) (take_process_info c info))"

definition inject_ptvsd :: "env \<Rightarrow> nat \<Rightarrow> unit act" where
  "inject_ptvsd E c =
    catching
      (andthen (request_wait E (Conn c) ''evaluate'' (JObj [(''expression'', JStr (env_inject_code E))]))
        (\<lambda>_. ret ()))
      (\<lambda>e. if is_handling e then ret () else throw e)"

definition list_connection :: "nat \<Rightarrow> bool act" where
  "list_connection c w =
    (let n = w_conn w c in
     if cn_disconnected n then (Inr False, w)
     else if \<exists>c' \<in> set (w_connections w). cn_pid (w_conn w c') = cn_pid n
     then (Inl (Raised (KeyError ''already connected to this adapter'')), w)
     else (Inr True, w\<lparr>w_connections := w_connections w @ [c], w_connections_changed := True\<rparr>))"

definition accept_connection :: "env \<Rightarrow> nat \<Rightarrow> bool act" where
  "accept_connection E c =
    catching
      (andthen (authenticate E c) (\<lambda>_.
       andthen (describe_connection E c) (\<lambda>_.
       andthen (inject_ptvsd E c) (\<lambda>_. list_connection c))))
      (\<lambda>_. andthen (on (Conn c) channel_close) (\<lambda>_.
           andthen dont_wait_for_first_connection (\<lambda>_. ret False)))"

definition connection_init :: "env \<Rightarrow> nat \<Rightarrow> unit act" where
  "connection_init E c =
    andthen (accept_connection E c) (\<lambda>listed.
      if \<not> listed then ret ()
      else
        andthen (gets (\<lambda>w. get_session (cn_ppid (w_conn w c)) w)) (\<lambda>parent.
          case parent of
            None \<Rightarrow> ret ()
          | Some sid \<Rightarrow> ignoring (notify_of_subprocess E sid c)))"

text \<open>The message handlers of a connection that is not in a session, and its end.\<close>

definition conn_request :: "nat \<Rightarrow> message \<Rightarrow> hresult act" where
  "conn_request c m = raise_isnt_valid (Conn c) ''Requests from the debug server to the IDE are not allowed.'' m"

definition conn_event :: "message \<Rightarrow> hresult act" where
  "conn_event m = ret RNone"

definition conn_terminated_event :: "nat \<Rightarrow> message \<Rightarrow> hresult act" where
  "conn_terminated_event c m = andthen (on (Conn c) channel_close) (\<lambda>_. ret RNone)"

definition conn_disconnect :: "env \<Rightarrow> nat \<Rightarrow> unit act" where
  "conn_disconnect E c =
    andthen (modify (upd_conn c (\<lambda>n. n\<lparr>cn_disconnected := True\<rparr>))) (\<lambda>_ w.
      case cn_server (w_conn w c) of
        Some sid \<Rightarrow> server_disconnect E sid w
      | None \<Rightarrow>
          if c \<in> set (w_connections w) then remove_connection c w else (Inr (), w))"

section \<open>The Server component\<close>

text \<open>\<open>Server.__init__\<close> with \<open>Component.__init__\<close> on the connection's channel.\<close>

definition server_init :: "nat \<Rightarrow> nat \<Rightarrow> unit act" where
  "server_init sid c w =
    (let s = w_session w sid; n = w_conn w c in
     if cn_server n \<noteq> None then (Inl (Raised (AssertionError ''connection.server is None'')), w)
     else if ss_server s \<noteq> None then (Inl (Raised (AssertionError ''not session.server'')), w)
     else
       (let w1 = upd_conn c (\<lambda>n. n\<lparr>cn_handlers := Some sid\<rparr>) w in
        if ss_pid s \<noteq> None then (Inl (Raised (AssertionError ''self.session.pid is None'')), w1)
        else (Inr (), upd_session sid (\<lambda>s. s\<lparr>ss_pid := cn_pid n,
               ss_server := Some \<lparr>sv_conn = c, sv_connected = True, sv_capabilities = []\<rparr>\<rparr>) w1)))"

definition attach_to_session :: "nat \<Rightarrow> nat \<Rightarrow> unit act" where
  "attach_to_session c sid w =
    (if cn_server (w_conn w c) \<noteq> None then (Inl (Raised (ValueError '''')), w)
     else andthen (server_init sid c) (\<lambda>_. modify (upd_conn c (\<lambda>n. n\<lparr>cn_server := Some sid\<rparr>))) w)"

definition server_initialize :: "env \<Rightarrow> nat \<Rightarrow> message \<Rightarrow> unit act" where
  "server_initialize E sid request =
    (if \<not> (msg_kind request = MRequest \<and> msg_name request = ''initialize'')
     then throw (AssertionError ''request.is_request(\"initialize\")'')
     else
       andthen (the_server sid) (\<lambda>v.
       andthen (authenticate E (sv_conn v)) (\<lambda>_.
       andthen (on (ServerOf sid) (propagate request)) (\<lambda>sent.
       andthen (wait_for_response E (ServerOf sid) (the sent)) (\<lambda>response.
       andthen (on (ServerOf sid) (parse_capabilities server_capability_properties response)) (\<lambda>caps.
       modify (upd_server sid (\<lambda>v. v\<lparr>sv_capabilities := caps\<rparr>))))))))"

text \<open>Its message handlers.\<close>

definition server_request :: "env \<Rightarrow> nat \<Rightarrow> message \<Rightarrow> hresult act" where
  "server_request E sid = message_handler E (ServerOf sid) (\<lambda>m.
     raise_isnt_valid (ServerOf sid) ''Requests from the debug server to the IDE are not allowed.'' m)"

definition server_event :: "env \<Rightarrow> nat \<Rightarrow> message \<Rightarrow> hresult act" where
  "server_event E sid = message_handler E (ServerOf sid) (\<lambda>m.
     andthen (propagate_after_start sid m) (\<lambda>_. ret RNone))"

definition server_initialized_event :: "env \<Rightarrow> nat \<Rightarrow> message \<Rightarrow> hresult act" where
  "server_initialized_event E sid = message_handler E (ServerOf sid) (\<lambda>m. ret RNone)"

definition unless_launcher :: "nat \<Rightarrow> unit act \<Rightarrow> unit act" where
  "unless_launcher sid f w = (if ss_launcher (w_session w sid) = None then f w else (Inr (), w))"

definition server_process_event :: "env \<Rightarrow> nat \<Rightarrow> message \<Rightarrow> hresult act" where
  "server_process_event E sid = message_handler E (ServerOf sid) (\<lambda>m.
     andthen (unless_launcher sid (propagate_after_start sid m)) (\<lambda>_. ret RNone))"

definition server_continued_event :: "env \<Rightarrow> nat \<Rightarrow> message \<Rightarrow> hresult act" where
  "server_continued_event E sid = message_handler E (ServerOf sid) (\<lambda>m.
     andthen (the_ide sid) (\<lambda>i.
     andthen (if ide_client_id i \<in> {JStr ''visualstudio'', JStr ''vsformac''} then ret ()
              else propagate_after_start sid m) (\<lambda>_. ret RNone)))"

definition server_exited_event :: "env \<Rightarrow> nat \<Rightarrow> message \<Rightarrow> hresult act" where
  "server_exited_event E sid = message_handler E (ServerOf sid) (\<lambda>m.
     andthen (unless_launcher sid (propagate_after_start sid m)) (\<lambda>_. ret RNone))"

definition server_terminated_event :: "env \<Rightarrow> nat \<Rightarrow> message \<Rightarrow> hresult act" where
  "server_terminated_event E sid = message_handler E (ServerOf sid) (\<lambda>m.
     andthen (on (ServerOf sid) channel_close) (\<lambda>_. ret RNone))"

section \<open>Waiting for a connection, and injection\<close>

datatype wait_time = Forever | Seconds nat

definition wait_for_connection ::
  "env \<Rightarrow> (connection \<Rightarrow> bool) \<Rightarrow> wait_time \<Rightarrow> nat option act" where
  "wait_for_connection E predicate timeout w =
    (let w = w\<lparr>w_connections_changed := False\<rparr>;
         find = (\<lambda>w. List.find (\<lambda>c. predicate (w_conn w c)) (w_connections w)) in
     if find w \<noteq> None \<or> timeout = Seconds 0 then (Inr (find w), w)
     else
       (let w' = env_meanwhile E (w_ticks w) (w\<lparr>w_ticks := Suc (w_ticks w)\<rparr>) in
        if find w' \<noteq> None \<or> timeout \<noteq> Forever
        then (Inr (find w'), w'\<lparr>w_connections_changed := False\<rparr>)
        else (Inl Blocked, w'\<lparr>w_connections_changed := False\<rparr>)))"

text \<open>\<open>wait_until_disconnected\<close>: one turn of its loop, \<open>Some\<close> when it returns.\<close>

definition wait_until_disconnected_turn :: "world \<Rightarrow> unit option \<times> world" where
  "wait_until_disconnected_turn w =
    (if \<not> w_connections_changed w then (None, w)
     else (if w_connections w = [] then Some () else None, w\<lparr>w_connections_changed := False\<rparr>))"

definition inject_cmdline :: "env \<Rightarrow> int \<Rightarrow> string list \<Rightarrow> string list" where
  "inject_cmdline E pid ptvsd_args =
    [env_executable E, env_ptvsd_dir E, ''--client'', ''--host'', env_server_host E,
     ''--port'', show_int (env_server_port E)] @
    (case env_adapter_token E of None \<Rightarrow> [] | Some t \<Rightarrow> [''--client-access-token'', t]) @
    ptvsd_args @ [''--pid'', show_int pid]"

definition spawn :: "env \<Rightarrow> string list \<Rightarrow> unit act" where
  "spawn E cmdline =
    andthen tick (\<lambda>n.
      case env_spawn E n cmdline of
        Some e \<Rightarrow> throw e
      | None \<Rightarrow> modify (\<lambda>w. w\<lparr>w_spawned := w_spawned w @ [cmdline]\<rparr>))"

definition inject :: "env \<Rightarrow> int \<Rightarrow> string list \<Rightarrow> unit act" where
  "inject E pid ptvsd_args =
    catching (spawn E (inject_cmdline E pid ptvsd_args))
      (\<lambda>e. throw (Handling MessageHandlingError
         (''Failed to inject debug server into process with PID='' @ show_int pid @ '': '' @ exn_str e) None 0))"

end
