(* ===== verification/Launchers.thy ===== *)
theory Launchers
  imports Servers
begin

text \<open>
  \<open>adapter/launchers.py\<close>: the launcher component, its message handlers, and \<open>spawn_debuggee\<close>.
\<close>

definition of_exn :: "exn + 'a \<Rightarrow> 'a act" where
  "of_exn r = (case r of Inl e \<Rightarrow> throw e | Inr x \<Rightarrow> ret x)"

definition session_text :: "nat \<Rightarrow> string" where
  "session_text sid = ''Session-'' @ show_nat sid"

definition component_text :: "string \<Rightarrow> nat \<Rightarrow> string" where
  "component_text name sid = name @ ''['' @ show_nat sid @ '']''"

text \<open>The started channel of a new component, on the stream \<open>i\<close>.\<close>

definition started_channel :: "nat \<Rightarrow> chan" where
  "started_channel i = (new_channel i)\<lparr>ch_parser := Parsing\<rparr>"

definition launcher_init :: "nat \<Rightarrow> nat \<Rightarrow> unit act" where
  "launcher_init sid i w =
    (if ss_launcher (w_session w sid) \<noteq> None
     then (Inl (Raised (AssertionError ''not session.launcher'')), w)
     else (Inr (), upd_session sid (\<lambda>s. s\<lparr>ss_launcher := Some \<lparr>la_chan = started_channel i,
             la_connected = True, la_pid = JNull, la_exit_code = JNull\<rparr>\<rparr>) w))"

section \<open>Message handlers\<close>

definition launcher_process_event :: "env \<Rightarrow> nat \<Rightarrow> message \<Rightarrow> hresult act" where
  "launcher_process_event E sid = message_handler E (Launcher sid) (\<lambda>m.
     andthen (on (Launcher sid) (msg_call m ''systemProcessId'' an_int False)) (\<lambda>pid.
     andthen (modify (upd_launcher sid (\<lambda>l. l\<lparr>la_pid := pid\<rparr>))) (\<lambda>_.
     andthen (propagate_after_start sid m) (\<lambda>_. ret RNone))))"

definition launcher_output_event :: "env \<Rightarrow> nat \<Rightarrow> message \<Rightarrow> hresult act" where
  "launcher_output_event E sid = message_handler E (Launcher sid) (\<lambda>m.
     andthen (propagate_after_start sid m) (\<lambda>_. ret RNone))"

definition launcher_exited_event :: "env \<Rightarrow> nat \<Rightarrow> message \<Rightarrow> hresult act" where
  "launcher_exited_event E sid = message_handler E (Launcher sid) (\<lambda>m.
     andthen (on (Launcher sid) (msg_call m ''exitCode'' an_int False)) (\<lambda>code.
     andthen (modify (upd_launcher sid (\<lambda>l. l\<lparr>la_exit_code := code\<rparr>))) (\<lambda>_. ret RNone)))"

definition launcher_terminated_event :: "env \<Rightarrow> nat \<Rightarrow> message \<Rightarrow> hresult act" where
  "launcher_terminated_event E sid = message_handler E (Launcher sid) (\<lambda>m.
     andthen (the_launcher sid) (\<lambda>l.
     andthen (ignoring (on (Ide sid) (send_event ''exited'' (JObj [(''exitCode'', la_exit_code l)])))) (\<lambda>_.
     andthen (on (Launcher sid) channel_close) (\<lambda>_. ret RNone))))"

section \<open>spawn_debuggee\<close>

definition launcher_cmdline :: "env \<Rightarrow> bool \<Rightarrow> string list \<Rightarrow> string list" where
  "launcher_cmdline E sudo args =
    (if sudo then [''sudo''] else []) @ [env_executable E, env_launcher_dir E] @ args"

definition launcher_environment :: "env \<Rightarrow> nat \<Rightarrow> (string, jv) odict" where
  "launcher_environment E n =
    (''PTVSD_LAUNCHER_PORT'', JStr (show_nat (env_launcher_port E n))) # env_log_variables E"

definition terminal_kind :: "string \<Rightarrow> string" where
  "terminal_kind console = (if console = ''integratedTerminal'' then ''integrated'' else ''external'')"

definition run_in_terminal :: "env \<Rightarrow> nat \<Rightarrow> nat \<Rightarrow> string list \<Rightarrow> string \<Rightarrow> string \<Rightarrow> unit act" where
  "run_in_terminal E sid n cmdline console title =
    andthen (the_ide sid) (\<lambda>i.
    andthen (of_exn (require (component_text ''IDE'' sid) (ide_capabilities i) [''supportsRunInTerminalRequest''])) (\<lambda>_.
    andthen (request_wait E (Ide sid) ''runInTerminal'' (JObj
      [(''kind'', JStr (terminal_kind console)), (''title'', JStr title),
       (''args'', JList (map JStr cmdline)), (''env'', JObj (launcher_environment E n))])) (\<lambda>_. ret ())))"

text \<open>
  \<open>spawn_launcher\<close>: the listener is made, the launcher is started in the way that \<open>console\<close>
  asks for, the launcher's connection is accepted (or the wait for it times out) and becomes
  the component, and the start request is passed on to it.
\<close>

definition spawn_launcher ::
  "env \<Rightarrow> nat \<Rightarrow> message \<Rightarrow> bool \<Rightarrow> string list \<Rightarrow> string \<Rightarrow> string \<Rightarrow> jv \<Rightarrow> unit act" where
  "spawn_launcher E sid start sudo args console title arguments =
    andthen tick (\<lambda>n.
    andthen (if console = ''internalConsole'' then spawn E (launcher_cmdline E sudo args)
             else run_in_terminal E sid n (launcher_cmdline E sudo args) console title) (\<lambda>_.
      case env_accept E n of
        Some e \<Rightarrow> throw e
      | None \<Rightarrow>
          andthen (launcher_init sid n) (\<lambda>_.
          catching (andthen (request_wait E (Launcher sid) (msg_name start) arguments) (\<lambda>_. ret ()))
            (\<lambda>e. throw (propagated e start)))))"

definition start_arguments :: "env \<Rightarrow> message \<Rightarrow> jv" where
  "start_arguments E start =
    (case payload_value start of
       JObj d \<Rightarrow> JObj (od_set ''clientAccessToken'' (optional_str (env_adapter_token E))
                        (od_set ''port'' (JInt (env_server_port E)) d))
     | v \<Rightarrow> v)"

definition spawn_debuggee ::
  "env \<Rightarrow> nat \<Rightarrow> message \<Rightarrow> bool \<Rightarrow> string list \<Rightarrow> string \<Rightarrow> string \<Rightarrow> unit act" where
  "spawn_debuggee E sid start sudo args console title w =
    (if truthy (ss_no_debug (w_session w sid))
     then spawn_launcher E sid start sudo args console title (payload_value start) w
     else
       andthen (spawn_launcher E sid start sudo args console title (start_arguments E start)) (\<lambda>_.
       andthen (wait_for E (launcher_says sid (\<lambda>l. la_pid l \<noteq> JNull)) True) (\<lambda>running.
         if \<not> running then
           raise_cant_handle (Ide sid) (session_text sid @ '' timed out waiting for \"process\" event from '' @
             component_text ''Launcher'' sid) start
         else
           andthen (wait_for_connection E (\<lambda>_. True) (Seconds 10)) (\<lambda>found.
             case found of
               None \<Rightarrow> raise_cant_handle (Ide sid) (session_text sid @ '' timed out waiting for debuggee to spawn'') start
             | Some c \<Rightarrow> attach_to_session c sid))) w)"

end
