(* ===== verification/Ide.thy ===== *)
theory Ide
  imports Launchers
begin

text \<open>
  \<open>adapter/ide.py\<close>: the IDE component and its message handlers, with the common code of
  "launch" and "attach"; and the tables by which \<open>JsonMessageChannel._get_handler_for\<close> finds the
  handlers of the three components.
\<close>

definition blank_session :: session where
  "blank_session = \<lparr>ss_ide = None, ss_launcher = None, ss_server = None, ss_no_debug = JNull, ss_pid = None,
     ss_debug_options = [], ss_finalizing = False\<rparr>"

definition new_ide :: "nat \<Rightarrow> ide" where
  "new_ide i = \<lparr>ide_chan = started_channel i, ide_connected = True, ide_client_id = JNull,
     ide_has_started = False, ide_start_request = None, ide_initialize_request = None,
     ide_deferred = Some [], ide_known = [], ide_capabilities = [], ide_expectations = []\<rparr>"

text \<open>The session with its IDE, registered; all of it runs with the session locked.\<close>

definition new_session :: "nat \<Rightarrow> nat act" where
  "new_session i =
    andthen (gets w_session_count) (\<lambda>sid.
    andthen (modify (\<lambda>w. upd_session sid (\<lambda>_. blank_session\<lparr>ss_ide := Some (new_ide i)\<rparr>)
                          (w\<lparr>w_session_count := Suc sid\<rparr>))) (\<lambda>_.
    andthen (register sid) (\<lambda>_. ret sid)))"

definition ide_init :: "env \<Rightarrow> nat act" where
  "ide_init E =
    andthen tick (\<lambda>i.
    andthen (new_session i) (\<lambda>sid.
    andthen (on (Ide sid) (send_event ''output'' (JObj
       [(''category'', JStr ''telemetry''), (''output'', JStr ''ptvsd''),
        (''data'', JObj [(''packageVersion'', JStr (env_version E))])]))) (\<lambda>_. ret sid)))"

section \<open>Generic handlers and initialize\<close>

definition ide_event :: "env \<Rightarrow> nat \<Rightarrow> message \<Rightarrow> hresult act" where
  "ide_event E sid = message_handler E (Ide sid) (\<lambda>m w.
     if ss_server (w_session w sid) \<noteq> None
     then andthen (on (ServerOf sid) (propagate m)) (\<lambda>_. ret RNone) w
     else (Inr RNone, w))"

definition ide_request :: "env \<Rightarrow> nat \<Rightarrow> message \<Rightarrow> hresult act" where
  "ide_request E sid = message_handler E (Ide sid) (\<lambda>m.
     andthen (delegate E (ServerOf sid) m) (\<lambda>v. ret (RBody v)))"

definition flags :: "string list \<Rightarrow> (string \<times> jv) list" where
  "flags names = map (\<lambda>name. (name, JBool True)) names"

definition adapter_capabilities :: jv where
  "adapter_capabilities = JObj (flags
     [''supportsCompletionsRequest'', ''supportsConditionalBreakpoints'',
      ''supportsConfigurationDoneRequest'', ''supportsDebuggerProperties'',
      ''supportsDelayedStackTraceLoading'', ''supportsEvaluateForHovers'',
      ''supportsExceptionInfoRequest'', ''supportsExceptionOptions'',
      ''supportsHitConditionalBreakpoints'', ''supportsLogPoints'', ''supportsModulesRequest'',
      ''supportsSetExpression'', ''supportsSetVariable'', ''supportsValueFormattingOptions'',
      ''supportsTerminateDebuggee'', ''supportsGotoTargetsRequest''] @
     [(''exceptionBreakpointFilters'', JList
        [JObj [(''filter'', JStr ''raised''), (''label'', JStr ''Raised Exceptions''), (''default'', JBool False)],
         JObj [(''filter'', JStr ''uncaught''), (''label'', JStr ''Uncaught Exceptions''), (''default'', JBool True)]])])"

definition initialize_body :: "nat \<Rightarrow> message \<Rightarrow> hresult act" where
  "initialize_body sid m =
     andthen (the_ide sid) (\<lambda>i.
     if ide_initialize_request i \<noteq> None
     then raise_isnt_valid (Ide sid) ''Session is already initialized'' m
     else
       andthen (on (Ide sid) (msg_call m ''clientID'' (VConst (JStr [])) False)) (\<lambda>client.
       andthen (modify (upd_ide sid (\<lambda>i. i\<lparr>ide_client_id := client\<rparr>))) (\<lambda>_.
       andthen (on (Ide sid) (parse_capabilities ide_capability_properties m)) (\<lambda>caps.
       andthen (modify (upd_ide sid (\<lambda>i. i\<lparr>ide_capabilities := caps\<rparr>))) (\<lambda>_.
       andthen (on (Ide sid) (parse_capabilities ide_expectation_properties m)) (\<lambda>exps.
       andthen (modify (upd_ide sid (\<lambda>i. i\<lparr>ide_expectations := exps, ide_initialize_request := Some m\<rparr>))) (\<lambda>_.
       ret (RBody adapter_capabilities))))))))"

definition initialize_request :: "env \<Rightarrow> nat \<Rightarrow> message \<Rightarrow> hresult act" where
  "initialize_request E sid = message_handler E (Ide sid) (initialize_body sid)"

section \<open>Common code of launch and attach\<close>

definition arg :: "nat \<Rightarrow> message \<Rightarrow> string \<Rightarrow> vspec \<Rightarrow> bool \<Rightarrow> jv act" where
  "arg sid m key validate optional = on (Ide sid) (msg_call m key validate optional)"

definition strings_of :: "jv \<Rightarrow> string list" where
  "strings_of v = (case v of JList xs \<Rightarrow> map str_of xs | _ \<Rightarrow> [])"

definition str_array :: vspec where
  "str_array = VFn array_of_str"

definition is_request_named :: "message \<Rightarrow> string list \<Rightarrow> bool" where
  "is_request_named m names \<longleftrightarrow> msg_kind m = MRequest \<and> msg_name m \<in> set names"

text \<open>What the server gets of the start request's arguments; \<open>list(set)\<close> in the order of the list.\<close>

definition server_arguments :: "bool \<Rightarrow> string list \<Rightarrow> jv \<Rightarrow> jv" where
  "server_arguments has_launcher options arguments =
    (case arguments of
       JObj d \<Rightarrow>
         if \<not> has_launcher then JObj d
         else
           (let d1 = (if ''RedirectOutput'' \<in> set options
                      then od_set ''debugOptions''
                        (JList (map JStr (filter (\<lambda>x. x \<noteq> ''RedirectOutput'') (remdups options)))) d
                      else d)
            in JObj (if truthy (md_get d1 ''redirectOutput'') then od_del ''redirectOutput'' d1 else d1))
     | v \<Rightarrow> v)"

definition ide_os :: "env \<Rightarrow> string list \<Rightarrow> string" where
  "ide_os E options =
    (if ''WindowsClient'' \<in> set options \<or> ''Windows'' \<in> set options then ''WINDOWS''
     else if ''UnixClient'' \<in> set options \<or> ''UNIX'' \<in> set options then ''UNIX''
     else if env_windows E then ''WINDOWS'' else ''UNIX'')"

definition debugger_properties :: "env \<Rightarrow> string list \<Rightarrow> jv" where
  "debugger_properties E options = JObj
     [(''skipSuspendOnBreakpointException'', JList [JStr ''BaseException'']),
      (''skipPrintBreakpointException'', JList [JStr ''NameError'']),
      (''multiThreadsSingleNotification'', JBool True), (''ideOS'', JStr (ide_os E options))]"

text \<open>The part between the start of the debuggee and the end: the server gets both requests.\<close>

definition start_server :: "env \<Rightarrow> nat \<Rightarrow> string list \<Rightarrow> message \<Rightarrow> unit act" where
  "start_server E sid options m w =
    (if ss_server (w_session w sid) = None then (Inr (), w)
     else
       andthen (the_ide sid) (\<lambda>i.
       andthen (case ide_initialize_request i of
                  None \<Rightarrow> throw (AttributeError ''is_request'') | Some r \<Rightarrow> server_initialize E sid r) (\<lambda>_.
       andthen (modify (upd_ide sid (\<lambda>i. i\<lparr>ide_initialize_request := None\<rparr>))) (\<lambda>_.
       andthen (gets (\<lambda>w. ss_launcher (w_session w sid) \<noteq> None)) (\<lambda>has_launcher.
       catching
         (andthen (request_wait E (ServerOf sid) (msg_name m)
                     (server_arguments has_launcher options (payload_value m))) (\<lambda>_. ret ()))
         (\<lambda>e. throw (propagated e m)))))) w)"

definition finish_start :: "env \<Rightarrow> nat \<Rightarrow> string list \<Rightarrow> message \<Rightarrow> hresult act" where
  "finish_start E sid options m w =
    (if truthy (ss_no_debug (w_session w sid)) then
       andthen (modify (upd_ide sid (\<lambda>i. i\<lparr>ide_start_request := Some m, ide_has_started := True\<rparr>))) (\<lambda>_.
       andthen (on (Ide sid) (respond m (Payload (JObj [])))) (\<lambda>_.
       andthen (propagate_deferred_events sid) (\<lambda>_. ret RNone))) w
     else
       andthen (request_wait E (ServerOf sid) ''setDebuggerProperty'' (debugger_properties E options)) (\<lambda>_.
       andthen (on (Ide sid) (send_event ''initialized'' JNull)) (\<lambda>_.
       andthen (modify (upd_ide sid (\<lambda>i. i\<lparr>ide_start_request := Some m\<rparr>))) (\<lambda>_. ret RNoResponse))) w)"

text \<open>\<open>f\<close> gives the request back, as its own code may have changed the lists in the arguments.\<close>

definition start_message_handler ::
  "env \<Rightarrow> nat \<Rightarrow> (message \<Rightarrow> message act) \<Rightarrow> message \<Rightarrow> hresult act" where
  "start_message_handler E sid f = message_handler E (Ide sid) (\<lambda>m.
     if \<not> is_request_named m [''launch'', ''attach'']
     then throw (AssertionError ''request.is_request(\"launch\", \"attach\")'')
     else
       andthen (the_ide sid) (\<lambda>i.
       if ide_initialize_request i = None
       then raise_isnt_valid (Ide sid) ''Session is not initialized yet'' m
       else
         andthen (gets (\<lambda>w. w_session w sid)) (\<lambda>s.
         if ss_launcher s \<noteq> None \<or> ss_server s \<noteq> None
         then raise_isnt_valid (Ide sid) ''Session is already started'' m
         else
           andthen (arg sid m ''noDebug'' (VFn (default (JBool False))) False) (\<lambda>no_debug.
           andthen (modify (upd_session sid (\<lambda>s. s\<lparr>ss_no_debug := no_debug\<rparr>))) (\<lambda>_.
           andthen (if truthy no_debug then dont_wait_for_first_connection else ret ()) (\<lambda>_.
           andthen (arg sid m ''debugOptions'' str_array False) (\<lambda>options.
           andthen (modify (upd_session sid (\<lambda>s. s\<lparr>ss_debug_options := strings_of options\<rparr>))) (\<lambda>_.
           andthen (f m) (\<lambda>m.
           andthen (start_server E sid (strings_of options) m) (\<lambda>_.
           finish_start E sid (strings_of options) m))))))))))"

section \<open>launch\<close>

definition has_key :: "message \<Rightarrow> string \<Rightarrow> bool" where
  "has_key m key = (case payload_value m of JObj d \<Rightarrow> key \<in> set (od_keys d) | _ \<Rightarrow> False)"

definition set_argument :: "string \<Rightarrow> jv \<Rightarrow> message \<Rightarrow> message" where
  "set_argument key v m =
    (case payload_value m of JObj d \<Rightarrow> m\<lparr>msg_body := Payload (JObj (od_set key v d))\<rparr> | _ \<Rightarrow> m)"

definition argument :: "message \<Rightarrow> string \<Rightarrow> jv" where
  "argument m key = (case payload_value m of JObj d \<Rightarrow> md_get d key | _ \<Rightarrow> Missing)"

definition nonempty_array :: vspec where
  "nonempty_array = VFn nonempty_strs"

text \<open>
  \<open>args += request("args", ...)\<close>: for "program", \<open>args\<close> is the list that the validator returned,
  and that is the list in the request itself unless the property was a single string.
\<close>

definition extend_program :: "jv \<Rightarrow> message \<Rightarrow> message" where
  "extend_program args m =
    (case argument m ''program'' of JList _ \<Rightarrow> set_argument ''program'' args m | _ \<Rightarrow> m)"

definition debuggee_args :: "nat \<Rightarrow> message \<Rightarrow> (string list \<times> message) act" where
  "debuggee_args sid m =
    (if has_key m ''program'' then
       andthen (arg sid m ''program'' nonempty_array False) (\<lambda>program.
       andthen (arg sid m ''args'' str_array False) (\<lambda>args.
       ret (strings_of program @ strings_of args,
            extend_program (JList (map JStr (strings_of program @ strings_of args))) m)))
     else
       andthen
         (if has_key m ''module'' then
            andthen (arg sid m ''module'' nonempty_array False) (\<lambda>v. ret (''-m'' # strings_of v))
          else if has_key m ''code'' then
            andthen (arg sid m ''code'' nonempty_array False) (\<lambda>v. ret (''-c'' # strings_of v))
          else ret []) (\<lambda>target.
       andthen (arg sid m ''args'' str_array False) (\<lambda>args. ret (target @ strings_of args, m))))"

definition consoles :: vspec where
  "consoles = VFn (enum [JStr ''internalConsole'', JStr ''integratedTerminal'', JStr ''externalTerminal''] True)"

definition launch_body :: "env \<Rightarrow> nat \<Rightarrow> message \<Rightarrow> message act" where
  "launch_body E sid m w =
    (if sid \<noteq> 1 \<or> w_connections w \<noteq> [] then raise_cant_handle (Ide sid) ''\"attach\" expected'' m w
     else
       (let in_options = ''Sudo'' \<in> set (ss_debug_options (w_session w sid)) in
        andthen (arg sid m ''sudo'' (VFn (default (JBool in_options))) False) (\<lambda>sudo.
        andthen (if truthy sudo then
                   (if env_windows E
                    then raise_cant_handle (Ide sid) ''\"sudo\":true is not supported on Windows.'' m
                    else ret ())
                 else if in_options
                 then raise_isnt_valid (Ide sid)
                        ''\"sudo\":false and \"debugOptions\":[\"Sudo\"] are mutually exclusive'' m
                 else ret ()) (\<lambda>_.
        andthen (debuggee_args sid m) (\<lambda>(args, m).
        andthen (arg sid m ''console'' consoles False) (\<lambda>console.
        andthen (arg sid m ''consoleTitle'' (VFn (default (JStr ''Python Debug Console''))) False) (\<lambda>title.
        andthen (spawn_debuggee E sid m (truthy sudo) args (str_of console) (str_of title)) (\<lambda>_.
        ret m)))))) w))"

definition launch_request :: "env \<Rightarrow> nat \<Rightarrow> message \<Rightarrow> hresult act" where
  "launch_request E sid = start_message_handler E sid (launch_body E sid)"

section \<open>attach\<close>

text \<open>\<open>int(pid)\<close> of a value that is not an int: here, a str.\<close>

definition pid_of :: "jv \<Rightarrow> int option" where
  "pid_of v = (case v of JInt i \<Rightarrow> Some i | JBool b \<Rightarrow> Some (if b then 1 else 0) | JStr s \<Rightarrow> parse_int s | _ \<Rightarrow> None)"

text \<open>How to find the connection: by what predicate, for how long, after injecting if needed.\<close>

definition attach_target ::
  "env \<Rightarrow> nat \<Rightarrow> message \<Rightarrow> jv \<Rightarrow> jv \<Rightarrow> ((connection \<Rightarrow> bool) \<times> wait_time) act" where
  "attach_target E sid m pid sub_pid =
    (if pid \<noteq> Missing then
       (if sub_pid \<noteq> Missing
        then raise_isnt_valid (Ide sid) ''\"processId\" and \"subProcessId\" are mutually exclusive'' m
        else case pid_of pid of
            None \<Rightarrow> raise_isnt_valid (Ide sid) ''\"processId\" must be parseable as int'' m
          | Some n \<Rightarrow>
              andthen (arg sid m ''ptvsdArgs'' str_array False) (\<lambda>args.
              andthen (inject E n (strings_of args)) (\<lambda>_.
              ret (\<lambda>c. cn_pid c = Some n, Seconds 10))))
     else if sub_pid = Missing then
       andthen (arg sid m ''waitForAttach'' (VConst (JBool False)) False) (\<lambda>wait.
       ret (\<lambda>c. True, if truthy wait then Forever else Seconds 10))
     else ret (\<lambda>c. cn_pid c = Some (int_of sub_pid), Seconds 0))"

definition attach_failure :: "wait_time \<Rightarrow> jv \<Rightarrow> string" where
  "attach_failure timeout sub_pid =
    (if timeout \<noteq> Forever \<and> timeout \<noteq> Seconds 0 then ''Timed out waiting for debug server to connect.''
     else if sub_pid = Missing then ''There is no debug server connected to this adapter.''
     else ''No known subprocess with \"subProcessId\":'' @ repr_value sub_pid)"

definition connection_text :: "connection \<Rightarrow> string" where
  "connection_text c = (case cn_pid c of None \<Rightarrow> ''Server[?]'' | Some n \<Rightarrow> ''Server[pid='' @ show_int n @ '']'')"

definition attach_body :: "env \<Rightarrow> nat \<Rightarrow> message \<Rightarrow> message act" where
  "attach_body E sid m w =
    (if truthy (ss_no_debug (w_session w sid))
     then raise_isnt_valid (Ide sid) ''\"noDebug\" is not supported for \"attach\"'' m w
     else
       andthen (arg sid m ''processId'' (VType (Tup [Cls ClsInt, Cls ClsStr])) True) (\<lambda>pid.
       andthen (arg sid m ''subProcessId'' an_int True) (\<lambda>sub_pid.
       andthen (attach_target E sid m pid sub_pid) (\<lambda>(predicate, timeout).
       andthen (wait_for_connection E predicate timeout) (\<lambda>found.
         case found of
           None \<Rightarrow> raise_cant_handle (Ide sid) (attach_failure timeout sub_pid) m
         | Some c \<Rightarrow>
             andthen
               (catching (attach_to_session c sid) (\<lambda>e.
                  case e of
                    ValueError _ \<Rightarrow>
                      andthen (gets (\<lambda>w. w_conn w c)) (\<lambda>n.
                      andthen (on (Ide sid) (cant_handle (connection_text n @ '' is already being debugged.'') m))
                        (\<lambda>_. ret ()))
                  | _ \<Rightarrow> throw e))
               (\<lambda>_. ret m))))) w)"

definition attach_request :: "env \<Rightarrow> nat \<Rightarrow> message \<Rightarrow> hresult act" where
  "attach_request E sid = start_message_handler E sid (attach_body E sid)"

section \<open>configurationDone and the other requests\<close>

fun notify_of_children :: "env \<Rightarrow> nat \<Rightarrow> nat list \<Rightarrow> unit act" where
  "notify_of_children E sid [] w = (Inr (), w)"
| "notify_of_children E sid (c # cs) w =
     andthen
       (if cn_server (w_conn w c) = None \<and> cn_ppid (w_conn w c) = ss_pid (w_session w sid)
        then notify_of_subprocess E sid c else ret ())
       (\<lambda>_. notify_of_children E sid cs) w"

text \<open>The start request, whose absence is the attribute error of \<open>None\<close>.\<close>

definition the_start_request :: "nat \<Rightarrow> message act" where
  "the_start_request sid =
    andthen (the_ide sid) (\<lambda>i.
      case ide_start_request i of None \<Rightarrow> throw (AttributeError ''NoneType'') | Some m \<Rightarrow> ret m)"

definition configurationDone_request :: "env \<Rightarrow> nat \<Rightarrow> message \<Rightarrow> hresult act" where
  "configurationDone_request E sid = message_handler E (Ide sid) (\<lambda>m.
     andthen (the_ide sid) (\<lambda>i.
     andthen (if ide_start_request i = None \<or> ide_has_started i
              then andthen (on (Ide sid) (cant_handle
                ''\"configurationDone\" is only allowed during handling of a \"launch\" or an \"attach\" request'' m))
                (\<lambda>_. ret ())
              else ret ()) (\<lambda>_.
     andthen
       (ensuring
         (catching
           (andthen (modify (upd_ide sid (\<lambda>i. i\<lparr>ide_has_started := True\<rparr>))) (\<lambda>_.
            andthen (delegate E (ServerOf sid) m) (\<lambda>v.
            on (Ide sid) (respond m (Payload v)))))
           (\<lambda>e. if is_handling e
                then andthen (the_start_request sid) (\<lambda>start.
                     andthen (on (Ide sid) (cant_handle (exn_str e) start)) (\<lambda>_. ret ()))
                else throw e))
         (andthen (the_start_request sid) (\<lambda>start.
          andthen (on (Ide sid) (respond start (Payload (JObj [])))) (\<lambda>_.
          propagate_deferred_events sid)))) (\<lambda>_.
     andthen (gets w_connections) (\<lambda>conns.
     andthen (notify_of_children E sid conns) (\<lambda>_. ret RNone))))))"

definition all_threads :: "message \<Rightarrow> message act" where
  "all_threads m =
    (case payload_value m of
       JObj _ \<Rightarrow> ret (set_argument ''threadId'' (JStr ''*'') m)
     | _ \<Rightarrow> throw (TypeError ''does not support item assignment''))"

definition pause_request :: "env \<Rightarrow> nat \<Rightarrow> message \<Rightarrow> hresult act" where
  "pause_request E sid = message_handler E (Ide sid) (\<lambda>m.
     andthen (all_threads m) (\<lambda>m. andthen (delegate E (ServerOf sid) m) (\<lambda>v. ret (RBody v))))"

definition continue_request :: "env \<Rightarrow> nat \<Rightarrow> message \<Rightarrow> hresult act" where
  "continue_request E sid = message_handler E (Ide sid) (\<lambda>m.
     andthen (all_threads m) (\<lambda>m.
     catching (andthen (delegate E (ServerOf sid) m) (\<lambda>v. ret (RBody v)))
       (\<lambda>e. case e of
          NoMoreMessages _ _ \<Rightarrow> ret (RBody (JObj [(''allThreadsContinued'', JBool True)]))
        | _ \<Rightarrow> throw e)))"

definition system_info :: "env \<Rightarrow> (string, jv) odict" where
  "system_info E = [(''ptvsd'', JObj [(''version'', JStr (env_version E))])]"

definition ptvsd_systemInfo_request :: "env \<Rightarrow> nat \<Rightarrow> message \<Rightarrow> hresult act" where
  "ptvsd_systemInfo_request E sid = message_handler E (Ide sid) (\<lambda>m w.
     if ss_server (w_session w sid) = None then (Inr (RBody (JObj (system_info E))), w)
     else
       andthen
         (catching (andthen (request_wait E (ServerOf sid) ''pydevdSystemInfo'' JNull) (\<lambda>r. ret (Some r)))
           (\<lambda>_. ret None)) (\<lambda>info.
       case info of
         None \<Rightarrow> ret (RBody (JObj (system_info E)))
       | Some r \<Rightarrow>
           (case payload_value r of
              JObj d \<Rightarrow> ret (RBody (JObj (od_update (system_info E) d)))
            | _ \<Rightarrow> throw (TypeError ''update''))) w)"

definition terminate_request :: "env \<Rightarrow> nat \<Rightarrow> message \<Rightarrow> hresult act" where
  "terminate_request E sid = message_handler E (Ide sid) (\<lambda>m.
     andthen (finalize E sid (Some True)) (\<lambda>_. ret (RBody (JObj []))))"

definition disconnect_request :: "env \<Rightarrow> nat \<Rightarrow> message \<Rightarrow> hresult act" where
  "disconnect_request E sid = message_handler E (Ide sid) (\<lambda>m.
     andthen (arg sid m ''terminateDebuggee'' a_bool True) (\<lambda>terminate.
     andthen (finalize E sid (if terminate = Missing then None else Some (truthy terminate))) (\<lambda>_.
     ret (RBody (JObj [])))))"

section \<open>Handler tables and dispatch\<close>

text \<open>
  The attributes that \<open>getattr(handlers, name)\<close> finds. \<open>start_request\<close> and
  \<open>_initialize_request\<close> are data attributes of the IDE component with names that look like
  handlers: \<open>None\<close> or a \<open>Message\<close>, and calling either with one argument is a \<open>TypeError\<close>.
\<close>

type_synonym table = "string \<Rightarrow> (message \<Rightarrow> hresult act) option"

definition not_callable :: "message \<Rightarrow> hresult act" where
  "not_callable m = throw (TypeError ''object is not callable'')"

definition ide_table :: "env \<Rightarrow> nat \<Rightarrow> table" where
  "ide_table E sid = map_of
    [(''event'', ide_event E sid), (''request'', ide_request E sid),
     (''initialize_request'', initialize_request E sid), (''launch_request'', launch_request E sid),
     (''attach_request'', attach_request E sid),
     (''configurationDone_request'', configurationDone_request E sid),
     (''pause_request'', pause_request E sid), (''continue_request'', continue_request E sid),
     (''ptvsd_systemInfo_request'', ptvsd_systemInfo_request E sid),
     (''terminate_request'', terminate_request E sid), (''disconnect_request'', disconnect_request E sid),
     (''start_request'', not_callable), (''_initialize_request'', not_callable)]"

definition launcher_table :: "env \<Rightarrow> nat \<Rightarrow> table" where
  "launcher_table E sid = map_of
    [(''process_event'', launcher_process_event E sid), (''output_event'', launcher_output_event E sid),
     (''exited_event'', launcher_exited_event E sid), (''terminated_event'', launcher_terminated_event E sid)]"

definition server_table :: "env \<Rightarrow> nat \<Rightarrow> table" where
  "server_table E sid = map_of
    [(''request'', server_request E sid), (''event'', server_event E sid),
     (''initialized_event'', server_initialized_event E sid), (''process_event'', server_process_event E sid),
     (''continued_event'', server_continued_event E sid), (''exited_event'', server_exited_event E sid),
     (''terminated_event'', server_terminated_event E sid)]"

definition connection_table :: "nat \<Rightarrow> table" where
  "connection_table c = map_of
    [(''request'', conn_request c), (''event'', conn_event), (''terminated_event'', conn_terminated_event c)]"

definition find_handler :: "table \<Rightarrow> string \<Rightarrow> string \<Rightarrow> (message \<Rightarrow> hresult act) act" where
  "find_handler t type name =
    (case t (name @ ''_'' @ type) of
       Some h \<Rightarrow> ret h
     | None \<Rightarrow>
         (case t type of
            Some h \<Rightarrow> ret h
          | None \<Rightarrow> throw (AttributeError (''no handler for '' @ type @ '' '' @ repr_str name))))"

text \<open>\<open>Request._handle\<close> and \<open>Event._handle\<close> with a handler of the adapter.\<close>

definition dispatch_request :: "party \<Rightarrow> table \<Rightarrow> message \<Rightarrow> unit act" where
  "dispatch_request p t m =
    andthen (find_handler t ''request'' (msg_name m)) (\<lambda>h.
    andthen (catching (h m) (\<lambda>e. if handled_failure e m then ret (RError e) else throw e)) (\<lambda>result.
    on p (finish_result m result)))"

definition dispatch_event :: "table \<Rightarrow> message \<Rightarrow> unit act" where
  "dispatch_event t m =
    andthen (find_handler t ''event'' (msg_name m)) (\<lambda>h.
    catching
      (andthen (h m) (\<lambda>result.
         if result = RNone then ret () else throw (AssertionError ''tried to respond to event'')))
      (\<lambda>e. if handled_failure e m then ret () else throw e))"

text \<open>What the handler thread makes of an exception that escapes: the channel is closed and the process exits.\<close>

definition run_handler :: "party \<Rightarrow> unit act \<Rightarrow> unit act" where
  "run_handler p handler = catching handler (\<lambda>_. andthen (ignoring (on p channel_close)) (\<lambda>_. raise Exited))"

end
