(* ===== verification/LaunchHandlers.thy ===== *)
theory LaunchHandlers
  imports Debuggee Ide
begin

text \<open>
  The launcher process: the message handlers of \<open>launcher/handlers.py\<close>, its connection to the adapter
  (\<open>launcher/__init__.py\<close>) and \<open>main\<close> (\<open>launcher/__main__.py\<close>).
\<close>

section \<open>Command line\<close>

definition get_prop :: "message \<Rightarrow> string \<Rightarrow> vspec \<Rightarrow> bool \<Rightarrow> jv lact" where
  "get_prop m key validate optional = on_channel (msg_call m key validate optional)"

definition not_valid :: "message \<Rightarrow> string \<Rightarrow> 'a lact" where
  "not_valid m reason = andthen (on_channel (isnt_valid reason m)) throw"

text \<open>\<open>None\<close> when the property was not given either way.\<close>

definition property_or_debug_option :: "message \<Rightarrow> string list \<Rightarrow> string \<Rightarrow> string \<Rightarrow> bool option lact" where
  "property_or_debug_option m debug_options prop_name flag_name =
    andthen (get_prop m prop_name a_bool True) (\<lambda>v.
    let value = (case v of JBool b \<Rightarrow> Some b | _ \<Rightarrow> None) in
    if flag_name \<in> set debug_options then
      if value = Some False then
        not_valid m (json_quote prop_name @ '':false and \"debugOptions\":['' @ json_quote flag_name @
          ''] are mutually exclusive'')
      else ret (Some True)
    else ret value)"

definition sudo_prefix :: "lenv \<Rightarrow> message \<Rightarrow> string list \<Rightarrow> string list lact" where
  "sudo_prefix E m debug_options =
    andthen (property_or_debug_option m debug_options ''sudo'' ''Sudo'') (\<lambda>sudo.
    if sudo = Some True then
      if le_windows E
      then andthen (on_channel (cant_handle ''\"sudo\":true is not supported on Windows.'' m)) throw
      else ret [''sudo'']
    else ret [])"

definition python_key :: "message \<Rightarrow> string lact" where
  "python_key m =
    (if has_key m ''python'' then
       if has_key m ''pythonPath'' then not_valid m ''\"pythonPath\" is not valid if \"python\" is specified''
       else ret ''python''
     else if has_key m ''pythonPath'' then ret ''pythonPath''
     else ret ''python'')"

definition python_command :: "lenv \<Rightarrow> message \<Rightarrow> string list lact" where
  "python_command E m =
    andthen (python_key m) (\<lambda>key.
    andthen (get_prop m key nonempty_array False) (\<lambda>v.
      ret (if strings_of v = [] then [le_executable E] else strings_of v)))"

text \<open>\<open>str(n)\<close> of a value that passed for an int.\<close>

definition int_text :: "jv \<Rightarrow> string" where
  "int_text v = (case v of JBool b \<Rightarrow> if b then ''True'' else ''False'' | _ \<Rightarrow> show_int (int_of v))"

definition debugger_args :: "lenv \<Rightarrow> message \<Rightarrow> string list lact" where
  "debugger_args E m =
    andthen (get_prop m ''noDebug'' (VFn (default (JBool False))) False) (\<lambda>no_debug.
    if truthy no_debug then ret []
    else
      andthen (get_prop m ''port'' an_int False) (\<lambda>port.
      andthen (get_prop m ''clientAccessToken'' a_str True) (\<lambda>token.
      andthen (get_prop m ''ptvsdArgs'' str_array False) (\<lambda>ptvsd_args.
        ret ([le_ptvsd_dir E, ''--client'', ''--host'', ''127.0.0.1'', ''--port'', int_text port] @
             (if token \<noteq> Missing then [''--client-access-token'', str_of token] else []) @
             strings_of ptvsd_args)))))"

text \<open>\<open>program\<close>, \<open>module\<close> or \<open>code\<close>: \<open>None\<close> when it is \<open>()\<close>.\<close>

definition target_of :: "message \<Rightarrow> string \<Rightarrow> string list option lact" where
  "target_of m key =
    (if has_key m key then andthen (get_prop m key nonempty_array False) (\<lambda>v. ret (Some (strings_of v)))
     else ret None)"

text \<open>The target on the command line, the name of the process, and \<open>program\<close>.\<close>

definition launch_target :: "message \<Rightarrow> string list \<Rightarrow> (string list \<times> string \<times> string list option) lact" where
  "launch_target m python =
    andthen (target_of m ''program'') (\<lambda>program.
    andthen (target_of m ''module'') (\<lambda>module.
    andthen (target_of m ''code'') (\<lambda>code.
      case (program, module, code) of
        (None, None, None) \<Rightarrow> not_valid m ''either \"program\", \"module\", or \"code\" must be specified''
      | (Some p, None, None) \<Rightarrow> ret (p, hd p, program)
      | (None, Some x, None) \<Rightarrow> ret (''-m'' # x, hd x, program)
      | (None, None, Some c) \<Rightarrow> ret (''-c'' # c, hd python, program)
      | _ \<Rightarrow> not_valid m ''\"program\", \"module\", and \"code\" are mutually exclusive'')))"

section \<open>Working directory and environment\<close>

text \<open>\<open>posixpath.dirname\<close>: up to the last slash, without the slashes at its end unless it is all slashes.\<close>

definition posix_dirname :: "string \<Rightarrow> string" where
  "posix_dirname path =
    (let head = rev (dropWhile (\<lambda>c. c \<noteq> CHR ''/'') (rev path)) in
     if list_all (\<lambda>c. c = CHR ''/'') head then head
     else rev (dropWhile (\<lambda>c. c = CHR ''/'') (rev head)))"

definition dirname :: "lenv \<Rightarrow> string \<Rightarrow> string" where
  "dirname E path = (if le_windows E then le_nt_dirname E path else posix_dirname path)"

definition working_directory :: "lenv \<Rightarrow> message \<Rightarrow> string list option \<Rightarrow> string option lact" where
  "working_directory E m program =
    andthen (get_prop m ''cwd'' a_str True) (\<lambda>cwd.
      ret (if cwd = Missing
           then (case program of
                   None \<Rightarrow> None
                 | Some p \<Rightarrow> if dirname E (hd p) = [] then None else Some (dirname E (hd p)))
           else Some (str_of cwd)))"

definition inherited_environment :: "lenv \<Rightarrow> (string, string) odict" where
  "inherited_environment E =
    (if ''PTVSD_TEST'' \<in> set (od_keys (le_environ E)) then od_del ''COV_CORE_SOURCE'' (le_environ E)
     else le_environ E)"

definition str_items :: "jv \<Rightarrow> (string, string) odict" where
  "str_items v = (case v of JObj d \<Rightarrow> map (\<lambda>(k, x). (k, str_of x)) d | _ \<Rightarrow> [])"

definition environment :: "lenv \<Rightarrow> message \<Rightarrow> (string, string) odict lact" where
  "environment E m =
    andthen (get_prop m ''env'' (VFn (object (Some (of_type [Cls ClsStr] False)))) False) (\<lambda>env.
    andthen (get_prop m ''gevent'' (VConst (JBool False)) False) (\<lambda>gevent.
      let d = od_update (inherited_environment E) (str_items env) in
      ret (if truthy gevent then od_set ''GEVENT_SUPPORT'' ''True'' d else d)))"

definition redirects_output :: "message \<Rightarrow> string list \<Rightarrow> bool lact" where
  "redirects_output m debug_options =
    andthen (property_or_debug_option m debug_options ''redirectOutput'' ''RedirectOutput'') (\<lambda>redirect.
      case redirect of
        Some b \<Rightarrow> ret b
      | None \<Rightarrow> andthen (get_prop m ''console'' a_str False) (\<lambda>console. ret (console = JStr ''internalConsole'')))"

definition unbuffered :: "(string, string) odict \<Rightarrow> (string, string) odict" where
  "unbuffered d = od_set ''PYTHONIOENCODING'' ''utf-8'' (od_set ''PYTHONUNBUFFERED'' ''1'' d)"

definition wait_option :: "message \<Rightarrow> string list \<Rightarrow> string \<Rightarrow> string \<Rightarrow> wait_predicate \<Rightarrow> unit lact" where
  "wait_option m debug_options prop_name flag_name p =
    andthen (property_or_debug_option m debug_options prop_name flag_name) (\<lambda>wait.
    if wait = Some True then modify (\<lambda>s. s\<lparr>ls_predicates := ls_predicates s @ [p]\<rparr>) else ret ())"

section \<open>Handlers\<close>

definition launch :: "lenv \<Rightarrow> message \<Rightarrow> hresult lact" where
  "launch E m =
    andthen (get_prop m ''debugOptions'' str_array False) (\<lambda>options.
    let debug_options = strings_of options in
    andthen (sudo_prefix E m debug_options) (\<lambda>sudo.
    andthen (python_command E m) (\<lambda>python.
    andthen (debugger_args E m) (\<lambda>debugger.
    andthen (launch_target m python) (\<lambda>(target, process_name, program).
    andthen (get_prop m ''args'' str_array False) (\<lambda>args.
    andthen (working_directory E m program) (\<lambda>cwd.
    andthen (environment E m) (\<lambda>env.
    andthen (redirects_output m debug_options) (\<lambda>redirect.
    andthen (wait_option m debug_options ''waitOnNormalExit'' ''WaitOnNormalExit'' CodeIsZero) (\<lambda>_.
    andthen (wait_option m debug_options ''waitOnAbnormalExit'' ''WaitOnAbnormalExit'' CodeIsNotZero) (\<lambda>_.
    andthen (spawn_process E process_name (sudo @ python @ debugger @ target @ strings_of args) cwd
               (if redirect then unbuffered env else env) redirect) (\<lambda>_.
      ret (RBody (JObj []))))))))))))))"

definition clear_predicates :: "unit lact" where
  "clear_predicates = modify (\<lambda>s. s\<lparr>ls_predicates := []\<rparr>)"

definition terminate :: "lenv \<Rightarrow> message \<Rightarrow> hresult lact" where
  "terminate E m =
    andthen clear_predicates (\<lambda>_.
    andthen (on_channel (respond m (Payload (JObj [])))) (\<lambda>_.
    andthen (kill_process E) (\<lambda>_. ret RNone)))"

definition disconnect :: "lenv \<Rightarrow> unit lact" where
  "disconnect E = andthen clear_predicates (\<lambda>_. kill_process E)"

text \<open>The module \<open>handlers\<close> as the channel's handlers, and a request handled with it (\<open>Request._handle\<close>).\<close>

definition request_handler :: "lenv \<Rightarrow> string \<Rightarrow> exn + (message \<Rightarrow> hresult lact)" where
  "request_handler E name =
    (if name = ''launch'' then Inr (launch E)
     else if name = ''terminate'' then Inr (terminate E)
     else Inl (AttributeError (''no handler for request '' @ repr_str name)))"

definition handle_request :: "lenv \<Rightarrow> message \<Rightarrow> unit lact" where
  "handle_request E m =
    (case request_handler E (msg_name m) of
       Inl e \<Rightarrow> throw e
     | Inr h \<Rightarrow>
         andthen (catching (h m) (\<lambda>e. if handled_failure e m then ret (RError e) else throw e)) (\<lambda>result.
           on_channel (finish_result m result)))"

section \<open>Connection and main\<close>

text \<open>\<open>connect\<close>: \<open>connecting\<close> is what \<open>sock.connect\<close> gives, the stream is the \<open>i\<close>-th.\<close>

definition connect :: "(int \<Rightarrow> exn option) \<Rightarrow> nat \<Rightarrow> int \<Rightarrow> unit lact" where
  "connect connecting i launcher_port s =
    (if ls_connected s then (Inl (Raised (AssertionError ''channel is None'')), s)
     else case connecting launcher_port of
         Some e \<Rightarrow> (Inl (Raised e), s)
       | None \<Rightarrow> (Inr (), s\<lparr>ls_connected := True, ls_chan := started_channel i\<rparr>))"

text \<open>\<open>option(name, int)\<close>: \<open>int(os.environ.pop(name))\<close>, and the environment without it.\<close>

definition int_option :: "lenv \<Rightarrow> string \<Rightarrow> exn + (int \<times> lenv)" where
  "int_option E name =
    (case map_of (le_environ E) name of
       None \<Rightarrow> Inl (KeyError name)
     | Some v \<Rightarrow>
         (case parse_int v of
            None \<Rightarrow> Inl (ValueError (''invalid literal for int() with base 10: '' @ repr_str v))
          | Some n \<Rightarrow> Inr (n, E\<lparr>le_environ := od_del name (le_environ E)\<rparr>)))"

text \<open>
  \<open>main\<close>: \<open>session\<close> is what happens until the channel's wait ends. The result is the argument of
  \<open>sys.exit\<close>: the return code of the debuggee, which is \<open>None\<close> while no one has waited for it.
\<close>

definition launcher_main :: "lenv \<Rightarrow> (int \<Rightarrow> exn option) \<Rightarrow> nat \<Rightarrow> (lenv \<Rightarrow> unit lact) \<Rightarrow> int option lact" where
  "launcher_main E connecting i session =
    (case int_option E ''PTVSD_LAUNCHER_PORT'' of
       Inl e \<Rightarrow> throw e
     | Inr (port, E') \<Rightarrow>
         andthen (connect connecting i port) (\<lambda>_.
         andthen (session E') (\<lambda>_.
           gets (\<lambda>s. case ls_process s of None \<Rightarrow> None | Some (n, _) \<Rightarrow> le_returncode E' n))))"

end
