(* ===== verification/ServerApi.thy ===== *)
theory ServerApi
  imports Messages
begin

text \<open>
  The debug server in the debugged process: its options (\<open>server/options.py\<close>), the API that starts
  debugging (\<open>server/api.py\<close>) and the functions of the package that users call (\<open>ptvsd/__init__.py\<close>).
  pydevd itself is not modelled: what is asked of it is an effect, and whether it is there and attached
  is a parameter. The interpreter is Python 3.
\<close>

section \<open>State\<close>

text \<open>\<open>op_target\<close> is \<open>JNull\<close>, a string or a process id; \<open>None\<close> for the token is Python's.\<close>

record options =
  op_target_kind :: "string option"
  op_target :: jv
  op_host :: string
  op_port :: int
  op_client :: bool
  op_wait :: bool
  op_multiprocess :: bool
  op_client_access_token :: "string option"

definition default_options :: options where
  "default_options =
    \<lparr>op_target_kind = None, op_target = JNull, op_host = ''127.0.0.1'', op_port = 5678, op_client = False,
     op_wait = False, op_multiprocess = True, op_client_access_token = None\<rparr>"

text \<open>The arguments of \<open>pydevd.settrace\<close>; \<open>None\<close> is an argument that is not given.\<close>

record settrace_args =
  st_host :: "string option"
  st_port :: "int option"
  st_suspend :: bool
  st_multiprocess :: "bool option"
  st_wait_ready :: "bool option"
  st_block :: "bool option"
  st_only_this_thread :: "bool option"
  st_frame :: "nat option option"
  st_access_token :: "string option"
  st_client_token :: "string option"

definition plain_settrace :: "bool \<Rightarrow> settrace_args" where
  "plain_settrace suspend =
    \<lparr>st_host = None, st_port = None, st_suspend = suspend, st_multiprocess = None, st_wait_ready = None,
     st_block = None, st_only_this_thread = None, st_frame = None, st_access_token = None, st_client_token = None\<rparr>"

datatype effect =
    Settrace settrace_args
  | SpawnsAdapter "string list"
  | WaitsForAttach
  | SetsTracing nat bool
  | Prints string
  | RunsPath string
  | RunsModule string
  | Evaluates string
  | Injects int string

text \<open>
  \<open>dp_adapter\<close>: \<open>enable_attach\<close> has the attribute \<open>adapter\<close>; \<open>dp_tracing\<close>: \<open>_tls.is_tracing\<close> of each thread.
\<close>

record server_proc =
  dp_options :: options
  dp_log_dir :: "string option"
  dp_log_stderr :: bool
  dp_argv :: "string list"
  dp_path :: "string list"
  dp_adapter :: bool
  dp_tracing :: "nat \<Rightarrow> bool option"
  dp_effects :: "effect list"

text \<open>An exception, or \<open>SystemExit\<close>, which is not an \<open>Exception\<close>.\<close>

datatype halt = Fails exn | SystemExit int

type_synonym 'a dact = "(server_proc, halt, 'a) sem"

text \<open>What is read from the socket on which the adapter reports its endpoints.\<close>

datatype endpoints_reply = TimedOut | Broken exn | Endpoints "(string, jv) odict"

text \<open>
  The process outside: its executable and directories, the new access token, the listener for the
  endpoints, whether the adapter starts, whether pydevd is there, attached and takes \<open>settrace\<close>, files,
  modules and code, and the debug level for injection.
\<close>

record senv =
  se_executable :: string
  se_adapter_dir :: string
  se_server_dir :: string
  se_attach_dir :: string
  se_version :: string
  se_token :: string
  se_listen :: "exn + int"
  se_spawn :: "string list \<Rightarrow> exn option"
  se_endpoints :: endpoints_reply
  se_debugger :: "server_proc \<Rightarrow> bool"
  se_attached :: "server_proc \<Rightarrow> bool"
  se_settrace :: "settrace_args \<Rightarrow> exn option"
  se_isfile :: "string \<Rightarrow> bool"
  se_dirname :: "string \<Rightarrow> string"
  se_find_spec :: "string \<Rightarrow> exn + string option option"
  se_compile :: "string \<Rightarrow> exn option"
  se_run :: "effect \<Rightarrow> halt option"

definition fail :: "exn \<Rightarrow> 'a dact" where
  "fail e = raise (Fails e)"

definition do_effect :: "effect \<Rightarrow> unit dact" where
  "do_effect x = modify (\<lambda>s. s\<lparr>dp_effects := dp_effects s @ [x]\<rparr>)"

definition upd_options :: "(options \<Rightarrow> options) \<Rightarrow> unit dact" where
  "upd_options f = modify (\<lambda>s. s\<lparr>dp_options := f (dp_options s)\<rparr>)"

definition settrace :: "senv \<Rightarrow> settrace_args \<Rightarrow> unit dact" where
  "settrace E a =
    andthen (do_effect (Settrace a)) (\<lambda>_. case se_settrace E a of None \<Rightarrow> ret () | Some e \<Rightarrow> fail e)"

section \<open>Starting to debug\<close>

text \<open>\<open>int(v)\<close>\<close>

definition py_int :: "jv \<Rightarrow> exn + int" where
  "py_int v =
    (case v of
       JInt i \<Rightarrow> Inr i
     | JBool b \<Rightarrow> Inr (if b then 1 else 0)
     | JFloat r \<Rightarrow> Inr (if r < 0 then - \<lfloor>- r\<rfloor> else \<lfloor>r\<rfloor>)
     | JStr s \<Rightarrow>
         (case parse_int s of
            Some i \<Rightarrow> Inr i
          | None \<Rightarrow> Inl (ValueError (''invalid literal for int() with base 10: '' @ repr_str s)))
     | _ \<Rightarrow> Inl (TypeError ''int() argument must be a string, a bytes-like object or a number''))"

text \<open>\<open>str(v)\<close>\<close>

definition py_str :: "jv \<Rightarrow> string" where
  "py_str v = (case v of JStr s \<Rightarrow> s | _ \<Rightarrow> repr_value v)"

text \<open>An argument that may be the module \<open>options\<close> itself.\<close>

datatype 'a or_options = TheOptions | Given 'a

text \<open>The decorator \<open>_starts_debugging\<close>; the exception of \<open>func\<close> is logged and raised again.\<close>

definition starts_debugging ::
  "senv \<Rightarrow> (string \<times> int) option dact \<Rightarrow> (string \<times> jv) or_options \<Rightarrow> string option \<Rightarrow> bool or_options
     \<Rightarrow> (string \<times> int) option dact" where
  "starts_debugging E func address log_dir multiprocess =
    andthen (case log_dir of
        Some d \<Rightarrow> if d = [] then ret () else modify (\<lambda>s. s\<lparr>dp_log_dir := Some d\<rparr>)
      | None \<Rightarrow> ret ()) (\<lambda>_.
    andthen (gets (se_attached E)) (\<lambda>attached.
    if attached then gets (\<lambda>s. Some (op_host (dp_options s), op_port (dp_options s)))
    else
      andthen (case address of
          TheOptions \<Rightarrow> ret ()
        | Given (host, port) \<Rightarrow>
            (case py_int port of
               Inl e \<Rightarrow> fail e
             | Inr n \<Rightarrow> upd_options (\<lambda>opts. opts\<lparr>op_host := host, op_port := n\<rparr>))) (\<lambda>_.
      andthen (case multiprocess of
          TheOptions \<Rightarrow> ret ()
        | Given b \<Rightarrow> upd_options (\<lambda>opts. opts\<lparr>op_multiprocess := b\<rparr>)) (\<lambda>_.
        func))))"

definition adapter_cmdline :: "senv \<Rightarrow> int \<Rightarrow> server_proc \<Rightarrow> string list" where
  "adapter_cmdline E endpoints_port s =
    [se_executable E, se_adapter_dir E, ''--for-server'', show_int endpoints_port,
     ''--host'', op_host (dp_options s), ''--port'', show_int (op_port (dp_options s)),
     ''--server-access-token'', se_token E] @
    (case dp_log_dir s of None \<Rightarrow> [] | Some d \<Rightarrow> [''--log-dir'', d])"

text \<open>\<open>endpoints[key][key']\<close>\<close>

definition subscript :: "jv \<Rightarrow> string \<Rightarrow> exn + jv" where
  "subscript v key =
    (case v of
       JObj d \<Rightarrow> (case map_of d key of None \<Rightarrow> Inl (KeyError (repr_str key)) | Some x \<Rightarrow> Inr x)
     | _ \<Rightarrow> Inl (TypeError ''object is not subscriptable''))"

definition endpoint :: "(string, jv) odict \<Rightarrow> string \<Rightarrow> string \<Rightarrow> exn + jv" where
  "endpoint endpoints which key = sbind (subscript (JObj endpoints) which) (\<lambda>d. subscript d key)"

definition parse_endpoints :: "(string, jv) odict \<Rightarrow> exn + (string \<times> int \<times> int)" where
  "parse_endpoints endpoints =
    sbind (endpoint endpoints ''server'' ''host'') (\<lambda>host.
    sbind (sbind (endpoint endpoints ''server'' ''port'') py_int) (\<lambda>port.
    sbind (sbind (endpoint endpoints ''ide'' ''port'') py_int) (\<lambda>ide_port.
      Inr (py_str host, port, ide_port))))"

definition adapter_settrace :: "senv \<Rightarrow> string \<Rightarrow> int \<Rightarrow> options \<Rightarrow> settrace_args" where
  "adapter_settrace E host port opts =
    (plain_settrace False)\<lparr>st_host := Some host, st_port := Some port,
      st_multiprocess := Some (op_multiprocess opts), st_wait_ready := Some False, st_block := Some True,
      st_access_token := Some (se_token E), st_client_token := op_client_access_token opts\<rparr>"

text \<open>What is done once the adapter was spawned.\<close>

definition connect_to_adapter :: "senv \<Rightarrow> (string \<times> int) option dact" where
  "connect_to_adapter E =
    (case se_endpoints E of
       TimedOut \<Rightarrow> fail (RuntimeError ''timed out waiting for adapter to connect'')
     | Broken e \<Rightarrow> fail (RuntimeError (''error retrieving adapter endpoints: '' @ exn_str e))
     | Endpoints endpoints \<Rightarrow>
         if ''error'' \<in> set (od_keys endpoints) then fail (RuntimeError (py_str (md_get endpoints ''error'')))
         else
           (case parse_endpoints endpoints of
              Inl e \<Rightarrow> fail (RuntimeError (''error parsing adapter endpoints: '' @ exn_str e))
            | Inr (host, port, ide_port) \<Rightarrow>
                andthen (upd_options (\<lambda>opts. opts\<lparr>op_port := ide_port\<rparr>)) (\<lambda>_.
                andthen (gets dp_options) (\<lambda>opts.
                andthen (settrace E (adapter_settrace E host port opts)) (\<lambda>_.
                  ret (Some (op_host opts, op_port opts)))))))"

definition enable_attach_body :: "senv \<Rightarrow> (string \<times> int) option dact" where
  "enable_attach_body E =
    andthen (gets dp_adapter) (\<lambda>has_adapter.
    if has_adapter then fail (AssertionError ''enable_attach() can only be called once per process'')
    else case se_listen E of
        Inl e \<Rightarrow> fail (RuntimeError (''can't listen for adapter endpoints: '' @ exn_str e))
      | Inr endpoints_port \<Rightarrow>
          andthen (gets (adapter_cmdline E endpoints_port)) (\<lambda>cmdline.
          andthen (do_effect (SpawnsAdapter cmdline)) (\<lambda>_.
          case se_spawn E cmdline of
            Some e \<Rightarrow> fail (RuntimeError (''error spawning debug adapter: '' @ exn_str e))
          | None \<Rightarrow>
              andthen (modify (\<lambda>s. s\<lparr>dp_adapter := True\<rparr>)) (\<lambda>_. connect_to_adapter E))))"

definition attach_body :: "senv \<Rightarrow> (string \<times> int) option dact" where
  "attach_body E =
    andthen (gets dp_options) (\<lambda>opts.
    andthen (settrace E ((plain_settrace False)\<lparr>st_host := Some (op_host opts), st_port := Some (op_port opts),
        st_multiprocess := Some (op_multiprocess opts), st_client_token := op_client_access_token opts\<rparr>))
      (\<lambda>_. ret None))"

definition api_enable_attach ::
  "senv \<Rightarrow> (string \<times> jv) or_options \<Rightarrow> string option \<Rightarrow> bool or_options \<Rightarrow> (string \<times> int) option dact" where
  "api_enable_attach E = starts_debugging E (enable_attach_body E)"

definition api_attach ::
  "senv \<Rightarrow> (string \<times> jv) or_options \<Rightarrow> string option \<Rightarrow> bool or_options \<Rightarrow> (string \<times> int) option dact" where
  "api_attach E = starts_debugging E (attach_body E)"

text \<open>\<open>ptvsd.enable_attach\<close> and \<open>ptvsd.attach\<close>: \<open>multiprocess\<close> is not passed on, so the API takes its default.\<close>

definition enable_attach ::
  "senv \<Rightarrow> (string \<times> jv) or_options \<Rightarrow> string option \<Rightarrow> bool or_options \<Rightarrow> (string \<times> int) option dact" where
  "enable_attach E address log_dir multiprocess = api_enable_attach E address log_dir (Given True)"

definition attach ::
  "senv \<Rightarrow> (string \<times> jv) or_options \<Rightarrow> string option \<Rightarrow> bool or_options \<Rightarrow> (string \<times> int) option dact" where
  "attach E address log_dir multiprocess = api_attach E address log_dir (Given True)"

section \<open>The rest of the API\<close>

definition wait_for_attach :: "senv \<Rightarrow> unit dact" where
  "wait_for_attach E =
    andthen (gets (se_debugger E)) (\<lambda>dbg.
    if dbg then do_effect WaitsForAttach
    else fail (RuntimeError ''wait_for_attach() called before enable_attach()''))"

text \<open>\<open>fs\<close>: for each frame from the caller's outwards, whether it is a frame of the debugger.\<close>

fun first_user_frame :: "nat \<Rightarrow> bool list \<Rightarrow> nat option" where
  "first_user_frame n [] = None"
| "first_user_frame n (internal # fs) = (if internal then first_user_frame (Suc n) fs else Some n)"

definition break_into_debugger :: "senv \<Rightarrow> bool list \<Rightarrow> unit dact" where
  "break_into_debugger E fs =
    andthen (gets (se_attached E)) (\<lambda>attached.
    if \<not> attached then ret ()
    else settrace E ((plain_settrace True)\<lparr>st_only_this_thread := Some True, st_multiprocess := Some False,
           st_frame := Some (first_user_frame 0 fs)\<rparr>))"

definition debug_this_thread :: "senv \<Rightarrow> unit dact" where
  "debug_this_thread E = settrace E (plain_settrace False)"

text \<open>
  \<open>tracing(should_trace)\<close> in the thread \<open>tid\<close>: the current state, or the context manager, which is known by
  the state to restore and by whether there was a debugger when it was made.
\<close>

definition set_tracing :: "senv \<Rightarrow> nat \<Rightarrow> bool \<Rightarrow> bool \<Rightarrow> unit dact" where
  "set_tracing E tid had_debugger enable =
    (if had_debugger then
       andthen (do_effect (SetsTracing tid enable)) (\<lambda>_.
         modify (\<lambda>s. s\<lparr>dp_tracing := (dp_tracing s)(tid \<mapsto> enable)\<rparr>))
     else modify (\<lambda>s. s\<lparr>dp_tracing := (dp_tracing s)(tid \<mapsto> se_debugger E s)\<rparr>))"

definition tracing :: "senv \<Rightarrow> nat \<Rightarrow> bool option \<Rightarrow> (bool + bool \<times> bool) dact" where
  "tracing E tid should_trace =
    andthen (gets (se_debugger E)) (\<lambda>pydb.
    andthen (gets (\<lambda>s. case dp_tracing s tid of None \<Rightarrow> pydb | Some b \<Rightarrow> b)) (\<lambda>was_tracing.
    case should_trace of
      None \<Rightarrow> ret (Inl was_tracing)
    | Some b \<Rightarrow> andthen (set_tracing E tid pydb b) (\<lambda>_. ret (Inr (was_tracing, pydb)))))"

text \<open>Leaving the with-statement.\<close>

definition restore_tracing :: "senv \<Rightarrow> nat \<Rightarrow> bool \<times> bool \<Rightarrow> unit dact" where
  "restore_tracing E tid manager = set_tracing E tid (snd manager) (fst manager)"

end
