(* ===== verification/ServerCli.thy ===== *)
theory ServerCli
  imports ServerApi
begin

text \<open>
  \<open>server/cli.py\<close>: the command line of \<open>ptvsd\<close>, how it starts the target, and the code that it injects
  into another process (\<open>server/attach_pid_injected.py\<close>). Installed files are taken to exist.
\<close>

section \<open>Switches\<close>

text \<open>The value parsers: the text itself, or \<open>in_range(int, start, stop)\<close>.\<close>

datatype arg_parser = AsIs | InRange "int option" "int option"

definition in_range :: "int option \<Rightarrow> int option \<Rightarrow> string \<Rightarrow> exn + int" where
  "in_range start stop s =
    sbind (py_int (JStr s)) (\<lambda>n.
      case start of
        Some a \<Rightarrow>
          if n < a then Inl (ValueError (''must be >= '' @ show_int a))
          else (case stop of
              Some b \<Rightarrow> if b \<le> n then Inl (ValueError (''must be < '' @ show_int b)) else Inr n
            | None \<Rightarrow> Inr n)
      | None \<Rightarrow>
          (case stop of
             Some b \<Rightarrow> if b \<le> n then Inl (ValueError (''must be < '' @ show_int b)) else Inr n
           | None \<Rightarrow> Inr n))"

definition parse_arg :: "arg_parser \<Rightarrow> string \<Rightarrow> exn + jv" where
  "parse_arg p s =
    (case p of AsIs \<Rightarrow> Inr (JStr s) | InRange start stop \<Rightarrow> sbind (in_range start stop s) (\<lambda>n. Inr (JInt n)))"

definition port :: arg_parser where
  "port = InRange (Some 0) (Some (2 ^ 16))"

definition pid :: arg_parser where
  "pid = InRange (Some 0) None"

text \<open>The closures made by \<open>set_arg\<close>, \<open>set_const\<close>, \<open>set_log_stderr\<close> and \<open>set_target\<close>, and the two that exit.\<close>

datatype action =
    PrintHelp
  | PrintVersion
  | SetArg string arg_parser
  | SetConst string jv
  | SetLogStderr
  | SetTarget string arg_parser bool

text \<open>\<open>setattr(target, varname, value)\<close>, where \<open>log_dir\<close> is the variable of the module \<open>log\<close>.\<close>

definition set_attribute :: "string \<Rightarrow> jv \<Rightarrow> server_proc \<Rightarrow> server_proc" where
  "set_attribute var v s =
    (let set = (\<lambda>f. s\<lparr>dp_options := f (dp_options s)\<rparr>) in
     if var = ''client'' then set (\<lambda>opts. opts\<lparr>op_client := truthy v\<rparr>)
     else if var = ''host'' then set (\<lambda>opts. opts\<lparr>op_host := str_of v\<rparr>)
     else if var = ''port'' then set (\<lambda>opts. opts\<lparr>op_port := int_of v\<rparr>)
     else if var = ''wait'' then set (\<lambda>opts. opts\<lparr>op_wait := truthy v\<rparr>)
     else if var = ''multiprocess'' then set (\<lambda>opts. opts\<lparr>op_multiprocess := truthy v\<rparr>)
     else if var = ''client_access_token'' then set (\<lambda>opts. opts\<lparr>op_client_access_token := Some (str_of v)\<rparr>)
     else if var = ''log_dir'' then s\<lparr>dp_log_dir := Some (str_of v)\<rparr>
     else s)"

text \<open>Names, placeholder, action, and whether the switch is required.\<close>

type_synonym switch = "string list \<times> string option \<times> action \<times> bool"

definition switches :: "switch list" where
  "switches =
    [([''-?'', ''-h'', ''--help''], None, PrintHelp, False),
     ([''-V'', ''--version''], None, PrintVersion, False),
     ([''--client''], None, SetConst ''client'' (JBool True), False),
     ([''--host''], Some ''<address>'', SetArg ''host'' AsIs, True),
     ([''--port''], Some ''<port>'', SetArg ''port'' port, False),
     ([''--wait''], None, SetConst ''wait'' (JBool True), False),
     ([''--no-subprocesses''], None, SetConst ''multiprocess'' (JBool False), False),
     ([''--log-dir''], Some ''<path>'', SetArg ''log_dir'' AsIs, False),
     ([''--log-stderr''], None, SetLogStderr, False),
     ([''--client-access-token''], Some ''<token>'', SetArg ''client_access_token'' AsIs, False),
     ([''''], Some ''<filename>'', SetTarget ''file'' AsIs True, False),
     ([''-m''], Some ''<module>'', SetTarget ''module'' AsIs False, False),
     ([''-c''], Some ''<code>'', SetTarget ''code'' AsIs False, False),
     ([''--pid''], Some ''<pid>'', SetTarget ''pid'' pid False, False)]"

definition target_help :: string where
  "target_help = ''<filename> | -m <module> | -c <code> | --pid <pid>''"

text \<open>The \<open>for\<close> loop over \<open>enumerate(switches)\<close>.\<close>

fun find_switch :: "nat \<Rightarrow> switch list \<Rightarrow> string \<Rightarrow> (nat \<times> switch) option" where
  "find_switch i [] name = None"
| "find_switch i (sw # sws) name = (if name \<in> set (fst sw) then Some (i, sw) else find_switch (Suc i) sws name)"

definition value_error :: "string \<Rightarrow> 'a dact" where
  "value_error text = fail (ValueError text)"

text \<open>\<open>parser(next(it))\<close>: the value and the rest of the iterator.\<close>

definition next_value :: "arg_parser \<Rightarrow> string list \<Rightarrow> (jv \<times> string list) dact" where
  "next_value p it =
    (case it of
       [] \<Rightarrow> fail StopIteration
     | x # it' \<Rightarrow> (case parse_arg p x of Inl e \<Rightarrow> fail e | Inr v \<Rightarrow> ret (v, it')))"

definition help_text :: "senv \<Rightarrow> string" where
  "help_text E = ''ptvsd '' @ se_version E @ [LF] @
     ''See https://aka.ms/ptvsd for documentation.'' @ [LF, LF] @
     ''Usage: ptvsd [--client] --host <address> [--port <port>]'' @ [LF] @
     ''             [--wait]'' @ [LF] @
     ''             [--no-subprocesses]'' @ [LF] @
     ''             [--log-dir <path>] [--log-stderr]'' @ [LF] @
     ''             '' @ target_help @ [LF]"

text \<open>\<open>action(arg, it)\<close>: what is left of the iterator.\<close>

definition do_action :: "senv \<Rightarrow> action \<Rightarrow> string \<Rightarrow> string list \<Rightarrow> string list dact" where
  "do_action E a arg it =
    (case a of
       PrintHelp \<Rightarrow> andthen (do_effect (Prints (help_text E))) (\<lambda>_. raise (SystemExit 0))
     | PrintVersion \<Rightarrow> andthen (do_effect (Prints (se_version E))) (\<lambda>_. raise (SystemExit 0))
     | SetArg var p \<Rightarrow> andthen (next_value p it) (\<lambda>(v, it'). andthen (modify (set_attribute var v)) (\<lambda>_. ret it'))
     | SetConst var v \<Rightarrow> andthen (modify (set_attribute var v)) (\<lambda>_. ret it)
     | SetLogStderr \<Rightarrow> andthen (modify (\<lambda>s. s\<lparr>dp_log_stderr := True\<rparr>)) (\<lambda>_. ret it)
     | SetTarget kind p positional \<Rightarrow>
         andthen (upd_options (\<lambda>opts. opts\<lparr>op_target_kind := Some kind\<rparr>)) (\<lambda>_.
         andthen (if positional then next_value p (arg # it) else next_value p it) (\<lambda>(v, it').
         andthen (upd_options (\<lambda>opts. opts\<lparr>op_target := v\<rparr>)) (\<lambda>_. ret it'))))"

text \<open>The message for an exception of the action.\<close>

definition action_error :: "string \<Rightarrow> string option \<Rightarrow> exn \<Rightarrow> exn" where
  "action_error name placeholder e =
    (case (e, placeholder) of
       (StopIteration, None) \<Rightarrow> AssertionError ''placeholder is not None''
     | (StopIteration, Some p) \<Rightarrow> ValueError (name @ '': missing '' @ p)
     | (_, p) \<Rightarrow>
         ValueError (''invalid '' @ name @ '' '' @ (case p of None \<Rightarrow> ''None'' | Some p \<Rightarrow> p) @ '': '' @ exn_str e))"

section \<open>parse\<close>

definition run_action ::
  "senv \<Rightarrow> string \<Rightarrow> string option \<Rightarrow> action \<Rightarrow> string \<Rightarrow> string list \<Rightarrow> string list dact" where
  "run_action E name placeholder a arg it =
    attempt (do_action E a arg it)
      (\<lambda>h. case h of Fails e \<Rightarrow> fail (action_error name placeholder e) | SystemExit n \<Rightarrow> raise h)"

lemma next_value_shorter: "next_value p it s = (Inr (v, it'), s') \<Longrightarrow> length it' < length it"
  by (auto simp: next_value_def fail_def split: list.splits sum.splits)

lemma run_action_shorter:
  assumes "run_action E name placeholder a arg it s = (Inr it', s')"
  shows "length it' \<le> length it"
proof -
  have "do_action E a arg it s = (Inr it', s')"
    using assms by (auto simp: run_action_def attempt_def fail_def split: prod.splits sum.splits halt.splits)
  then show ?thesis
    by (cases a) (auto simp: do_action_def andthen_def do_effect_def upd_options_def
        dest!: next_value_shorter split: prod.splits sum.splits if_splits)
qed

text \<open>The \<open>while\<close> loop: what is left of the iterator when a target was found, and the switches seen.\<close>

function parse_loop :: "senv \<Rightarrow> nat list \<Rightarrow> string list \<Rightarrow> (string list \<times> nat list) dact" where
  "parse_loop E seen [] s = value_error (''missing target: '' @ target_help) s"
| "parse_loop E seen (arg # it) s =
    (let name = (if starts_with arg ''-'' then arg else '''') in
     case find_switch 0 switches name of
       None \<Rightarrow> value_error (''unrecognized switch '' @ name) s
     | Some (i, (_, placeholder, a, _)) \<Rightarrow>
         if i \<in> set seen then value_error (''duplicate switch '' @ name) s
         else
           (case run_action E name placeholder a arg it s of
              (Inl h, s') \<Rightarrow> (Inl h, s')
            | (Inr it', s') \<Rightarrow>
                if op_target (dp_options s') \<noteq> JNull then (Inr (it', i # seen), s')
                else parse_loop E (i # seen) it' s'))"
  by pat_completeness auto
termination
  by (relation "measure (\<lambda>(_, _, args, _). length args)") (auto dest!: run_action_shorter [OF sym] simp: less_Suc_eq_le)

fun missing_switch :: "nat \<Rightarrow> switch list \<Rightarrow> nat list \<Rightarrow> string option" where
  "missing_switch i [] seen = None"
| "missing_switch i ((names, placeholder, _, required) # sws) seen =
    (if \<not> required \<or> i \<in> set seen then missing_switch (Suc i) sws seen
     else Some (''missing required '' @ hd names @ (case placeholder of None \<Rightarrow> '''' | Some p \<Rightarrow> '' '' @ p)))"

definition parse :: "senv \<Rightarrow> string list \<Rightarrow> string list dact" where
  "parse E args =
    andthen (parse_loop E [] args) (\<lambda>(it, seen).
      case missing_switch 0 switches seen of
        Some text \<Rightarrow> value_error text
      | None \<Rightarrow>
          andthen (gets dp_options) (\<lambda>opts.
          if op_target_kind opts = Some ''pid'' \<and> op_wait opts then value_error ''--pid does not support --wait''
          else ret it))"

section \<open>Running the target\<close>

definition set_argv_0 :: "string \<Rightarrow> server_proc \<Rightarrow> server_proc" where
  "set_argv_0 x s = s\<lparr>dp_argv := x # tl (dp_argv s)\<rparr>"

definition insert_path :: "string \<Rightarrow> unit dact" where
  "insert_path dir = modify (\<lambda>s. s\<lparr>dp_path := dir # dp_path s\<rparr>)"

definition run :: "senv \<Rightarrow> effect \<Rightarrow> unit dact" where
  "run E x = andthen (do_effect x) (\<lambda>_. case se_run E x of None \<Rightarrow> ret () | Some h \<Rightarrow> raise h)"

definition setup_debug_server :: "senv \<Rightarrow> string \<Rightarrow> unit dact" where
  "setup_debug_server E argv_0 =
    andthen (modify (set_argv_0 argv_0)) (\<lambda>_.
    andthen (gets dp_options) (\<lambda>opts.
    andthen (if op_client opts then attach E TheOptions None TheOptions
             else enable_attach E TheOptions None TheOptions) (\<lambda>_.
    andthen (gets dp_options) (\<lambda>opts.
      if op_wait opts then wait_for_attach E else ret ()))))"

definition target_text :: "string dact" where
  "target_text = gets (\<lambda>s. str_of (op_target (dp_options s)))"

definition run_file :: "senv \<Rightarrow> unit dact" where
  "run_file E =
    andthen target_text (\<lambda>target.
    andthen (setup_debug_server E target) (\<lambda>_.
    andthen (if se_isfile E target then insert_path (se_dirname E target) else ret ()) (\<lambda>_.
      run E (RunsPath target))))"

text \<open>\<open>se_find_spec\<close>: an exception, no spec, or the spec with its \<open>origin\<close>, which can be \<open>None\<close>.\<close>

definition run_module :: "senv \<Rightarrow> unit dact" where
  "run_module E =
    andthen (insert_path '''') (\<lambda>_.
    andthen target_text (\<lambda>target.
    andthen (gets (\<lambda>s. hd (dp_argv s))) (\<lambda>argv_0.
    andthen (case se_find_spec E target of
        Inl _ \<Rightarrow> setup_debug_server E argv_0
      | Inr None \<Rightarrow> setup_debug_server E argv_0
      | Inr (Some None) \<Rightarrow> setup_debug_server E ''None''
      | Inr (Some (Some origin)) \<Rightarrow> setup_debug_server E origin) (\<lambda>_.
      run E (RunsModule target)))))"

definition run_code :: "senv \<Rightarrow> unit dact" where
  "run_code E =
    andthen target_text (\<lambda>target.
    andthen (insert_path '''') (\<lambda>_.
    case se_compile E target of
      Some e \<Rightarrow> fail e
    | None \<Rightarrow>
        andthen (setup_debug_server E ''-c'') (\<lambda>_.
          run E (Evaluates target))))"

section \<open>Injection into another process\<close>

text \<open>\<open>list(bytearray(s.encode("utf-8")))\<close>, printed; \<open>None\<close> has no \<open>encode\<close>.\<close>

definition byte_list :: "string \<Rightarrow> string" where
  "byte_list s = ''['' @ join '', '' (map (\<lambda>c. show_nat (of_char c)) s) @ '']''"

definition encoded :: "string option \<Rightarrow> exn + string" where
  "encoded s =
    (case s of None \<Rightarrow> Inl (AttributeError ''NoneType object has no attribute encode'') | Some s \<Rightarrow> Inr (byte_list s))"

definition slashes :: "string \<Rightarrow> string" where
  "slashes s = map (\<lambda>c. if c = CHR 0x5C then CHR ''/'' else c) s"

definition injected_code :: "string \<Rightarrow> string \<Rightarrow> string \<Rightarrow> string \<Rightarrow> int \<Rightarrow> bool \<Rightarrow> string" where
  "injected_code script host log_dir token port_number client =
    ''import sys;import codecs;decode = lambda s: codecs.utf_8_decode(bytearray(s))[0];'' @
    ''script_path = decode('' @ script @ '');sys.path.insert(0, script_path);'' @
    ''import attach_pid_injected;sys.path.remove(script_path);'' @
    ''host = decode('' @ host @ '');log_dir = decode('' @ log_dir @ '') or None;'' @
    ''client_access_token = decode('' @ token @ '') or None;'' @
    ''attach_pid_injected.attach(    port='' @ show_int port_number @ '',    host=host,    client='' @
    (if client then ''True'' else ''False'') @
    '',    log_dir=log_dir,    client_access_token=client_access_token,)''"

definition restricted :: "char set" where
  "restricted = {CHR 0x22, CHR 0x27, CR, LF}"

definition attach_to_pid :: "senv \<Rightarrow> unit dact" where
  "attach_to_pid E =
    andthen (gets (\<lambda>s. s)) (\<lambda>s.
    let opts = dp_options s in
    case encoded (op_client_access_token opts) of
      Inl e \<Rightarrow> fail e
    | Inr token \<Rightarrow>
        let code = injected_code (byte_list (se_server_dir E)) (byte_list (op_host opts))
              (byte_list (slashes (case dp_log_dir s of None \<Rightarrow> '''' | Some d \<Rightarrow> d))) token
              (op_port opts) (op_client opts) in
        if list_ex (\<lambda>c. c \<in> restricted) code
        then fail (AssertionError ''Injected code should not contain any single quotes, double quotes, or newlines.'')
        else
          andthen (modify (\<lambda>s. s\<lparr>dp_path := dp_path s @ [se_attach_dir E]\<rparr>))
            (\<lambda>_. run E (Injects (int_of (op_target opts)) code)))"

text \<open>\<open>attach_pid_injected.attach\<close>, run by that code in the other process once \<open>ptvsd\<close> is imported there.\<close>

definition injected_attach ::
  "senv \<Rightarrow> string \<Rightarrow> int \<Rightarrow> bool \<Rightarrow> string option \<Rightarrow> string option \<Rightarrow> unit dact" where
  "injected_attach E host port_number client log_dir token =
    andthen (case log_dir of None \<Rightarrow> ret () | Some d \<Rightarrow> modify (\<lambda>s. s\<lparr>dp_log_dir := Some d\<rparr>)) (\<lambda>_.
    andthen (upd_options (\<lambda>opts. opts\<lparr>op_client := client, op_host := host, op_port := port_number,
      op_client_access_token := token\<rparr>)) (\<lambda>_.
    andthen (if client then attach E (Given (host, JInt port_number)) None (Given True)
             else enable_attach E (Given (host, JInt port_number)) None (Given True)) (\<lambda>_. ret ())))"

section \<open>main\<close>

definition run_target :: "senv \<Rightarrow> unit dact" where
  "run_target E =
    andthen (gets (\<lambda>s. op_target_kind (dp_options s))) (\<lambda>kind.
      if kind = Some ''file'' then run_file E
      else if kind = Some ''module'' then run_module E
      else if kind = Some ''code'' then run_code E
      else if kind = Some ''pid'' then attach_to_pid E
      else fail (KeyError (case kind of None \<Rightarrow> ''None'' | Some k \<Rightarrow> repr_str k)))"

definition main :: "senv \<Rightarrow> unit dact" where
  "main E =
    andthen (gets dp_argv) (\<lambda>argv.
    andthen (attempt (parse E (tl argv)) (\<lambda>h. case h of
        Fails e \<Rightarrow> andthen (do_effect (Prints (help_text E @ [LF] @ ''Error: '' @ exn_str e))) (\<lambda>_. raise (SystemExit 2))
      | SystemExit n \<Rightarrow> raise h)) (\<lambda>rest.
    andthen (modify (\<lambda>s. s\<lparr>dp_argv := hd argv # rest\<rparr>)) (\<lambda>_. run_target E)))"

end
