(* ===== verification/ServerFacts.thy ===== *)
theory ServerFacts
  imports ServerCli
begin

text \<open>
  What the command line of \<open>ptvsd\<close> means: a grammar of its switches and targets, and that \<open>parse\<close>
  accepts exactly it; what reaches pydevd; and the code that is injected into another process.
\<close>

section \<open>The grammar of the command line\<close>

datatype item =
    Client | Host string | Port string | Wait | NoSubprocesses | LogDir string | LogStderr | Token string

datatype target = File string | Module string | Code string | Process string

fun item_args :: "item \<Rightarrow> string list" where
  "item_args Client = [''--client'']"
| "item_args (Host v) = [''--host'', v]"
| "item_args (Port v) = [''--port'', v]"
| "item_args Wait = [''--wait'']"
| "item_args NoSubprocesses = [''--no-subprocesses'']"
| "item_args (LogDir v) = [''--log-dir'', v]"
| "item_args LogStderr = [''--log-stderr'']"
| "item_args (Token v) = [''--client-access-token'', v]"

fun target_args :: "target \<Rightarrow> string list" where
  "target_args (File f) = [f]"
| "target_args (Module m) = [''-m'', m]"
| "target_args (Code c) = [''-c'', c]"
| "target_args (Process p) = [''--pid'', p]"

text \<open>The value of a switch that takes a number, where it is one and in range.\<close>

definition port_value :: "string \<Rightarrow> int option" where
  "port_value v = (case parse_int v of Some n \<Rightarrow> if 0 \<le> n \<and> n < 65536 then Some n else None | None \<Rightarrow> None)"

definition pid_value :: "string \<Rightarrow> int option" where
  "pid_value v = (case parse_int v of Some n \<Rightarrow> if 0 \<le> n then Some n else None | None \<Rightarrow> None)"

fun item_ok :: "item \<Rightarrow> bool" where
  "item_ok (Port v) = (port_value v \<noteq> None)"
| "item_ok _ = True"

fun target_ok :: "target \<Rightarrow> bool" where
  "target_ok (File f) = (\<not> starts_with f ''-'')"
| "target_ok (Process p) = (pid_value p \<noteq> None)"
| "target_ok _ = True"

text \<open>What they do to the state, and their places in the table of switches.\<close>

definition with_options :: "(options \<Rightarrow> options) \<Rightarrow> server_proc \<Rightarrow> server_proc" where
  "with_options f s = s\<lparr>dp_options := f (dp_options s)\<rparr>"

fun apply_item :: "item \<Rightarrow> server_proc \<Rightarrow> server_proc" where
  "apply_item Client = with_options (\<lambda>opts. opts\<lparr>op_client := True\<rparr>)"
| "apply_item (Host v) = with_options (\<lambda>opts. opts\<lparr>op_host := v\<rparr>)"
| "apply_item (Port v) = with_options (\<lambda>opts. opts\<lparr>op_port := the (port_value v)\<rparr>)"
| "apply_item Wait = with_options (\<lambda>opts. opts\<lparr>op_wait := True\<rparr>)"
| "apply_item NoSubprocesses = with_options (\<lambda>opts. opts\<lparr>op_multiprocess := False\<rparr>)"
| "apply_item (LogDir v) = (\<lambda>s. s\<lparr>dp_log_dir := Some v\<rparr>)"
| "apply_item LogStderr = (\<lambda>s. s\<lparr>dp_log_stderr := True\<rparr>)"
| "apply_item (Token v) = with_options (\<lambda>opts. opts\<lparr>op_client_access_token := Some v\<rparr>)"

fun target_kind :: "target \<Rightarrow> string" where
  "target_kind (File _) = ''file''"
| "target_kind (Module _) = ''module''"
| "target_kind (Code _) = ''code''"
| "target_kind (Process _) = ''pid''"

fun target_value :: "target \<Rightarrow> jv" where
  "target_value (File f) = JStr f"
| "target_value (Module m) = JStr m"
| "target_value (Code c) = JStr c"
| "target_value (Process p) = JInt (the (pid_value p))"

definition apply_target :: "target \<Rightarrow> server_proc \<Rightarrow> server_proc" where
  "apply_target t = with_options (\<lambda>opts. opts\<lparr>op_target_kind := Some (target_kind t), op_target := target_value t\<rparr>)"

fun item_index :: "item \<Rightarrow> nat" where
  "item_index Client = 2" | "item_index (Host _) = 3" | "item_index (Port _) = 4" | "item_index Wait = 5"
| "item_index NoSubprocesses = 6" | "item_index (LogDir _) = 7" | "item_index LogStderr = 8"
| "item_index (Token _) = 9"

fun target_index :: "target \<Rightarrow> nat" where
  "target_index (File _) = 10" | "target_index (Module _) = 11" | "target_index (Code _) = 12"
| "target_index (Process _) = 13"

section \<open>One switch\<close>

lemma parse_port [simp]: "port_value v = Some n \<Longrightarrow> parse_arg port v = Inr (JInt n)"
  by (auto simp: port_value_def port_def parse_arg_def in_range_def py_int_def split: option.splits if_splits)

lemma parse_pid [simp]: "pid_value v = Some n \<Longrightarrow> parse_arg pid v = Inr (JInt n)"
  by (auto simp: pid_value_def pid_def parse_arg_def in_range_def py_int_def split: option.splits if_splits)

lemma parse_port_iff: "parse_arg port v = Inr x \<longleftrightarrow> (\<exists>n. port_value v = Some n \<and> x = JInt n)"
  by (auto simp: port_value_def port_def parse_arg_def in_range_def py_int_def split: option.splits)

lemma parse_pid_iff: "parse_arg pid v = Inr x \<longleftrightarrow> (\<exists>n. pid_value v = Some n \<and> x = JInt n)"
  by (auto simp: pid_value_def pid_def parse_arg_def in_range_def py_int_def split: option.splits)

lemma parse_as_is [simp]: "parse_arg AsIs v = Inr (JStr v)"
  by (simp add: parse_arg_def)

definition switch_name :: "string \<Rightarrow> string" where
  "switch_name arg = (if starts_with arg ''-'' then arg else '''')"

lemma set_attribute_simps [simp]:
  "set_attribute ''client'' (JBool True) = apply_item Client"
  "set_attribute ''host'' (JStr v) = apply_item (Host v)"
  "set_attribute ''wait'' (JBool True) = apply_item Wait"
  "set_attribute ''multiprocess'' (JBool False) = apply_item NoSubprocesses"
  "set_attribute ''log_dir'' (JStr v) = apply_item (LogDir v)"
  "set_attribute ''client_access_token'' (JStr v) = apply_item (Token v)"
  by (simp_all add: set_attribute_def fun_eq_iff with_options_def str_of_def)

lemma set_port [simp]: "port_value v = Some n \<Longrightarrow> set_attribute ''port'' (JInt n) = apply_item (Port v)"
  by (simp add: set_attribute_def fun_eq_iff with_options_def int_of_def)

lemma find_item:
  "\<exists>ns ph a rq. find_switch 0 switches (hd (item_args x)) = Some (item_index x, (ns, ph, a, rq)) \<and>
     switch_name (hd (item_args x)) = hd (item_args x) \<and>
     (item_ok x \<longrightarrow> run_action E name ph a arg (tl (item_args x) @ it) s = (Inr it, apply_item x s))"
  by (cases x)
    (auto simp: switches_def switch_name_def starts_with_def run_action_def do_action_def next_value_def
      andthen_def attempt_def parse_port_iff)

lemma find_target:
  assumes "target_ok t"
  shows "\<exists>ns ph a rq. find_switch 0 switches (switch_name (hd (target_args t))) = Some (target_index t, (ns, ph, a, rq)) \<and>
     run_action E name ph a (hd (target_args t)) (tl (target_args t) @ it) s = (Inr it, apply_target t s)"
  using assms
  by (cases t)
    (auto simp: switches_def switch_name_def starts_with_def run_action_def do_action_def next_value_def
      andthen_def attempt_def parse_pid_iff upd_options_def apply_target_def with_options_def split: option.splits)

text \<open>A step of the loop that ends normally has read one of these.\<close>

lemma run_set_arg:
  "run_action E name ph (SetArg var p) arg it s = (Inr it', s') \<longleftrightarrow>
     (\<exists>v x. it = v # it' \<and> parse_arg p v = Inr x \<and> s' = set_attribute var x s)"
  by (cases it)
    (auto simp: run_action_def do_action_def attempt_def andthen_def next_value_def fail_def
      split: sum.splits)

lemma run_set_const:
  "run_action E name ph (SetConst var x) arg it s = (Inr it', s') \<longleftrightarrow> it' = it \<and> s' = set_attribute var x s"
  by (auto simp: run_action_def do_action_def attempt_def andthen_def)

lemma run_log_stderr:
  "run_action E name ph SetLogStderr arg it s = (Inr it', s') \<longleftrightarrow> it' = it \<and> s' = apply_item LogStderr s"
  by (auto simp: run_action_def do_action_def attempt_def andthen_def)

lemma run_print:
  "run_action E name ph PrintHelp arg it s \<noteq> (Inr it', s')"
  "run_action E name ph PrintVersion arg it s \<noteq> (Inr it', s')"
  by (auto simp: run_action_def do_action_def attempt_def andthen_def do_effect_def)

lemma run_set_target:
  "run_action E name ph (SetTarget kind p positional) arg it s = (Inr it', s') \<longleftrightarrow>
     (\<exists>v x. (if positional then arg # it else it) = v # it' \<and> parse_arg p v = Inr x \<and>
        s' = with_options (\<lambda>opts. opts\<lparr>op_target_kind := Some kind, op_target := x\<rparr>) s)"
  by (cases it)
    (auto simp: run_action_def do_action_def attempt_def andthen_def next_value_def fail_def upd_options_def
      with_options_def split: sum.splits)

lemmas run_simps = run_set_arg run_set_const run_log_stderr run_print run_set_target

lemma step_cases:
  assumes "find_switch 0 switches (switch_name arg) = Some (i, (ns, ph, a, rq))"
    and "run_action E name ph a arg it s = (Inr it', s')"
  shows "(\<exists>x. item_ok x \<and> arg # it = item_args x @ it' \<and> i = item_index x \<and> s' = apply_item x s) \<or>
    (\<exists>t. target_ok t \<and> arg # it = target_args t @ it' \<and> i = target_index t \<and> s' = apply_target t s)"
proof -
  have dash: "switch_name arg = '''' \<Longrightarrow> \<not> starts_with arg ''-''"
    by (auto simp: switch_name_def starts_with_def split: if_splits)
  have name: "switch_name arg \<noteq> '''' \<Longrightarrow> arg = switch_name arg" by (simp add: switch_name_def split: if_splits)
  have "i = 2 \<and> switch_name arg = ''--client'' \<and> a = SetConst ''client'' (JBool True) \<or>
    i = 3 \<and> switch_name arg = ''--host'' \<and> a = SetArg ''host'' AsIs \<or>
    i = 4 \<and> switch_name arg = ''--port'' \<and> a = SetArg ''port'' port \<or>
    i = 5 \<and> switch_name arg = ''--wait'' \<and> a = SetConst ''wait'' (JBool True) \<or>
    i = 6 \<and> switch_name arg = ''--no-subprocesses'' \<and> a = SetConst ''multiprocess'' (JBool False) \<or>
    i = 7 \<and> switch_name arg = ''--log-dir'' \<and> a = SetArg ''log_dir'' AsIs \<or>
    i = 8 \<and> switch_name arg = ''--log-stderr'' \<and> a = SetLogStderr \<or>
    i = 9 \<and> switch_name arg = ''--client-access-token'' \<and> a = SetArg ''client_access_token'' AsIs \<or>
    i = 10 \<and> switch_name arg = '''' \<and> a = SetTarget ''file'' AsIs True \<or>
    i = 11 \<and> switch_name arg = ''-m'' \<and> a = SetTarget ''module'' AsIs False \<or>
    i = 12 \<and> switch_name arg = ''-c'' \<and> a = SetTarget ''code'' AsIs False \<or>
    i = 13 \<and> switch_name arg = ''--pid'' \<and> a = SetTarget ''pid'' pid False \<or>
    a = PrintHelp \<or> a = PrintVersion"
    using assms(1) unfolding switches_def by (simp split: if_splits)
  then consider
    (client) "i = 2" "arg = ''--client''" "a = SetConst ''client'' (JBool True)"
  | (host) "i = 3" "arg = ''--host''" "a = SetArg ''host'' AsIs"
  | (port) "i = 4" "arg = ''--port''" "a = SetArg ''port'' port"
  | (wait) "i = 5" "arg = ''--wait''" "a = SetConst ''wait'' (JBool True)"
  | (nosub) "i = 6" "arg = ''--no-subprocesses''" "a = SetConst ''multiprocess'' (JBool False)"
  | (logdir) "i = 7" "arg = ''--log-dir''" "a = SetArg ''log_dir'' AsIs"
  | (stderr) "i = 8" "arg = ''--log-stderr''" "a = SetLogStderr"
  | (token) "i = 9" "arg = ''--client-access-token''" "a = SetArg ''client_access_token'' AsIs"
  | (positional) "i = 10" "\<not> starts_with arg ''-''" "a = SetTarget ''file'' AsIs True"
  | (module) "i = 11" "arg = ''-m''" "a = SetTarget ''module'' AsIs False"
  | (code) "i = 12" "arg = ''-c''" "a = SetTarget ''code'' AsIs False"
  | (pid) "i = 13" "arg = ''--pid''" "a = SetTarget ''pid'' pid False"
  | (exits) "a = PrintHelp \<or> a = PrintVersion"
    using name dash by (elim disjE conjE) simp_all
  then show ?thesis
  proof cases
    case client
    with assms(2) show ?thesis by (intro disjI1 exI [of _ Client]) (simp add: run_simps)
  next
    case host
    with assms(2) obtain v where "it = v # it'" "s' = apply_item (Host v) s" by (auto simp: run_simps)
    with host show ?thesis by (intro disjI1 exI [of _ "Host v"]) simp
  next
    case port
    with assms(2) obtain v n where "it = v # it'" "port_value v = Some n" "s' = apply_item (Port v) s"
      by (auto simp: run_simps parse_port_iff)
    with port show ?thesis by (intro disjI1 exI [of _ "Port v"]) simp
  next
    case wait
    with assms(2) show ?thesis by (intro disjI1 exI [of _ Wait]) (simp add: run_simps)
  next
    case nosub
    with assms(2) show ?thesis by (intro disjI1 exI [of _ NoSubprocesses]) (simp add: run_simps)
  next
    case logdir
    with assms(2) obtain v where "it = v # it'" "s' = apply_item (LogDir v) s" by (auto simp: run_simps)
    with logdir show ?thesis by (intro disjI1 exI [of _ "LogDir v"]) simp
  next
    case stderr
    with assms(2) show ?thesis by (intro disjI1 exI [of _ LogStderr]) (simp add: run_simps)
  next
    case token
    with assms(2) obtain v where "it = v # it'" "s' = apply_item (Token v) s" by (auto simp: run_simps)
    with token show ?thesis by (intro disjI1 exI [of _ "Token v"]) simp
  next
    case positional
    with assms(2) have "it' = it" "s' = apply_target (File arg) s" by (auto simp: run_simps apply_target_def)
    with positional show ?thesis by (intro disjI2 exI [of _ "File arg"]) simp
  next
    case module
    with assms(2) obtain v where "it = v # it'" "s' = apply_target (Module v) s"
      by (auto simp: run_simps apply_target_def)
    with module show ?thesis by (intro disjI2 exI [of _ "Module v"]) simp
  next
    case code
    with assms(2) obtain v where "it = v # it'" "s' = apply_target (Code v) s"
      by (auto simp: run_simps apply_target_def)
    with code show ?thesis by (intro disjI2 exI [of _ "Code v"]) simp
  next
    case pid
    with assms(2) obtain v n where "it = v # it'" "pid_value v = Some n" "s' = apply_target (Process v) s"
      by (auto simp: run_simps parse_pid_iff apply_target_def)
    with pid show ?thesis by (intro disjI2 exI [of _ "Process v"]) simp
  next
    case exits
    with assms(2) run_print show ?thesis by blast
  qed
qed

section \<open>The whole command line\<close>

lemma item_args_nonempty: "item_args x = hd (item_args x) # tl (item_args x)"
  by (cases x) auto

lemma target_args_nonempty: "target_args t = hd (target_args t) # tl (target_args t)"
  by (cases t) auto

lemma item_keeps_target [simp]: "op_target (dp_options (apply_item x s)) = op_target (dp_options s)"
  by (cases x) (auto simp: with_options_def)

lemma target_sets_target [simp]: "op_target (dp_options (apply_target t s)) \<noteq> JNull"
  by (cases t) (auto simp: apply_target_def with_options_def)

lemma item_not_target: "item_index x \<noteq> target_index t"
  by (cases x; cases t) auto

lemma loop_step:
  assumes "find_switch 0 switches (switch_name arg) = Some (i, (ns, ph, a, rq))" and "i \<notin> set seen"
  shows "parse_loop E seen (arg # it) s =
    (case run_action E (switch_name arg) ph a arg it s of
       (Inl h, s') \<Rightarrow> (Inl h, s')
     | (Inr it', s') \<Rightarrow>
         if op_target (dp_options s') \<noteq> JNull then (Inr (it', i # seen), s') else parse_loop E (i # seen) it' s')"
  using assms by (simp add: switch_name_def Let_def)

lemma loop_item:
  assumes "item_ok x" and "item_index x \<notin> set seen" and "op_target (dp_options s) = JNull"
  shows "parse_loop E seen (item_args x @ it) s = parse_loop E (item_index x # seen) it (apply_item x s)"
proof -
  obtain ns ph a rq where f: "find_switch 0 switches (hd (item_args x)) = Some (item_index x, (ns, ph, a, rq))"
    "switch_name (hd (item_args x)) = hd (item_args x)"
    "run_action E (hd (item_args x)) ph a (hd (item_args x)) (tl (item_args x) @ it) s = (Inr it, apply_item x s)"
    using find_item [of x E "hd (item_args x)" "hd (item_args x)" it s] assms(1) by blast
  have "parse_loop E seen (hd (item_args x) # tl (item_args x) @ it) s =
      parse_loop E (item_index x # seen) it (apply_item x s)"
    using assms f by (subst loop_step [of _ "item_index x" ns ph a rq]) simp_all
  then show ?thesis by (metis append_Cons item_args_nonempty)
qed

lemma loop_target:
  assumes "target_ok t" and "target_index t \<notin> set seen"
  shows "parse_loop E seen (target_args t @ rest) s = (Inr (rest, target_index t # seen), apply_target t s)"
proof -
  obtain ns ph a rq where f:
    "find_switch 0 switches (switch_name (hd (target_args t))) = Some (target_index t, (ns, ph, a, rq))"
    "run_action E (switch_name (hd (target_args t))) ph a (hd (target_args t)) (tl (target_args t) @ rest) s =
       (Inr rest, apply_target t s)"
    using find_target [OF assms(1)] by blast
  have "parse_loop E seen (hd (target_args t) # tl (target_args t) @ rest) s =
      (Inr (rest, target_index t # seen), apply_target t s)"
    using assms f by (subst loop_step [of _ "target_index t" ns ph a rq]) simp_all
  then show ?thesis by (metis append_Cons target_args_nonempty)
qed

lemma loop_accepts:
  assumes "op_target (dp_options s) = JNull" and "\<forall>x \<in> set items. item_ok x" and "target_ok t"
    and "distinct (map item_index items)" and "set (map item_index items) \<inter> set seen = {}"
    and "target_index t \<notin> set seen"
  shows "parse_loop E seen (concat (map item_args items) @ target_args t @ rest) s =
    (Inr (rest, target_index t # rev (map item_index items) @ seen), apply_target t (fold apply_item items s))"
  using assms
proof (induction items arbitrary: seen s)
  case Nil
  then show ?case by (simp add: loop_target)
next
  case (Cons x items)
  then show ?case by (simp add: loop_item item_not_target [symmetric])
qed

lemma loop_accepted:
  assumes "parse_loop E seen args s = (Inr (rest, seen'), s')" and "op_target (dp_options s) = JNull"
  shows "\<exists>items t. args = concat (map item_args items) @ target_args t @ rest \<and>
    (\<forall>x \<in> set items. item_ok x) \<and> target_ok t \<and>
    distinct (map item_index items) \<and> set (map item_index items) \<inter> set seen = {} \<and>
    seen' = target_index t # rev (map item_index items) @ seen \<and>
    s' = apply_target t (fold apply_item items s)"
  using assms
proof (induction E seen args s rule: parse_loop.induct)
  case (1 E seen s)
  then show ?case by (simp add: value_error_def fail_def)
next
  case (2 E seen arg it s)
  obtain i ns ph a rq where f: "find_switch 0 switches (switch_name arg) = Some (i, (ns, ph, a, rq))"
    using 2(2) by (cases "find_switch 0 switches (switch_name arg)")
      (auto simp: switch_name_def value_error_def fail_def Let_def)
  have i: "i \<notin> set seen"
    using 2(2) f by (auto simp: switch_name_def value_error_def fail_def Let_def)
  obtain it' s1 where r: "run_action E (switch_name arg) ph a arg it s = (Inr it', s1)"
    and rest: "if op_target (dp_options s1) \<noteq> JNull then (rest, seen', s') = (it', i # seen, s1)
      else parse_loop E (i # seen) it' s1 = (Inr (rest, seen'), s')"
    using 2(2) unfolding loop_step [OF f i] by (auto split: prod.splits sum.splits if_splits)
  from step_cases [OF f r] show ?case
  proof (elim disjE exE conjE)
    fix x assume x: "item_ok x" "arg # it = item_args x @ it'" "i = item_index x" "s1 = apply_item x s"
    then have n: "op_target (dp_options s1) = JNull" using 2(3) by simp
    with rest have l: "parse_loop E (i # seen) it' s1 = (Inr (rest, seen'), s')" by simp
    have "\<exists>items t. it' = concat (map item_args items) @ target_args t @ rest \<and>
        (\<forall>x \<in> set items. item_ok x) \<and> target_ok t \<and>
        distinct (map item_index items) \<and> set (map item_index items) \<inter> set (i # seen) = {} \<and>
        seen' = target_index t # rev (map item_index items) @ i # seen \<and>
        s' = apply_target t (fold apply_item items s1)"
      by (rule 2(1) [OF refl f [unfolded switch_name_def] refl refl refl refl i r [unfolded switch_name_def, symmetric]
            refl _ l n]) (use n in simp)
    then obtain items t where "it' = concat (map item_args items) @ target_args t @ rest"
      "\<forall>x \<in> set items. item_ok x" "target_ok t" "distinct (map item_index items)"
      "set (map item_index items) \<inter> set (i # seen) = {}"
      "seen' = target_index t # rev (map item_index items) @ i # seen"
      "s' = apply_target t (fold apply_item items s1)" by blast
    with x i show ?thesis by (intro exI [of _ "x # items"] exI [of _ t]) auto
  next
    fix t assume t: "target_ok t" "arg # it = target_args t @ it'" "i = target_index t" "s1 = apply_target t s"
    with rest have "rest = it'" "seen' = i # seen" "s' = s1" by simp_all
    with t show ?thesis by (intro exI [of _ "[]"] exI [of _ t]) auto
  qed
qed

lemma host_required: "missing_switch 0 switches seen = None \<longleftrightarrow> 3 \<in> set seen"
  by (simp add: switches_def numeral_3_eq_3)

definition well_formed :: "item list \<Rightarrow> target \<Rightarrow> bool" where
  "well_formed items t \<longleftrightarrow>
    distinct (map item_index items) \<and> (\<forall>x \<in> set items. item_ok x) \<and> target_ok t \<and> (\<exists>h. Host h \<in> set items)"

lemma host_seen: "3 \<in> set (map item_index items) \<longleftrightarrow> (\<exists>h. Host h \<in> set items)"
proof -
  have "item_index x = 3 \<longleftrightarrow> (\<exists>h. x = Host h)" for x by (cases x) auto
  then show ?thesis by force
qed

lemma target_kind_applied [simp]: "op_target_kind (dp_options (apply_target t s)) = Some (target_kind t)"
  by (simp add: apply_target_def with_options_def)

lemma parse_accepted:
  assumes "op_target (dp_options s) = JNull" and "parse E args s = (Inr rest, s')"
  shows "\<exists>items t. well_formed items t \<and> args = concat (map item_args items) @ target_args t @ rest \<and>
    s' = apply_target t (fold apply_item items s) \<and> \<not> (target_kind t = ''pid'' \<and> op_wait (dp_options s'))"
proof -
  from assms(2) obtain seen where l: "parse_loop E [] args s = (Inr (rest, seen), s')" and h: "3 \<in> set seen"
    and p: "\<not> (op_target_kind (dp_options s') = Some ''pid'' \<and> op_wait (dp_options s'))"
    by (auto simp: parse_def andthen_def value_error_def fail_def host_required
        split: prod.splits sum.splits option.splits if_splits)
  from loop_accepted [OF l assms(1)] obtain items t where
    "args = concat (map item_args items) @ target_args t @ rest" "\<forall>x \<in> set items. item_ok x" "target_ok t"
    "distinct (map item_index items)" "seen = target_index t # rev (map item_index items)"
    "s' = apply_target t (fold apply_item items s)" by auto
  moreover have "target_index t \<noteq> 3" by (cases t) auto
  with h calculation have "3 \<in> set (map item_index items)" by simp
  ultimately show ?thesis using p unfolding well_formed_def host_seen by auto
qed

lemma parse_accepts:
  assumes "op_target (dp_options s) = JNull" and "well_formed items t"
    and "\<not> (target_kind t = ''pid'' \<and> op_wait (dp_options (apply_target t (fold apply_item items s))))"
  shows "parse E (concat (map item_args items) @ target_args t @ rest) s = (Inr rest, apply_target t (fold apply_item items s))"
proof -
  let ?args = "concat (map item_args items) @ target_args t @ rest" and ?s' = "apply_target t (fold apply_item items s)"
  have l: "parse_loop E [] ?args s = (Inr (rest, target_index t # rev (map item_index items)), ?s')"
    using loop_accepts [OF assms(1), of items t "[]" E rest] assms(2) by (simp add: well_formed_def)
  have "3 \<in> set (map item_index items)" using assms(2) unfolding well_formed_def host_seen by blast
  then have "missing_switch 0 switches (target_index t # rev (map item_index items)) = None"
    unfolding host_required by simp
  with l assms(3) show ?thesis by (auto simp: parse_def andthen_def)
qed

text \<open>
  C21: \<open>parse\<close> accepts exactly the command lines of the grammar: switches in any order, each at most once
  and with a value where it takes one, \<open>--host\<close> among them, then one target, then anything. What follows
  the target is given back untouched, and the options are those of the switches, in their order.
  A target that is a file does not begin with a dash, ports and process ids are in range, and a
  process id does not go with \<open>--wait\<close>.
\<close>

theorem parse_iff:
  assumes "op_target (dp_options s) = JNull"
  shows "parse E args s = (Inr rest, s') \<longleftrightarrow>
    (\<exists>items t. well_formed items t \<and> args = concat (map item_args items) @ target_args t @ rest \<and>
       s' = apply_target t (fold apply_item items s) \<and>
       \<not> (target_kind t = ''pid'' \<and> op_wait (dp_options s')))"
  using parse_accepted [OF assms] parse_accepts [OF assms] by blast

definition new_process :: "string list \<Rightarrow> server_proc" where
  "new_process argv =
    \<lparr>dp_options = default_options, dp_log_dir = None, dp_log_stderr = False, dp_argv = argv, dp_path = [],
     dp_adapter = False, dp_tracing = (\<lambda>_. None), dp_effects = []\<rparr>"

theorem parse_iff_witness:
  "\<forall>E. parse E [''--no-subprocesses'', ''--host'', ''localhost'', ''--port'', ''65535'', ''app.py'', ''--port''] (new_process []) =
    (Inr [''--port''],
     apply_target (File ''app.py'') (fold apply_item [NoSubprocesses, Host ''localhost'', Port ''65535''] (new_process [])))"
proof
  fix E
  have n: "op_target (dp_options (new_process [])) = JNull" by (simp add: new_process_def default_options_def)
  have port: "port_value ''65535'' = Some 65535"
    by (simp add: port_value_def parse_int_def strip_def is_blank_def read_nat_def is_digit_def digit_val_def)
  have "well_formed [NoSubprocesses, Host ''localhost'', Port ''65535''] (File ''app.py'')"
    using port by (auto simp: well_formed_def starts_with_def)
  then show "parse E [''--no-subprocesses'', ''--host'', ''localhost'', ''--port'', ''65535'', ''app.py'', ''--port''] (new_process []) =
    (Inr [''--port''],
     apply_target (File ''app.py'') (fold apply_item [NoSubprocesses, Host ''localhost'', Port ''65535''] (new_process [])))"
    by (subst parse_iff [OF n])
      (intro exI [of _ "[NoSubprocesses, Host ''localhost'', Port ''65535'']"] exI [of _ "File ''app.py''"], simp)
qed

section \<open>What reaches pydevd\<close>

definition multiprocess_on :: "server_proc \<Rightarrow> bool" where
  "multiprocess_on s \<longleftrightarrow> (\<forall>a. Settrace a \<in> set (dp_effects s) \<longrightarrow> st_multiprocess a = Some True)"

named_theorems on_kept \<open>operations after which every settrace so far has had multiprocessing on\<close>

lemma multiprocess_on_update [simp]:
  "multiprocess_on (s\<lparr>dp_options := opts\<rparr>) = multiprocess_on s"
  "multiprocess_on (s\<lparr>dp_log_dir := d\<rparr>) = multiprocess_on s"
  "multiprocess_on (s\<lparr>dp_log_stderr := b\<rparr>) = multiprocess_on s"
  "multiprocess_on (s\<lparr>dp_argv := argv\<rparr>) = multiprocess_on s"
  "multiprocess_on (s\<lparr>dp_path := path\<rparr>) = multiprocess_on s"
  "multiprocess_on (s\<lparr>dp_adapter := b\<rparr>) = multiprocess_on s"
  "multiprocess_on (s\<lparr>dp_effects := dp_effects s @ [x]\<rparr>) =
     (multiprocess_on s \<and> (\<forall>a. x = Settrace a \<longrightarrow> st_multiprocess a = Some True))"
  by (auto simp: multiprocess_on_def)

lemma on_basic [on_kept]:
  "keeps multiprocess_on (ret result)" "keeps multiprocess_on (gets g)" "keeps multiprocess_on (raise h)"
  "keeps multiprocess_on (fail e)" "keeps multiprocess_on (value_error t)"
  "keeps multiprocess_on (upd_options f)" "keeps multiprocess_on (insert_path d)"
  "keeps multiprocess_on (modify (set_attribute var v))" "keeps multiprocess_on (modify (set_argv_0 x))"
  "keeps multiprocess_on (modify (\<lambda>s. s\<lparr>dp_log_stderr := b\<rparr>))"
  "keeps multiprocess_on (modify (\<lambda>s. s\<lparr>dp_path := dp_path s @ path\<rparr>))"
  "keeps multiprocess_on (modify (\<lambda>s. s\<lparr>dp_argv := argv\<rparr>))"
  "keeps multiprocess_on target_text"
  by (auto simp: fail_def value_error_def upd_options_def insert_path_def set_attribute_def set_argv_0_def Let_def
      target_text_def intro!: keeps_basic keeps_modify)

lemma on_effect: "(\<And>a. x \<noteq> Settrace a) \<Longrightarrow> keeps multiprocess_on (do_effect x)"
  unfolding do_effect_def by (rule keeps_modify) auto

lemma on_run: "(\<And>a. x \<noteq> Settrace a) \<Longrightarrow> keeps multiprocess_on (run E x)"
  unfolding run_def by (intro keeps_bind on_effect) (auto split: option.splits intro: on_kept)

lemma on_do_action: "keeps multiprocess_on (do_action E a arg it)"
  unfolding do_action_def next_value_def
  by (cases a) (auto split: list.splits sum.splits intro!: keeps_bind on_kept on_effect)

lemma on_run_action: "keeps multiprocess_on (run_action E name ph a arg it)"
  unfolding run_action_def
  by (intro keeps_attempt on_do_action) (auto split: halt.splits intro: on_kept)

lemma on_parse_loop: "keeps multiprocess_on (parse_loop E seen args)"
proof (rule keepsI)
  show "multiprocess_on s \<Longrightarrow> wp (parse_loop E seen args) (\<lambda>_. multiprocess_on) (\<lambda>_. multiprocess_on) s" for s
  proof (induction E seen args s rule: parse_loop.induct)
    case (1 E seen s)
    then show ?case by (simp add: value_error_def fail_def wp_def)
  next
    case (2 E seen arg it s)
    have error: "wp (value_error t) (\<lambda>_. multiprocess_on) (\<lambda>_. multiprocess_on) s" for t :: string
      using 2(2) by (simp add: value_error_def fail_def wp_def)
    show ?case
    proof (cases "find_switch 0 switches (switch_name arg)")
      case None
      then have "parse_loop E seen (arg # it) s = value_error (''unrecognized switch '' @ switch_name arg) s"
        by (simp add: switch_name_def Let_def)
      with error show ?thesis by (simp add: wp_def)
    next
      case (Some q)
      then obtain i ns ph a rq where f: "find_switch 0 switches (switch_name arg) = Some (i, (ns, ph, a, rq))"
        by (cases q) auto
      show ?thesis
      proof (cases "i \<in> set seen")
        case True
        with f have "parse_loop E seen (arg # it) s = value_error (''duplicate switch '' @ switch_name arg) s"
          by (simp add: switch_name_def Let_def)
        with error show ?thesis by (simp add: wp_def)
      next
        case False
        obtain r s1 where r: "run_action E (switch_name arg) ph a arg it s = (r, s1)" by fastforce
        have on: "multiprocess_on s1" using on_run_action 2(2) r by (rule keepsD)
        show ?thesis
        proof (cases r)
          case (Inl h)
          with on r show ?thesis unfolding wp_def loop_step [OF f False] by simp
        next
          case (Inr it')
          show ?thesis
          proof (cases "op_target (dp_options s1) \<noteq> JNull")
            case True
            with on r Inr show ?thesis unfolding wp_def loop_step [OF f False] by simp
          next
            case n: False
            have "wp (parse_loop E (i # seen) it') (\<lambda>_. multiprocess_on) (\<lambda>_. multiprocess_on) s1"
              by (rule 2(1) [OF refl f [unfolded switch_name_def] refl refl refl refl False
                    r [unfolded switch_name_def Inr, symmetric] refl n on])
            with r Inr n show ?thesis unfolding wp_def loop_step [OF f False] by simp
          qed
        qed
      qed
    qed
  qed
qed

lemma on_parse: "keeps multiprocess_on (parse E args)"
  unfolding parse_def
  by (intro keeps_bind on_parse_loop) (auto split: option.splits intro!: keeps_bind on_kept)

lemma on_starts_debugging:
  assumes "\<And>s r s'. multiprocess_on s \<Longrightarrow> op_multiprocess (dp_options s) \<Longrightarrow> func s = (r, s') \<Longrightarrow> multiprocess_on s'"
  shows "keeps multiprocess_on (starts_debugging E func TheOptions None (Given True))"
proof (rule keepsI)
  fix s assume "multiprocess_on s"
  then show "wp (starts_debugging E func TheOptions None (Given True)) (\<lambda>_. multiprocess_on) (\<lambda>_. multiprocess_on) s"
    using assms [of "s\<lparr>dp_options := dp_options s\<lparr>op_multiprocess := True\<rparr>\<rparr>"]
    by (auto simp: starts_debugging_def andthen_def upd_options_def intro!: wpI split: if_splits)
qed

lemma on_settrace:
  "st_multiprocess a = Some True \<Longrightarrow> multiprocess_on s \<Longrightarrow> settrace E a s = (r, s') \<Longrightarrow> multiprocess_on s'"
  by (auto simp: settrace_def andthen_def do_effect_def fail_def split: option.splits)

lemma on_enable_attach: "keeps multiprocess_on (enable_attach E TheOptions None m)"
  unfolding enable_attach_def api_enable_attach_def
proof (rule on_starts_debugging)
  fix s r s' assume s: "multiprocess_on s" "op_multiprocess (dp_options s)" and r: "enable_attach_body E s = (r, s')"
  have c: "connect_to_adapter E t = (q, t') \<Longrightarrow> multiprocess_on t \<Longrightarrow> op_multiprocess (dp_options t) \<Longrightarrow> multiprocess_on t'"
    for t q t'
    by (auto simp: connect_to_adapter_def fail_def andthen_def upd_options_def
        dest!: on_settrace [rotated 2] split: endpoints_reply.splits if_splits sum.splits prod.splits;
        simp add: adapter_settrace_def)
  show "multiprocess_on s'"
    using r s c [of "s\<lparr>dp_effects := dp_effects s @ [x], dp_adapter := True\<rparr>" for x]
    by (auto simp: enable_attach_body_def fail_def andthen_def do_effect_def split: if_splits sum.splits option.splits)
qed

lemma on_attach: "keeps multiprocess_on (attach E TheOptions None m)"
  unfolding attach_def api_attach_def
  by (rule on_starts_debugging)
    (auto simp: attach_body_def andthen_def dest!: on_settrace [rotated 2] split: prod.splits sum.splits)

lemma on_setup: "keeps multiprocess_on (setup_debug_server E x)"
  unfolding setup_debug_server_def wait_for_attach_def
  by (intro keeps_bind on_kept keeps_if on_attach on_enable_attach) (auto intro!: keeps_bind on_kept on_effect)

lemma on_attach_to_pid: "keeps multiprocess_on (attach_to_pid E)"
  unfolding attach_to_pid_def Let_def
  by (intro keeps_bind on_kept) (auto split: sum.splits option.splits intro!: keeps_bind on_kept on_run)

lemma on_run_target: "keeps multiprocess_on (run_target E)"
proof -
  have "keeps multiprocess_on (run_file E)"
    unfolding run_file_def by (intro keeps_bind on_kept on_setup keeps_if on_run) auto
  moreover have "keeps multiprocess_on (run_module E)"
    unfolding run_module_def
    by (intro keeps_bind on_kept on_run) (auto split: sum.splits option.splits intro: on_setup)
  moreover have "keeps multiprocess_on (run_code E)"
    unfolding run_code_def
    by (intro keeps_bind on_kept) (auto split: option.splits intro!: keeps_bind on_setup on_run on_kept)
  ultimately show ?thesis
    unfolding run_target_def by (intro keeps_bind on_kept) (auto intro: on_attach_to_pid on_kept)
qed

lemma on_main: "keeps multiprocess_on (main E)"
  unfolding main_def
  by (intro keeps_bind keeps_attempt on_kept on_parse on_run_target)
    (auto split: halt.splits intro!: keeps_bind on_kept on_effect)

text \<open>
  Whatever the command line says, pydevd is only ever asked to debug child processes too: the
  switch \<open>--no-subprocesses\<close> has no effect, because \<open>ptvsd.attach\<close> and \<open>ptvsd.enable_attach\<close> do not pass
  \<open>multiprocess\<close> on to the API, which then overwrites the option with its default.
\<close>

theorem no_subprocesses_ignored:
  assumes "main E (new_process argv) = (r, s)" and "Settrace a \<in> set (dp_effects s)"
  shows "st_multiprocess a = Some True"
proof -
  have "multiprocess_on (new_process argv)" by (simp add: multiprocess_on_def new_process_def)
  then have "multiprocess_on s" by (rule keepsD [OF on_main _ assms(1)])
  with assms(2) show ?thesis by (simp add: multiprocess_on_def)
qed

text \<open>A process in which everything succeeds.\<close>

definition demo_process_env :: senv where
  "demo_process_env =
    \<lparr>se_executable = ''python'', se_adapter_dir = ''adapter'', se_server_dir = ''server'', se_attach_dir = ''attach'',
     se_version = ''5.0'', se_token = ''token'', se_listen = Inr 5000, se_spawn = (\<lambda>_. None),
     se_endpoints = Endpoints [(''server'', JObj [(''host'', JStr ''127.0.0.1''), (''port'', JInt 6000)]),
       (''ide'', JObj [(''host'', JStr ''127.0.0.1''), (''port'', JInt 7000)])],
     se_debugger = (\<lambda>_. True), se_attached = (\<lambda>_. False), se_settrace = (\<lambda>_. None), se_isfile = (\<lambda>_. True),
     se_dirname = (\<lambda>_. ''dir''), se_find_spec = (\<lambda>_. Inr None), se_compile = (\<lambda>_. None), se_run = (\<lambda>_. None)\<rparr>"

definition demo_argv :: "string list" where
  "demo_argv = [''ptvsd'', ''--client'', ''--host'', ''127.0.0.1'', ''--no-subprocesses'', ''app.py'']"

definition is_settrace :: "effect \<Rightarrow> bool" where
  "is_settrace x = (case x of Settrace _ \<Rightarrow> True | _ \<Rightarrow> False)"

lemma is_settrace_iff: "is_settrace x \<longleftrightarrow> (\<exists>a. x = Settrace a)"
  by (cases x) (simp_all add: is_settrace_def)

lemma demo_main_settrace: "list_ex is_settrace (dp_effects (snd (main demo_process_env (new_process demo_argv))))"
  by code_simp

theorem no_subprocesses_ignored_witness:
  "\<exists>a. Settrace a \<in> set (dp_effects (snd (main demo_process_env (new_process demo_argv)))) \<and>
     st_multiprocess a = Some True"
proof -
  obtain r s where m: "main demo_process_env (new_process demo_argv) = (r, s)" by fastforce
  from demo_main_settrace obtain a where "Settrace a \<in> set (dp_effects s)"
    by (auto simp: m list_ex_iff is_settrace_iff)
  with no_subprocesses_ignored [OF m this] show ?thesis by (auto simp: m)
qed

section \<open>Injected code\<close>

lemma plain_join: "(\<And>x. x \<in> set xs \<Longrightarrow> set x \<inter> restricted = {}) \<Longrightarrow> set (join '', '' xs) \<inter> restricted = {}"
  by (induction "'', ''" xs rule: join.induct) (auto simp: restricted_def)

lemma digits_plain: "set (show_nat n) \<inter> restricted = {}"
  using show_nat_digits [of n] by (auto simp: restricted_def is_digit_def)

lemma show_int_plain: "set (show_int i) \<inter> restricted = {}"
  using digits_plain by (auto simp: show_int_def restricted_def)

lemma byte_list_plain: "set (byte_list s) \<inter> restricted = {}"
proof -
  have "set (join '', '' (map (\<lambda>c. show_nat (of_char c)) s)) \<inter> restricted = {}"
  proof (rule plain_join)
    fix x assume "x \<in> set (map (\<lambda>c. show_nat (of_char c)) s)"
    then obtain c where "x = show_nat (of_char c)" by auto
    then show "set x \<inter> restricted = {}" by (simp only: digits_plain)
  qed
  then show ?thesis by (auto simp: byte_list_def restricted_def)
qed

lemma injected_code_plain:
  "set (injected_code (byte_list script) (byte_list host) (byte_list dir) (byte_list token) n client) \<inter> restricted = {}"
  using byte_list_plain show_int_plain
  by (auto simp: injected_code_def restricted_def split: if_splits)

text \<open>
  With an access token, "--pid" always injects: the code never contains a character that the
  injection cannot carry, whatever bytes are in the host, the log directory, the token and the paths,
  because they only occur as lists of numbers. Without a token, which is optional, attaching to a
  process fails on \<open>None.encode\<close> and nothing is injected.
\<close>

theorem attach_to_pid_spec:
  "case op_client_access_token (dp_options s) of
     None \<Rightarrow> \<exists>e. attach_to_pid E s = (Inl (Fails (AttributeError e)), s)
   | Some token \<Rightarrow>
       \<exists>code. set code \<inter> restricted = {} \<and>
         code = injected_code (byte_list (se_server_dir E)) (byte_list (op_host (dp_options s)))
           (byte_list (slashes (case dp_log_dir s of None \<Rightarrow> [] | Some d \<Rightarrow> d))) (byte_list token)
           (op_port (dp_options s)) (op_client (dp_options s)) \<and>
         attach_to_pid E s =
           run E (Injects (int_of (op_target (dp_options s))) code) (s\<lparr>dp_path := dp_path s @ [se_attach_dir E]\<rparr>)"
proof (cases "op_client_access_token (dp_options s)")
  case None
  then show ?thesis by (simp add: attach_to_pid_def andthen_def encoded_def fail_def Let_def)
next
  case (Some token)
  define code where "code = injected_code (byte_list (se_server_dir E)) (byte_list (op_host (dp_options s)))
    (byte_list (slashes (case dp_log_dir s of None \<Rightarrow> [] | Some d \<Rightarrow> d))) (byte_list token)
    (op_port (dp_options s)) (op_client (dp_options s))"
  have "set code \<inter> restricted = {}" unfolding code_def by (rule injected_code_plain)
  moreover from this have "\<not> list_ex (\<lambda>c. c \<in> restricted) code" by (auto simp: list_ex_iff)
  ultimately show ?thesis using Some
    by (simp add: attach_to_pid_def andthen_def encoded_def Let_def flip: code_def)
qed

end
