(* ===== verification/CaptureOutput.thy ===== *)
theory CaptureOutput
  imports MessageFacts
begin

text \<open>
  \<open>launcher/output.py\<close>: a thread of the launcher reads the debuggee's output from a pipe, sends it
  to the adapter in "output" events, and writes it to the launcher's own stream.

  The stream is given by its \<open>write\<close> and \<open>flush\<close> (\<open>JsonStream.byte_writer\<close>), its encoding by the
  function \<open>enc\<close>; the outcomes of \<open>os.read\<close> are a list, in which \<open>Inr []\<close> is the end of the
  pipe. A byte that the decoder escapes (\<open>surrogateescape\<close>) is that byte in the text, so the
  text of the captured bytes is those bytes, and \<open>enc\<close> is \<open>Inr\<close> for UTF-8.
\<close>

section \<open>The incremental decoder\<close>

text \<open>The start of a multi-byte sequence that more bytes can complete.\<close>

definition second_byte_ok :: "char \<Rightarrow> char \<Rightarrow> bool" where
  "second_byte_ok a b =
    (let x = (of_char a :: nat); y = (of_char b :: nat) in
     cont b \<and> (x = 224 \<longrightarrow> 160 \<le> y) \<and> (x = 237 \<longrightarrow> y < 160) \<and> (x = 240 \<longrightarrow> 144 \<le> y) \<and> (x = 244 \<longrightarrow> y < 144))"

fun incomplete :: "bytes \<Rightarrow> bool" where
  "incomplete [a] = (194 \<le> (of_char a :: nat) \<and> (of_char a :: nat) < 245)"
| "incomplete [a, b] = (224 \<le> (of_char a :: nat) \<and> (of_char a :: nat) < 245 \<and> second_byte_ok a b)"
| "incomplete [a, b, c] = (240 \<le> (of_char a :: nat) \<and> (of_char a :: nat) < 245 \<and> second_byte_ok a b \<and> cont c)"
| "incomplete _ = False"

text \<open>What the decoder keeps for the next chunk.\<close>

function undecoded :: "bytes \<Rightarrow> bytes" where
  "undecoded s =
    (if s = [] then []
     else case utf8_next s of
         Some (_, s') \<Rightarrow> undecoded s'
       | None \<Rightarrow> if incomplete s then s else undecoded (tl s))"
  by pat_completeness auto
termination
  by (relation "measure length") (auto dest: utf8_next_shorter)

declare undecoded.simps [simp del]

definition decode_chunk :: "bytes \<Rightarrow> bool \<Rightarrow> bytes \<Rightarrow> string \<times> bytes" where
  "decode_chunk s final held =
    (let input = held @ s; keep = (if final then [] else undecoded input)
     in (take (length input - length keep) input, keep))"

fun crlf_to_lf :: "string \<Rightarrow> string" where
  "crlf_to_lf [] = []"
| "crlf_to_lf (c # s) =
    (case s of d # s' \<Rightarrow> if c = CR \<and> d = LF then LF # crlf_to_lf s' else c # crlf_to_lf s | [] \<Rightarrow> [c])"

section \<open>CaptureOutput\<close>

record 'w capture =
  cp_category :: string
  cp_fd :: "nat option"
  cp_closed :: "nat list"
  cp_decoder :: bytes
  cp_stream :: 'w
  cp_chan :: chan

definition new_capture :: "string \<Rightarrow> nat \<Rightarrow> 'w \<Rightarrow> chan \<Rightarrow> 'w capture" where
  "new_capture category fd stream ch =
    \<lparr>cp_category = category, cp_fd = Some fd, cp_closed = [], cp_decoder = [], cp_stream = stream, cp_chan = ch\<rparr>"

text \<open>\<open>os.close(self._fd); self._fd = None\<close>\<close>

definition close_fd :: "('w capture, exn, unit) sem" where
  "close_fd c =
    (case cp_fd c of
       None \<Rightarrow> (Inl (TypeError ''an integer is required''), c)
     | Some fd \<Rightarrow> (Inr (), c\<lparr>cp_fd := None, cp_closed := cp_closed c @ [fd]\<rparr>))"

definition output_body :: "string \<Rightarrow> string \<Rightarrow> jv" where
  "output_body category text = JObj [(''category'', JStr category), (''output'', JStr (crlf_to_lf text))]"

text \<open>The event; an exception of \<open>send_event\<close> is ignored.\<close>

definition send_output :: "string \<Rightarrow> ('w capture, exn, unit) sem" where
  "send_output text =
    modify (\<lambda>c. c\<lparr>cp_chan := snd (send_event ''output'' (output_body (cp_category c) text) (cp_chan c))\<rparr>)"

text \<open>The loop that writes \<open>d\<close>, the rest of the chunk from \<open>i\<close> on.\<close>

function tee ::
  "(bytes \<Rightarrow> 'w \<Rightarrow> (exn + nat option) \<times> 'w) \<Rightarrow> ('w \<Rightarrow> (exn + unit) \<times> 'w) \<Rightarrow> bytes \<Rightarrow> ('w capture, exn, unit) sem"
where
  "tee put flush d c =
    (if d = [] then (Inr (), c)
     else case put d (cp_stream c) of
         (Inl e, w) \<Rightarrow> (Inl e, c\<lparr>cp_stream := w\<rparr>)
       | (Inr written, w) \<Rightarrow>
           (case flush w of
              (Inl e, w') \<Rightarrow> (Inl e, c\<lparr>cp_stream := w'\<rparr>)
            | (Inr _, w') \<Rightarrow>
                (case written of
                   None \<Rightarrow> (Inr (), c\<lparr>cp_stream := w'\<rparr>)
                 | Some k \<Rightarrow>
                     if k = 0 then close_fd (c\<lparr>cp_stream := w'\<rparr>)
                     else tee put flush (drop k d) (c\<lparr>cp_stream := w'\<rparr>))))"
  by pat_completeness auto
termination
  by (relation "measure (\<lambda>(_, _, d, _). length d)") (auto simp: not_le)

declare tee.simps [simp del]

definition process_chunk ::
  "(bytes \<Rightarrow> 'w \<Rightarrow> (exn + nat option) \<times> 'w) \<Rightarrow> ('w \<Rightarrow> (exn + unit) \<times> 'w) \<Rightarrow> (string \<Rightarrow> exn + bytes)
     \<Rightarrow> bytes \<Rightarrow> bool \<Rightarrow> ('w capture, exn, unit) sem" where
  "process_chunk put flush enc s final c =
    (case decode_chunk s final (cp_decoder c) of
       (text, keep) \<Rightarrow>
         (if text = [] then modify (\<lambda>c. c\<lparr>cp_decoder := keep\<rparr>)
          else
            andthen (modify (\<lambda>c. c\<lparr>cp_decoder := keep\<rparr>)) (\<lambda>_.
            andthen (send_output text) (\<lambda>_.
            andthen (of_result (enc text)) (tee put flush)))) c)"

text \<open>
  The loop of \<open>_worker\<close>: \<open>False\<close> when the list ends first, so that the thread still waits in
  \<open>os.read\<close>.
\<close>

fun read_loop ::
  "(bytes \<Rightarrow> 'w \<Rightarrow> (exn + nat option) \<times> 'w) \<Rightarrow> ('w \<Rightarrow> (exn + unit) \<times> 'w) \<Rightarrow> (string \<Rightarrow> exn + bytes)
     \<Rightarrow> (exn + bytes) list \<Rightarrow> ('w capture, exn, bool) sem" where
  "read_loop put flush enc [] c = (Inr (cp_fd c = None), c)"
| "read_loop put flush enc (r # reads) c =
    (if cp_fd c = None then (Inr True, c)
     else case r of
         Inl e \<Rightarrow> (Inr True, c)
       | Inr s \<Rightarrow>
           if s = [] then (Inr True, c)
           else andthen (process_chunk put flush enc s False) (\<lambda>_. read_loop put flush enc reads) c)"

definition worker ::
  "(bytes \<Rightarrow> 'w \<Rightarrow> (exn + nat option) \<times> 'w) \<Rightarrow> ('w \<Rightarrow> (exn + unit) \<times> 'w) \<Rightarrow> (string \<Rightarrow> exn + bytes)
     \<Rightarrow> (exn + bytes) list \<Rightarrow> ('w capture, exn, bool) sem" where
  "worker put flush enc reads =
    andthen (read_loop put flush enc reads) (\<lambda>left.
      if left then andthen (process_chunk put flush enc [] True) (\<lambda>_. ret True) else ret False)"

section \<open>The decoder loses nothing and splits no character\<close>

lemma undecoded_simps:
  "undecoded [] = []"
  "utf8_next s = Some (n, s') \<Longrightarrow> undecoded s = undecoded s'"
  "utf8_next s = None \<Longrightarrow> incomplete s \<Longrightarrow> undecoded s = s"
  "utf8_next (a # s) = None \<Longrightarrow> \<not> incomplete (a # s) \<Longrightarrow> undecoded (a # s) = undecoded s"
  by (subst undecoded.simps, force)+

lemma utf8_next_suffix: "utf8_next s = Some (n, s') \<Longrightarrow> \<exists>p. s = p @ s'"
  by (cases s) (auto simp: Let_def split: if_splits list.splits)

lemma undecoded_cases:
  assumes "s = [] \<Longrightarrow> P"
    and "\<And>n s'. s \<noteq> [] \<Longrightarrow> utf8_next s = Some (n, s') \<Longrightarrow> undecoded s = undecoded s' \<Longrightarrow> P"
    and "s \<noteq> [] \<Longrightarrow> utf8_next s = None \<Longrightarrow> incomplete s \<Longrightarrow> undecoded s = s \<Longrightarrow> P"
    and "\<And>a t. s = a # t \<Longrightarrow> utf8_next s = None \<Longrightarrow> \<not> incomplete s \<Longrightarrow> undecoded s = undecoded t \<Longrightarrow> P"
  shows P
  using assms undecoded_simps by (cases s; cases "utf8_next s"; cases "incomplete s") auto

lemma undecoded_suffix: "\<exists>p. s = p @ undecoded s"
proof (induction "length s" arbitrary: s rule: less_induct)
  case less
  show ?case
  proof (rule undecoded_cases [of s])
    fix n s' assume "utf8_next s = Some (n, s')" and u: "undecoded s = undecoded s'"
    then obtain p q where "s = p @ s'" and "s' = q @ undecoded s'"
      using less utf8_next_shorter utf8_next_suffix by blast
    then show ?thesis unfolding u by (metis append.assoc)
  next
    fix a t assume "s = a # t" and u: "undecoded s = undecoded t"
    moreover from this obtain q where "t = q @ undecoded t" using less by auto
    ultimately show ?thesis by (metis append_Cons)
  qed (auto simp: undecoded_simps)
qed

lemma decode_chunk_all:
  assumes "decode_chunk s final held = (text, keep)"
  shows "text @ keep = held @ s"
proof -
  define input where "input = held @ s"
  obtain p where p: "input = p @ undecoded input" using undecoded_suffix by blast
  then have "take (length input - length (undecoded input)) input = p"
    by (metis add_diff_cancel_right' append_eq_conv_conj length_append)
  with assms p show ?thesis by (auto simp: decode_chunk_def Let_def simp flip: input_def split: if_splits)
qed

lemma decode_chunk_final: "decode_chunk s True held = (held @ s, [])"
  by (simp add: decode_chunk_def Let_def)

lemma utf8_next_more: "utf8_next s = Some (n, s') \<Longrightarrow> utf8_next (s @ r) = Some (n, s' @ r)"
  by (cases s) (auto simp: Let_def split: if_splits list.splits)

lemma utf8_next_part:
  assumes "s \<noteq> []" and "utf8_next (s @ r) \<noteq> None" and "utf8_next s = None"
  shows "incomplete s"
proof -
  obtain a t where s: "s = a # t" using assms(1) by (cases s) auto
  show ?thesis
  proof (cases t)
    case Nil
    with assms s show ?thesis by (auto simp: Let_def split: if_splits)
  next
    case (Cons b u)
    show ?thesis
    proof (cases u)
      case Nil
      with assms s Cons show ?thesis
        by (cases r) (auto simp: Let_def second_byte_ok_def cont_def split: if_splits list.splits)
    next
      case (Cons c v)
      with assms s \<open>t = b # u\<close> show ?thesis
        by (cases v; cases r) (auto simp: Let_def second_byte_ok_def cont_def split: if_splits list.splits)
    qed
  qed
qed

lemma utf8_ok_next: "utf8_next s = Some (n, s') \<Longrightarrow> utf8_ok s \<longleftrightarrow> utf8_ok s'"
  by (cases "s = []") (auto simp: utf8_ok_def utf8_points.simps [of s])

lemma utf8_ok_Nil: "utf8_ok []"
  by (simp add: utf8_ok_def utf8_points.simps)

lemma utf8_ok_no_next: "utf8_next s = None \<Longrightarrow> s \<noteq> [] \<Longrightarrow> \<not> utf8_ok s"
  by (simp add: utf8_ok_def utf8_points.simps [of s])

lemma decoded_part_ok:
  assumes "utf8_ok (s @ r)"
  shows "\<exists>p. s = p @ undecoded s \<and> utf8_ok p \<and> utf8_ok (undecoded s @ r)"
  using assms
proof (induction "length s" arbitrary: s rule: less_induct)
  case less
  show ?case
  proof (rule undecoded_cases [of s])
    fix n s' assume s: "utf8_next s = Some (n, s')" and u: "undecoded s = undecoded s'"
    have "utf8_ok (s' @ r)" using less.prems utf8_ok_next [OF utf8_next_more [OF s]] by blast
    with less.hyps utf8_next_shorter [OF s] obtain q
      where q: "s' = q @ undecoded s'" "utf8_ok q" "utf8_ok (undecoded s' @ r)" by blast
    obtain p where p: "s = p @ s'" using utf8_next_suffix [OF s] by blast
    have "utf8_next (p @ q) = Some (n, q)"
    proof -
      have "utf8_next (p @ q @ undecoded s') = Some (n, q @ undecoded s')" using s p q(1) by simp
      moreover have "p \<noteq> []" using utf8_next_shorter [OF s] p by auto
      ultimately show ?thesis
        by (cases p) (auto simp: Let_def split: if_splits list.splits)
    qed
    with q(2) have "utf8_ok (p @ q)" using utf8_ok_next by blast
    moreover have "s = (p @ q) @ undecoded s" using p q(1) u by simp
    ultimately show ?thesis using q(3) u by metis
  next
    assume "s \<noteq> []" "utf8_next s = None" "incomplete s" and u: "undecoded s = s"
    show ?thesis unfolding u using less.prems utf8_ok_Nil by auto
  next
    fix a t assume s: "s = a # t" "utf8_next s = None" "\<not> incomplete s"
    have ne: "s \<noteq> []" using s(1) by simp
    then have "utf8_next (s @ r) = None" using utf8_next_part s(2,3) by blast
    then have "\<not> utf8_ok (s @ r)" using ne utf8_ok_no_next by blast
    with less.prems show ?thesis by blast
  qed (use less.prems utf8_ok_Nil in \<open>simp add: undecoded_simps\<close>)
qed

lemma decode_chunk_ok:
  assumes "decode_chunk s False held = (text, keep)" and "utf8_ok (held @ s @ r)"
  shows "utf8_ok text" and "utf8_ok (keep @ r)"
proof -
  define input where "input = held @ s"
  from assms(2) decoded_part_ok [of input r] obtain p
    where p: "input = p @ undecoded input" "utf8_ok p" "utf8_ok (undecoded input @ r)"
    by (auto simp: input_def)
  have k: "keep = undecoded input" and "text @ keep = input"
    using assms(1) decode_chunk_all [OF assms(1)] by (auto simp: decode_chunk_def Let_def simp flip: input_def)
  with p show "utf8_ok text" by (metis append_same_eq)
  from p(3) k show "utf8_ok (keep @ r)" by simp
qed

section \<open>Everything that is captured is sent and written\<close>

text \<open>The channel after the events for \<open>texts\<close>.\<close>

definition with_outputs :: "string \<Rightarrow> string list \<Rightarrow> chan \<Rightarrow> chan" where
  "with_outputs category texts ch =
    fold (\<lambda>text ch. snd (send_event ''output'' (output_body category text) ch)) texts ch"

text \<open>The thread's state when it keeps \<open>keep\<close>, has the stream \<open>v\<close> and has sent \<open>texts\<close>.\<close>

definition captured :: "bytes \<Rightarrow> 'w \<Rightarrow> string list \<Rightarrow> 'w capture \<Rightarrow> 'w capture" where
  "captured keep v texts c =
    c\<lparr>cp_decoder := keep, cp_stream := v, cp_chan := with_outputs (cp_category c) texts (cp_chan c)\<rparr>"

lemma captured_simps [simp]:
  "cp_decoder (captured keep v texts c) = keep" "cp_stream (captured keep v texts c) = v"
  "cp_category (captured keep v texts c) = cp_category c" "cp_fd (captured keep v texts c) = cp_fd c"
  "cp_chan (captured keep v texts c) = with_outputs (cp_category c) texts (cp_chan c)"
  "captured keep v texts (captured keep' v' texts' c) = captured keep v (texts' @ texts) c"
  by (simp_all add: captured_def with_outputs_def)

lemma captured_same: "captured (cp_decoder c) (cp_stream c) [] c = c"
  by (simp add: captured_def with_outputs_def)

text \<open>A writer that, while it is \<open>good\<close>, raises nothing and always takes something.\<close>

locale steady_writer = byte_writer +
  fixes good :: "'a \<Rightarrow> bool"
  assumes good_put: "good v \<Longrightarrow> d \<noteq> [] \<Longrightarrow> \<exists>x v'. put d v = (Inr x, v') \<and> x \<noteq> Some 0 \<and> good v'"
    and good_flush: "good v \<Longrightarrow> \<exists>v'. flush v = (Inr (), v') \<and> good v'"
begin

lemma tee_all:
  "good (cp_stream c) \<Longrightarrow>
     \<exists>v. tee put flush d c = (Inr (), c\<lparr>cp_stream := v\<rparr>) \<and> good v \<and> out v = out (cp_stream c) @ d"
proof (induction "length d" arbitrary: d c rule: less_induct)
  case less
  show ?case
  proof (cases "d = []")
    case True
    with less.prems show ?thesis by (auto simp: tee.simps [of put flush "[]"] intro: exI [of _ "cp_stream c"])
  next
    case False
    obtain x v where v: "put d (cp_stream c) = (Inr x, v)" "x \<noteq> Some 0" "good v"
      using good_put [OF less.prems False] by blast
    obtain u where u: "flush v = (Inr (), u)" "good u" using good_flush [OF v(3)] by blast
    have out: "out u = out v" using flush_out [OF u(1)] .
    show ?thesis
    proof (cases x)
      case None
      with v u out write_full [of d "cp_stream c" v] False show ?thesis
        by (auto simp: tee.simps [of put flush d])
    next
      case (Some k)
      with v have "k > 0" by simp
      with False have "length (drop k d) < length d" by simp
      from less.hyps [OF this, of "c\<lparr>cp_stream := u\<rparr>"] u obtain t where t:
        "tee put flush (drop k d) (c\<lparr>cp_stream := u\<rparr>) = (Inr (), c\<lparr>cp_stream := t\<rparr>)" "good t"
        "out t = out u @ drop k d" by auto
      moreover have "out v = out (cp_stream c) @ take k d" using write_takes v(1) Some by blast
      ultimately show ?thesis
        using v u out Some False \<open>k > 0\<close> by (auto simp: tee.simps [of put flush d])
    qed
  qed
qed

lemma process_chunk_all:
  assumes "good (cp_stream c)" and "decode_chunk s final (cp_decoder c) = (t, keep)"
  shows "\<exists>v. process_chunk put flush Inr s final c = (Inr (), captured keep v (if t = [] then [] else [t]) c) \<and>
    good v \<and> out v = out (cp_stream c) @ t"
proof (cases "t = []")
  case True
  with assms show ?thesis
    by (auto simp: process_chunk_def captured_def with_outputs_def intro!: exI [of _ "cp_stream c"])
next
  case False
  define c' where "c' = captured keep (cp_stream c) [t] c"
  obtain v where v: "tee put flush t c' = (Inr (), c'\<lparr>cp_stream := v\<rparr>)" "good v"
    "out v = out (cp_stream c) @ t"
    using tee_all [of c' t] assms(1) by (auto simp: c'_def)
  have c': "c\<lparr>cp_decoder := keep, cp_chan := snd (send_event ''output'' (output_body (cp_category c) t) (cp_chan c))\<rparr> = c'"
    by (simp add: c'_def captured_def with_outputs_def)
  have "process_chunk put flush Inr s final c = tee put flush t c'"
    using assms(2) False c' by (simp add: process_chunk_def andthen_def send_output_def)
  moreover have "c'\<lparr>cp_stream := v\<rparr> = captured keep v [t] c" by (simp add: c'_def captured_def)
  ultimately show ?thesis using v False by auto
qed

lemma read_loop_all:
  assumes "good (cp_stream c)" and "cp_fd c \<noteq> None" and "[] \<notin> set chunks"
  shows "\<exists>texts keep v. read_loop put flush Inr (map Inr chunks @ Inr [] # reads) c =
      (Inr True, captured keep v texts c) \<and>
    cp_decoder c @ concat chunks = concat texts @ keep \<and> [] \<notin> set texts \<and>
    good v \<and> out v = out (cp_stream c) @ concat texts \<and>
    (\<forall>r. utf8_ok (cp_decoder c @ concat chunks @ r) \<longrightarrow> (\<forall>t \<in> set texts. utf8_ok t) \<and> utf8_ok (keep @ r))"
  using assms
proof (induction chunks arbitrary: c)
  case Nil
  then show ?case
    by (intro exI [of _ "[]"] exI [of _ "cp_decoder c"] exI [of _ "cp_stream c"]) (auto simp: captured_same)
next
  case (Cons s chunks)
  obtain t keep where d: "decode_chunk s False (cp_decoder c) = (t, keep)" by fastforce
  define first where "first = (if t = [] then [] else [t])"
  have f: "concat first = t" "[] \<notin> set first" "set first \<subseteq> {t}" by (auto simp: first_def)
  obtain v where v: "process_chunk put flush Inr s False c = (Inr (), captured keep v first c)"
    "good v" "out v = out (cp_stream c) @ t"
    using process_chunk_all [OF Cons.prems(1) d] unfolding first_def by blast
  define c' where "c' = captured keep v first c"
  have "good (cp_stream c')" "cp_fd c' \<noteq> None" "[] \<notin> set chunks"
    using v Cons.prems by (auto simp: c'_def)
  from Cons.IH [OF this] obtain texts k u where
    IH: "read_loop put flush Inr (map Inr chunks @ Inr [] # reads) c' = (Inr True, captured k u texts c')"
      "cp_decoder c' @ concat chunks = concat texts @ k" "[] \<notin> set texts"
      "good u" "out u = out (cp_stream c') @ concat texts"
    and ok: "\<forall>r. utf8_ok (cp_decoder c' @ concat chunks @ r) \<longrightarrow> (\<forall>t \<in> set texts. utf8_ok t) \<and> utf8_ok (k @ r)"
    by blast
  have "read_loop put flush Inr (map Inr (s # chunks) @ Inr [] # reads) c =
      (Inr True, captured k u (first @ texts) c)"
    using Cons.prems v(1) IH(1) by (auto simp: andthen_def c'_def)
  moreover have "cp_decoder c @ concat (s # chunks) = concat (first @ texts) @ k"
    using decode_chunk_all [OF d] IH(2) f(1) by (simp add: c'_def) (metis append.assoc)
  moreover have "(\<forall>t \<in> set (first @ texts). utf8_ok t) \<and> utf8_ok (k @ r)"
    if a: "utf8_ok (cp_decoder c @ concat (s # chunks) @ r)" for r
  proof -
    from a have "utf8_ok (cp_decoder c @ s @ concat chunks @ r)" by simp
    from decode_chunk_ok [OF d this] have "utf8_ok t" and "utf8_ok (cp_decoder c' @ concat chunks @ r)"
      by (simp_all add: c'_def)
    with ok f(3) show ?thesis by auto
  qed
  moreover have "out u = out (cp_stream c) @ concat (first @ texts)"
    using IH(5) v(3) f(1) by (simp add: c'_def)
  ultimately show ?case using IH(3,4) f(2)
    by (intro exI [of _ "first @ texts"] exI [of _ k] exI [of _ u]) auto
qed

lemma worker_all:
  assumes "good (cp_stream c)" and "cp_fd c \<noteq> None" and "cp_decoder c = []" and "[] \<notin> set chunks"
  shows "\<exists>texts v. worker put flush Inr (map Inr chunks @ Inr [] # reads) c = (Inr True, captured [] v texts c) \<and>
    concat texts = concat chunks \<and> [] \<notin> set texts \<and> out v = out (cp_stream c) @ concat chunks \<and>
    (utf8_ok (concat chunks) \<longrightarrow> (\<forall>t \<in> set texts. utf8_ok t))"
proof -
  obtain texts keep v where
    1: "read_loop put flush Inr (map Inr chunks @ Inr [] # reads) c = (Inr True, captured keep v texts c)"
      "concat chunks = concat texts @ keep" "[] \<notin> set texts" "good v" "out v = out (cp_stream c) @ concat texts"
    and ok: "\<forall>r. utf8_ok (concat chunks @ r) \<longrightarrow> (\<forall>t \<in> set texts. utf8_ok t) \<and> utf8_ok (keep @ r)"
    using read_loop_all [OF assms(1,2,4), of reads, unfolded assms(3) append_Nil] by blast
  define c' where "c' = captured keep v texts c"
  define last where "last = (if keep = [] then [] else [keep])"
  have "decode_chunk [] True (cp_decoder c') = (keep, [])" by (simp add: decode_chunk_final c'_def)
  moreover have "good (cp_stream c')" using 1 by (simp add: c'_def)
  ultimately obtain u where u: "process_chunk put flush Inr [] True c' = (Inr (), captured [] u last c')"
    "out u = out (cp_stream c') @ keep"
    using process_chunk_all unfolding last_def by blast
  have "worker put flush Inr (map Inr chunks @ Inr [] # reads) c = (Inr True, captured [] u (texts @ last) c)"
    using 1(1) u(1) by (simp add: worker_def andthen_def c'_def)
  moreover have "concat (texts @ last) = concat chunks" "[] \<notin> set (texts @ last)"
    using 1(2,3) by (auto simp: last_def)
  moreover have "\<forall>t \<in> set (texts @ last). utf8_ok t" if "utf8_ok (concat chunks)"
    using ok [rule_format, of "[]"] that by (auto simp: last_def)
  moreover have "out u = out (cp_stream c) @ concat chunks" using u(2) 1(2,5) by (simp add: c'_def)
  ultimately show ?thesis by blast
qed

end

text \<open>\<open>JsonStream.sock_write\<close> is steady when its schedule has no failing, empty or unfinished step.\<close>

definition steady :: "writer \<Rightarrow> bool" where
  "steady w \<longleftrightarrow> (\<forall>st \<in> set (wr_sched w). (\<exists>k. st = Takes (Suc k)) \<or> st = Unreported) \<and> wr_flush w = None"

interpretation tee_stream: steady_writer sock_write sock_flush wr_out steady
proof
  fix v :: writer and d :: bytes assume v: "steady v" and "d \<noteq> []"
  then show "\<exists>x v'. sock_write d v = (Inr x, v') \<and> x \<noteq> Some 0 \<and> steady v'"
    by (cases "wr_sched v") (auto simp: steady_def sock_write_def min_def split: write_step.splits)
next
  fix v :: writer assume "steady v"
  then show "\<exists>v'. sock_flush v = (Inr (), v') \<and> steady v'" by (simp add: steady_def sock_flush_def)
qed


text \<open>A terminal that takes one byte at a time, and a character that arrives in two chunks.\<close>

definition demo_terminal :: writer where
  "demo_terminal = \<lparr>wr_out = [], wr_sched = [Takes 1, Takes 1, Unreported], wr_flush = None\<rparr>"


text \<open>
  Output that the launcher's stream cannot encode ends the thread that captures it: the
  exception leaves \<open>_worker\<close> with the pipe open and unread, so that the debuggee blocks as soon as
  the pipe is full, and nothing more of its output reaches the adapter.
\<close>

theorem unencodable_output_stops_capture:
  assumes "cp_fd c = Some fd" and "s \<noteq> []" and "decode_chunk s False (cp_decoder c) = (t, keep)" and "t \<noteq> []"
    and "enc t = Inl e"
  shows "\<exists>c'. worker put flush enc (Inr s # reads) c = (Inl e, c') \<and>
      cp_fd c' = Some fd \<and> cp_closed c' = cp_closed c \<and> cp_stream c' = cp_stream c"
  using assms by (auto simp: worker_def andthen_def process_chunk_def send_output_def)

definition ascii_encoder :: "string \<Rightarrow> exn + bytes" where
  "ascii_encoder t = (if ascii t then Inr t else Inl (UnicodeError ''ordinal not in range(128)''))"

theorem unencodable_output_stops_capture_witness:
  "\<exists>c'. worker sock_write sock_flush ascii_encoder (Inr [CHR 0xC3, CHR 0xA9] # [Inr ''more'', Inr []])
        (new_capture ''stdout'' 3 demo_terminal (new_channel 0))
      = (Inl (UnicodeError ''ordinal not in range(128)''), c') \<and>
    cp_fd c' = Some 3 \<and> cp_closed c' = [] \<and> cp_stream c' = demo_terminal"
proof -
  define c where "c = new_capture ''stdout'' 3 demo_terminal (new_channel 0)"
  have c: "cp_fd c = Some 3" "cp_closed c = []" "cp_stream c = demo_terminal" "cp_decoder c = []"
    by (simp_all add: c_def new_capture_def)
  have d: "decode_chunk [CHR 0xC3, CHR 0xA9] False (cp_decoder c) = ([CHR 0xC3, CHR 0xA9], [])"
    unfolding c(4) by code_simp
  have e: "ascii_encoder [CHR 0xC3, CHR 0xA9] = Inl (UnicodeError ''ordinal not in range(128)'')"
    by (simp add: ascii_encoder_def ascii_def)
  show ?thesis
    using unencodable_output_stops_capture [where enc = ascii_encoder and put = sock_write and flush = sock_flush
        and reads = "[Inr ''more'', Inr []]", OF c(1) list.distinct(2) d list.distinct(2) e] c
    unfolding c_def by simp
qed

end
