(* ===== verification/AdapterSystem.thy ===== *)
theory AdapterSystem
  imports Ide
begin

text \<open>
  The adapter process as a transition system: what can happen to it from outside (a connection is
  made or ends, a message is read from a channel or handled) are its steps, each a run of one
  handler. While a handler waits with its session unlocked other steps run.
  The rules at the end say what it takes for a predicate to hold in every reachable state.
\<close>

section \<open>Steps\<close>

definition new_connection :: "nat \<Rightarrow> nat act" where
  "new_connection i =
    andthen (gets w_conn_count) (\<lambda>c.
    andthen (modify (\<lambda>w. upd_conn c (\<lambda>_.
        \<lparr>cn_chan = started_channel i, cn_pid = None, cn_ppid = None, cn_server = None,
         cn_handlers = None, cn_disconnected = False\<rparr>) (w\<lparr>w_conn_count := Suc c\<rparr>))) (\<lambda>_. ret c))"

definition server_connects :: "env \<Rightarrow> unit act" where
  "server_connects E = andthen tick (\<lambda>i. andthen (new_connection i) (connection_init E))"

datatype adapter_op =
    IdeConnects | ServerConnects
  | IdeSays nat message | LauncherSays nat message | ServerSays nat message
  | IdeGone nat | LauncherGone nat | ServerGone nat
  | Reads party "exn + jv"

definition dispatch :: "party \<Rightarrow> table \<Rightarrow> message \<Rightarrow> unit act" where
  "dispatch p t m =
    run_handler p
      (case msg_kind m of MRequest \<Rightarrow> dispatch_request p t m | MEvent \<Rightarrow> dispatch_event t m | _ \<Rightarrow> ret ())"

definition existing :: "nat \<Rightarrow> unit act \<Rightarrow> unit act" where
  "existing sid a w = (if sid < w_session_count w then a w else (Inr (), w))"

definition handlers_of :: "nat \<Rightarrow> (nat \<Rightarrow> unit act) \<Rightarrow> unit act \<Rightarrow> unit act" where
  "handlers_of c server connection w =
    (case cn_handlers (w_conn w c) of
       Some sid \<Rightarrow> existing sid (server sid) w
     | None \<Rightarrow> connection w)"

definition op_act :: "env \<Rightarrow> adapter_op \<Rightarrow> unit act" where
  "op_act E x =
    (case x of
       IdeConnects \<Rightarrow> andthen (ide_init E) (\<lambda>_. ret ())
     | ServerConnects \<Rightarrow> server_connects E
     | IdeSays sid m \<Rightarrow> existing sid (dispatch (Ide sid) (ide_table E sid) m)
     | LauncherSays sid m \<Rightarrow> existing sid (dispatch (Launcher sid) (launcher_table E sid) m)
     | ServerSays c m \<Rightarrow>
         handlers_of c (\<lambda>sid. dispatch (ServerOf sid) (server_table E sid) m)
           (dispatch (Conn c) (connection_table c) m)
     | IdeGone sid \<Rightarrow> existing sid (run_handler (Ide sid) (ide_disconnect E sid))
     | LauncherGone sid \<Rightarrow> existing sid (run_handler (Launcher sid) (launcher_disconnect E sid))
     | ServerGone c \<Rightarrow>
         handlers_of c (\<lambda>sid. run_handler (ServerOf sid) (server_disconnect E sid))
           (run_handler (Conn c) (conn_disconnect E c))
     | Reads p incoming \<Rightarrow> on p (modify (parser_turn incoming)))"

fun run_ops :: "env \<Rightarrow> adapter_op list \<Rightarrow> world \<Rightarrow> world" where
  "run_ops E [] w = w"
| "run_ops E (x # xs) w = run_ops E xs (snd (op_act E x w))"

text \<open>What happens while one thread waits is made of the steps of the others, which may wait as well.\<close>

inductive concurrent :: "env \<Rightarrow> bool" where
  concurrent_step: "(\<And>n w. env_meanwhile E n w = w \<or>
     (\<exists>E' xs. concurrent E' \<and> env_meanwhile E n w = run_ops E' xs w)) \<Longrightarrow> concurrent E"

definition new_world :: world where
  "new_world = \<lparr>w_session = (\<lambda>_. blank_session), w_session_count = 1, w_registered = [],
     w_sessions_changed = False,
     w_conn = (\<lambda>_. \<lparr>cn_chan = new_channel 0, cn_pid = None, cn_ppid = None, cn_server = None,
        cn_handlers = None, cn_disconnected = False\<rparr>),
     w_conn_count = 0, w_connections = [], w_connections_changed = False, w_ticks = 0, w_spawned = []\<rparr>"

text \<open>A step that ends in \<open>os._exit\<close> has no state after it.\<close>

definition adapter_step :: "world \<Rightarrow> world \<Rightarrow> bool" where
  "adapter_step w w' \<longleftrightarrow> (\<exists>E x r. concurrent E \<and> op_act E x w = (r, w') \<and> r \<noteq> Inl Exited)"

abbreviation adapter_reachable :: "world \<Rightarrow> bool" where
  "adapter_reachable \<equiv> reachable (\<lambda>w. w = new_world) adapter_step"

section \<open>Rules for keeping a predicate\<close>

named_theorems kept \<open>predicates of the world that an operation keeps\<close>

lemma keeps_pointwise: "keeps P m \<longleftrightarrow> (\<forall>w. P w \<longrightarrow> P (snd (m w)))"
  by (simp add: keeps_def wp_snd)

lemma keeps_sem [kept]:
  "keeps P (ret x)" "keeps P (raise e)" "keeps P (gets h)" "keeps P (throw e')" "keeps P (\<lambda>w. (r, w))"
  by (simp_all add: keeps_pointwise throw_def)

lemmas keeps_seq [kept] = keeps_bind

lemma keeps_catching [kept]: "keeps P m \<Longrightarrow> (\<And>e. keeps P (h e)) \<Longrightarrow> keeps P (catching m h)"
  unfolding catching_def by (rule keeps_attempt) (auto intro: keeps_sem split: stop.split)

lemma ensuring_outcome:
  obtains "snd (ensuring m f w) = snd (m w)" | "snd (ensuring m f w) = snd (f (snd (m w)))"
proof (cases "m w")
  case (Pair r w')
  show thesis
  proof (cases r)
    case (Inl x)
    with Pair that show thesis by (cases x) (auto simp: ensuring_def split: prod.splits sum.splits)
  next
    case (Inr x)
    with Pair that show thesis by (auto simp: ensuring_def split: prod.splits sum.splits)
  qed
qed

lemma keeps_ensuring [kept]: "keeps P m \<Longrightarrow> keeps P f \<Longrightarrow> keeps P (ensuring m f)"
  unfolding keeps_pointwise by (metis ensuring_outcome)

lemma keeps_ignoring [kept]: "keeps P m \<Longrightarrow> keeps P (ignoring m)"
  unfolding ignoring_def by (intro kept)

lemma keeps_branch [kept]:
  "(b \<Longrightarrow> keeps P m) \<Longrightarrow> (\<not> b \<Longrightarrow> keeps P k) \<Longrightarrow> keeps P (if b then m else k)"
  by simp

lemma keeps_branch_state [kept]:
  "keeps P m \<Longrightarrow> keeps P k \<Longrightarrow> keeps P (\<lambda>w. if c w then m w else k w)"
  by (simp add: keeps_pointwise)

lemma keeps_option [kept]:
  "keeps P m \<Longrightarrow> (\<And>x. keeps P (k x)) \<Longrightarrow> keeps P (case v of None \<Rightarrow> m | Some x \<Rightarrow> k x)"
  by (simp split: option.split)

lemma keeps_option_state [kept]:
  "keeps P m \<Longrightarrow> (\<And>x. keeps P (k x)) \<Longrightarrow> keeps P (\<lambda>w. case g w of None \<Rightarrow> m w | Some x \<Rightarrow> k x w)"
  by (simp add: keeps_pointwise split: option.split)

lemma keeps_seq_state [kept]:
  assumes "\<And>v. keeps P (m v)" and "\<And>v x. keeps P (f v x)"
  shows "keeps P (\<lambda>w. andthen (m w) (f w) w)"
proof -
  have "keeps P (andthen (m v) (f v))" for v using assms by (rule keeps_bind)
  then show ?thesis by (simp add: keeps_pointwise)
qed

lemma keeps_sum [kept]:
  "(\<And>e. keeps P (m e)) \<Longrightarrow> (\<And>x. keeps P (k x)) \<Longrightarrow> keeps P (case v of Inl e \<Rightarrow> m e | Inr x \<Rightarrow> k x)"
  by (simp split: sum.split)

lemma keeps_pair [kept]:
  "(\<And>x y. keeps P (k x y)) \<Longrightarrow> keeps P (case v of (x, y) \<Rightarrow> k x y)"
  by (simp split: prod.split)

lemma keeps_object [kept]:
  "(\<And>d. keeps P (k d)) \<Longrightarrow> keeps P m \<Longrightarrow> keeps P (case v of JObj d \<Rightarrow> k d | _ \<Rightarrow> m)"
  by (simp split: jv.split)

lemma keeps_message_handler [kept]:
  assumes f: "\<And>m. keeps P (f m)" and on: "\<And>p u. keeps P (on p (u :: (chan, exn, exn) sem))"
  shows "keeps P (message_handler E q f m)"
  unfolding message_handler_def
proof (rule keeps_catching [OF f])
  show "keeps P (case e of
        ComponentNotAvailable _ \<Rightarrow> andthen (on q (cant_handle (exn_str e) m)) throw
      | Handling _ _ _ _ \<Rightarrow> throw (propagated e m)
      | NoMoreMessages i _ \<Rightarrow> andthen (on q (cant_handle (env_stream_name E i @ '' disconnected unexpectedly'') m)) throw
      | JsonIOError i _ \<Rightarrow> andthen (on q (cant_handle (env_stream_name E i @ '' disconnected unexpectedly'') m)) throw
      | _ \<Rightarrow> throw e)" for e
    by (cases e) (simp_all add: on keeps_seq keeps_sem)
qed

section \<open>The part of the state that invariants are about\<close>

text \<open>Everything but the contents of channels and of the IDE's bookkeeping.\<close>

type_synonym session_core = "bool option \<times> bool option \<times> (nat \<times> bool) option \<times> int option \<times> bool"

definition session_core :: "session \<Rightarrow> session_core" where
  "session_core s = (map_option ide_connected (ss_ide s), map_option la_connected (ss_launcher s),
     map_option (\<lambda>v. (sv_conn v, sv_connected v)) (ss_server s), ss_pid s, ss_finalizing s)"

definition conn_core :: "connection \<Rightarrow> int option \<times> nat option \<times> nat option \<times> bool" where
  "conn_core n = (cn_pid n, cn_server n, cn_handlers n, cn_disconnected n)"

definition core ::
  "world \<Rightarrow> nat \<times> nat list \<times> nat \<times> nat list \<times>
     (nat \<Rightarrow> session_core) \<times> (nat \<Rightarrow> int option \<times> nat option \<times> nat option \<times> bool)" where
  "core w = (w_session_count w, w_registered w, w_conn_count w, w_connections w,
     \<lambda>sid. session_core (w_session w sid), \<lambda>c. conn_core (w_conn w c))"

definition silent :: "'a act \<Rightarrow> bool" where
  "silent m \<longleftrightarrow> (\<forall>x. keeps (\<lambda>w. core w = x) m)"

lemma silent_pointwise: "silent m \<longleftrightarrow> (\<forall>w. core (snd (m w)) = core w)"
  unfolding silent_def keeps_pointwise by blast

lemma silentI: "(\<And>x. keeps (\<lambda>w. core w = x) m) \<Longrightarrow> silent m"
  unfolding silent_def by blast

lemma silentD: "silent m \<Longrightarrow> keeps (\<lambda>w. core w = x) m"
  unfolding silent_def by blast

lemma core_session_count: "core w' = core w \<Longrightarrow> w_session_count w' = w_session_count w"
  by (simp add: core_def)

lemma core_simps [simp]:
  "core (w\<lparr>w_connections_changed := b\<rparr>) = core w" "core (w\<lparr>w_ticks := t\<rparr>) = core w"
  "core (w\<lparr>w_spawned := xs\<rparr>) = core w" "core (w\<lparr>w_sessions_changed := b\<rparr>) = core w"
  by (simp_all add: core_def)

lemma core_upd_session:
  "session_core (f (w_session w sid)) = session_core (w_session w sid) \<Longrightarrow> core (upd_session sid f w) = core w"
  by (auto simp: core_def upd_session_def fun_eq_iff)

lemma core_upd_conn:
  "conn_core (f (w_conn w c)) = conn_core (w_conn w c) \<Longrightarrow> core (upd_conn c f w) = core w"
  by (auto simp: core_def upd_conn_def fun_eq_iff)

lemma core_upd_ide:
  "(\<And>i. ide_connected (f i) = ide_connected i) \<Longrightarrow> core (upd_ide sid f w) = core w"
  unfolding upd_ide_def by (rule core_upd_session) (auto simp: session_core_def option.map_comp o_def)

lemma core_upd_launcher:
  "(\<And>l. la_connected (f l) = la_connected l) \<Longrightarrow> core (upd_launcher sid f w) = core w"
  unfolding upd_launcher_def by (rule core_upd_session) (auto simp: session_core_def option.map_comp o_def)

lemma core_upd_server:
  "(\<And>v. sv_conn (f v) = sv_conn v \<and> sv_connected (f v) = sv_connected v) \<Longrightarrow> core (upd_server sid f w) = core w"
  unfolding upd_server_def by (rule core_upd_session) (auto simp: session_core_def option.map_comp o_def)

lemma core_set_chan: "core (set_chan p ch w) = core w"
  by (cases p) (auto simp: set_chan_def conn_core_def core_upd_ide core_upd_launcher core_upd_conn split: option.split)

lemma silent_basic:
  "silent tick" "silent (the_ide sid)" "silent (the_launcher sid)" "silent (the_server sid)"
  "silent dont_wait_for_first_connection"
  by (auto simp: silent_pointwise tick_def the_ide_def the_launcher_def the_server_def
      dont_wait_for_first_connection_def split: option.split)

lemma silent_modify:
  "(\<And>i. ide_connected (f i) = ide_connected i) \<Longrightarrow> silent (modify (upd_ide sid f))"
  "(\<And>l. la_connected (g l) = la_connected l) \<Longrightarrow> silent (modify (upd_launcher sid g))"
  "(\<And>v. sv_conn (h v) = sv_conn v \<and> sv_connected (h v) = sv_connected v) \<Longrightarrow> silent (modify (upd_server sid h))"
  "(\<And>s. session_core (k s) = session_core s) \<Longrightarrow> silent (modify (upd_session sid k))"
  by (auto simp: silent_pointwise core_upd_ide core_upd_launcher core_upd_server core_upd_session)

lemma silent_the_chan: "silent (the_chan p)"
  by (cases p) (auto simp: silent_pointwise the_chan_def andthen_def the_ide_def the_launcher_def the_server_def
      split: option.split)

lemma silent_on: "silent (on p m)"
  unfolding silent_pointwise
proof
  fix w
  obtain r w' where t: "the_chan p w = (r, w')" by (cases "the_chan p w") auto
  then have "core w' = core w" using silent_the_chan [of p] unfolding silent_pointwise by (metis snd_conv)
  then show "core (snd (on p m w)) = core w"
    by (cases r) (auto simp: on_def andthen_def t throw_def core_set_chan split: prod.split sum.split)
qed

lemmas silent_rules = silent_basic [THEN silentD] silent_on [THEN silentD]

lemma silent_waiting:
  "keeps (\<lambda>w. core w = x) (request_wait E p command v)"
  "keeps (\<lambda>w. core w = x) (terminate_debuggee E sid)"
proof -
  have "keeps (\<lambda>w. core w = x) (wait_for_response E p rid)" for p rid
    unfolding wait_for_response_def by (intro kept silent_rules)
  then show "keeps (\<lambda>w. core w = x) (request_wait E p command v)" for p command v
    unfolding request_wait_def by (intro kept silent_rules)
  then show "keeps (\<lambda>w. core w = x) (terminate_debuggee E sid)"
    unfolding terminate_debuggee_def by (intro kept silent_rules)
qed

section \<open>What keeps a predicate of the core\<close>

definition held :: "(world \<Rightarrow> bool) \<Rightarrow> nat \<Rightarrow> world \<Rightarrow> bool" where
  "held P n w \<longleftrightarrow> P w \<and> n \<le> w_session_count w"

text \<open>While this thread waits, the others keep the predicate.\<close>

definition guarded :: "(world \<Rightarrow> bool) \<Rightarrow> env \<Rightarrow> bool" where
  "guarded P E \<longleftrightarrow> (\<forall>k n w. held P n w \<longrightarrow> held P n (env_meanwhile E k w))"

text \<open>The connection of the session's server knows that it is in this session.\<close>

definition owns :: "nat \<Rightarrow> world \<Rightarrow> bool" where
  "owns sid w \<longleftrightarrow> (\<forall>v. ss_server (w_session w sid) = Some v \<longrightarrow> cn_server (w_conn w (sv_conn v)) = Some sid)"

text \<open>The part of \<open>conn_disconnect\<close> before \<open>finalize\<close>.\<close>

definition conn_gone :: "nat \<Rightarrow> unit act" where
  "conn_gone c =
    andthen (modify (upd_conn c (\<lambda>n. n\<lparr>cn_disconnected := True\<rparr>))) (\<lambda>_ w.
      case cn_server (w_conn w c) of
        Some sid \<Rightarrow> server_gone sid w
      | None \<Rightarrow> if c \<in> set (w_connections w) then remove_connection c w else (Inr (), w))"

lemma conn_disconnect_gone:
  "conn_disconnect E c w =
    (case cn_server (w_conn w c) of
       Some sid \<Rightarrow> andthen (conn_gone c) (\<lambda>_. finalize E sid None) w
     | None \<Rightarrow> conn_gone c w)"
  by (auto simp: conn_disconnect_def conn_gone_def server_disconnect_def andthen_def upd_conn_def
      split: option.split prod.split sum.split)

text \<open>
  A predicate of the core, and the operations that change the core: what these owe it is all
  that has to be shown for an invariant of the adapter.
\<close>

locale core_predicate =
  fixes P :: "world \<Rightarrow> bool"
  assumes core_only: "core w' = core w \<Longrightarrow> P w \<Longrightarrow> P w'"
    and owned: "P w \<Longrightarrow> \<not> ss_finalizing (w_session w sid) \<Longrightarrow> owns sid w"
    and new_session: "keeps (held P n) (new_session i)"
    and launcher_init: "sid < n \<Longrightarrow> keeps (held P n) (launcher_init sid i)"
    and attach_to_session: "sid < n \<Longrightarrow> held P n w \<Longrightarrow> c \<in> set (w_connections w) \<Longrightarrow>
          held P n (snd (attach_to_session c sid w))"
    and start_finalizing: "keeps (held P n) (modify (upd_session sid (\<lambda>s. s\<lparr>ss_finalizing := True\<rparr>)) :: unit act)"
    and detach_from_session: "held P n w \<Longrightarrow> owns sid w \<Longrightarrow> ss_finalizing (w_session w sid) \<Longrightarrow> held P n (snd (detach_from_session sid w))"
    and ide_gone: "keeps (held P n) (ide_gone sid)"
    and launcher_gone: "keeps (held P n) (launcher_gone sid)"
    and server_gone: "keeps (held P n) (server_gone sid)"
    and conn_gone: "keeps (held P n) (conn_gone c)"
    and server_connects: "keeps (held P n) (server_connects E)"
begin

lemma quiet: "silent m \<Longrightarrow> keeps (held P n) m"
  unfolding silent_pointwise keeps_pointwise held_def
  by (metis core_only core_session_count)

lemmas quiet_rules [kept] = silent_basic [THEN quiet] silent_on [THEN quiet]

lemma quiet_modify [kept]:
  "(\<And>i. ide_connected (f i) = ide_connected i) \<Longrightarrow> keeps (held P n) (modify (upd_ide sid f) :: unit act)"
  "(\<And>l. la_connected (g l) = la_connected l) \<Longrightarrow> keeps (held P n) (modify (upd_launcher sid g) :: unit act)"
  "(\<And>v. sv_conn (h v) = sv_conn v \<and> sv_connected (h v) = sv_connected v)
     \<Longrightarrow> keeps (held P n) (modify (upd_server sid h) :: unit act)"
  "(\<And>s. session_core (k s) = session_core s) \<Longrightarrow> keeps (held P n) (modify (upd_session sid k) :: unit act)"
  "keeps (held P n) (modify (\<lambda>w. w\<lparr>w_spawned := xs w\<rparr>) :: unit act)"
  by (rule quiet, erule silent_modify)+ (rule quiet, simp add: silent_pointwise)

lemmas core_laws [kept] = new_session launcher_init ide_gone launcher_gone server_gone conn_gone

lemma waiting [kept]:
  "keeps (held P n) (wait_for_response E p rid)" "keeps (held P n) (request_wait E p command v)"
  "keeps (held P n) (delegate E p m)" "keeps (held P n) (terminate_debuggee E sid)"
proof -
  show 1: "keeps (held P n) (wait_for_response E p rid)" for p rid
    unfolding wait_for_response_def by (intro kept)
  show "keeps (held P n) (request_wait E p command v)"
    unfolding request_wait_def by (intro kept 1)
  show "keeps (held P n) (delegate E p m)"
    unfolding delegate_def by (intro kept 1)
  show "keeps (held P n) (terminate_debuggee E sid)"
    unfolding terminate_debuggee_def request_wait_def by (intro kept 1)
qed

lemma waits [kept]:
  assumes "guarded P E"
  shows "keeps (held P n) (wait_for E predicate timed)"
    and "keeps (held P n) (wait_for_connection E q timeout)"
proof -
  note same = core_only [of "w\<lparr>w_ticks := t\<rparr>" w for w t] core_only [of "w\<lparr>w_connections_changed := b\<rparr>" w for w b]
  show "keeps (held P n) (wait_for E predicate timed)"
    using assms unfolding keeps_pointwise wait_for_def guarded_def held_def
    by (auto simp: Let_def same split: sum.splits bool.splits)
  show "keeps (held P n) (wait_for_connection E q timeout)"
    using assms unfolding keeps_pointwise wait_for_connection_def guarded_def held_def
    by (auto simp: Let_def same)
qed

lemma found_connection:
  assumes E: "guarded P E" and none: "keeps (held P n) m"
    and some: "\<And>c w. held P n w \<Longrightarrow> c \<in> set (w_connections w) \<Longrightarrow> held P n (snd (k c w))"
  shows "keeps (held P n) (andthen (wait_for_connection E q timeout)
           (\<lambda>found. case found of None \<Rightarrow> m | Some c \<Rightarrow> k c))"
  unfolding keeps_pointwise
proof (intro allI impI)
  fix w assume w: "held P n w"
  obtain r w' where x: "wait_for_connection E q timeout w = (r, w')" by (cases "wait_for_connection E q timeout w") auto
  with waits(2) [OF E, of n q timeout] w have w': "held P n w'"
    unfolding keeps_pointwise by (metis snd_conv)
  have "c \<in> set (w_connections w')" if "r = Inr (Some c)" for c
    using x that by (auto simp: wait_for_connection_def Let_def find_Some_iff split: if_splits)
  then have "held P n (snd (k c w'))" if "r = Inr (Some c)" for c using that w' some by blast
  with none w' show "held P n (snd (andthen (wait_for_connection E q timeout)
      (\<lambda>found. case found of None \<Rightarrow> m | Some c \<Rightarrow> k c) w))"
    by (auto simp: andthen_def x keeps_pointwise split: sum.split option.split)
qed

text \<open>Detaching happens once, in a session that has just begun to end.\<close>

lemma owns_core: "core w' = core w \<Longrightarrow> owns sid w \<Longrightarrow> owns sid w'"
proof -
  assume c: "core w' = core w" and o: "owns sid w"
  from c have s: "session_core (w_session w' sid) = session_core (w_session w sid)"
    and n: "conn_core (w_conn w' c) = conn_core (w_conn w c)" for c
    by (simp_all add: core_def fun_eq_iff)
  show "owns sid w'"
    unfolding owns_def
  proof (intro allI impI)
    fix v assume "ss_server (w_session w' sid) = Some v"
    with s obtain v' where "ss_server (w_session w sid) = Some v'" "sv_conn v' = sv_conn v"
      by (cases "ss_server (w_session w sid)") (auto simp: session_core_def)
    with o n [of "sv_conn v"] show "cn_server (w_conn w' (sv_conn v)) = Some sid"
      by (auto simp: owns_def conn_core_def)
  qed
qed

lemma finalizing_server:
  assumes w: "held P n w" and o: "owns sid w" and fin: "ss_finalizing (w_session w sid)"
  shows "held P n (snd (finalize_server E sid t w))"
proof (cases "ss_server (w_session w sid)")
  case None
  with w show ?thesis by (simp add: finalize_server_def)
next
  case (Some v)
  let ?m = "if \<not> sv_connected v then ret ()
      else if t \<and> (case ss_launcher (w_session w sid) of None \<Rightarrow> False | Some l \<Rightarrow> la_connected l)
      then terminate_debuggee E sid
      else ignoring (request_wait E (ServerOf sid) ''disconnect'' (JObj [(''terminateDebuggee'', JBool t)]))"
  have "keeps (\<lambda>w'. core w' = core w) ?m" by (intro kept silent_waiting)
  then have "core (snd (?m w)) = core w" by (simp add: keeps_pointwise)
  moreover obtain r w' where "?m w = (r, w')" by (cases "?m w") auto
  ultimately have m: "?m w = (r, w')" and c: "core w' = core w" by simp_all
  from c have "session_core (w_session w' sid) = session_core (w_session w sid)"
    by (auto simp: core_def dest: fun_cong)
  with fin have "ss_finalizing (w_session w' sid)" by (simp add: session_core_def)
  moreover from c have "held P n w'" "owns sid w'"
    using w o core_only owns_core core_session_count unfolding held_def by metis+
  ultimately have "held P n (snd (detach_from_session sid w'))" by (intro detach_from_session)
  with Some m \<open>held P n w'\<close> show ?thesis
    by (cases r) (simp_all add: finalize_server_def andthen_def)
qed

lemma finalizing [kept]:
  assumes E: "guarded P E"
  shows "keeps (held P n) (finalize E sid terminate)"
proof -
  have launcher: "keeps (held P n) (finalize_launcher E sid)"
    unfolding finalize_launcher_def [abs_def] Let_def by (intro kept E)
  have ide: "keeps (held P n) (finalize_ide sid)"
    unfolding finalize_ide_def [abs_def] by (intro kept)
  have all: "held P n (snd (finalize_all E sid t w))" 
    if "held P n w" "owns sid w" "ss_finalizing (w_session w sid)" for t w
  proof -
    let ?w = "w\<lparr>w_connections_changed := True\<rparr>"
    have "held P n ?w" "owns sid ?w" "ss_finalizing (w_session ?w sid)"
      using that core_only [of ?w w] owns_core [of ?w w] by (simp_all add: held_def)
    then have "held P n (snd (finalize_server E sid t ?w))" by (rule finalizing_server)
    moreover have "keeps (held P n) (andthen (finalize_launcher E sid) (\<lambda>_. finalize_ide sid))"
      by (intro kept launcher ide)
    ultimately show ?thesis
      by (cases "finalize_server E sid t ?w"; cases "fst (finalize_server E sid t ?w)")
        (auto simp: finalize_all_def dont_wait_for_first_connection_def andthen_def keeps_pointwise)
  qed
  show ?thesis
    unfolding keeps_pointwise
  proof (intro allI impI)
    fix w assume w: "held P n w"
    let ?w = "upd_session sid (\<lambda>s. s\<lparr>ss_finalizing := True\<rparr>) w"
    show "held P n (snd (finalize E sid terminate w))"
    proof (cases "ss_finalizing (w_session w sid)")
      case False
      with w have "owns sid w" by (intro owned) (auto simp: held_def)
      then have "owns sid ?w" by (auto simp: owns_def upd_session_def)
      moreover have "held P n ?w" using start_finalizing [of n sid] w by (simp add: keeps_pointwise)
      ultimately have "held P n (snd (finalize_all E sid t ?w))" for t
        by (intro all) (simp_all add: upd_session_def)
      with False show ?thesis
        by (auto simp: finalize_def Let_def andthen_def catching_def attempt_def
            split: prod.splits sum.splits stop.splits) (metis snd_conv)+
    qed (use w in \<open>simp add: finalize_def\<close>)
  qed
qed

lemma disconnects [kept]:
  assumes E: "guarded P E"
  shows "keeps (held P n) (ide_disconnect E sid)" "keeps (held P n) (launcher_disconnect E sid)"
    "keeps (held P n) (server_disconnect E sid)" "keeps (held P n) (conn_disconnect E c)"
proof -
  show "keeps (held P n) (conn_disconnect E c)"
    unfolding conn_disconnect_gone [abs_def] by (intro kept E)
qed (unfold ide_disconnect_def launcher_disconnect_def server_disconnect_def, (intro kept E)+)

lemma event_rules [kept]:
  "keeps (held P n) (propagate_after_start sid m)" "keeps (held P n) (propagate_deferred_events sid)"
  "keeps (held P n) (notify_of_subprocess E sid c)" "keeps (held P n) (notify_of_children E sid cs)"
proof -
  show "keeps (held P n) (propagate_after_start sid m)"
    unfolding propagate_after_start_def by (intro kept; simp)
  have "keeps (held P n) (propagate_all sid ms)" for ms
  proof (induction ms)
    case Nil
    show ?case unfolding propagate_all.simps [abs_def] by (intro kept)
  next
    case (Cons a ms)
    show ?case unfolding propagate_all.simps [abs_def] by (intro kept Cons.IH)
  qed
  then show "keeps (held P n) (propagate_deferred_events sid)"
    unfolding propagate_deferred_events_def by (intro kept; simp)
  show 1: "keeps (held P n) (notify_of_subprocess E sid c)" for c
    unfolding notify_of_subprocess_def by (intro kept; simp)
  show "keeps (held P n) (notify_of_children E sid cs)"
  proof (induction cs)
    case Nil
    show ?case unfolding notify_of_children.simps [abs_def] by (intro kept)
  next
    case (Cons a cs)
    show ?case unfolding notify_of_children.simps [abs_def] by (intro kept 1 Cons.IH)
  qed
qed

lemma connection_handlers:
  "keeps (held P n) (conn_request c m)" "keeps (held P n) (conn_event m)"
  "keeps (held P n) (conn_terminated_event c m)"
  unfolding conn_request_def conn_event_def conn_terminated_event_def raise_isnt_valid_def
  by (intro kept)+

lemma server_handlers:
  "keeps (held P n) (server_request E sid m)" "keeps (held P n) (server_event E sid m)"
  "keeps (held P n) (server_initialized_event E sid m)" "keeps (held P n) (server_process_event E sid m)"
  "keeps (held P n) (server_continued_event E sid m)" "keeps (held P n) (server_exited_event E sid m)"
  "keeps (held P n) (server_terminated_event E sid m)"
  unfolding server_request_def server_event_def server_initialized_event_def server_process_event_def
    server_continued_event_def server_exited_event_def server_terminated_event_def
    raise_isnt_valid_def unless_launcher_def [abs_def]
  by (intro kept)+

lemma launcher_handlers:
  "keeps (held P n) (launcher_process_event E sid m)" "keeps (held P n) (launcher_output_event E sid m)"
  "keeps (held P n) (launcher_exited_event E sid m)" "keeps (held P n) (launcher_terminated_event E sid m)"
  unfolding launcher_process_event_def launcher_output_event_def launcher_exited_event_def
    launcher_terminated_event_def
  by (intro kept; simp)+

lemma spawning:
  assumes E: "guarded P E" and sid: "sid < n"
  shows "keeps (held P n) (spawn_debuggee E sid m sudo args console title)"
proof -
  have 1: "keeps (held P n) (spawn E cmdline)" for cmdline
    unfolding spawn_def by (intro kept)
  have 2: "keeps (held P n) (run_in_terminal E sid k cmdline console title)" for k cmdline
    unfolding run_in_terminal_def of_exn_def by (intro kept)
  have 3: "keeps (held P n) (spawn_launcher E sid m sudo args console title v)" for v
    unfolding spawn_launcher_def by (intro kept 1 2 sid)
  show ?thesis
    unfolding spawn_debuggee_def [abs_def] raise_cant_handle_def
    by (intro kept 3 E sid found_connection attach_to_session; assumption)
qed

lemma ide_handlers:
  "keeps (held P n) (ide_event E sid m)" "keeps (held P n) (ide_request E sid m)"
  "keeps (held P n) (initialize_request E sid m)" "keeps (held P n) (configurationDone_request E sid m)"
  "keeps (held P n) (pause_request E sid m)" "keeps (held P n) (continue_request E sid m)"
  "keeps (held P n) (ptvsd_systemInfo_request E sid m)"
  "guarded P E \<Longrightarrow> keeps (held P n) (terminate_request E sid m)"
  "guarded P E \<Longrightarrow> keeps (held P n) (disconnect_request E sid m)"
proof -
  have threads: "keeps (held P n) (all_threads m)" for m
    unfolding all_threads_def by (intro kept)
  have start: "keeps (held P n) (the_start_request sid)"
    unfolding the_start_request_def by (intro kept)
  show "keeps (held P n) (ide_event E sid m)" unfolding ide_event_def by (intro kept)
  show "keeps (held P n) (ide_request E sid m)" unfolding ide_request_def by (intro kept)
  show "keeps (held P n) (initialize_request E sid m)"
    unfolding initialize_request_def initialize_body_def raise_isnt_valid_def by (intro kept; simp)
  show "keeps (held P n) (configurationDone_request E sid m)"
    unfolding configurationDone_request_def by (intro kept start; simp)
  show "keeps (held P n) (pause_request E sid m)" unfolding pause_request_def by (intro kept threads)
  show "keeps (held P n) (ptvsd_systemInfo_request E sid m)"
    unfolding ptvsd_systemInfo_request_def by (intro kept)
  show "guarded P E \<Longrightarrow> keeps (held P n) (terminate_request E sid m)"
    unfolding terminate_request_def by (intro kept)
  show "guarded P E \<Longrightarrow> keeps (held P n) (disconnect_request E sid m)"
    unfolding disconnect_request_def arg_def by (intro kept)
  have "keeps (held P n) (case e of NoMoreMessages _ _ \<Rightarrow> ret (RBody (JObj [(''allThreadsContinued'', JBool True)]))
        | _ \<Rightarrow> throw e)" for e
    by (cases e) (simp_all add: keeps_sem)
  then show "keeps (held P n) (continue_request E sid m)"
    unfolding continue_request_def by (intro kept threads)
qed

lemma starting:
  assumes f: "\<And>m. keeps (held P n) (f m)"
  shows "keeps (held P n) (start_message_handler E sid f m)"
proof -
  have auth: "keeps (held P n) (authenticate E c)" for c
    unfolding authenticate_def item_of_def by (intro kept)
  have init: "keeps (held P n) (server_initialize E sid r)" for r
    unfolding server_initialize_def by (intro kept auth; simp)
  have start: "keeps (held P n) (start_server E sid options m)" for options m
    unfolding start_server_def [abs_def] by (intro kept init; simp)
  have finish: "keeps (held P n) (finish_start E sid options m)" for options m
    unfolding finish_start_def [abs_def] by (intro kept; simp)
  show ?thesis
    unfolding start_message_handler_def raise_isnt_valid_def arg_def
    by (intro kept f start finish; simp add: session_core_def)
qed

lemma launching:
  assumes E: "guarded P E" and sid: "sid < n"
  shows "keeps (held P n) (launch_request E sid m)"
proof -
  have args: "keeps (held P n) (debuggee_args sid m)" for m
    unfolding debuggee_args_def arg_def by (intro kept)
  have "keeps (held P n) (launch_body E sid m)" for m
    unfolding launch_body_def [abs_def] raise_cant_handle_def raise_isnt_valid_def arg_def Let_def
    by (intro kept args spawning E sid)
  then show ?thesis unfolding launch_request_def by (rule starting)
qed

lemma attaching:
  assumes E: "guarded P E" and sid: "sid < n"
  shows "keeps (held P n) (attach_request E sid m)"
proof -
  have inject: "keeps (held P n) (inject E k args)" for k args
    unfolding inject_def spawn_def by (intro kept)
  have target: "keeps (held P n) (attach_target E sid m pid sub_pid)" for m pid sub_pid
    unfolding attach_target_def raise_isnt_valid_def arg_def by (intro kept inject)
  let ?busy = "\<lambda>c m e. case e of ValueError _ \<Rightarrow>
       andthen (gets (\<lambda>w. w_conn w c)) (\<lambda>n.
       andthen (on (Ide sid) (cant_handle (connection_text n @ '' is already being debugged.'') m)) (\<lambda>_. ret ()))
     | _ \<Rightarrow> throw e"
  have busy: "keeps (held P n) (?busy c m e)" for c m e
    by (cases e; simp; intro kept)
  have found: "held P n (snd (andthen (catching (attach_to_session c sid) (?busy c m)) (\<lambda>_. ret m) w))"
    if "held P n w" "c \<in> set (w_connections w)" for c m w
    using attach_to_session [OF sid that] busy [unfolded keeps_pointwise]
    by (auto simp: catching_def attempt_def andthen_def split: prod.split sum.split stop.split)
      (metis snd_conv)+
  have "keeps (held P n) (attach_body E sid m)" for m
    unfolding attach_body_def [abs_def] raise_cant_handle_def raise_isnt_valid_def arg_def
    by (intro kept target found_connection found E sid; assumption)
  then show ?thesis unfolding attach_request_def by (rule starting)
qed

section \<open>Every step keeps it\<close>

lemma dispatching:
  assumes t: "\<And>name h m. t name = Some h \<Longrightarrow> keeps (held P n) (h m)"
  shows "keeps (held P n) (dispatch p t m)"
proof -
  have found: "keeps (held P n) (andthen (find_handler t type name) k)"
    if "\<And>h. (\<And>m. keeps (held P n) (h m)) \<Longrightarrow> keeps (held P n) (k h)" for type name and k :: "_ \<Rightarrow> unit act"
    using that t unfolding keeps_pointwise find_handler_def
    by (auto simp: andthen_def throw_def split: option.splits)
  have "keeps (held P n) (dispatch_request p t m)" "keeps (held P n) (dispatch_event t m)"
    unfolding dispatch_request_def dispatch_event_def by (rule found; intro kept; simp)+
  then show ?thesis
    unfolding dispatch_def run_handler_def by (intro kept) (simp split: mkind.split add: keeps_sem)
qed

lemma existing_kept:
  assumes a: "\<And>n. sid < n \<Longrightarrow> keeps (held P n) a"
  shows "keeps (held P n) (existing sid a)"
  unfolding keeps_pointwise
proof (intro allI impI)
  fix w assume w: "held P n w"
  show "held P n (snd (existing sid a w))"
  proof (cases "sid < w_session_count w")
    case True
    with w have "held P (max n (Suc sid)) w" by (simp add: held_def)
    with a [of "max n (Suc sid)"] have "held P (max n (Suc sid)) (snd (a w))" by (simp add: keeps_pointwise)
    with True show ?thesis by (simp add: existing_def held_def)
  qed (use w in \<open>simp add: existing_def\<close>)
qed

lemma tables:
  "guarded P E \<Longrightarrow> sid < n \<Longrightarrow> ide_table E sid name = Some h \<Longrightarrow> keeps (held P n) (h m)"
  "launcher_table E sid name = Some h \<Longrightarrow> keeps (held P n) (h m)"
  "server_table E sid name = Some h \<Longrightarrow> keeps (held P n) (h m)"
  "connection_table c name = Some h \<Longrightarrow> keeps (held P n) (h m)"
  by (auto simp: ide_table_def launcher_table_def server_table_def connection_table_def not_callable_def
      ide_handlers launching attaching launcher_handlers server_handlers connection_handlers keeps_sem
      split: if_splits)

lemma running [kept]: "keeps (held P n) a \<Longrightarrow> keeps (held P n) (run_handler p a)"
  unfolding run_handler_def by (intro kept)

lemma handlers_of_kept:
  "(\<And>n sid. sid < n \<Longrightarrow> keeps (held P n) (server sid)) \<Longrightarrow> keeps (held P n) connection
     \<Longrightarrow> keeps (held P n) (handlers_of c server connection)"
  unfolding handlers_of_def [abs_def] by (intro kept existing_kept)

lemma op_kept:
  assumes E: "guarded P E"
  shows "keeps (held P n) (op_act E x)"
proof -
  have "keeps (held P n) (ide_init E)"
    unfolding ide_init_def by (intro kept)
  then show ?thesis
    unfolding op_act_def
    by (cases x; simp)
      (intro kept existing_kept handlers_of_kept dispatching tables E server_connects; assumption?)+
qed

lemma run_ops_kept: "guarded P E \<Longrightarrow> held P n w \<Longrightarrow> held P n (run_ops E xs w)"
proof (induction xs arbitrary: w)
  case (Cons x xs)
  then show ?case using op_kept [of E n x] by (simp add: keeps_pointwise)
qed simp

lemma concurrent_guarded: "concurrent E \<Longrightarrow> guarded P E"
proof (induction rule: concurrent.induct)
  case (concurrent_step E)
  have "held P n (env_meanwhile E k w)" if "held P n w" for k n w
    using concurrent_step [of k w] run_ops_kept that by metis
  then show ?case unfolding guarded_def by blast
qed

lemma adapter_step_kept:
  assumes "adapter_step w w'" and "P w"
  shows "P w'"
proof -
  from assms(1) obtain E x r where E: "concurrent E" and x: "op_act E x w = (r, w')"
    unfolding adapter_step_def by blast
  from op_kept [OF concurrent_guarded [OF E], of 0 x] assms(2) have "held P 0 (snd (op_act E x w))"
    by (simp add: keeps_pointwise held_def)
  with x show ?thesis by (simp add: held_def)
qed

lemma always:
  assumes "P new_world" and "adapter_reachable w"
  shows "P w"
  using assms(2)
proof (induction rule: reachable.induct)
  case (reachable_init w)
  with assms(1) show ?case by simp
next
  case (reachable_step w w')
  then show ?case by (blast intro: adapter_step_kept)
qed

end

end
