(* ===== verification/AdapterInvariants.thy ===== *)
theory AdapterInvariants
  imports AdapterSystem
begin

text \<open>
  The invariants of the adapter's registries, in every state that any interleaving of its handlers
  can reach: a debug server is in at most one session and a session has at most one, the list of
  connections holds live servers with pairwise different process ids, and a session is
  registered only while one of its components is connected.
\<close>

section \<open>The invariants\<close>

definition attached_once :: "world \<Rightarrow> bool" where
  "attached_once w \<longleftrightarrow>
     (\<forall>c sid. cn_server (w_conn w c) = Some sid \<longrightarrow>
        (\<exists>v. ss_server (w_session w sid) = Some v \<and> sv_conn v = c)) \<and>
     (\<forall>sid v. ss_server (w_session w sid) = Some v \<longrightarrow>
        sid < w_session_count w \<and> sv_conn v < w_conn_count w \<and>
        (\<not> ss_finalizing (w_session w sid) \<or> sv_connected v \<longrightarrow>
           cn_server (w_conn w (sv_conn v)) = Some sid))"

definition listed_live :: "world \<Rightarrow> bool" where
  "listed_live w \<longleftrightarrow>
     distinct (w_connections w) \<and>
     (\<forall>c \<in> set (w_connections w). \<forall>c' \<in> set (w_connections w).
        cn_pid (w_conn w c) = cn_pid (w_conn w c') \<longrightarrow> c = c') \<and>
     (\<forall>c \<in> set (w_connections w). c < w_conn_count w \<and>
        cn_pid (w_conn w c) \<noteq> None \<and> \<not> cn_disconnected (w_conn w c))"

definition registered_live :: "world \<Rightarrow> bool" where
  "registered_live w \<longleftrightarrow> distinct (w_registered w) \<and>
     (\<forall>sid \<in> set (w_registered w). sid < w_session_count w \<and> \<not> all_disconnected (w_session w sid))"

definition adapter_inv :: "world \<Rightarrow> bool" where
  "adapter_inv w \<longleftrightarrow> attached_once w \<and> listed_live w \<and> registered_live w"

section \<open>Its parts depend on the core only\<close>

lemma core_parts:
  assumes "core w' = core w"
  shows "w_session_count w' = w_session_count w" "w_registered w' = w_registered w"
    "w_conn_count w' = w_conn_count w" "w_connections w' = w_connections w"
    "session_core (w_session w' sid) = session_core (w_session w sid)"
    "conn_core (w_conn w' c) = conn_core (w_conn w c)"
  using assms by (auto simp: core_def dest: fun_cong [where x = sid] fun_cong [where x = c])

lemma conn_core_parts:
  "conn_core n' = conn_core n \<Longrightarrow> cn_pid n' = cn_pid n \<and> cn_server n' = cn_server n \<and>
     cn_disconnected n' = cn_disconnected n"
  by (simp add: conn_core_def)

lemma session_core_parts:
  assumes "session_core s' = session_core s"
  shows "ss_finalizing s' = ss_finalizing s" "all_disconnected s' = all_disconnected s"
    "map_option (\<lambda>v. (sv_conn v, sv_connected v)) (ss_server s') =
       map_option (\<lambda>v. (sv_conn v, sv_connected v)) (ss_server s)"
  using assms by (auto simp: session_core_def all_disconnected_def split: option.splits)

lemma session_core_server:
  assumes "session_core s' = session_core s" and "ss_server s' = Some v'"
  obtains v where "ss_server s = Some v" "sv_conn v = sv_conn v'" "sv_connected v = sv_connected v'"
  using session_core_parts(3) [OF assms(1)] assms(2) by (cases "ss_server s") auto

lemma attached_once_core:
  assumes c: "core w' = core w" and a: "attached_once w"
  shows "attached_once w'"
proof -
  note parts = core_parts [OF c]
  note conn = conn_core_parts [OF parts(6)] and sess = parts(5)
  show ?thesis
    unfolding attached_once_def
  proof (intro conjI allI impI)
    fix c sid assume "cn_server (w_conn w' c) = Some sid"
    with conn a obtain v where "ss_server (w_session w sid) = Some v" "sv_conn v = c"
      unfolding attached_once_def by metis
    then show "\<exists>v. ss_server (w_session w' sid) = Some v \<and> sv_conn v = c"
      using session_core_server [OF sess [symmetric]] by metis
  next
    fix sid v' assume "ss_server (w_session w' sid) = Some v'"
    then obtain v where v: "ss_server (w_session w sid) = Some v" "sv_conn v = sv_conn v'" "sv_connected v = sv_connected v'"
      by (rule session_core_server [OF sess])
    with a have "sid < w_session_count w \<and> sv_conn v < w_conn_count w \<and>
        (\<not> ss_finalizing (w_session w sid) \<or> sv_connected v \<longrightarrow> cn_server (w_conn w (sv_conn v)) = Some sid)"
      unfolding attached_once_def by blast
    with v parts conn session_core_parts(1) [OF sess]
    show "sid < w_session_count w'" "sv_conn v' < w_conn_count w'"
      "\<not> ss_finalizing (w_session w' sid) \<or> sv_connected v' \<Longrightarrow> cn_server (w_conn w' (sv_conn v')) = Some sid"
      by simp_all
  qed
qed

lemma adapter_inv_core: "core w' = core w \<Longrightarrow> adapter_inv w \<Longrightarrow> adapter_inv w'"
  unfolding adapter_inv_def listed_live_def registered_live_def
  by (auto simp: attached_once_core core_parts [of w' w] conn_core_parts [OF core_parts(6) [of w' w]]
      session_core_parts(2) [OF core_parts(5) [of w' w]])

section \<open>The operations that change the core keep them\<close>

lemmas world_simps = andthen_def upd_session_def upd_conn_def upd_ide_def upd_launcher_def upd_server_def
lemmas inv_defs = adapter_inv_def attached_once_def listed_live_def registered_live_def held_def

lemma inv_new_session: "keeps (held adapter_inv n) (new_session i)"
  unfolding keeps_pointwise
proof (intro allI impI)
  fix w assume w: "held adapter_inv n w"
  let ?sid = "w_session_count w"
  let ?w = "snd (new_session i w)"
  have new: "w_session ?w = (w_session w)(?sid := blank_session\<lparr>ss_ide := Some (new_ide i)\<rparr>)"
    "w_session_count ?w = Suc ?sid" "w_conn ?w = w_conn w" "w_conn_count ?w = w_conn_count w"
    "w_connections ?w = w_connections w"
    "w_registered ?w = (if ?sid \<in> set (w_registered w) then w_registered w else w_registered w @ [?sid])"
    by (simp_all add: new_session_def register_def world_simps)
  have live: "\<not> all_disconnected (blank_session\<lparr>ss_ide := Some (new_ide i)\<rparr>)"
    by (simp add: all_disconnected_def new_ide_def)
  have a: "attached_once w" using w by (simp add: held_def adapter_inv_def)
  then have "ss_server (w_session w ?sid) = None"
    unfolding attached_once_def by (cases "ss_server (w_session w ?sid)") auto
  with a have free: "cn_server (w_conn w c) \<noteq> Some ?sid" for c
    unfolding attached_once_def by (metis option.distinct(1))
  have "attached_once ?w"
    unfolding attached_once_def new
  proof (intro conjI allI impI)
    fix c sid assume c: "cn_server (w_conn w c) = Some sid"
    with free have "sid \<noteq> ?sid" by metis
    with a c show "\<exists>v. ss_server (((w_session w)(?sid := blank_session\<lparr>ss_ide := Some (new_ide i)\<rparr>)) sid) = Some v \<and> sv_conn v = c"
      unfolding attached_once_def by simp
  next
    fix sid v
    assume "ss_server (((w_session w)(?sid := blank_session\<lparr>ss_ide := Some (new_ide i)\<rparr>)) sid) = Some v"
    then have v: "sid \<noteq> ?sid" "ss_server (w_session w sid) = Some v"
      by (auto simp: blank_session_def split: if_splits)
    with a have v': "sid < ?sid \<and> sv_conn v < w_conn_count w \<and>
        (\<not> ss_finalizing (w_session w sid) \<or> sv_connected v \<longrightarrow> cn_server (w_conn w (sv_conn v)) = Some sid)"
      unfolding attached_once_def by blast
    with v show "sid < Suc ?sid" "sv_conn v < w_conn_count w"
      "\<not> ss_finalizing (((w_session w)(?sid := blank_session\<lparr>ss_ide := Some (new_ide i)\<rparr>)) sid) \<or> sv_connected v
         \<Longrightarrow> cn_server (w_conn w (sv_conn v)) = Some sid"
      by simp_all
  qed
  moreover have "listed_live ?w"
    using w unfolding listed_live_def new inv_defs by auto
  moreover have "registered_live ?w"
    using w live unfolding registered_live_def new inv_defs by (auto simp: less_Suc_eq)
  ultimately show "held adapter_inv n ?w"
    using w new(2) by (simp add: held_def adapter_inv_def)
qed

text \<open>What leaves one of the three invariants alone.\<close>

lemma heldI: "attached_once w \<Longrightarrow> listed_live w \<Longrightarrow> registered_live w \<Longrightarrow> n \<le> w_session_count w \<Longrightarrow> held adapter_inv n w"
  by (simp add: held_def adapter_inv_def)

lemma heldD:
  assumes "held adapter_inv n w"
  shows "attached_once w" "listed_live w" "registered_live w" "n \<le> w_session_count w"
  using assms by (simp_all add: held_def adapter_inv_def)

lemma listed_same:
  assumes "listed_live w" "w_connections w' = w_connections w" "w_conn_count w \<le> w_conn_count w'"
    and "\<And>c. c \<in> set (w_connections w) \<Longrightarrow> cn_pid (w_conn w' c) = cn_pid (w_conn w c) \<and>
          cn_disconnected (w_conn w' c) = cn_disconnected (w_conn w c)"
  shows "listed_live w'"
  using assms unfolding listed_live_def by fastforce

lemma registered_same:
  assumes "registered_live w" "w_registered w' = w_registered w" "w_session_count w' = w_session_count w"
    and "\<And>sid. \<not> all_disconnected (w_session w sid) \<Longrightarrow> \<not> all_disconnected (w_session w' sid)"
  shows "registered_live w'"
  using assms unfolding registered_live_def by auto

lemma attached_same:
  assumes a: "attached_once w" and "w_session_count w' = w_session_count w" "w_conn_count w' = w_conn_count w"
    and conn: "\<And>c. cn_server (w_conn w' c) = cn_server (w_conn w c)"
    and fin: "\<And>sid. ss_finalizing (w_session w sid) \<Longrightarrow> ss_finalizing (w_session w' sid)"
    and server: "\<And>sid. rel_option (\<lambda>v' v. sv_conn v' = sv_conn v \<and> (sv_connected v' \<longrightarrow> sv_connected v))
          (ss_server (w_session w' sid)) (ss_server (w_session w sid))"
  shows "attached_once w'"
  unfolding attached_once_def
proof (intro conjI allI impI)
  fix c sid assume "cn_server (w_conn w' c) = Some sid"
  with a conn obtain v where "ss_server (w_session w sid) = Some v" "sv_conn v = c"
    unfolding attached_once_def by metis
  with server [of sid] show "\<exists>v. ss_server (w_session w' sid) = Some v \<and> sv_conn v = c"
    by (auto simp: option_rel_Some2)
next
  fix sid v' assume "ss_server (w_session w' sid) = Some v'"
  with server [of sid] obtain v where v: "ss_server (w_session w sid) = Some v" "sv_conn v' = sv_conn v"
    "sv_connected v' \<longrightarrow> sv_connected v" by (auto simp: option_rel_Some1)
  with a have "sid < w_session_count w \<and> sv_conn v < w_conn_count w \<and>
      (\<not> ss_finalizing (w_session w sid) \<or> sv_connected v \<longrightarrow> cn_server (w_conn w (sv_conn v)) = Some sid)"
    unfolding attached_once_def by blast
  with v fin conn assms(2,3)
  show "sid < w_session_count w'" "sv_conn v' < w_conn_count w'"
    "\<not> ss_finalizing (w_session w' sid) \<or> sv_connected v' \<Longrightarrow> cn_server (w_conn w' (sv_conn v')) = Some sid"
    by auto
qed

lemma same_server:
  "rel_option (\<lambda>v' v. sv_conn v' = sv_conn v \<and> (sv_connected v' \<longrightarrow> sv_connected v)) s s"
  "rel_option (\<lambda>v' v. sv_conn v' = sv_conn v \<and> (sv_connected v' \<longrightarrow> sv_connected v))
     (map_option (\<lambda>v. v\<lparr>sv_connected := False\<rparr>) s) s"
  by (cases s; simp)+

lemma inv_launcher_init: "keeps (held adapter_inv n) (launcher_init sid i)"
  unfolding keeps_pointwise
proof (intro allI impI)
  fix w assume w: "held adapter_inv n w"
  show "held adapter_inv n (snd (launcher_init sid i w))"
    by (rule heldI; (rule attached_same [OF heldD(1) [OF w]] listed_same [OF heldD(2) [OF w]]
          registered_same [OF heldD(3) [OF w]])?)
      (use heldD(4) [OF w] in \<open>auto simp: launcher_init_def upd_session_def all_disconnected_def same_server\<close>)
qed

lemma inv_start_finalizing:
  "keeps (held adapter_inv n) (modify (upd_session sid (\<lambda>s. s\<lparr>ss_finalizing := True\<rparr>)) :: unit act)"
  unfolding keeps_pointwise
proof (intro allI impI)
  fix w assume w: "held adapter_inv n w"
  show "held adapter_inv n (snd ((modify (upd_session sid (\<lambda>s. s\<lparr>ss_finalizing := True\<rparr>)) :: unit act) w))"
    by (rule heldI; (rule attached_same [OF heldD(1) [OF w]] listed_same [OF heldD(2) [OF w]]
          registered_same [OF heldD(3) [OF w]])?)
      (use heldD(4) [OF w] in \<open>auto simp: upd_session_def all_disconnected_def same_server\<close>)
qed

lemma inv_attach:
  assumes sid: "sid < n" and w: "held adapter_inv n w" and c: "c \<in> set (w_connections w)"
  shows "held adapter_inv n (snd (attach_to_session c sid w))"
proof (cases "cn_server (w_conn w c) = None \<and> ss_server (w_session w sid) = None")
  case True
  let ?w = "snd (attach_to_session c sid w)"
  note a = heldD(1) [OF w]
  have c': "c < w_conn_count w" using heldD(2) [OF w] c by (simp add: listed_live_def)
  have "attached_once ?w"
    using True a c' sid heldD(4) [OF w] unfolding attached_once_def
    by (auto simp: attach_to_session_def server_init_def Let_def world_simps) (metis option.distinct(1))+
  moreover have "listed_live ?w"
    by (rule listed_same [OF heldD(2) [OF w]])
      (use True in \<open>auto simp: attach_to_session_def server_init_def Let_def world_simps\<close>)
  moreover have "registered_live ?w"
    by (rule registered_same [OF heldD(3) [OF w]])
      (use True in \<open>auto simp: attach_to_session_def server_init_def Let_def world_simps all_disconnected_def\<close>)
  moreover have "n \<le> w_session_count ?w"
    using True heldD(4) [OF w] by (auto simp: attach_to_session_def server_init_def Let_def world_simps)
  ultimately show ?thesis by (rule heldI)
next
  case False
  with w show ?thesis
    by (auto simp: attach_to_session_def server_init_def andthen_def)
qed

text \<open>The flags of the components, and the notification that follows.\<close>

lemma notified:
  assumes "attached_once w" "listed_live w" "distinct (w_registered w)" "n \<le> w_session_count w"
    and others: "\<And>sid'. sid' \<in> set (w_registered w) \<Longrightarrow> sid' < w_session_count w \<and>
      (sid' \<noteq> sid \<longrightarrow> \<not> all_disconnected (w_session w sid'))"
  shows "held adapter_inv n (snd (notify_changed sid w))"
proof (rule heldI)
  let ?w = "snd (notify_changed sid w)"
  show "attached_once ?w"
    by (rule attached_same [OF assms(1)]) (simp_all add: notify_changed_def same_server)
  show "listed_live ?w"
    by (rule listed_same [OF assms(2)]) (simp_all add: notify_changed_def)
  show "registered_live ?w"
    using assms(3) others by (auto simp: registered_live_def notify_changed_def distinct_removeAll)
  show "n \<le> w_session_count ?w" using assms(4) by (simp add: notify_changed_def)
qed

lemma inv_ide_gone: "keeps (held adapter_inv n) (ide_gone sid)"
proof -
  have "held adapter_inv n (snd (notify_changed sid (upd_ide sid (\<lambda>i. i\<lparr>ide_connected := False\<rparr>) w)))" (is "held _ _ (snd (notify_changed _ ?w))")
    if w: "held adapter_inv n w" for w
  proof (rule notified)
    show "attached_once ?w"
      by (rule attached_same [OF heldD(1) [OF w]]) (auto simp: world_simps same_server)
    show "listed_live ?w" by (rule listed_same [OF heldD(2) [OF w]]) (simp_all add: world_simps)
  qed (use heldD [OF w] in \<open>auto simp: world_simps registered_live_def\<close>)
  then show ?thesis by (simp add: keeps_pointwise ide_gone_def andthen_def)
qed

lemma inv_launcher_gone: "keeps (held adapter_inv n) (launcher_gone sid)"
proof -
  have "held adapter_inv n (snd (notify_changed sid (upd_launcher sid (\<lambda>l. l\<lparr>la_connected := False\<rparr>) w)))" (is "held _ _ (snd (notify_changed _ ?w))")
    if w: "held adapter_inv n w" for w
  proof (rule notified)
    show "attached_once ?w"
      by (rule attached_same [OF heldD(1) [OF w]]) (auto simp: world_simps same_server)
    show "listed_live ?w" by (rule listed_same [OF heldD(2) [OF w]]) (simp_all add: world_simps)
  qed (use heldD [OF w] in \<open>auto simp: world_simps registered_live_def\<close>)
  then show ?thesis by (simp add: keeps_pointwise launcher_gone_def andthen_def)
qed

lemma attached_detached:
  assumes a: "attached_once w" and v: "ss_server (w_session w sid) = Some v" "\<not> sv_connected v"
    and fin: "ss_finalizing (w_session w sid)" and mine: "cn_server (w_conn w (sv_conn v)) = Some sid"
  shows "attached_once (upd_conn (sv_conn v) (\<lambda>c. c\<lparr>cn_handlers := None, cn_server := None\<rparr>) w)"
    (is "attached_once ?w")
  unfolding attached_once_def
proof (intro conjI allI impI)
  fix c sid' assume c: "cn_server (w_conn ?w c) = Some sid'"
  then have "c \<noteq> sv_conn v" by (auto simp: upd_conn_def)
  with c a show "\<exists>v. ss_server (w_session ?w sid') = Some v \<and> sv_conn v = c"
    unfolding attached_once_def upd_conn_def by simp
next
  fix sid' v' assume v': "ss_server (w_session ?w sid') = Some v'"
  with a have old: "sid' < w_session_count w \<and> sv_conn v' < w_conn_count w \<and>
      (\<not> ss_finalizing (w_session w sid') \<or> sv_connected v' \<longrightarrow> cn_server (w_conn w (sv_conn v')) = Some sid')"
    unfolding attached_once_def by (simp add: upd_conn_def)
  then show "sid' < w_session_count ?w" "sv_conn v' < w_conn_count ?w" by (simp_all add: upd_conn_def)
  assume "\<not> ss_finalizing (w_session ?w sid') \<or> sv_connected v'"
  with old have now: "cn_server (w_conn w (sv_conn v')) = Some sid'"
    and alive: "\<not> ss_finalizing (w_session w sid') \<or> sv_connected v'" by (simp_all add: upd_conn_def)
  have "sv_conn v' \<noteq> sv_conn v"
  proof
    assume same: "sv_conn v' = sv_conn v"
    with now mine have "sid' = sid" by simp
    with v' v have "v' = v" by (simp add: upd_conn_def)
    with \<open>sid' = sid\<close> alive fin v(2) show False by simp
  qed
  with now show "cn_server (w_conn ?w (sv_conn v')) = Some sid'" by (simp add: upd_conn_def)
qed

lemma inv_detach:
  assumes w: "held adapter_inv n w" and o: "owns sid w" and fin: "ss_finalizing (w_session w sid)"
  shows "held adapter_inv n (snd (detach_from_session sid w))"
proof (cases "ss_server (w_session w sid)")
  case None
  with w show ?thesis by (simp add: detach_from_session_def the_server_def andthen_def)
next
  case (Some v)
  let ?w = "upd_server sid (\<lambda>v. v\<lparr>sv_connected := False\<rparr>) w"
  let ?w' = "snd (notify_changed sid ?w)"
  let ?w'' = "upd_conn (sv_conn v) (\<lambda>c. c\<lparr>cn_handlers := None, cn_server := None\<rparr>) ?w'"
  have final: "snd (detach_from_session sid w) = ?w''"
    using Some by (simp add: detach_from_session_def the_server_def andthen_def notify_changed_def)
  have "held adapter_inv n ?w'"
  proof (rule notified)
    show "attached_once ?w"
      by (rule attached_same [OF heldD(1) [OF w]]) (auto simp: world_simps same_server)
    show "listed_live ?w" by (rule listed_same [OF heldD(2) [OF w]]) (simp_all add: world_simps)
  qed (use heldD [OF w] in \<open>auto simp: world_simps registered_live_def\<close>)
  note w' = heldD [OF this]
  have mine: "cn_server (w_conn w (sv_conn v)) = Some sid" using o Some by (simp add: owns_def)
  let ?v = "v\<lparr>sv_connected := False\<rparr>"
  have "ss_server (w_session ?w' sid) = Some ?v" "ss_finalizing (w_session ?w' sid)"
    "cn_server (w_conn ?w' (sv_conn ?v)) = Some sid"
    using Some fin mine by (simp_all add: notify_changed_def world_simps)
  then have "attached_once ?w''" using attached_detached [OF w'(1), of sid ?v] by simp
  moreover have "listed_live ?w''"
    by (rule listed_same [OF w'(2)]) (simp_all add: upd_conn_def)
  moreover have "registered_live ?w''"
    by (rule registered_same [OF w'(3)]) (simp_all add: upd_conn_def)
  ultimately show ?thesis unfolding final using w'(4) by (intro heldI) (simp_all add: upd_conn_def)
qed

text \<open>A connection leaves the list, with its server if it has one.\<close>

definition without :: "nat \<Rightarrow> world \<Rightarrow> world" where
  "without c w = w\<lparr>w_connections := remove1 c (w_connections w), w_connections_changed := True\<rparr>"

lemma without_simps [simp]:
  "w_session (without c w) = w_session w" "w_conn (without c w) = w_conn w"
  "w_registered (without c w) = w_registered w" "w_session_count (without c w) = w_session_count w"
  "w_conn_count (without c w) = w_conn_count w" "w_connections (without c w) = remove1 c (w_connections w)"
  by (simp_all add: without_def)

lemma listed_without:
  assumes "listed_live w" and "w_connections w' = w_connections w" "w_conn_count w' = w_conn_count w"
    and "\<And>c'. c' \<noteq> c \<Longrightarrow> w_conn w' c' = w_conn w c'"
  shows "listed_live (without c w')"
  using assms unfolding listed_live_def by (auto simp: set_remove1_eq)

lemma held_server_gone:
  assumes a: "attached_once w" and r: "registered_live w" and n: "n \<le> w_session_count w"
    and v: "ss_server (w_session w sid) = Some v"
    and l: "listed_live (without (sv_conn v) w)" "sv_conn v \<notin> set (w_connections w) \<Longrightarrow> listed_live w"
  shows "held adapter_inv n (snd (server_gone sid w))"
proof (cases "sv_conn v \<in> set (w_connections w)")
  case True
  let ?w = "upd_server sid (\<lambda>v. v\<lparr>sv_connected := False\<rparr>) (without (sv_conn v) w)"
  have "snd (server_gone sid w) = snd (notify_changed sid ?w)"
    using True v by (simp add: server_gone_def the_server_def andthen_def remove_connection_def without_def)
  moreover have "held adapter_inv n (snd (notify_changed sid ?w))"
  proof (rule notified)
    show "attached_once ?w"
      by (rule attached_same [OF a]) (auto simp: world_simps same_server)
    show "listed_live ?w" by (rule listed_same [OF l(1)]) (simp_all add: world_simps)
  qed (use r n in \<open>auto simp: world_simps registered_live_def\<close>)
  ultimately show ?thesis by simp
next
  case False
  with v have "snd (server_gone sid w) = w"
    by (simp add: server_gone_def the_server_def andthen_def remove_connection_def)
  with False a r n l show ?thesis by (simp add: heldI)
qed

lemma inv_server_gone: "keeps (held adapter_inv n) (server_gone sid)"
  unfolding keeps_pointwise
proof (intro allI impI)
  fix w assume w: "held adapter_inv n w"
  show "held adapter_inv n (snd (server_gone sid w))"
  proof (cases "ss_server (w_session w sid)")
    case None
    with w show ?thesis by (simp add: server_gone_def the_server_def andthen_def)
  next
    case (Some v)
    then show ?thesis
      using heldD [OF w] listed_without [of w w] by (intro held_server_gone) auto
  qed
qed

lemma inv_conn_gone: "keeps (held adapter_inv n) (conn_gone c)"
  unfolding keeps_pointwise
proof (intro allI impI)
  fix w assume w: "held adapter_inv n w"
  let ?w = "upd_conn c (\<lambda>n. n\<lparr>cn_disconnected := True\<rparr>) w"
  have a: "attached_once ?w"
    by (rule attached_same [OF heldD(1) [OF w]]) (simp_all add: upd_conn_def same_server)
  have r: "registered_live ?w"
    by (rule registered_same [OF heldD(3) [OF w]]) (simp_all add: upd_conn_def)
  have n: "n \<le> w_session_count ?w" using heldD(4) [OF w] by (simp add: upd_conn_def)
  have gone: "listed_live (without c ?w)"
    by (rule listed_without [OF heldD(2) [OF w]]) (simp_all add: upd_conn_def)
  have unlisted: "listed_live ?w" if "c \<notin> set (w_connections w)"
    by (rule listed_same [OF heldD(2) [OF w]]) (use that in \<open>auto simp: upd_conn_def\<close>)
  show "held adapter_inv n (snd (conn_gone c w))"
  proof (cases "cn_server (w_conn w c)")
    case None
    then have "snd (conn_gone c w) = (if c \<in> set (w_connections w) then without c ?w else ?w)"
      by (auto simp: conn_gone_def andthen_def upd_conn_def remove_connection_def without_def)
    moreover have "attached_once (without c ?w)" "registered_live (without c ?w)"
      by (rule attached_same [OF a], simp_all add: same_server) (rule registered_same [OF r], simp_all)
    ultimately show ?thesis using a r n gone unlisted by (simp add: heldI)
  next
    case (Some sid)
    then obtain v where v: "ss_server (w_session ?w sid) = Some v" "sv_conn v = c"
      using heldD(1) [OF w] by (auto simp: attached_once_def upd_conn_def)
    have "snd (conn_gone c w) = snd (server_gone sid ?w)"
      using Some by (simp add: conn_gone_def andthen_def upd_conn_def)
    moreover have "held adapter_inv n (snd (server_gone sid ?w))"
      by (rule held_server_gone [OF a r n v(1)]) (use v(2) gone unlisted in \<open>simp_all add: upd_conn_def\<close>)
    ultimately show ?thesis by simp
  qed
qed

section \<open>A new connection\<close>

definition unlisted :: "nat \<Rightarrow> nat \<Rightarrow> world \<Rightarrow> bool" where
  "unlisted n c w \<longleftrightarrow> held adapter_inv n w \<and> c \<notin> set (w_connections w) \<and> c < w_conn_count w"

lemma held_core: "core w' = core w \<Longrightarrow> held adapter_inv n w \<Longrightarrow> held adapter_inv n w'"
  unfolding held_def using adapter_inv_core core_session_count by metis

lemma unlisted_core: "core w' = core w \<Longrightarrow> unlisted n c w \<Longrightarrow> unlisted n c w'"
  unfolding unlisted_def using held_core core_parts(3,4) by metis

definition described :: "nat \<Rightarrow> nat \<Rightarrow> world \<Rightarrow> bool" where
  "described n c w \<longleftrightarrow> unlisted n c w \<and> cn_pid (w_conn w c) \<noteq> None"

lemma described_core: "core w' = core w \<Longrightarrow> described n c w \<Longrightarrow> described n c w'"
  unfolding described_def using unlisted_core conn_core_parts [OF core_parts(6)] by metis

lemma described_unlisted: "described n c w \<Longrightarrow> unlisted n c w"
  by (simp add: described_def)

lemma quiet_keeps:
  assumes "\<And>w w'. core w' = core w \<Longrightarrow> Q w \<Longrightarrow> Q w'" and "\<And>x. keeps (\<lambda>w. core w = x) m"
  shows "keeps Q m"
  using assms unfolding keeps_pointwise by metis

lemma silent_authenticate: "keeps (\<lambda>w. core w = x) (authenticate E c)"
  unfolding authenticate_def item_of_def by (intro kept silent_rules silent_waiting)

lemma silent_inject: "keeps (\<lambda>w. core w = x) (inject_ptvsd E c)"
  unfolding inject_ptvsd_def by (intro kept silent_rules silent_waiting)

lemma silent_notify: "keeps (\<lambda>w. core w = x) (notify_of_subprocess E sid c)"
  unfolding notify_of_subprocess_def
  by (intro kept silent_rules silent_waiting silent_modify(1) [THEN silentD]; simp)

lemma pid_described:
  assumes "unlisted n c w"
  shows "described n c (upd_conn c (\<lambda>n. n\<lparr>cn_pid := Some pid\<rparr>) w)"
proof -
  let ?w = "upd_conn c (\<lambda>n. n\<lparr>cn_pid := Some pid\<rparr>) w"
  from assms have w: "held adapter_inv n w" and c: "c \<notin> set (w_connections w)" "c < w_conn_count w"
    by (simp_all add: unlisted_def)
  have "attached_once ?w"
    by (rule attached_same [OF heldD(1) [OF w]]) (simp_all add: upd_conn_def same_server)
  moreover have "listed_live ?w"
    by (rule listed_same [OF heldD(2) [OF w]]) (use c in \<open>auto simp: upd_conn_def\<close>)
  moreover have "registered_live ?w"
    by (rule registered_same [OF heldD(3) [OF w]]) (simp_all add: upd_conn_def)
  ultimately show ?thesis using heldD(4) [OF w] c by (simp add: described_def unlisted_def heldI upd_conn_def)
qed

lemma wp_seq:
  "wp m (\<lambda>_. R) X s \<Longrightarrow> (\<And>x s. R s \<Longrightarrow> wp (f x) Q X s) \<Longrightarrow> wp (andthen m f) Q X s"
  unfolding wp_andthen by (erule wp_mono) auto

lemma unlisted_wp:
  assumes "unlisted n c w" and m: "\<And>x. keeps (\<lambda>w. core w = x) m"
  shows "wp m (\<lambda>_. unlisted n c) (\<lambda>_. unlisted n c) w"
proof -
  have "keeps (unlisted n c) m" by (rule quiet_keeps [where Q = "unlisted n c"]) (erule unlisted_core, assumption, rule m)
  with assms(1) show ?thesis by (intro keeps_wp)
qed

lemma described_wp:
  assumes "described n c w" and m: "\<And>x. keeps (\<lambda>w. core w = x) m"
  shows "wp m (\<lambda>_. described n c) (\<lambda>_. unlisted n c) w"
proof -
  have "keeps (described n c) m" by (rule quiet_keeps [where Q = "described n c"]) (erule described_core, assumption, rule m)
  with assms(1) have "wp m (\<lambda>_. described n c) (\<lambda>_. described n c) w" by (intro keeps_wp)
  then show ?thesis by (rule wp_mono) (auto dest: described_unlisted)
qed

lemmas quiet_on = silent_on [THEN silentD]

lemma taking:
  assumes "unlisted n c w"
  shows "wp (take_process_info c info v) (\<lambda>_. described n c) (\<lambda>_. unlisted n c) w"
proof (cases v)
  case (JObj d)
  have ppid: "wp (modify (upd_conn c (\<lambda>n. n\<lparr>cn_ppid := p\<rparr>))) (\<lambda>_. described n c) (\<lambda>_. unlisted n c) s"
    if "described n c s" for p s
    using described_core [OF core_upd_conn, of "\<lambda>n. n\<lparr>cn_ppid := p\<rparr>" s c n c] that
    by (simp add: wp_modify conn_core_def)
  have pid: "wp (modify (upd_conn c (\<lambda>n. n\<lparr>cn_pid := Some p\<rparr>))) (\<lambda>_. described n c) (\<lambda>_. unlisted n c) s"
    if "unlisted n c s" for p s
    using pid_described [OF that] by (simp add: wp_modify)
  show ?thesis
    unfolding take_process_info_def JObj jv.case
    by (rule wp_seq [OF unlisted_wp [OF assms quiet_on]], rule wp_seq [OF pid], assumption,
        rule wp_seq [OF described_wp [OF _ quiet_on]], assumption, rule ppid)
qed (simp_all add: take_process_info_def throw_def wp_raise assms)

lemma describing:
  assumes "unlisted n c w"
  shows "wp (describe_connection E c) (\<lambda>_. described n c) (\<lambda>_. unlisted n c) w"
  unfolding describe_connection_def
  by (rule wp_seq [OF unlisted_wp [OF assms silent_waiting(1)]], rule wp_seq [OF unlisted_wp [OF _ quiet_on]],
      assumption, rule taking)

lemma listing:
  assumes w: "described n c w"
  shows "held adapter_inv n (snd (list_connection c w))"
proof -
  from w have h: "held adapter_inv n w" and c: "c \<notin> set (w_connections w)" "c < w_conn_count w"
    and pid: "cn_pid (w_conn w c) \<noteq> None"
    by (simp_all add: described_def unlisted_def)
  let ?w = "w\<lparr>w_connections := w_connections w @ [c], w_connections_changed := True\<rparr>"
  have "held adapter_inv n ?w"
    if "\<not> cn_disconnected (w_conn w c)" "\<forall>c' \<in> set (w_connections w). cn_pid (w_conn w c') \<noteq> cn_pid (w_conn w c)"
  proof (rule heldI)
    show "attached_once ?w" by (rule attached_same [OF heldD(1) [OF h]]) (simp_all add: same_server)
    show "registered_live ?w" by (rule registered_same [OF heldD(3) [OF h]]) simp_all
    show "listed_live ?w" using heldD(2) [OF h] that c pid unfolding listed_live_def by auto
  qed (use heldD(4) [OF h] in simp)
  with h show ?thesis by (auto simp: list_connection_def Let_def)
qed

lemma held_catching: "P (snd (m w)) \<Longrightarrow> (\<And>e. keeps P (h e)) \<Longrightarrow> P (snd (catching m h w))"
  by (auto simp: catching_def attempt_def keeps_pointwise split: prod.splits sum.splits stop.splits)

lemma held_andthen: "P (snd (m w)) \<Longrightarrow> (\<And>x. keeps P (f x)) \<Longrightarrow> P (snd (andthen m f w))"
  by (cases "m w"; cases "fst (m w)") (auto simp: andthen_def keeps_pointwise)

lemma accepting:
  assumes w: "unlisted n c w"
  shows "held adapter_inv n (snd (accept_connection E c w))"
proof -
  let ?m = "andthen (authenticate E c) (\<lambda>_. andthen (describe_connection E c) (\<lambda>_.
      andthen (inject_ptvsd E c) (\<lambda>_. list_connection c)))"
  have list: "wp (list_connection c) (\<lambda>_. held adapter_inv n) (\<lambda>_. held adapter_inv n) s" if "described n c s" for s
    using listing [OF that] by (simp add: wp_snd)
  have inject: "wp (andthen (inject_ptvsd E c) (\<lambda>_. list_connection c)) (\<lambda>_. held adapter_inv n) (\<lambda>_. held adapter_inv n) s"
    if "described n c s" for s
    using described_wp [OF that silent_inject, of E c]
    by (rule wp_seq [OF wp_mono]) (auto simp: unlisted_def list)
  have describe: "wp (andthen (describe_connection E c) (\<lambda>_. andthen (inject_ptvsd E c) (\<lambda>_. list_connection c)))
      (\<lambda>_. held adapter_inv n) (\<lambda>_. held adapter_inv n) s" if "unlisted n c s" for s
    using describing [OF that, of E]
    by (rule wp_seq [OF wp_mono]) (auto simp: unlisted_def inject)
  have m: "wp ?m (\<lambda>_. held adapter_inv n) (\<lambda>_. held adapter_inv n) w"
    using unlisted_wp [OF w silent_authenticate, of E c]
    by (rule wp_seq [OF wp_mono]) (auto simp: unlisted_def describe)
  have h: "keeps (held adapter_inv n) (andthen (on (Conn c) channel_close) (\<lambda>_.
      andthen dont_wait_for_first_connection (\<lambda>_. ret False)))"
    by (intro quiet_keeps [OF held_core] kept silent_rules)
  from m have "held adapter_inv n (snd (?m w))" unfolding wp_snd .
  then show ?thesis unfolding accept_connection_def using h by (rule held_catching)
qed

lemma inv_server_connects: "keeps (held adapter_inv n) (server_connects E)"
  unfolding keeps_pointwise
proof (intro allI impI)
  fix w assume w: "held adapter_inv n w"
  let ?c = "w_conn_count w"
  define w1 where "w1 = snd (new_connection (w_ticks w) (w\<lparr>w_ticks := Suc (w_ticks w)\<rparr>))"
  have new: "new_connection (w_ticks w) (w\<lparr>w_ticks := Suc (w_ticks w)\<rparr>) = (Inr ?c, w1)"
    by (simp add: w1_def new_connection_def andthen_def)
  have "attached_once w1"
    unfolding attached_once_def
  proof (intro conjI allI impI)
    fix c sid assume "cn_server (w_conn w1 c) = Some sid"
    then have "cn_server (w_conn w c) = Some sid"
      by (auto simp: w1_def new_connection_def world_simps split: if_splits)
    with heldD(1) [OF w] show "\<exists>v. ss_server (w_session w1 sid) = Some v \<and> sv_conn v = c"
      unfolding attached_once_def by (simp add: w1_def new_connection_def world_simps)
  next
    fix sid v assume "ss_server (w_session w1 sid) = Some v"
    then have "ss_server (w_session w sid) = Some v" by (simp add: w1_def new_connection_def world_simps)
    with heldD(1) [OF w] have "sid < w_session_count w \<and> sv_conn v < ?c \<and>
        (\<not> ss_finalizing (w_session w sid) \<or> sv_connected v \<longrightarrow> cn_server (w_conn w (sv_conn v)) = Some sid)"
      unfolding attached_once_def by blast
    then show "sid < w_session_count w1" "sv_conn v < w_conn_count w1"
      "\<not> ss_finalizing (w_session w1 sid) \<or> sv_connected v \<Longrightarrow> cn_server (w_conn w1 (sv_conn v)) = Some sid"
      by (auto simp: w1_def new_connection_def world_simps)
  qed
  moreover have "listed_live w1"
    by (rule listed_same [OF heldD(2) [OF w]])
      (use heldD(2) [OF w] in \<open>auto simp: w1_def new_connection_def world_simps listed_live_def\<close>)
  moreover have "registered_live w1"
    by (rule registered_same [OF heldD(3) [OF w]]) (simp_all add: w1_def new_connection_def world_simps)
  ultimately have "unlisted n ?c w1"
    using heldD(2,4) [OF w] by (auto simp: unlisted_def w1_def new_connection_def world_simps listed_live_def intro!: heldI)
  then have "held adapter_inv n (snd (accept_connection E ?c w1))" by (rule accepting)
  moreover have "keeps (held adapter_inv n)
      (if \<not> listed then ret () else andthen (gets (\<lambda>w. get_session (cn_ppid (w_conn w c)) w)) (\<lambda>parent.
         case parent of None \<Rightarrow> ret () | Some sid \<Rightarrow> ignoring (notify_of_subprocess E sid c)))" for listed c
    by (intro quiet_keeps [OF held_core] kept silent_notify)
  ultimately have "held adapter_inv n (snd (connection_init E ?c w1))"
    unfolding connection_init_def by (rule held_andthen)
  moreover have "server_connects E w = connection_init E ?c w1"
    unfolding server_connects_def andthen_def tick_def prod.case sum.case new ..
  ultimately show "held adapter_inv n (snd (server_connects E w))" by simp
qed

section \<open>The invariant of the adapter\<close>

lemma inv_owned: "adapter_inv w \<Longrightarrow> \<not> ss_finalizing (w_session w sid) \<Longrightarrow> owns sid w"
  unfolding adapter_inv_def attached_once_def owns_def by blast

interpretation adapter: core_predicate adapter_inv
  by unfold_locales
    (rule inv_new_session inv_launcher_init inv_attach inv_start_finalizing inv_detach inv_ide_gone
      inv_launcher_gone inv_server_gone inv_conn_gone inv_server_connects | erule adapter_inv_core inv_owned; assumption | assumption)+

lemma adapter_inv_new_world: "adapter_inv new_world"
  by (simp add: adapter_inv_def attached_once_def listed_live_def registered_live_def new_world_def blank_session_def)

lemma adapter_invariant: "adapter_reachable w \<Longrightarrow> adapter_inv w"
  using adapter_inv_new_world by (rule adapter.always)

end
