(* ===== verification/AdapterRequests.thy ===== *)
theory AdapterRequests
  imports AdapterInvariants
begin

text \<open>
  What a blocking request of the adapter comes to: a value that it returns is the body of the
  answer that the other process gave to this request; a refusal or the end of the connection
  is an exception. From this, what authentication protects.
\<close>

lemma keeps_pointwise_any: "keeps P m \<longleftrightarrow> (\<forall>s. P s \<longrightarrow> P (snd (m s)))"
  by (simp add: keeps_def wp_snd)

section \<open>A request that returns has been answered\<close>

definition unanswered_or_failed :: "nat \<Rightarrow> chan \<Rightarrow> bool" where
  "unanswered_or_failed rid s \<longleftrightarrow>
     (\<forall>q r. ch_outreqs s rid = Some q \<and> o_response q = Some r \<longrightarrow> (\<exists>e. msg_body r = Failure e))"

lemma unanswered_or_failed_update:
  "(\<And>r'. o_response q = Some r' \<Longrightarrow> \<exists>e. msg_body r' = Failure e) \<Longrightarrow> unanswered_or_failed rid s \<Longrightarrow>
    unanswered_or_failed rid (s\<lparr>ch_outreqs := (ch_outreqs s)(rid' \<mapsto> q)\<rparr>)"
  by (auto simp: unanswered_or_failed_def)

lemma unanswered_or_failed_same:
  "ch_outreqs s' = ch_outreqs s \<Longrightarrow> unanswered_or_failed rid s' = unanswered_or_failed rid s"
  by (simp add: unanswered_or_failed_def)

lemma failed_handlers: "keeps (unanswered_or_failed rid) (enqueue_response_handlers rid')"
  unfolding keeps_pointwise_any enqueue_response_handlers_def
  by (auto simp: andthen_def enqueue_handlers_def unanswered_or_failed_def Let_def split: option.split)

lemma failed_response:
  "msg_body resp = Failure e \<Longrightarrow> keeps (unanswered_or_failed rid) (set_response rid' resp)"
  unfolding keeps_pointwise_any set_response_def
  by (auto simp: unanswered_or_failed_def split: option.split)

lemma failed_taken:
  assumes "unanswered_or_failed rid s"
  shows "wp (take_request k command) (\<lambda>_. unanswered_or_failed rid) (\<lambda>_. unanswered_or_failed rid) s"
proof (cases "map_of (ch_sent s) k")
  case None
  have "unanswered_or_failed rid (s\<lparr>ch_fresh := f, ch_outreqs := (ch_outreqs s)(rid' \<mapsto> q)\<rparr>)"
    if "o_response q = None" for f rid' q
    using assms that by (auto simp: unanswered_or_failed_def)
  with None show ?thesis by (simp add: wp_snd take_request_def andthen_def fresh_id_def)
next
  case (Some r)
  with assms show ?thesis by (simp add: wp_snd take_request_def unanswered_or_failed_same [of "s\<lparr>ch_sent := m\<rparr>" s for m])
qed

lemma failed_disconnect:
  "keeps (unanswered_or_failed rid) (parse_response (disconnect_dict q err) (Some exc))"
proof
  fix s assume s: "unanswered_or_failed rid s"
  let ?U = "unanswered_or_failed rid"
  have rest: "keeps ?U (andthen (new_message MResponse seq name (Failure e) req) (\<lambda>resp.
      andthen (set_response rid' resp) (\<lambda>_. andthen (enqueue_response_handlers rid') (\<lambda>_.
      if known then ret resp else andthen (isnt_valid reason resp) raise))))" for seq name e req rid' known reason
  proof
    fix s assume "?U s"
    then have u: "?U (s\<lparr>ch_fresh := f\<rparr>)" for f by (simp add: unanswered_or_failed_same [of "s\<lparr>ch_fresh := f\<rparr>" s])
    let ?m = "\<lparr>msg_id = ch_fresh s, msg_kind = MResponse, msg_seq = seq, msg_name = name, msg_body = Failure e,
        msg_request = req\<rparr>"
    have "keeps ?U (andthen (set_response rid' ?m) (\<lambda>_. andthen (enqueue_response_handlers rid') (\<lambda>_.
        if known then ret ?m else andthen (isnt_valid reason ?m) raise)))"
      by (intro keeps_bind failed_response [of _ e] failed_handlers)
        (simp_all add: keeps_pointwise_any message_error_def andthen_def Let_def)
    then show "wp (andthen (new_message MResponse seq name (Failure e) req) (\<lambda>resp.
      andthen (set_response rid' resp) (\<lambda>_. andthen (enqueue_response_handlers rid') (\<lambda>_.
      if known then ret resp else andthen (isnt_valid reason resp) raise)))) (\<lambda>_. ?U) (\<lambda>_. ?U) s"
      using u by (simp add: wp_andthen [of "new_message _ _ _ _ _"] wp_new_message keeps_wp)
  qed
  show "wp (parse_response (disconnect_dict q err) (Some exc)) (\<lambda>_. ?U) (\<lambda>_. ?U) s"
    unfolding parse_response_def
    by (simp add: md_call_unowned md_value_class of_result_Inr disconnect_dict_members wp_simps(1-7) response_body_def
        body_with_cause_def)
      (rule wp_mono [OF failed_taken [OF s]]; auto intro: keeps_wp [OF rest])
qed

lemma failed_pending: "keeps (unanswered_or_failed rid) (respond_pending rids exc)"
proof (induction rids)
  case Nil
  show ?case by (simp add: keeps_pointwise_any)
next
  case (Cons r rids)
  have "keeps (unanswered_or_failed rid)
      (andthen (parse_response (disconnect_dict q (exn_str exc)) (Some exc)) (\<lambda>_. respond_pending rids exc))" for q
    by (intro keeps_bind failed_disconnect Cons.IH)
  with Cons.IH show ?case by (auto simp: keeps_pointwise_any split: option.split)
qed

lemma failed_finish: "keeps (unanswered_or_failed rid) (finish_parsing exc)"
  unfolding finish_parsing_def
  by (intro keeps_bind failed_pending keeps_basic keeps_if)
    (auto simp: keeps_pointwise_any new_message_def andthen_def fresh_id_def enqueue_handlers_def channel_close_def
      unanswered_or_failed_def Let_def)

section \<open>The answer\<close>

lemma registered_simps:
  "ch_outreqs (registered command args s) (ch_fresh s) =
     Some \<lparr>o_seq = ch_next_seq s, o_command = command, o_args = args, o_response = None, o_handlers = []\<rparr>"
  "map_of (ch_sent (registered command args s)) (ch_next_seq s) = Some (ch_fresh s)"
  by (simp_all add: registered_def)

lemma reply_dict_members:
  "md_get (reply_dict q v b) ''type'' = JStr ''response''"
  "map_of (reply_dict q v b) ''request_seq'' = Some (JInt (o_seq q))"
  "map_of (reply_dict q v b) ''success'' = Some (JBool b)"
  "map_of (reply_dict q v True) ''body'' = Some v"
  "wellformed_response (reply_dict q v True)" "wellformed_response (reply_dict q (JStr t) False)"
  by (simp_all add: reply_dict_def md_get_def wellformed_response_def has_member_def is_subclass_def)

definition body_value :: "jv \<Rightarrow> jv" where
  "body_value v = (if v = JNull \<or> v = Missing then JObj [] else v)"

text \<open>The response of a request that is pending, after the reply.\<close>

lemma received_reply:
  assumes q: "ch_outreqs s rid = Some q" "o_response q = None" and sent: "map_of (ch_sent s) (o_seq q) = Some rid"
    and resp: "ch_outreqs (snd (receive_reply rid r s)) rid = Some q'" "o_response q' = Some m"
      "response_result m = Inr v"
  shows "\<exists>x. r = Answer x \<and> payload_value m = body_value x"
proof (cases r)
  case (Answer x)
  have "parse_message (reply_dict q x True) s =
      (Inr (), answered (o_seq q) rid q (incoming_response (ch_fresh s) rid (reply_dict q x True)) s)"
    using response_matched [OF reply_dict_members(1,5), of s q x rid q] sent q(1)
    by (simp add: reply_dict_members int_of_def)
  with Answer q(1) resp(1,2) have "m = incoming_response (ch_fresh s) rid (reply_dict q x True)"
    by (auto simp: receive_reply_def answered_def)
  then have "payload_value m = body_value x"
    by (simp add: incoming_response_def reply_dict_members payload_value_def payload_of_def body_value_def)
  with Answer show ?thesis by simp
next
  case (Refused t)
  have "parse_message (reply_dict q (JStr t) False) s =
      (Inr (), answered (o_seq q) rid q (incoming_response (ch_fresh s) rid (reply_dict q (JStr t) False)) s)"
    using response_matched [OF reply_dict_members(1,6), of s q t rid q] sent q(1)
    by (simp add: reply_dict_members int_of_def)
  with Refused q(1) resp have "response_result (incoming_response (ch_fresh s) rid (reply_dict q (JStr t) False)) = Inr v"
    by (auto simp: receive_reply_def answered_def)
  then show ?thesis by (simp add: incoming_response_def reply_dict_members response_result_def)
next
  case Gone
  have "unanswered_or_failed rid s" using q by (simp add: unanswered_or_failed_def)
  then have "unanswered_or_failed rid (snd (finish_parsing (NoMoreMessages (ch_id s) no_more_messages) s))"
    using failed_finish by (simp add: keeps_pointwise_any)
  with Gone q(1) resp show ?thesis by (auto simp: receive_reply_def unanswered_or_failed_def response_result_def)
next
  case NoReply
  with q resp show ?thesis by (auto simp: receive_reply_def)
qed

section \<open>Channels of components\<close>

definition has_chan :: "party \<Rightarrow> chan \<Rightarrow> world \<Rightarrow> bool" where
  "has_chan p ch w \<longleftrightarrow> the_chan p w = (Inr ch, w)"

lemma the_chan_cases: "(\<exists>ch. has_chan p ch w) \<or> (\<exists>e. the_chan p w = (Inl (Raised e), w))"
  by (cases p) (auto simp: has_chan_def the_chan_def andthen_def the_ide_def the_launcher_def the_server_def
      split: option.split)

lemma has_chan_set: "has_chan p ch w \<Longrightarrow> has_chan p ch' (set_chan p ch' w)"
  by (cases p) (auto simp: has_chan_def the_chan_def andthen_def the_ide_def the_launcher_def the_server_def
      set_chan_def upd_ide_def upd_launcher_def upd_session_def upd_conn_def split: option.splits)

lemma has_chan_tick: "has_chan p ch w \<Longrightarrow> has_chan p ch (w\<lparr>w_ticks := t\<rparr>)"
  by (cases p) (auto simp: has_chan_def the_chan_def andthen_def the_ide_def the_launcher_def the_server_def
      split: option.splits)

lemma set_chan_ticks [simp]: "w_ticks (set_chan p ch w) = w_ticks w"
  by (cases p) (auto simp: set_chan_def upd_ide_def upd_launcher_def upd_session_def upd_conn_def split: option.splits)

lemma on_chan:
  "has_chan p ch w \<Longrightarrow> on p m w = (case m ch of
     (Inl e, ch') \<Rightarrow> (Inl (Raised e), set_chan p ch' w) | (Inr x, ch') \<Rightarrow> (Inr x, set_chan p ch' w))"
  by (auto simp: on_def has_chan_def andthen_def throw_def split: prod.split sum.split)

lemma on_no_chan: "the_chan p w = (Inl e, w) \<Longrightarrow> on p m w = (Inl e, w)"
  by (simp add: on_def andthen_def)

text \<open>A request that is sent and waited for.\<close>

lemma send_request_pending:
  assumes "write_failure ch = None"
  obtains s where "send_request command args ch = (Inr (ch_fresh ch), s)"
    "ch_outreqs s (ch_fresh ch) =
       Some \<lparr>o_seq = ch_next_seq ch, o_command = command, o_args = args, o_response = None, o_handlers = []\<rparr>"
    "map_of (ch_sent s) (ch_next_seq ch) = Some (ch_fresh ch)"
  using assms that [of "snd (send_request command args ch)"]
  by (simp only: send_request_cases option.case snd_conv) (simp add: registered_simps)

lemma request_wait_answered:
  assumes "request_wait E p command args w = (Inr m, w')"
  shows "\<exists>x. env_reply E (w_ticks w) p command args = Answer x \<and> payload_value m = body_value x"
proof -
  from assms obtain ch where ch: "has_chan p ch w"
    using the_chan_cases [of p w] by (auto simp: request_wait_def andthen_def on_no_chan)
  have "write_failure ch = None"
    using assms by (auto simp: request_wait_def andthen_def on_chan [OF ch] send_request_cases split: option.splits)
  then obtain s where sent: "send_request command args ch = (Inr (ch_fresh ch), s)"
    and q: "ch_outreqs s (ch_fresh ch) =
       Some \<lparr>o_seq = ch_next_seq ch, o_command = command, o_args = args, o_response = None, o_handlers = []\<rparr>"
    and k: "map_of (ch_sent s) (ch_next_seq ch) = Some (ch_fresh ch)"
    by (rule send_request_pending)
  define w1 where "w1 = set_chan p s w"
  define w2 where "w2 = (set_chan p s w1)\<lparr>w_ticks := Suc (w_ticks w)\<rparr>"
  define r where "r = env_reply E (w_ticks w) p command args"
  obtain u t where recv: "receive_reply (ch_fresh ch) r s = (u, t)" by (cases "receive_reply (ch_fresh ch) r s") auto
  define w3 where "w3 = set_chan p t w2"
  have c1: "has_chan p s w1" unfolding w1_def using ch by (rule has_chan_set)
  have c2: "has_chan p s w2" unfolding w2_def using has_chan_set [OF c1] by (rule has_chan_tick)
  have c3: "has_chan p t w3" unfolding w3_def using c2 by (rule has_chan_set)
  have "wait_for_response E p (ch_fresh ch) w1 = (Inr m, w')"
    using assms by (simp add: request_wait_def andthen_def on_chan [OF ch] sent w1_def)
  moreover have "on p (gets (\<lambda>s. ch_outreqs s (ch_fresh ch))) w1 = (Inr (ch_outreqs s (ch_fresh ch)), set_chan p s w1)"
    by (simp add: on_chan [OF c1])
  moreover have "tick (set_chan p s w1) = (Inr (w_ticks w), w2)"
    by (simp add: tick_def w2_def w1_def)
  ultimately have rest: "andthen (on p (receive_reply (ch_fresh ch) r)) (\<lambda>_.
      andthen (on p (gets (\<lambda>s. Option.bind (ch_outreqs s (ch_fresh ch)) o_response))) (\<lambda>resp.
        case resp of None \<Rightarrow> raise Blocked
        | Some m \<Rightarrow> (case response_result m of Inl e \<Rightarrow> throw e | Inr _ \<Rightarrow> ret m))) w2 = (Inr m, w')"
    by (simp add: wait_for_response_def andthen_def q r_def)
  then obtain u' where "u = Inr u'" by (cases u) (auto simp: andthen_def on_chan [OF c2] recv)
  with rest have "(case Option.bind (ch_outreqs t (ch_fresh ch)) o_response of None \<Rightarrow> raise Blocked
      | Some m \<Rightarrow> (case response_result m of Inl e \<Rightarrow> throw e | Inr _ \<Rightarrow> ret m)) (set_chan p t w3) = (Inr m, w')"
    by (simp add: andthen_def on_chan [OF c2] recv flip: w3_def) (simp add: on_chan [OF c3])
  then obtain q' v where "ch_outreqs t (ch_fresh ch) = Some q'" "o_response q' = Some m" "response_result m = Inr v"
    by (auto simp: throw_def bind_eq_Some_conv split: option.splits sum.splits)
  then show ?thesis
    using received_reply [OF q, of r q' m v] k recv by (auto simp: r_def)
qed

section \<open>Authentication\<close>

text \<open>What the other components can see of a connection that is being made.\<close>

definition unseen :: "world \<Rightarrow> nat \<Rightarrow> world \<Rightarrow> bool" where
  "unseen w0 c w \<longleftrightarrow> w_session w = w_session w0 \<and> w_connections w = w_connections w0 \<and>
     w_registered w = w_registered w0 \<and> cn_pid (w_conn w c) = cn_pid (w_conn w0 c)"

lemma unseen_on [kept]: "keeps (unseen w0 c) (on (Conn c) m)"
  by (auto simp: keeps_pointwise unseen_def on_def the_chan_def andthen_def throw_def set_chan_def upd_conn_def
      split: prod.split sum.split)

lemma unseen_basic [kept]: "keeps (unseen w0 c) tick" "keeps (unseen w0 c) dont_wait_for_first_connection"
  by (simp_all add: keeps_pointwise unseen_def tick_def dont_wait_for_first_connection_def)

lemma unseen_request: "keeps (unseen w0 c) (request_wait E (Conn c) command args)"
  unfolding request_wait_def wait_for_response_def by (intro kept)

lemma unseen_authenticate: "keeps (unseen w0 c) (authenticate E c)"
  unfolding authenticate_def item_of_def by (intro kept unseen_request)

text \<open>An answer to "pydevdAuthorize" that shows the adapter's token.\<close>

definition shows_token :: "env \<Rightarrow> jv \<Rightarrow> bool" where
  "shows_token E v \<longleftrightarrow>
     (case v of JObj d \<Rightarrow> map_of d ''clientAccessToken'' = Some (optional_str (env_adapter_token E)) | _ \<Rightarrow> False)"

definition authorized :: "env \<Rightarrow> nat \<Rightarrow> nat \<Rightarrow> bool" where
  "authorized E n c \<longleftrightarrow> (env_server_token E = None \<and> env_adapter_token E = None) \<or>
     (\<exists>v. env_reply E n (Conn c) ''pydevdAuthorize''
            (JObj [(''debugServerAccessToken'', optional_str (env_server_token E))]) = Answer v \<and> shows_token E v)"

lemma authenticate_authorized:
  assumes "authenticate E c w = (Inr (), w')"
  shows "authorized E (w_ticks w) c"
proof (cases "env_server_token E = None \<and> env_adapter_token E = None")
  case False
  let ?args = "JObj [(''debugServerAccessToken'', optional_str (env_server_token E))]"
  from assms False obtain m w1 where m: "request_wait E (Conn c) ''pydevdAuthorize'' ?args w = (Inr m, w1)"
    by (auto simp: authenticate_def andthen_def split: prod.splits sum.splits)
  from request_wait_answered [OF m] obtain x
    where x: "env_reply E (w_ticks w) (Conn c) ''pydevdAuthorize'' ?args = Answer x" "payload_value m = body_value x"
    by blast
  have closing: "andthen (on (Conn c) channel_close) (\<lambda>_. throw e) w2 \<noteq> (Inr x, w3)" for e w2 w3 and x :: unit
    by (auto simp: andthen_def throw_def split: prod.split sum.split)
  obtain u w2 where item: "item_of (Conn c) m ''clientAccessToken'' w1 = (u, w2)" by fastforce
  have "authenticate E c w = (case u of Inl e \<Rightarrow> (Inl e, w2)
      | Inr token \<Rightarrow> (if token = optional_str (env_adapter_token E) then ret ()
          else andthen (on (Conn c) channel_close) (\<lambda>_. throw (RuntimeError
            ''Mismatched \"clientAccessToken\"; server not authorized.''))) w2)"
    using False m item by (auto simp: authenticate_def andthen_def)
  with assms closing have "u = Inr (optional_str (env_adapter_token E))"
    by (auto split: sum.splits if_splits)
  with item obtain d where d: "payload_value m = JObj d" "map_of d ''clientAccessToken'' = Some (optional_str (env_adapter_token E))"
    by (auto simp: item_of_def throw_def on_def the_chan_def andthen_def md_getitem_def raise_invalid_def
        split: jv.splits option.splits prod.splits sum.splits)
  have "shows_token E x"
    using x(2) d by (cases x) (auto simp: shows_token_def body_value_def)
  with x(1) show ?thesis by (auto simp: authorized_def)
qed (simp add: authorized_def)

end
