(* ===== verification/AdapterFacts.thy ===== *)
theory AdapterFacts
  imports AdapterRequests
begin

text \<open>
  Properties of the adapter: what its registries always satisfy, how events and requests of a
  session are answered, and how sessions begin and end.
\<close>

section \<open>A run of the adapter\<close>

text \<open>
  An environment in which every debug server answers, nothing else happens in the meantime,
  and tokens are not in use; and the messages of a client that initializes and attaches.
\<close>

definition demo_reply :: "nat \<Rightarrow> party \<Rightarrow> string \<Rightarrow> jv \<Rightarrow> reply" where
  "demo_reply n p command arguments =
    Answer (if command = ''pydevdSystemInfo''
            then JObj [(''process'', JObj [(''pid'', JInt (40 + int n)), (''ppid'', JInt 1)])] else JObj [])"

definition demo_env :: env where
  "demo_env = \<lparr>env_reply = demo_reply, env_meanwhile = (\<lambda>n w. w), env_spawn = (\<lambda>n args. None),
     env_accept = (\<lambda>n. None), env_launcher_port = (\<lambda>n. 5000 + n), env_stream_name = (\<lambda>n. ''stream''),
     env_windows = False, env_executable = ''python'', env_launcher_dir = ''launcher'', env_ptvsd_dir = ''ptvsd'',
     env_inject_code = ''import ptvsd'', env_log_variables = [], env_ide_port = 5678,
     env_server_host = ''127.0.0.1'', env_server_port = 5679, env_adapter_token = None,
     env_server_token = None, env_version = ''5.0''\<rparr>"

lemma demo_concurrent: "concurrent demo_env"
  by (rule concurrent.intros) (simp add: demo_env_def)

text \<open>A run none of whose steps ends the process.\<close>

fun alive :: "env \<Rightarrow> adapter_op list \<Rightarrow> world \<Rightarrow> bool" where
  "alive E [] w \<longleftrightarrow> True"
| "alive E (x # xs) w \<longleftrightarrow> (case op_act E x w of (r, w') \<Rightarrow> r \<noteq> Inl Exited \<and> alive E xs w')"

lemma alive_reachable: "concurrent E \<Longrightarrow> adapter_reachable w \<Longrightarrow> alive E xs w \<Longrightarrow> adapter_reachable (run_ops E xs w)"
proof (induction xs arbitrary: w)
  case (Cons x xs)
  obtain r w' where x: "op_act E x w = (r, w')" by (cases "op_act E x w") auto
  with Cons.prems have "adapter_step w w'" unfolding adapter_step_def by auto
  with Cons.prems(2) have "adapter_reachable w'" by (rule reachable_step)
  with Cons x show ?case by auto
qed simp

text \<open>Two clients connect.\<close>

definition demo_world :: world where
  "demo_world = run_ops demo_env [IdeConnects, IdeConnects] new_world"

lemma demo_alive: "alive demo_env [IdeConnects, IdeConnects] new_world"
  by code_simp

lemma demo_reachable: "adapter_reachable demo_world"
  unfolding demo_world_def
  by (rule alive_reachable [OF demo_concurrent reachable_init demo_alive]) (rule refl)

section \<open>Registries\<close>





text \<open>
  A session is registered once, and only while its IDE, its launcher or its server is
  connected: \<open>wait_until_ended\<close>, which waits until none is registered, misses no end of a session.
\<close>

theorem registered_sessions_live:
  assumes "adapter_reachable w"
  shows "distinct (w_registered w) \<and>
         (\<forall>sid \<in> set (w_registered w).
            (\<exists>i. ss_ide (w_session w sid) = Some i \<and> ide_connected i) \<or>
            (\<exists>l. ss_launcher (w_session w sid) = Some l \<and> la_connected l) \<or>
            (\<exists>v. ss_server (w_session w sid) = Some v \<and> sv_connected v))"
  using adapter_invariant [OF assms]
  unfolding adapter_inv_def registered_live_def all_disconnected_def
  by (fastforce split: option.splits)

theorem registered_sessions_live_witness:
  "w_registered demo_world = [1, 2] \<and>
   ((\<exists>i. ss_ide (w_session demo_world 2) = Some i \<and> ide_connected i) \<or>
    (\<exists>l. ss_launcher (w_session demo_world 2) = Some l \<and> la_connected l) \<or>
    (\<exists>v. ss_server (w_session demo_world 2) = Some v \<and> sv_connected v))"
proof -
  have "w_registered demo_world = [1, 2]" by code_simp
  with registered_sessions_live [OF demo_reachable] show ?thesis by auto
qed

section \<open>Operations on the channel of the IDE\<close>

definition with_ide :: "nat \<Rightarrow> ide \<Rightarrow> world \<Rightarrow> world" where
  "with_ide sid i = upd_session sid (\<lambda>s. s\<lparr>ss_ide := Some i\<rparr>)"

lemma with_ide_simps [simp]:
  "ss_ide (w_session (with_ide sid i w) sid) = Some i"
  "with_ide sid i (with_ide sid j w) = with_ide sid i w"
  "ss_launcher (w_session (with_ide sid i w) sid') = ss_launcher (w_session w sid')"
  "ss_server (w_session (with_ide sid i w) sid') = ss_server (w_session w sid')"
  by (auto simp: with_ide_def upd_session_def)

lemma with_ide_same: "ss_ide (w_session w sid) = Some i \<Longrightarrow> with_ide sid i w = w"
  by (cases w) (auto simp: with_ide_def upd_session_def fun_eq_iff)

lemma upd_ide_with: "ss_ide (w_session w sid) = Some i \<Longrightarrow> upd_ide sid f w = with_ide sid (f i) w"
  by (simp add: upd_ide_def with_ide_def upd_session_def)

lemma on_ide:
  assumes "ss_ide (w_session w sid) = Some i"
  shows "on (Ide sid) m w =
    (case m (ide_chan i) of
       (Inl e, ch) \<Rightarrow> (Inl (Raised e), with_ide sid (i\<lparr>ide_chan := ch\<rparr>) w)
     | (Inr x, ch) \<Rightarrow> (Inr x, with_ide sid (i\<lparr>ide_chan := ch\<rparr>) w))"
  using assms
  by (auto simp: on_def the_chan_def the_ide_def andthen_def throw_def set_chan_def upd_ide_with
      split: prod.split sum.split)

section \<open>Deferred events\<close>

definition event_dict :: "message \<Rightarrow> (string, jv) odict" where
  "event_dict e = [(''type'', JStr ''event''), (''event'', JStr (msg_name e))] @
     optional_member ''body'' (payload_value e)"

definition is_event :: "message \<Rightarrow> bool" where
  "is_event e \<longleftrightarrow> msg_kind e = MEvent \<and> (case msg_body e of Payload _ \<Rightarrow> True | Failure _ \<Rightarrow> False)"

fun numbered :: "int \<Rightarrow> message list \<Rightarrow> (string, jv) odict list" where
  "numbered n [] = []"
| "numbered n (e # es) = sealed (event_dict e) n # numbered (n + 1) es"

definition wrote :: "message list \<Rightarrow> chan \<Rightarrow> chan" where
  "wrote es ch = ch\<lparr>ch_next_seq := ch_next_seq ch + int (length es),
     ch_written := ch_written ch @ numbered (ch_next_seq ch) es\<rparr>"

lemma wrote_simps [simp]:
  "wrote [] ch = ch" "write_failure (wrote es ch) = write_failure ch"
  "ch_written (wrote es ch) = ch_written ch @ numbered (ch_next_seq ch) es"
  by (simp_all add: wrote_def write_failure_def)

lemma wrote_Cons: "wrote es (wrote [e] ch) = wrote (e # es) ch"
  by (simp add: wrote_def)

lemma propagate_event:
  assumes "is_event e" and "write_failure ch = None"
  shows "propagate e ch = (Inr None, wrote [e] ch)"
  using assms
  by (auto simp: propagate_def is_event_def send_event_def send_message_def andthen_def next_seq_def
      write_message_cases wrote_def event_dict_def payload_value_def optional_member_def od_keys_def
      split: body.splits)

text \<open>The events of the launcher and the server, one after the other.\<close>

definition offer :: "nat \<Rightarrow> message list \<Rightarrow> world \<Rightarrow> world" where
  "offer sid es w = fold (\<lambda>e w. snd (propagate_after_start sid e w)) es w"

lemma offer_deferred:
  assumes "ss_ide (w_session w sid) = Some i" and "ide_deferred i = Some ds"
  shows "offer sid es w = with_ide sid (i\<lparr>ide_deferred := Some (ds @ es)\<rparr>) w"
  using assms
proof (induction es arbitrary: w i ds)
  case Nil
  then show ?case by (simp add: offer_def with_ide_same)
next
  case (Cons e es)
  then have "snd (propagate_after_start sid e w) = with_ide sid (i\<lparr>ide_deferred := Some (ds @ [e])\<rparr>) w"
    by (simp add: propagate_after_start_def the_ide_def andthen_def upd_ide_with)
  then show ?case
    using Cons.IH [of "with_ide sid (i\<lparr>ide_deferred := Some (ds @ [e])\<rparr>) w"] by (simp add: offer_def)
qed

lemma offer_direct:
  assumes "ss_ide (w_session w sid) = Some i" and "ide_deferred i = None"
    and "list_all is_event es" and "write_failure (ide_chan i) = None"
  shows "offer sid es w = with_ide sid (i\<lparr>ide_chan := wrote es (ide_chan i)\<rparr>) w"
  using assms
proof (induction es arbitrary: w i)
  case Nil
  then show ?case by (simp add: offer_def with_ide_same)
next
  case (Cons e es)
  then have "snd (propagate_after_start sid e w) = with_ide sid (i\<lparr>ide_chan := wrote [e] (ide_chan i)\<rparr>) w"
    by (simp add: propagate_after_start_def the_ide_def andthen_def on_ide propagate_event)
  with Cons show ?case
    using Cons.IH [of "with_ide sid (i\<lparr>ide_chan := wrote [e] (ide_chan i)\<rparr>) w"] by (simp add: offer_def wrote_Cons)
qed

lemma propagate_all_events:
  assumes "ss_ide (w_session w sid) = Some i" and "list_all is_event es" and "write_failure (ide_chan i) = None"
  shows "propagate_all sid es w = (Inr (), with_ide sid (i\<lparr>ide_chan := wrote es (ide_chan i)\<rparr>) w)"
  using assms
proof (induction es arbitrary: w i)
  case Nil
  then show ?case by (simp add: with_ide_same)
next
  case (Cons e es)
  then show ?case
    using Cons.IH [of "with_ide sid (i\<lparr>ide_chan := wrote [e] (ide_chan i)\<rparr>) w"]
    by (simp add: andthen_def on_ide propagate_event wrote_Cons)
qed

text \<open>
  C15: The events that the launcher and the debug server send before the IDE has its answer to
  "launch" or "attach" are kept back: nothing is written. When the answer has been sent they
  are written, all of them, once each and in the order they came, and the events that come
  later follow them directly.
\<close>

theorem deferred_events_in_order:
  assumes "ss_ide (w_session w sid) = Some i" and "ide_deferred i = Some []"
    and "write_failure (ide_chan i) = None" and "list_all is_event (early @ late)"
  shows "(let w1 = offer sid early w;
              (r, w2) = propagate_deferred_events sid w1;
              w3 = offer sid late w2;
              wire = (\<lambda>w. map_option (\<lambda>i. ch_written (ide_chan i)) (ss_ide (w_session w sid)))
          in r = Inr () \<and> wire w1 = wire w \<and>
             wire w2 = Some (ch_written (ide_chan i) @ numbered (ch_next_seq (ide_chan i)) early) \<and>
             wire w3 = Some (ch_written (ide_chan i) @ numbered (ch_next_seq (ide_chan i)) (early @ late)))"
proof -
  let ?j = "i\<lparr>ide_chan := wrote early (ide_chan i), ide_deferred := None\<rparr>"
  have numbered: "numbered n (early @ late) = numbered n early @ numbered (n + int (length early)) late" for n
    by (induction early arbitrary: n) (simp_all add: add.assoc)
  have 1: "offer sid early w = with_ide sid (i\<lparr>ide_deferred := Some early\<rparr>) w"
    using offer_deferred [OF assms(1,2)] by simp
  have 2: "propagate_deferred_events sid (offer sid early w) = (Inr (), with_ide sid ?j w)"
    using assms unfolding 1
    by (simp add: propagate_deferred_events_def the_ide_def andthen_def propagate_all_events upd_ide_with)
  have 3: "offer sid late (with_ide sid ?j w) = with_ide sid (?j\<lparr>ide_chan := wrote late (wrote early (ide_chan i))\<rparr>) w"
    using assms offer_direct [of "with_ide sid ?j w" sid ?j late] by simp
  show ?thesis
    unfolding Let_def 2 prod.case 3 unfolding 1 using assms(1) by (simp add: numbered) (simp add: wrote_def)
qed

definition demo_event :: "string \<Rightarrow> message" where
  "demo_event name = \<lparr>msg_id = 0, msg_kind = MEvent, msg_seq = JInt 1, msg_name = name,
     msg_body = Payload (JObj []), msg_request = None\<rparr>"

theorem deferred_events_in_order_witness:
  "(let w = with_ide 1 (new_ide 7) new_world;
        w1 = offer 1 [demo_event ''process'', demo_event ''output''] w;
        (r, w2) = propagate_deferred_events 1 w1;
        w3 = offer 1 [demo_event ''stopped''] w2
    in r = Inr () \<and> map_option (\<lambda>i. ch_written (ide_chan i)) (ss_ide (w_session w3 1)) =
         Some (numbered 1 [demo_event ''process'', demo_event ''output'', demo_event ''stopped'']))"
  using deferred_events_in_order [of "with_ide 1 (new_ide 7) new_world" 1 "new_ide 7"
      "[demo_event ''process'', demo_event ''output'']" "[demo_event ''stopped'']"]
  by (simp add: Let_def new_ide_def write_failure_def started_channel_def new_channel_def is_event_def
      demo_event_def case_prod_unfold)

section \<open>Rejected requests\<close>

text \<open>The answered channel of a request: \<open>m\<close> has got the failure \<open>e\<close>.\<close>

definition failed :: "message \<Rightarrow> exn \<Rightarrow> chan \<Rightarrow> chan" where
  "failed m e ch = ch\<lparr>ch_next_seq := ch_next_seq ch + 1,
     ch_written := ch_written ch @ [sealed (response_dict m (Failure e)) (ch_next_seq ch)],
     ch_responses := (ch_responses ch)(msg_id m \<mapsto> Failure e)\<rparr>"

definition unanswered :: "message \<Rightarrow> ide \<Rightarrow> bool" where
  "unanswered m i \<longleftrightarrow> msg_kind m = MRequest \<and> ch_responses (ide_chan i) (msg_id m) = None \<and>
     write_failure (ide_chan i) = None"

lemma rejecting:
  assumes "ss_ide (w_session w sid) = Some i" and "unanswered m i"
  shows "on (Ide sid) (message_error k reason m) w =
    (Inr (Handling k reason (Some (msg_id m)) 0),
     with_ide sid (i\<lparr>ide_chan := failed m (Handling k reason (Some (msg_id m)) 0) (ide_chan i)\<rparr>) w)"
  using assms by (simp add: on_ide unanswered_def message_error_def andthen_def respond_cases failed_def Let_def)

text \<open>
  A handler that rejects its request has answered it with one exception object, and
  \<open>message_handler\<close> passes another one on: its assertion fails, and with it the process ends.
\<close>

lemma rejected_request_exits:
  assumes table: "t (msg_name m @ ''_request'') = Some h" and h: "h = message_handler E (Ide sid) f"
    and f: "f m w = (Inl (Raised (Handling k reason (Some (msg_id m)) 0)), with_ide sid j w)"
    and m: "msg_kind m = MRequest" "ch_responses (ide_chan j) (msg_id m) = Some (Failure (Handling k reason (Some (msg_id m)) 0))"
  shows "dispatch (Ide sid) t m w = (Inl Exited, with_ide sid (j\<lparr>ide_chan := (ide_chan j)\<lparr>ch_closed := True\<rparr>\<rparr>) w)"
proof -
  let ?w = "with_ide sid j w"
  have "h m w = (Inl (Raised (Handling k reason (Some (msg_id m)) 1)), ?w)"
    using f by (simp add: h message_handler_def catching_def attempt_def andthen_def throw_def propagated_def)
  moreover have "on (Ide sid) (finish_result m (RError (Handling k reason (Some (msg_id m)) 1))) ?w =
      (Inl (Raised (AssertionError ''must not return a response body'')), ?w)"
    using m(2) by (simp add: on_ide finish_result_def returns_response_def)
  ultimately have "dispatch_request (Ide sid) t m w =
      (Inl (Raised (AssertionError ''must not return a response body'')), ?w)"
    using table
    by (simp add: dispatch_request_def find_handler_def andthen_def catching_def attempt_def
        handled_failure_def is_handling_def applies_to_def)
  then show ?thesis
    using m(1)
    by (simp add: dispatch_def run_handler_def catching_def attempt_def andthen_def ignoring_def
        on_ide channel_close_def)
qed

text \<open>
  A second "initialize" request of the same session is answered with the failure "Session is
  already initialized", as intended, and then the adapter process exits: the exception that
  \<open>isnt_valid\<close> made is propagated to the request that already is its cause, which makes another
  one, and \<open>Request._handle\<close> asserts that the handler's result is the one sent. Every
  request that a decorated handler rejects with \<open>raise request.isnt_valid\<close> or \<open>cant_handle\<close> ends so.
\<close>

theorem second_initialize_exits:
  assumes "ss_ide (w_session w sid) = Some i" and "ide_initialize_request i \<noteq> None"
    and "unanswered m i" and "msg_name m = ''initialize''"
  shows "\<exists>w' j. dispatch (Ide sid) (ide_table E sid) m w = (Inl Exited, w') \<and>
    ss_ide (w_session w' sid) = Some j \<and>
    ch_written (ide_chan j) = ch_written (ide_chan i) @
      [sealed (response_dict m (Failure (Handling InvalidMessageError ''Session is already initialized''
          (Some (msg_id m)) 0))) (ch_next_seq (ide_chan i))]"
proof -
  let ?e = "Handling InvalidMessageError ''Session is already initialized'' (Some (msg_id m)) 0"
  have "dispatch (Ide sid) (ide_table E sid) m w =
      (Inl Exited, with_ide sid ((i\<lparr>ide_chan := failed m ?e (ide_chan i)\<rparr>)
         \<lparr>ide_chan := (failed m ?e (ide_chan i))\<lparr>ch_closed := True\<rparr>\<rparr>) w)"
    using assms rejecting [OF assms(1,3)]
    by (subst rejected_request_exits [of _ _ "initialize_request E sid" E sid "initialize_body sid" w InvalidMessageError
          "''Session is already initialized''" "i\<lparr>ide_chan := failed m ?e (ide_chan i)\<rparr>"])
      (auto simp: initialize_request_def ide_table_def initialize_body_def the_ide_def andthen_def raise_isnt_valid_def throw_def unanswered_def failed_def)
  then show ?thesis by (simp add: failed_def)
qed

definition client_request :: "nat \<Rightarrow> string \<Rightarrow> (string, jv) odict \<Rightarrow> message" where
  "client_request i command arguments =
    \<lparr>msg_id = i, msg_kind = MRequest, msg_seq = JInt (int i), msg_name = command,
     msg_body = Payload (JObj arguments), msg_request = None\<rparr>"

definition initialized_ide :: ide where
  "initialized_ide = (new_ide 7)\<lparr>ide_initialize_request := Some (client_request 1 ''initialize'' [])\<rparr>"

theorem second_initialize_exits_witness:
  "fst (dispatch (Ide 1) (ide_table demo_env 1) (client_request 2 ''initialize'' [])
     (with_ide 1 initialized_ide new_world)) = Inl Exited"
  using second_initialize_exits [of "with_ide 1 initialized_ide new_world" 1 initialized_ide
      "client_request 2 ''initialize'' []" demo_env]
  by (auto simp: initialized_ide_def new_ide_def unanswered_def client_request_def write_failure_def
      started_channel_def new_channel_def)

section \<open>Capabilities and initialize\<close>

definition capability_ok :: "(string, jv) odict \<Rightarrow> string \<times> vspec \<Rightarrow> bool" where
  "capability_ok d p \<longleftrightarrow> (\<exists>v. capability_validator (snd p) (md_get d (fst p)) = Inr v \<and> v \<noteq> Missing)"

definition capability_value :: "(string, jv) odict \<Rightarrow> string \<times> vspec \<Rightarrow> jv" where
  "capability_value d p = (case capability_validator (snd p) (md_get d (fst p)) of Inr v \<Rightarrow> v | Inl _ \<Rightarrow> Missing)"

definition capability_members :: "(string, jv) odict \<Rightarrow> (string \<times> vspec) list \<Rightarrow> (string, jv) odict" where
  "capability_members d ps = map (\<lambda>p. (fst p, capability_value d p)) ps"

lemma capabilities_of_ok:
  assumes "list_all (capability_ok d) ps" and "distinct (map fst caps @ map fst ps)"
  shows "capabilities_of ps d m caps s = (Inr (caps @ capability_members d ps), s)"
  using assms
proof (induction ps arbitrary: caps)
  case Nil
  then show ?case by (simp add: capability_members_def)
next
  case (Cons p ps)
  obtain name validate where p: "p = (name, validate)" by (cases p)
  obtain v where v: "capability_validator validate (md_get d name) = Inr v" "v \<noteq> Missing"
    using Cons.prems(1) p by (auto simp: capability_ok_def)
  from Cons.prems p have "od_set name v caps = caps @ [(name, v)]"
    by (intro od_set_absent) (auto simp: od_keys_def)
  moreover have "capabilities_of ps d m (caps @ [(name, v)]) s = (Inr (caps @ (name, v) # capability_members d ps), s)"
    using Cons.IH [of "caps @ [(name, v)]"] Cons.prems p by simp
  ultimately show ?case using p v by (simp add: capability_members_def capability_value_def)
qed

text \<open>The first member that is not valid makes the error.\<close>

lemma capabilities_of_bad:
  assumes "\<not> list_all (capability_ok d) ps"
  shows "\<exists>reason. capabilities_of ps d m caps s = andthen (isnt_valid reason m) raise s \<or>
    capabilities_of ps d m caps s = (Inl (AssertionError reason), s)"
  using assms
proof (induction ps arbitrary: caps)
  case (Cons p ps)
  obtain name validate where p: "p = (name, validate)" by (cases p)
  show ?case
  proof (cases "capability_validator validate (md_get d name)")
    case (Inl e)
    then show ?thesis unfolding p capabilities_of.simps by (intro exI disjI1) (simp only: sum.case)
  next
    case (Inr v)
    show ?thesis
    proof (cases "v = Missing")
      case True
      with Inr show ?thesis unfolding p by (intro exI disjI2) simp
    next
      case False
      with Inr p have "capability_ok d p" by (auto simp: capability_ok_def)
      with Cons.prems have "\<not> list_all (capability_ok d) ps" by simp
      from Cons.IH [OF this] show ?thesis
        unfolding p capabilities_of.simps Inr sum.case if_not_P [OF False] .
    qed
  qed
qed simp

text \<open>
  C17: The capabilities of a component hold exactly the declared properties, in their order, with
  for each the member of the message that its validator accepted, or its default, and never
  the marker of a missing value; and they are made exactly when every validator accepts.
\<close>

theorem parse_capabilities_spec:
  assumes "distinct (map fst ps)" and "msg_body m = Payload (JObj d)"
  shows "(fst (parse_capabilities ps m s) = Inr caps) \<longleftrightarrow>
    list_all (capability_ok d) ps \<and> caps = capability_members d ps"
proof (cases "list_all (capability_ok d) ps")
  case True
  with capabilities_of_ok [of d ps "[]" m s] assms show ?thesis
    by (auto simp: parse_capabilities_def)
next
  case False
  from capabilities_of_bad [OF this, of m "[]" s] obtain reason
    where "capabilities_of ps d m [] s = andthen (isnt_valid reason m) raise s \<or>
      capabilities_of ps d m [] s = (Inl (AssertionError reason), s)" by blast
  then show ?thesis
  proof
    assume "capabilities_of ps d m [] s = andthen (isnt_valid reason m) raise s"
    then show ?thesis using False assms(2) by (auto simp: parse_capabilities_def andthen_def split: prod.splits sum.splits)
  next
    assume "capabilities_of ps d m [] s = (Inl (AssertionError reason), s)"
    then show ?thesis using False assms(2) by (simp add: parse_capabilities_def)
  qed
qed

theorem parse_capabilities_spec_witness:
  "fst (parse_capabilities ide_capability_properties
      (client_request 1 ''initialize'' [(''supportsVariableType'', JBool True)]) (new_channel 0)) =
    Inr [(''supportsVariableType'', JBool True), (''supportsVariablePaging'', JBool False),
         (''supportsRunInTerminalRequest'', JBool False), (''supportsMemoryReferences'', JBool False)]"
  by (subst parse_capabilities_spec [where d = "[(''supportsVariableType'', JBool True)]"])
    (simp_all add: ide_capability_properties_def off_def client_request_def capability_ok_def
      capability_members_def capability_value_def capability_validator_def md_get_def default_def is_subclass_def)

text \<open>An "initialize" request that the IDE component can take.\<close>

definition valid_initialize :: "(string, jv) odict \<Rightarrow> bool" where
  "valid_initialize d \<longleftrightarrow>
    (\<forall>name \<in> {''supportsVariableType'', ''supportsVariablePaging'', ''supportsRunInTerminalRequest'',
               ''supportsMemoryReferences'', ''linesStartAt1'', ''columnsStartAt1''}.
       md_get d name = Missing \<or> (\<exists>b. md_get d name = JBool b)) \<and>
    (md_get d ''locale'' = Missing \<or> (\<exists>t. md_get d ''locale'' = JStr t)) \<and>
    md_get d ''pathFormat'' = JStr ''path''"

lemma valid_initialize_capabilities:
  "valid_initialize d \<longleftrightarrow>
     list_all (capability_ok d) ide_capability_properties \<and> list_all (capability_ok d) ide_expectation_properties"
proof -
  have bool: "capability_ok d (name, VConst (JBool b)) \<longleftrightarrow> md_get d name = Missing \<or> (\<exists>b. md_get d name = JBool b)" for name b
    by (cases "md_get d name") (auto simp: capability_ok_def capability_validator_def default_def is_subclass_def)
  have str: "capability_ok d (name, VConst (JStr t)) \<longleftrightarrow> md_get d name = Missing \<or> (\<exists>t. md_get d name = JStr t)" for name t
    by (cases "md_get d name") (auto simp: capability_ok_def capability_validator_def default_def is_subclass_def)
  have path: "capability_ok d (name, VFn (enum [JStr t] False)) \<longleftrightarrow> md_get d name = JStr t" for name t
    by (cases "md_get d name") (auto simp: capability_ok_def capability_validator_def enum_def py_in_def)
  show ?thesis
    by (simp add: valid_initialize_def ide_capability_properties_def ide_expectation_properties_def off_def
        bool str path) blast
qed

definition answered_initialize :: "message \<Rightarrow> (string, jv) odict \<Rightarrow> ide \<Rightarrow> ide" where
  "answered_initialize m d i = i\<lparr>
     ide_client_id := md_get d ''clientID'',
     ide_capabilities := capability_members d ide_capability_properties,
     ide_expectations := capability_members d ide_expectation_properties,
     ide_initialize_request := Some m,
     ide_chan := (ide_chan i)\<lparr>ch_next_seq := ch_next_seq (ide_chan i) + 1,
       ch_written := ch_written (ide_chan i) @
         [sealed (response_dict m (Payload adapter_capabilities)) (ch_next_seq (ide_chan i))],
       ch_responses := (ch_responses (ide_chan i))(msg_id m \<mapsto> Payload adapter_capabilities)\<rparr>\<rparr>"

lemma parse_on_ide:
  assumes i: "ss_ide (w_session w sid) = Some i" and m: "msg_body m = Payload (JObj d)"
    and ps: "list_all (capability_ok d) ps" "distinct (map fst ps)"
  shows "on (Ide sid) (parse_capabilities ps m) w = (Inr (capability_members d ps), w)"
  using capabilities_of_ok [of d ps "[]" m "ide_chan i"] assms
  by (simp add: on_ide parse_capabilities_def with_ide_same)

text \<open>The exceptions after which the process ends.\<close>

definition fatal :: "message \<Rightarrow> exn \<Rightarrow> ide \<Rightarrow> bool" where
  "fatal m e i \<longleftrightarrow> (\<exists>r. e = AssertionError r) \<or>
     (\<exists>k reason. e = Handling k reason (Some (msg_id m)) 0 \<and> ch_responses (ide_chan i) (msg_id m) = Some (Failure e))"

lemma parse_on_ide_bad:
  assumes i: "ss_ide (w_session w sid) = Some i" and m: "unanswered m i" "msg_body m = Payload (JObj d)"
    and ps: "\<not> list_all (capability_ok d) ps"
  obtains e j where "on (Ide sid) (parse_capabilities ps m) w = (Inl (Raised e), with_ide sid j w)" "fatal m e j"
proof -
  from capabilities_of_bad [OF ps, of m "[]" "ide_chan i"] obtain reason
    where "capabilities_of ps d m [] (ide_chan i) = andthen (isnt_valid reason m) raise (ide_chan i) \<or>
      capabilities_of ps d m [] (ide_chan i) = (Inl (AssertionError reason), ide_chan i)" by blast
  then show thesis
  proof
    let ?e = "Handling InvalidMessageError reason (Some (msg_id m)) 0"
    assume "capabilities_of ps d m [] (ide_chan i) = andthen (isnt_valid reason m) raise (ide_chan i)"
    with i m show thesis
      by (intro that [of ?e "i\<lparr>ide_chan := failed m ?e (ide_chan i)\<rparr>"])
        (auto simp: on_ide parse_capabilities_def message_error_def unanswered_def andthen_def respond_cases
          failed_def Let_def fatal_def)
  next
    assume "capabilities_of ps d m [] (ide_chan i) = (Inl (AssertionError reason), ide_chan i)"
    with i m show thesis
      by (intro that [of "AssertionError reason" i]) (auto simp: on_ide parse_capabilities_def fatal_def)
  qed
qed

lemma distinct_capability_names:
  "distinct (map fst ide_capability_properties)" "distinct (map fst ide_expectation_properties)"
  by (simp_all add: ide_capability_properties_def ide_expectation_properties_def)

lemma failing_handler_exits:
  assumes table: "t (msg_name m @ ''_request'') = Some h" and h: "h = message_handler E (Ide sid) f"
    and f: "f m w = (Inl (Raised e), with_ide sid j w)" and m: "msg_kind m = MRequest"
    and e: "fatal m e j"
  shows "fst (dispatch (Ide sid) t m w) = Inl Exited"
  using e unfolding fatal_def
proof (elim disjE exE conjE)
  fix r assume e: "e = AssertionError r"
  have "h m w = (Inl (Raised e), with_ide sid j w)"
    using f by (simp add: h e message_handler_def catching_def attempt_def throw_def)
  then have "dispatch_request (Ide sid) t m w = (Inl (Raised e), with_ide sid j w)"
    using table
    by (simp add: e dispatch_request_def find_handler_def andthen_def catching_def attempt_def
        handled_failure_def is_handling_def throw_def)
  then show ?thesis
    using m by (simp add: dispatch_def run_handler_def catching_def attempt_def andthen_def ignoring_def
        on_ide channel_close_def)
next
  fix k reason
  assume "e = Handling k reason (Some (msg_id m)) 0" "ch_responses (ide_chan j) (msg_id m) = Some (Failure e)"
  with rejected_request_exits [of t m h E sid f w k reason j] table h m f show ?thesis by simp
qed

text \<open>
  The first "initialize" request of a session is answered with the adapter's capabilities, and its
  client id, capabilities and expectations are kept for the server, exactly if its members are
  booleans and strings where they have to be and "pathFormat" is "path". Any other
  request, one without "pathFormat" as well, which is optional in the protocol, ends the process.
\<close>

theorem initialize_spec:
  assumes "ss_ide (w_session w sid) = Some i" and "ide_initialize_request i = None"
    and "unanswered m i" and "msg_name m = ''initialize''" and "msg_body m = Payload (JObj d)"
  shows "if valid_initialize d
    then dispatch (Ide sid) (ide_table E sid) m w = (Inr (), with_ide sid (answered_initialize m d i) w)
    else fst (dispatch (Ide sid) (ide_table E sid) m w) = Inl Exited"
proof -
  have client: "on (Ide sid) (msg_call m ''clientID'' (VConst (JStr [])) False) w = (Inr (md_get d ''clientID''), w)"
    using assms by (simp add: on_ide msg_call_def md_call_def resolve_validator_def any_value_def with_ide_same)
  let ?i1 = "i\<lparr>ide_client_id := md_get d ''clientID''\<rparr>"
  let ?i2 = "?i1\<lparr>ide_capabilities := capability_members d ide_capability_properties\<rparr>"
  let ?i3 = "?i2\<lparr>ide_expectations := capability_members d ide_expectation_properties, ide_initialize_request := Some m\<rparr>"
  have u: "unanswered m ?i1" "unanswered m ?i2" using assms(3) by (simp_all add: unanswered_def)
  have table: "ide_table E sid (msg_name m @ ''_request'') = Some (initialize_request E sid)"
    by (simp add: ide_table_def assms(4))
  note exits = failing_handler_exits [of "ide_table E sid" m "initialize_request E sid" E sid "initialize_body sid" w,
      OF table initialize_request_def]
  have request: "msg_kind m = MRequest" using assms(3) by (simp add: unanswered_def)
  note run = initialize_body_def the_ide_def andthen_def assms(1,2) client upd_ide_with
  show ?thesis
  proof (cases "valid_initialize d")
    case True
    then have "list_all (capability_ok d) ide_capability_properties" "list_all (capability_ok d) ide_expectation_properties"
      by (simp_all add: valid_initialize_capabilities)
    with parse_on_ide [of "with_ide sid ?i1 w" sid ?i1] parse_on_ide [of "with_ide sid ?i2 w" sid ?i2]
    have "initialize_request E sid m w = (Inr (RBody adapter_capabilities), with_ide sid ?i3 w)"
      using assms(5) distinct_capability_names
      by (simp add: initialize_request_def message_handler_def catching_def attempt_def run)
    then have "dispatch_request (Ide sid) (ide_table E sid) m w = (Inr (), with_ide sid (answered_initialize m d i) w)"
      using table assms(3)
      by (simp add: dispatch_request_def find_handler_def andthen_def catching_def attempt_def on_ide
          finish_result_def result_body_def respond_cases unanswered_def answered_initialize_def)
    then show ?thesis
      using True request by (simp add: dispatch_def run_handler_def catching_def attempt_def)
  next
    case False
    then consider (caps) "\<not> list_all (capability_ok d) ide_capability_properties"
      | (exps) "list_all (capability_ok d) ide_capability_properties" "\<not> list_all (capability_ok d) ide_expectation_properties"
      by (auto simp: valid_initialize_capabilities)
    then have "\<exists>e j. initialize_body sid m w = (Inl (Raised e), with_ide sid j w) \<and> fatal m e j"
    proof cases
      case caps
      show ?thesis
        by (rule parse_on_ide_bad [OF _ u(1) assms(5) caps, of "with_ide sid ?i1 w" sid]) (auto simp: run)
    next
      case exps
      show ?thesis
        by (rule parse_on_ide_bad [OF _ u(2) assms(5) exps(2), of "with_ide sid ?i2 w" sid])
          (auto simp: run parse_on_ide [of "with_ide sid ?i1 w" sid ?i1] assms(5) exps(1) distinct_capability_names)
    qed
    with exits request False show ?thesis by auto
  qed
qed

theorem initialize_spec_witness:
  "fst (dispatch (Ide 1) (ide_table demo_env 1) (client_request 1 ''initialize'' [(''pathFormat'', JStr ''path'')])
      (with_ide 1 (new_ide 7) new_world)) = Inr () \<and>
   fst (dispatch (Ide 1) (ide_table demo_env 1) (client_request 1 ''initialize'' [])
      (with_ide 1 (new_ide 7) new_world)) = Inl Exited"
proof -
  have ide: "ide_initialize_request (new_ide 7) = None"
    "unanswered (client_request 1 ''initialize'' d) (new_ide 7)"
    "msg_name (client_request 1 ''initialize'' d) = ''initialize''"
    "msg_body (client_request 1 ''initialize'' d) = Payload (JObj d)" for d
    by (simp_all add: new_ide_def unanswered_def client_request_def write_failure_def started_channel_def new_channel_def)
  have "valid_initialize [(''pathFormat'', JStr ''path'')]" "\<not> valid_initialize []"
    by (simp_all add: valid_initialize_def md_get_def)
  then show ?thesis
    using initialize_spec [of "with_ide 1 (new_ide 7) new_world" 1 "new_ide 7"
        "client_request 1 ''initialize'' [(''pathFormat'', JStr ''path'')]" "[(''pathFormat'', JStr ''path'')]" demo_env]
      initialize_spec [of "with_ide 1 (new_ide 7) new_world" 1 "new_ide 7"
        "client_request 1 ''initialize'' []" "[]" demo_env] ide by simp
qed

section \<open>Authentication\<close>

text \<open>
  C18: Access tokens guard the adapter. When tokens are in use and the process that connects does
  not answer "pydevdAuthorize" with the adapter's token, be it with another body, a refusal
  or the end of the connection, then its connection is not listed for "attach", nothing it
  says about itself is taken, no session is told of it, and its channel is closed, unless it never
  answers at all, when the connection just stays unknown.
\<close>

theorem unauthorized_server_unknown:
  assumes "\<not> authorized E (w_ticks w) c"
  shows "\<exists>r w'. connection_init E c w = (r, w') \<and>
    w_session w' = w_session w \<and> w_connections w' = w_connections w \<and> w_registered w' = w_registered w \<and>
    cn_pid (w_conn w' c) = cn_pid (w_conn w c) \<and>
    (r = Inr () \<and> ch_closed (cn_chan (w_conn w' c)) \<or> r = Inl Blocked \<or> r = Inl Exited)"
proof -
  obtain u w1 where auth: "authenticate E c w = (u, w1)" by fastforce
  with assms authenticate_authorized have "u \<noteq> Inr ()" by fastforce
  then obtain e where e: "u = Inl e" by (cases u) auto
  have "unseen w c w" by (simp add: unseen_def)
  with unseen_authenticate [of w c E] auth have w1: "unseen w c w1"
    unfolding keeps_pointwise by (metis snd_conv)
  show ?thesis
  proof (cases e)
    case (Raised x)
    let ?w2 = "(set_chan (Conn c) ((cn_chan (w_conn w1 c))\<lparr>ch_closed := True\<rparr>) w1)\<lparr>w_connections_changed := True\<rparr>"
    have "accept_connection E c w = (Inr False, ?w2)"
      by (simp add: accept_connection_def catching_def attempt_def andthen_def auth e Raised on_def the_chan_def
          channel_close_def dont_wait_for_first_connection_def)
    then have "connection_init E c w = (Inr (), ?w2)" by (simp add: connection_init_def andthen_def)
    with w1 show ?thesis by (auto simp: unseen_def set_chan_def upd_conn_def)
  next
    case Blocked
    then have "connection_init E c w = (Inl Blocked, w1)"
      by (simp add: connection_init_def accept_connection_def catching_def attempt_def andthen_def auth e)
    with w1 show ?thesis by (auto simp: unseen_def)
  next
    case Exited
    then have "connection_init E c w = (Inl Exited, w1)"
      by (simp add: connection_init_def accept_connection_def catching_def attempt_def andthen_def auth e)
    with w1 show ?thesis by (auto simp: unseen_def)
  qed
qed

theorem unauthorized_server_unknown_witness:
  "w_connections (snd (connection_init (demo_env\<lparr>env_adapter_token := Some ''secret''\<rparr>) 0 new_world)) = []"
proof -
  have "\<not> authorized (demo_env\<lparr>env_adapter_token := Some ''secret''\<rparr>) (w_ticks new_world) 0"
    by (simp add: authorized_def demo_env_def demo_reply_def shows_token_def)
  from unauthorized_server_unknown [OF this] have
    "w_connections (snd (connection_init (demo_env\<lparr>env_adapter_token := Some ''secret''\<rparr>) 0 new_world)) =
       w_connections new_world" by auto
  then show ?thesis by (simp add: new_world_def)
qed

end
