(* ===== verification/LauncherFacts.thy ===== *)
theory LauncherFacts
  imports LaunchHandlers ServerFacts CaptureOutput AdapterFacts
begin

text \<open>
  What the launcher does with its requests: the command line that it starts, which the debug server
  in the debuggee parses, the descriptors that it leaves open, and what it reports at the end.
\<close>

section \<open>The end of the debuggee\<close>

lemma and_255: "(c :: int) AND 255 = c mod 256"
proof -
  have "take_bit 8 c = c AND mask 8" by (rule take_bit_eq_mask)
  then show ?thesis by (simp add: take_bit_eq_mod mask_eq_exp_minus_1)
qed

lemma exit_code_posix: "\<not> le_windows E \<Longrightarrow> c < 256 \<Longrightarrow> exit_code E (Inr c) = c mod 256"
  by (simp add: exit_code_def and_255)

definition exited :: "int \<Rightarrow> chan \<Rightarrow> chan" where
  "exited code ch = snd (send_event ''exited'' (exited_body code) ch)"

definition terminated :: "chan \<Rightarrow> chan" where
  "terminated ch = snd (send_event ''terminated'' JNull ch)"

lemma ignoring_event:
  "ignoring (on_channel (send_event event b)) s = (Inr (), s\<lparr>ls_chan := snd (send_event event b (ls_chan s))\<rparr>)"
  by (auto simp: ignoring_def catching_def attempt_def andthen_def on_channel_def split: prod.splits sum.splits)

text \<open>Whether the launcher asks the user for a key before it ends.\<close>

definition asks_user :: "lenv \<Rightarrow> launcher_state \<Rightarrow> int \<Rightarrow> bool" where
  "asks_user E s code \<longleftrightarrow>
    (\<exists>p \<in> set (ls_predicates s). satisfied p code) \<and> le_stream E ''stdout'' \<and> le_stream E ''stdin''"


text \<open>A launcher on POSIX whose debuggee was killed by signal 9, at a terminal, with nobody at it.\<close>

definition demo_launcher_env :: lenv where
  "demo_launcher_env =
    \<lparr>le_windows = False, le_nt_dirname = (\<lambda>_. []), le_executable = ''/usr/bin/python'', le_ptvsd_dir = ''/ptvsd'',
     le_environ = [(''PATH'', ''/usr/bin'')], le_pointer_size = 64, le_pipe = (\<lambda>_. None), le_popen = (\<lambda>_ _. Inr 4242),
     le_poll = (\<lambda>_. Inr None), le_kill = (\<lambda>_. None), le_wait = (\<lambda>_. Inr (- 9)), le_returncode = (\<lambda>_. Some (- 9)),
     le_captured = (\<lambda>_. True), le_stream = (\<lambda>_. True), le_isatty = True, le_msvcrt = False, le_key = False\<rparr>"

definition new_launcher :: launcher_state where
  "new_launcher =
    \<lparr>ls_chan = started_channel 0, ls_connected = True, ls_process = None, ls_predicates = [], ls_pipes = 0,
     ls_fds = [], ls_closing = [], ls_captures = [], ls_spawned = [], ls_killed = [], ls_atexit = 0,
     ls_waiters = [], ls_prompts = []\<rparr>"

definition killed_launcher :: launcher_state where
  "killed_launcher = new_launcher\<lparr>ls_process := Some (0, 4242), ls_predicates := [CodeIsNotZero]\<rparr>"


section \<open>Properties of a request\<close>

lemma get_prop_ok:
  assumes "msg_body m = Payload (JObj d)"
  shows "get_prop m key v optional s = (Inr x, s') \<longleftrightarrow> resolve_validator v optional (md_get d key) = Inr x \<and> s' = s"
proof -
  have ok: "msg_call m key v optional ch = (Inr y, ch') \<longleftrightarrow> resolve_validator v optional (md_get d key) = Inr y \<and> ch' = ch"
    for ch ch' y
    using assms
    by (auto simp: msg_call_def md_call_def Let_def raise_invalid_def andthen_def split: sum.splits prod.splits if_splits)
  obtain q ch where q: "msg_call m key v optional (ls_chan s) = (q, ch)" by fastforce
  show ?thesis
  proof (cases q)
    case (Inl e)
    with q ok [of "ls_chan s" x "ls_chan s"] show ?thesis by (simp add: get_prop_def on_channel_def)
  next
    case (Inr y)
    with q ok [of "ls_chan s" y ch] have "resolve_validator v optional (md_get d key) = Inr y" "ch = ls_chan s"
      by simp_all
    with q Inr show ?thesis by (auto simp: get_prop_def on_channel_def)
  qed
qed

lemma not_valid_raises [simp]: "not_valid m reason s \<noteq> (Inr x, s')"
  by (auto simp: not_valid_def andthen_def throw_def split: prod.splits sum.splits)

lemma property_or_debug_option_ok:
  assumes "msg_body m = Payload (JObj d)" and "property_or_debug_option m opts p f s = (Inr x, s')"
  shows "s' = s"
  using assms
  by (auto simp: property_or_debug_option_def andthen_Inr get_prop_ok Let_def split: if_splits)

lemma str_array_ok: "resolve_validator str_array b v = Inr w \<longleftrightarrow>
    (\<exists>ss. w = JList (map JStr ss) \<and> (v = w \<or> v = Missing \<and> ss = []))"
  by (simp add: resolve_validator_def str_array_def array_of_str_iff)

lemma nonempty_array_ok: "resolve_validator nonempty_array b v = Inr w \<longleftrightarrow>
    (\<exists>ss. ss \<noteq> [] \<and> w = JList (map JStr ss) \<and> (v = w \<or> (\<exists>s. v = JStr s \<and> ss = [s])))"
  by (simp add: resolve_validator_def nonempty_array_def nonempty_strs_cases)

text \<open>The strings of a property that is a string or a list of strings.\<close>

fun one_or_more :: "jv \<Rightarrow> string list" where
  "one_or_more (JStr s) = [s]"
| "one_or_more v = strings_of v"

lemma strings_of_Nil [simp]: "strings_of (JList []) = []"
  by (simp add: strings_of_def)

lemma strings_of_strs [simp]: "strings_of (JList (map JStr ss)) = ss"
  by (simp add: strings_of_def str_of_def comp_def)

lemma nonempty_array_strings:
  assumes "resolve_validator nonempty_array b v = Inr w"
  shows "strings_of w = one_or_more v \<and> one_or_more v \<noteq> []"
  using assms by (auto simp: nonempty_array_ok strings_of_def str_of_def)

lemma str_array_strings: "resolve_validator str_array b v = Inr w \<Longrightarrow> strings_of w = strings_of v"
  by (auto simp: str_array_ok) (simp add: strings_of_def)

section \<open>Spawning\<close>

lemma on_channel_frame:
  assumes "on_channel m s = (r, s')"
  shows "\<exists>ch. s' = s\<lparr>ls_chan := ch\<rparr>"
  using assms by (auto simp: on_channel_def split: prod.splits sum.splits)

lemma capture_output_frame:
  assumes "capture_output E category fd s = (r, s')"
  shows "ls_spawned s' = ls_spawned s" and "ls_fds s' = ls_fds s"
  using assms by (auto simp: capture_output_def Let_def split: if_splits)

lemma os_pipe_frame: "os_pipe E s = (r, s') \<Longrightarrow> ls_spawned s' = ls_spawned s"
  by (auto simp: os_pipe_def Let_def split: option.splits)

lemma open_pipes_frame: "open_pipes E s = (Inr x, s') \<Longrightarrow> ls_spawned s' = ls_spawned s"
  by (auto simp: open_pipes_def andthen_Inr dest!: os_pipe_frame split: prod.splits)

lemma start_debuggee_spawns:
  assumes "start_debuggee E name p captures s = (Inr u, s')"
  shows "ls_spawned s' = ls_spawned s @ [p]"
proof -
  have frame: "ls_spawned t' = ls_spawned t"
    if "foldr (\<lambda>(category, fd) rest. andthen (capture_output E category fd) (\<lambda>_. rest)) captures (ret ()) t = (Inr x, t')"
    for t t' x
    using that by (induction captures arbitrary: t) (auto simp: andthen_Inr dest!: capture_output_frame(1))
  show ?thesis
    using assms
    by (auto simp: start_debuggee_def andthen_Inr popen_def Let_def dest!: frame on_channel_frame split: sum.splits)
qed

lemma spawn_process_spawns:
  assumes "spawn_process E name cmdline cwd environ redirect s = (Inr u, s')"
  shows "\<exists>p. ls_spawned s' = ls_spawned s @ [p] \<and> sp_cmdline p = cmdline \<and> sp_cwd p = cwd \<and> sp_env p = environ"
proof -
  have ens: "ensuring a close_remaining t = (Inr (), t') \<Longrightarrow> \<exists>t1. a t = (Inr (), t1) \<and> ls_spawned t' = ls_spawned t1"
    for a :: "unit lact" and t t'
    by (auto simp: ensuring_def close_remaining_def split: prod.splits sum.splits stop.splits)
  show ?thesis
  proof (cases redirect)
    case True
    with assms show ?thesis
      by (auto simp: spawn_process_def andthen_Inr dest!: ens open_pipes_frame start_debuggee_spawns)
  next
    case False
    with assms show ?thesis
      by (auto simp: spawn_process_def andthen_Inr dest!: ens start_debuggee_spawns)
  qed
qed

section \<open>The command line\<close>

text \<open>What reads the request changes nothing when it succeeds.\<close>

lemma reading_ok:
  assumes "msg_body m = Payload (JObj d)"
  shows "sudo_prefix E m opts s = (Inr x, s1) \<Longrightarrow> s1 = s"
    and "python_command E m s = (Inr y, s2) \<Longrightarrow> s2 = s"
    and "launch_target m python s = (Inr z, s3) \<Longrightarrow> s3 = s"
    and "working_directory E m program s = (Inr u, s4) \<Longrightarrow> s4 = s"
    and "environment E m s = (Inr v, s5) \<Longrightarrow> s5 = s"
    and "redirects_output m opts s = (Inr w, s6) \<Longrightarrow> s6 = s"
proof -
  note ok = get_prop_ok [OF assms] and opt = property_or_debug_option_ok [OF assms]
  show "sudo_prefix E m opts s = (Inr x, s1) \<Longrightarrow> s1 = s"
    by (auto simp: sudo_prefix_def andthen_Inr throw_def dest!: opt split: if_splits)
  show "python_command E m s = (Inr y, s2) \<Longrightarrow> s2 = s"
    by (auto simp: python_command_def python_key_def andthen_Inr ok split: if_splits)
  have tgt: "target_of m key t = (Inr q, t') \<Longrightarrow> t' = t" for key t q t'
    by (auto simp: target_of_def andthen_Inr ok split: if_splits)
  show "launch_target m python s = (Inr z, s3) \<Longrightarrow> s3 = s"
    by (auto simp: launch_target_def andthen_Inr dest!: tgt split: option.splits)
  show "working_directory E m program s = (Inr u, s4) \<Longrightarrow> s4 = s"
    by (auto simp: working_directory_def andthen_Inr ok)
  show "environment E m s = (Inr v, s5) \<Longrightarrow> s5 = s"
    by (auto simp: environment_def andthen_Inr ok Let_def)
  show "redirects_output m opts s = (Inr w, s6) \<Longrightarrow> s6 = s"
    by (auto simp: redirects_output_def andthen_Inr ok dest!: opt split: option.splits)
qed

lemma debugger_args_ok:
  assumes "msg_body m = Payload (JObj d)" and "debugger_args E m s = (Inr dbg, s')"
  shows "s' = s" and "md_get d ''noDebug'' \<noteq> JBool True \<Longrightarrow> md_get d ''port'' = JInt n \<Longrightarrow>
    dbg = [le_ptvsd_dir E, ''--client'', ''--host'', ''127.0.0.1'', ''--port'', show_int n] @
      (if md_get d ''clientAccessToken'' \<noteq> Missing then [''--client-access-token'', str_of (md_get d ''clientAccessToken'')] else []) @
      strings_of (md_get d ''ptvsdArgs'')"
proof -
  note ok = get_prop_ok [OF assms(1)]
  have same: "resolve_validator (VType (Cls c)) b v = Inr w \<Longrightarrow> w = v" for c b v w
    by (auto simp: resolve_validator_def of_type_def split: if_splits sum.splits)
  show "s' = s"
    using assms(2) by (auto simp: debugger_args_def andthen_Inr ok split: if_splits)
  show "dbg = [le_ptvsd_dir E, ''--client'', ''--host'', ''127.0.0.1'', ''--port'', show_int n] @
      (if md_get d ''clientAccessToken'' \<noteq> Missing then [''--client-access-token'', str_of (md_get d ''clientAccessToken'')] else []) @
      strings_of (md_get d ''ptvsdArgs'')"
    if "md_get d ''noDebug'' \<noteq> JBool True" "md_get d ''port'' = JInt n"
  proof -
    have "\<not> truthy x" if "resolve_validator (VFn (default (JBool False))) False (md_get d ''noDebug'') = Inr x" for x
      using that \<open>md_get d ''noDebug'' \<noteq> JBool True\<close>
      by (cases "md_get d ''noDebug''") (auto simp: resolve_validator_def default_def is_subclass_def split: if_splits)
    with assms(2) that(2) show ?thesis
      by (auto simp: debugger_args_def andthen_Inr ok int_text_def int_of_def
          dest!: same str_array_strings split: if_splits)
  qed
qed

text \<open>The one target property of a request that is launched, with its kind and its switch.\<close>

definition launch_kinds :: "(string \<times> string \<times> string list) list" where
  "launch_kinds = [(''program'', ''file'', []), (''module'', ''module'', [''-m'']), (''code'', ''code'', [''-c''])]"

lemma launch_target_ok:
  assumes "msg_body m = Payload (JObj d)" and "launch_target m python s = (Inr (target, name, program), s')"
  shows "\<exists>(key, kind, switch) \<in> set launch_kinds.
    target = switch @ one_or_more (md_get d key) \<and> one_or_more (md_get d key) \<noteq> [] \<and> has_key m key \<and>
    (\<forall>(key', _) \<in> set launch_kinds. key' \<noteq> key \<longrightarrow> \<not> has_key m key')"
proof -
  note ok = get_prop_ok [OF assms(1)]
  have one: "target_of m key t = (Inr q, t') \<Longrightarrow>
      (if has_key m key then q = Some (one_or_more (md_get d key)) \<and> one_or_more (md_get d key) \<noteq> [] else q = None)"
    for key t q t'
    by (auto simp: target_of_def andthen_Inr ok dest!: nonempty_array_strings split: if_splits)
  from assms(2) obtain p x c t1 t2 t3 where
    "target_of m ''program'' s = (Inr p, t1)" "target_of m ''module'' t1 = (Inr x, t2)"
    "target_of m ''code'' t2 = (Inr c, t3)"
    and r: "(case (p, x, c) of
        (None, None, None) \<Rightarrow> not_valid m ''either \"program\", \"module\", or \"code\" must be specified''
      | (Some p', None, None) \<Rightarrow> ret (p', hd p', p)
      | (None, Some x', None) \<Rightarrow> ret (''-m'' # x', hd x', p)
      | (None, None, Some c') \<Rightarrow> ret (''-c'' # c', hd python, p)
      | _ \<Rightarrow> not_valid m ''\"program\", \"module\", and \"code\" are mutually exclusive'') t3 =
        (Inr (target, name, program), s')"
    unfolding launch_target_def andthen_Inr by blast
  from one [OF this(1)] one [OF this(2)] one [OF this(3)] r show ?thesis
    by (cases "has_key m ''program''"; cases "has_key m ''module''"; cases "has_key m ''code''")
      (auto simp: launch_kinds_def)
qed

lemma launch_spawns:
  assumes "msg_body m = Payload (JObj d)" and "launch E m s = (Inr r, s')"
  shows "\<exists>sudo python debugger target name program p.
    debugger_args E m s = (Inr debugger, s) \<and> launch_target m python s = (Inr (target, name, program), s) \<and>
    ls_spawned s' = ls_spawned s @ [p] \<and>
    sp_cmdline p = sudo @ python @ debugger @ target @ strings_of (md_get d ''args'')"
proof -
  note ok = get_prop_ok [OF assms(1)] and read = reading_ok [OF assms(1)]
  have wait: "wait_option m opts p f q t = (Inr u, t') \<Longrightarrow> ls_spawned t' = ls_spawned t" for opts p f q t u t'
    by (auto simp: wait_option_def andthen_Inr dest!: property_or_debug_option_ok [OF assms(1)] split: if_splits)
  obtain options t1 where 1: "get_prop m ''debugOptions'' str_array False s = (Inr options, t1)"
    and "andthen (sudo_prefix E m (strings_of options)) (\<lambda>sudo.
      andthen (python_command E m) (\<lambda>python.
      andthen (debugger_args E m) (\<lambda>debugger.
      andthen (launch_target m python) (\<lambda>(target, name, program).
      andthen (get_prop m ''args'' str_array False) (\<lambda>args.
      andthen (working_directory E m program) (\<lambda>cwd.
      andthen (environment E m) (\<lambda>env.
      andthen (redirects_output m (strings_of options)) (\<lambda>redirect.
      andthen (wait_option m (strings_of options) ''waitOnNormalExit'' ''WaitOnNormalExit'' CodeIsZero) (\<lambda>_.
      andthen (wait_option m (strings_of options) ''waitOnAbnormalExit'' ''WaitOnAbnormalExit'' CodeIsNotZero) (\<lambda>_.
      andthen (spawn_process E name (sudo @ python @ debugger @ target @ strings_of args) cwd
        (if redirect then unbuffered env else env) redirect) (\<lambda>_. ret (RBody (JObj [])))))))))))))
      t1 = (Inr r, s')"
    using assms(2) unfolding launch_def andthen_Inr [of "get_prop m ''debugOptions'' str_array False"] Let_def by blast
  moreover have "t1 = s" using 1 ok by blast
  ultimately obtain sudo t2 python t3 debugger t4 target name program t5 args t6 cwd t7 env t8 redirect t9 t10 t11 u
    where a: "sudo_prefix E m (strings_of options) s = (Inr sudo, t2)" "python_command E m t2 = (Inr python, t3)"
      "debugger_args E m t3 = (Inr debugger, t4)" "launch_target m python t4 = (Inr (target, name, program), t5)"
      "get_prop m ''args'' str_array False t5 = (Inr args, t6)" "working_directory E m program t6 = (Inr cwd, t7)"
      "environment E m t7 = (Inr env, t8)" "redirects_output m (strings_of options) t8 = (Inr redirect, t9)"
      and w: "wait_option m (strings_of options) ''waitOnNormalExit'' ''WaitOnNormalExit'' CodeIsZero t9 = (Inr (), t10)"
      "wait_option m (strings_of options) ''waitOnAbnormalExit'' ''WaitOnAbnormalExit'' CodeIsNotZero t10 = (Inr (), t11)"
      and sp: "spawn_process E name (sudo @ python @ debugger @ target @ strings_of args) cwd
        (if redirect then unbuffered env else env) redirect t11 = (Inr u, s')"
    unfolding andthen_Inr case_prod_beta by (auto simp: ret_def)
  have t: "t2 = s" "t3 = t2" "t4 = t3" "t5 = t4" "t6 = t5" "t7 = t6" "t8 = t7" "t9 = t8"
    using read(1) [OF a(1)] read(2) [OF a(2)] debugger_args_ok(1) [OF assms(1) a(3)] read(3) [OF a(4)]
      conjunct2 [OF iffD1 [OF ok a(5)]] read(4) [OF a(6)] read(5) [OF a(7)] read(6) [OF a(8)] by simp_all
  have "resolve_validator str_array False (md_get d ''args'') = Inr args" using a(5) ok by blast
  then have "strings_of args = strings_of (md_get d ''args'')" by (rule str_array_strings)
  moreover obtain p where "ls_spawned s' = ls_spawned t11 @ [p]"
    "sp_cmdline p = sudo @ python @ debugger @ target @ strings_of args"
    using spawn_process_spawns [OF sp] by blast
  moreover have "ls_spawned t11 = ls_spawned s" using wait [OF w(1)] wait [OF w(2)] t by simp
  ultimately show ?thesis using a(3,4) unfolding t by metis
qed

section \<open>From the launcher to the debug server\<close>

lemma port_value_show: "0 \<le> n \<Longrightarrow> n < 65536 \<Longrightarrow> port_value (show_int n) = Some n"
  by (simp add: port_value_def show_int_def)

definition token_of :: "jv \<Rightarrow> string option" where
  "token_of v = (if v = Missing then None else Some (str_of v))"

definition launcher_items :: "int \<Rightarrow> jv \<Rightarrow> item list" where
  "launcher_items n token =
    [Client, Host ''127.0.0.1'', Port (show_int n)] @ (case token_of token of None \<Rightarrow> [] | Some t \<Rightarrow> [Token t])"

fun launched_target :: "string \<Rightarrow> string \<Rightarrow> target" where
  "launched_target kind x =
    (if kind = ''file'' then File x else if kind = ''module'' then Module x else Code x)"

lemma launcher_items_args:
  "concat (map item_args (launcher_items n token)) =
    [''--client'', ''--host'', ''127.0.0.1'', ''--port'', show_int n] @
    (if token \<noteq> Missing then [''--client-access-token'', str_of token] else [])"
  by (simp add: launcher_items_def token_of_def)

lemma launcher_items_applied:
  assumes "0 \<le> n" and "n < 65536"
  shows "dp_options (fold apply_item (launcher_items n token) (new_process argv)) =
    default_options\<lparr>op_client := True, op_host := ''127.0.0.1'', op_port := n, op_client_access_token := token_of token\<rparr>"
  using port_value_show [OF assms]
  by (auto simp: launcher_items_def token_of_def with_options_def new_process_def default_options_def split: option.splits)

lemma launcher_items_parsed:
  assumes "0 \<le> n" and "n < 65536" and "(key, kind, switch) \<in> set launch_kinds"
    and "xs \<noteq> []" and "kind = ''file'' \<Longrightarrow> \<not> starts_with (hd xs) ''-''"
  shows "\<exists>t. parse F (concat (map item_args (launcher_items n token)) @ switch @ xs @ args) (new_process argv) =
      (Inr (tl xs @ args), t) \<and>
    dp_options t = default_options\<lparr>op_client := True, op_host := ''127.0.0.1'', op_port := n,
      op_client_access_token := token_of token, op_target_kind := Some kind, op_target := JStr (hd xs)\<rparr>"
proof -
  define u where "u = launched_target kind (hd xs)"
  define t where "t = apply_target u (fold apply_item (launcher_items n token) (new_process argv))"
  have kind: "kind = ''file'' \<and> switch = [] \<or> kind = ''module'' \<and> switch = [''-m''] \<or> kind = ''code'' \<and> switch = [''-c'']"
    using assms(3) by (auto simp: launch_kinds_def)
  have args: "switch @ xs @ args = target_args u @ tl xs @ args"
    using kind assms(4) by (cases xs) (auto simp: u_def)
  have wf: "well_formed (launcher_items n token) u"
    using kind assms port_value_show [OF assms(1,2)]
    by (auto simp: well_formed_def launcher_items_def u_def split: option.splits)
  have kinds: "target_kind u = kind" "target_value u = JStr (hd xs)" using kind by (auto simp: u_def)
  have "op_target (dp_options (new_process argv)) = JNull" by (simp add: new_process_def default_options_def)
  moreover have "target_kind u \<noteq> ''pid''" using kind kinds(1) by auto
  ultimately have "parse F (concat (map item_args (launcher_items n token)) @ target_args u @ tl xs @ args)
      (new_process argv) = (Inr (tl xs @ args), t)"
    unfolding t_def by (intro parse_accepts wf) simp_all
  moreover have "dp_options t = default_options\<lparr>op_client := True, op_host := ''127.0.0.1'', op_port := n,
      op_client_access_token := token_of token, op_target_kind := Some kind, op_target := JStr (hd xs)\<rparr>"
    unfolding t_def apply_target_def with_options_def kinds
    by (simp add: launcher_items_applied [OF assms(1,2)])
  ultimately show ?thesis unfolding args by blast
qed


text \<open>Requests that need nothing but a program, and that the launcher above takes.\<close>

definition simple_launch :: "(string, jv) odict \<Rightarrow> bool" where
  "simple_launch d \<longleftrightarrow>
    (\<forall>key \<in> {''debugOptions'', ''sudo'', ''redirectOutput'', ''waitOnNormalExit'', ''waitOnAbnormalExit'', ''pythonPath'',
        ''module'', ''code'', ''ptvsdArgs'', ''cwd'', ''env'', ''gevent''}. map_of d key = None) \<and>
    (\<exists>py. map_of d ''python'' = Some (JStr py)) \<and> (\<exists>c. map_of d ''console'' = Some (JStr c)) \<and>
    (\<exists>p ps. map_of d ''program'' = Some (JList (map JStr (p # ps)))) \<and> (\<exists>as. map_of d ''args'' = Some (JList (map JStr as))) \<and>
    (map_of d ''noDebug'' = Some (JBool True) \<or>
     map_of d ''noDebug'' = None \<and> (\<exists>n. map_of d ''port'' = Some (JInt n)) \<and>
     (\<exists>t. map_of d ''clientAccessToken'' = Some (JStr t)))"

lemma resolved:
  "resolve_validator (VType (Cls cls)) True Missing = Inr Missing"
  "resolve_validator an_int b (JInt i) = Inr (JInt i)"
  "resolve_validator a_str b (JStr x) = Inr (JStr x)"
  "resolve_validator nonempty_array b (JStr x) = Inr (JList [JStr x])"
  "resolve_validator nonempty_array b (JList (map JStr (x # xs))) = Inr (JList (map JStr (x # xs)))"
  "resolve_validator str_array b Missing = Inr (JList [])"
  "resolve_validator str_array b (JList (map JStr xs)) = Inr (JList (map JStr xs))"
  "resolve_validator (VFn (default c)) b Missing = Inr c"
  "resolve_validator (VFn (default (JBool False))) b (JBool True) = Inr (JBool True)"
  "resolve_validator (VConst (JBool False)) b Missing = Inr Missing"
  "resolve_validator (VFn (object q)) b Missing = Inr (JObj [])"
proof -
  show "resolve_validator nonempty_array b (JStr x) = Inr (JList [JStr x])"
    unfolding nonempty_array_ok by (intro exI [of _ "[x]"]) simp
  show "resolve_validator nonempty_array b (JList (map JStr (x # xs))) = Inr (JList (map JStr (x # xs)))"
    unfolding nonempty_array_ok by (intro exI [of _ "x # xs"]) simp
  show "resolve_validator str_array b Missing = Inr (JList [])" unfolding str_array_ok by simp
  show "resolve_validator str_array b (JList (map JStr xs)) = Inr (JList (map JStr xs))"
    unfolding str_array_ok by (intro exI [of _ xs]) simp
qed (simp_all add: resolve_validator_def of_type_def default_def object_def any_value_def is_subclass_def)

lemma demo_spawns:
  "\<exists>s'. spawn_process demo_launcher_env name cmdline cwd env redirect new_launcher = (Inr (), s')"
  by (cases redirect)
    (simp_all add: spawn_process_def andthen_def ensuring_def open_pipes_def os_pipe_def start_debuggee_def popen_def
      on_channel_def send_event_def send_message_def optional_member_def write_message_def next_seq_def process_body_def
      capture_output_def close_remaining_def demo_launcher_env_def new_launcher_def started_channel_def new_channel_def
      od_keys_def)

lemma simple_launch_ok:
  assumes body: "msg_body m = Payload (JObj d)" and simple: "simple_launch d"
  shows "\<exists>s'. launch demo_launcher_env m new_launcher = (Inr (RBody (JObj [])), s')"
proof -
  have get: "get_prop m key v b s = (Inr x, s)" if "resolve_validator v b (md_get d key) = Inr x" for key v b x s
    using that by (simp add: get_prop_ok [OF body])
  have key: "has_key m k \<longleftrightarrow> map_of d k \<noteq> None" for k
    by (simp add: has_key_def payload_value_def body in_od_keys_iff)
  obtain py c p ps as where
    v: "map_of d ''python'' = Some (JStr py)" "map_of d ''console'' = Some (JStr c)"
      "map_of d ''program'' = Some (JList (map JStr (p # ps)))" "map_of d ''args'' = Some (JList (map JStr as))"
    and n: "map_of d ''debugOptions'' = None" "map_of d ''sudo'' = None" "map_of d ''redirectOutput'' = None"
      "map_of d ''waitOnNormalExit'' = None" "map_of d ''waitOnAbnormalExit'' = None" "map_of d ''pythonPath'' = None"
      "map_of d ''module'' = None" "map_of d ''code'' = None" "map_of d ''ptvsdArgs'' = None" "map_of d ''cwd'' = None"
      "map_of d ''env'' = None" "map_of d ''gevent'' = None"
    using simple unfolding simple_launch_def by auto
  have md: "map_of d k = None \<Longrightarrow> md_get d k = Missing" "map_of d k = Some x \<Longrightarrow> md_get d k = x" for k x
    by (simp_all add: md_get_def)
  have opt: "property_or_debug_option m [] pr f s = (Inr None, s)" if "map_of d pr = None" for pr f s
    by (simp add: property_or_debug_option_def andthen_def get [OF resolved(1) [folded md(1) [OF that]]] md(1) [OF that] Let_def)
  have dbg: "\<exists>dbg. debugger_args demo_launcher_env m s = (Inr dbg, s)" for s
  proof (cases "map_of d ''noDebug'' = Some (JBool True)")
    case True
    show ?thesis
      by (simp add: debugger_args_def andthen_def
          get [where key = "''noDebug''", unfolded md(2) [OF True], OF resolved(9)])
  next
    case False
    with simple obtain n t where f: "map_of d ''noDebug'' = None" "map_of d ''port'' = Some (JInt n)"
      "map_of d ''clientAccessToken'' = Some (JStr t)" unfolding simple_launch_def by auto
    show ?thesis
      by (simp add: debugger_args_def andthen_def
          get [where key = "''noDebug''", unfolded md(1) [OF f(1)], OF resolved(8)]
          get [where key = "''port''", unfolded md(2) [OF f(2)], OF resolved(2)]
          get [where key = "''clientAccessToken''", unfolded md(2) [OF f(3)], OF resolved(3)]
          get [where key = "''ptvsdArgs''", unfolded md(1) [OF n(9)], OF resolved(6)])
  qed
  have tgt: "launch_target m python s = (Inr (p # ps, p, Some (p # ps)), s)" for python s
    by (simp add: launch_target_def target_of_def andthen_def key n v
        get [where key = "''program''", unfolded md(2) [OF v(3)], OF resolved(5)] strings_of_def str_of_def comp_def)
  have red: "\<exists>b. redirects_output m [] s = (Inr b, s)" for s
    by (simp add: redirects_output_def andthen_def opt n
        get [where key = "''console''", unfolded md(2) [OF v(2)], OF resolved(3)])
  have env: "\<exists>env. environment demo_launcher_env m s = (Inr env, s)" for s
    by (simp add: environment_def andthen_def Let_def
        get [where key = "''env''", unfolded md(1) [OF n(11)], OF resolved(11)]
        get [where key = "''gevent''", unfolded md(1) [OF n(12)], OF resolved(10)])
  have cwd: "\<exists>cwd. working_directory demo_launcher_env m program s = (Inr cwd, s)" for program s
    by (simp add: working_directory_def andthen_def get [where key = "''cwd''", unfolded md(1) [OF n(10)], OF resolved(1)])
  have py: "python_command demo_launcher_env m s = (Inr [py], s)" for s
    by (simp add: python_command_def python_key_def andthen_def key n v strings_of_def str_of_def
        get [where key = "''python''", unfolded md(2) [OF v(1)], OF resolved(4)])
  obtain dbg env cwd b where a: "debugger_args demo_launcher_env m new_launcher = (Inr dbg, new_launcher)"
    "environment demo_launcher_env m new_launcher = (Inr env, new_launcher)"
    "working_directory demo_launcher_env m (Some (p # ps)) new_launcher = (Inr cwd, new_launcher)"
    "redirects_output m [] new_launcher = (Inr b, new_launcher)"
    using dbg env cwd red by metis
  obtain s' where s': "spawn_process demo_launcher_env p (py # dbg @ p # ps @ as) cwd (if b then unbuffered env else env) b
      new_launcher = (Inr (), s')"
    using demo_spawns by blast
  show ?thesis
    by (simp add: launch_def andthen_def Let_def sudo_prefix_def opt n py a tgt wait_option_def s' strings_of_Nil
        get [where key = "''debugOptions''", unfolded md(1) [OF n(1)], OF resolved(6)]
        get [where key = "''args''", unfolded md(2) [OF v(4)], OF resolved(7)])
qed

definition demo_launch_arguments :: "(string, jv) odict" where
  "demo_launch_arguments =
    [(''python'', JStr ''python3''), (''program'', JList [JStr ''app.py'']), (''args'', JList [JStr ''--port'', JStr ''1'']),
     (''port'', JInt 5678), (''clientAccessToken'', JStr ''secret''), (''console'', JStr ''internalConsole'')]"

definition launch_message :: "jv \<Rightarrow> message" where
  "launch_message b = \<lparr>msg_id = 0, msg_kind = MRequest, msg_seq = JInt 1, msg_name = ''launch'',
    msg_body = Payload b, msg_request = None\<rparr>"

definition demo_launch :: message where
  "demo_launch = launch_message (JObj demo_launch_arguments)"

lemma demo_launch_body: "msg_body demo_launch = Payload (JObj demo_launch_arguments)"
  by (simp add: demo_launch_def launch_message_def)

lemma demo_launch_ok: "\<exists>s'. launch demo_launcher_env demo_launch new_launcher = (Inr (RBody (JObj [])), s')"
  by (rule simple_launch_ok [OF demo_launch_body])
    (auto simp: simple_launch_def demo_launch_arguments_def Cons_eq_map_conv)

lemma demo_values:
  "md_get demo_launch_arguments ''program'' = JList [JStr ''app.py'']"
  "md_get demo_launch_arguments ''args'' = JList [JStr ''--port'', JStr ''1'']"
  "md_get demo_launch_arguments ''port'' = JInt 5678"
  "md_get demo_launch_arguments ''clientAccessToken'' = JStr ''secret''"
  "md_get demo_launch_arguments ''noDebug'' = Missing"
  "md_get demo_launch_arguments ''ptvsdArgs'' = Missing"
  by (auto simp: md_get_def demo_launch_arguments_def)


section \<open>From the adapter to the launcher\<close>

lemma arg_ok:
  assumes "msg_body m = Payload (JObj d)" and "arg sid m key v optional w = (Inr x, w')"
  shows "resolve_validator v optional (md_get d key) = Inr x"
proof -
  from assms(2) obtain ch w1 where "(case msg_call m key v optional ch of
      (Inl e, ch') \<Rightarrow> andthen (modify (set_chan (Ide sid) ch')) (\<lambda>_. throw e)
    | (Inr x, ch') \<Rightarrow> andthen (modify (set_chan (Ide sid) ch')) (\<lambda>_. ret x)) w1 = (Inr x, w')"
    unfolding arg_def on_def andthen_Inr by blast
  then obtain ch' where "msg_call m key v optional ch = (Inr x, ch')"
    by (cases "msg_call m key v optional ch") (auto simp: andthen_def throw_def split: sum.splits)
  with assms(1) show ?thesis
    by (auto simp: msg_call_def md_call_def Let_def raise_invalid_def andthen_def split: sum.splits prod.splits if_splits)
qed

text \<open>What the launcher gets for the start request \<open>m\<close>.\<close>

definition passed_on :: "env \<Rightarrow> bool \<Rightarrow> message \<Rightarrow> jv" where
  "passed_on E no_debug m = (if no_debug then payload_value m else start_arguments E m)"

text \<open>
  A "launch" request whose "program" is a list starts the program with its arguments twice: the adapter
  appends "args" to the list that is also the "program" of the request, and the launcher, which gets
  that request, appends "args" once more.
\<close>

theorem program_list_args_twice:
  assumes "msg_body m = Payload (JObj d)" and "md_get d ''program'' = JList (map JStr ps)" and "md_get d ''args'' = JList (map JStr as)"
    and "debuggee_args sid m w = (Inr (args, m'), w')"
    and "msg_body m2 = Payload (passed_on E no_debug m')" and "launch F m2 s = (Inr r, s')"
  shows "args = ps @ as \<and> (\<exists>p before. ls_spawned s' = ls_spawned s @ [p] \<and> sp_cmdline p = before @ ps @ as @ as)"
proof -
  have key: "has_key m ''program''"
    using assms(1,2) by (auto simp: has_key_def payload_value_def md_get_def in_od_keys_iff split: option.splits)
  obtain program given w1 where r: "arg sid m ''program'' nonempty_array False w = (Inr program, w1)"
    "arg sid m ''args'' str_array False w1 = (Inr given, w')"
    and m': "args = strings_of program @ strings_of given"
      "m' = extend_program (JList (map JStr (strings_of program @ strings_of given))) m"
    using assms(4) key by (auto simp: debuggee_args_def andthen_Inr)
  have "strings_of program = ps" "strings_of given = as"
    using nonempty_array_strings [OF arg_ok [OF assms(1) r(1)]] str_array_strings [OF arg_ok [OF assms(1) r(2)]] assms(2,3)
    by simp_all
  with m' have a: "args = ps @ as" and ext: "m' = extend_program (JList (map JStr (ps @ as))) m" by simp_all
  define d' where "d' = od_set ''program'' (JList (map JStr (ps @ as))) d"
  have m'_body: "msg_body m' = Payload (JObj d')"
    using assms(1,2) ext by (simp add: extend_program_def argument_def payload_value_def set_argument_def d'_def)
  obtain d2 where d2: "msg_body m2 = Payload (JObj d2)" "md_get d2 ''program'' = JList (map JStr (ps @ as))"
    "md_get d2 ''args'' = JList (map JStr as)"
    using assms(3,5) m'_body
    by (cases no_debug) (auto simp: passed_on_def start_arguments_def payload_value_def md_get_def d'_def)
  have key2: "has_key m2 ''program''"
    using d2 by (auto simp: has_key_def payload_value_def md_get_def in_od_keys_iff split: option.splits)
  obtain sudo python debugger target name program p where l:
    "launch_target m2 python s = (Inr (target, name, program), s)"
    "ls_spawned s' = ls_spawned s @ [p]" "sp_cmdline p = sudo @ python @ debugger @ target @ strings_of (md_get d2 ''args'')"
    using launch_spawns [OF d2(1) assms(6)] by blast
  obtain key kind switch where k: "(key, kind, switch) \<in> set launch_kinds" "target = switch @ one_or_more (md_get d2 key)"
    "\<forall>(key', _) \<in> set launch_kinds. key' \<noteq> key \<longrightarrow> \<not> has_key m2 key'"
    using launch_target_ok [OF d2(1) l(1)] by auto
  have "key = ''program''" using k(3) key2 by (force simp: launch_kinds_def)
  then have "target = ps @ as" using k(1,2) d2(2) by (auto simp: launch_kinds_def simp del: map_append)
  with l(2,3) d2(3) a show ?thesis by (intro conjI exI [of _ p] exI [of _ "sudo @ python @ debugger"]) auto
qed

lemma arg_value:
  assumes "msg_body m = Payload (JObj d)" and "has_chan (Ide sid) ch w"
    and "resolve_validator v optional (md_get d key) = Inr x"
  shows "\<exists>w'. arg sid m key v optional w = (Inr x, w') \<and> has_chan (Ide sid) ch w'"
  using assms by (auto simp: arg_def on_chan [OF assms(2)] msg_call_def md_call_def intro: has_chan_set)

theorem program_list_args_twice_witness:
  "\<exists>w' p before s'. debuggee_args 1 demo_launch (with_ide 1 initialized_ide new_world) =
      (Inr ([''app.py'', ''--port'', ''1''],
         launch_message (JObj (od_set ''program'' (JList (map JStr [''app.py'', ''--port'', ''1''])) demo_launch_arguments))), w') \<and>
    launch demo_launcher_env
      (launch_message (JObj (od_set ''program'' (JList (map JStr [''app.py'', ''--port'', ''1''])) demo_launch_arguments)))
      new_launcher = (Inr (RBody (JObj [])), s') \<and>
    ls_spawned s' = [p] \<and> sp_cmdline p = before @ [''app.py''] @ [''--port'', ''1''] @ [''--port'', ''1'']"
proof -
  let ?w = "with_ide 1 initialized_ide new_world" and ?ch = "ide_chan initialized_ide"
  let ?d = "od_set ''program'' (JList (map JStr [''app.py'', ''--port'', ''1''])) demo_launch_arguments"
  have c: "has_chan (Ide 1) ?ch ?w" by (simp add: has_chan_def the_chan_def the_ide_def andthen_def)
  have r: "resolve_validator nonempty_array False (md_get demo_launch_arguments ''program'') = Inr (JList [JStr ''app.py''])"
    "resolve_validator str_array False (md_get demo_launch_arguments ''args'') = Inr (JList [JStr ''--port'', JStr ''1''])"
    using resolved(5) [of False "''app.py''" "[]"] resolved(7) [of False "[''--port'', ''1'']"] by (simp_all add: demo_values)
  obtain w1 where w1: "arg 1 demo_launch ''program'' nonempty_array False ?w = (Inr (JList [JStr ''app.py'']), w1)"
    "has_chan (Ide 1) ?ch w1"
    using arg_value [OF demo_launch_body c r(1)] by blast
  obtain w' where w': "arg 1 demo_launch ''args'' str_array False w1 = (Inr (JList [JStr ''--port'', JStr ''1'']), w')"
    using arg_value [OF demo_launch_body w1(2) r(2)] by blast
  have key: "has_key demo_launch ''program''"
    by (simp add: has_key_def payload_value_def demo_launch_body demo_launch_arguments_def od_keys_def)
  have ext: "extend_program (JList (map JStr [''app.py'', ''--port'', ''1''])) demo_launch = launch_message (JObj ?d)"
    by (simp add: extend_program_def argument_def payload_value_def demo_launch_body demo_values set_argument_def
        demo_launch_def launch_message_def)
  have args: "debuggee_args 1 demo_launch ?w = (Inr ([''app.py'', ''--port'', ''1''], launch_message (JObj ?d)), w')"
    using w1(1) w' ext by (simp add: debuggee_args_def andthen_def key strings_of_def str_of_def)
  have passed: "msg_body (launch_message (JObj ?d)) = Payload (passed_on demo_env True (launch_message (JObj ?d)))"
    by (simp add: passed_on_def launch_message_def payload_value_def)
  obtain s' where l: "launch demo_launcher_env (launch_message (JObj ?d)) new_launcher = (Inr (RBody (JObj [])), s')"
    using simple_launch_ok [of "launch_message (JObj ?d)" ?d]
    by (auto simp: launch_message_def simple_launch_def demo_launch_arguments_def Cons_eq_map_conv)
  have v: "md_get demo_launch_arguments ''program'' = JList (map JStr [''app.py''])"
    "md_get demo_launch_arguments ''args'' = JList (map JStr [''--port'', ''1''])"
    by (simp_all add: demo_values)
  have new: "ls_spawned new_launcher = []" by (simp add: new_launcher_def)
  obtain p before where "ls_spawned s' = [p]" "sp_cmdline p = before @ [''app.py''] @ [''--port'', ''1''] @ [''--port'', ''1'']"
    using program_list_args_twice [OF demo_launch_body v args passed l] unfolding new append_Nil by blast
  with args l show ?thesis by blast
qed

end
