(* ===== verification/Sockets.thy ===== *)
theory Sockets
  imports PyValues
begin

text \<open>
  \<open>common/sockets.py\<close>: making, closing and listening on sockets. The calls on the socket are recorded;
  which of them raise is a parameter.
\<close>

datatype sock_call =
    NewSocket | SetOption bool | Bind string int | SetTimeout int | Listen int | ShutDown | Close

text \<open>The name \<open>server\<close> is unbound when \<open>_new_sock()\<close> raised.\<close>

datatype sock_error = SockFailed exn | ServerUnbound

type_synonym 'a sock_act = "(sock_call list, sock_error, 'a) sem"

definition sock_call :: "(sock_call \<Rightarrow> exn option) \<Rightarrow> sock_call \<Rightarrow> unit sock_act" where
  "sock_call fails c calls =
    (case fails c of Some e \<Rightarrow> (Inl (SockFailed e), calls) | None \<Rightarrow> (Inr (), calls @ [c]))"

text \<open>\<open>_new_sock\<close>; on Windows the option is \<open>SO_EXCLUSIVEADDRUSE\<close>.\<close>

definition new_sock :: "(sock_call \<Rightarrow> exn option) \<Rightarrow> bool \<Rightarrow> unit sock_act" where
  "new_sock fails windows =
    andthen (sock_call fails NewSocket) (\<lambda>_. sock_call fails (SetOption windows))"

definition bind_address :: "string option \<Rightarrow> int option \<Rightarrow> string \<times> int" where
  "bind_address host port =
    ((case host of None \<Rightarrow> ''127.0.0.1'' | Some h \<Rightarrow> h), (case port of None \<Rightarrow> 0 | Some p \<Rightarrow> p))"

definition create_server ::
  "(sock_call \<Rightarrow> exn option) \<Rightarrow> bool \<Rightarrow> string option \<Rightarrow> int option \<Rightarrow> int option \<Rightarrow> unit sock_act" where
  "create_server fails windows host port timeout =
    (case bind_address host port of (h, p) \<Rightarrow>
      andthen (attempt (new_sock fails windows) (\<lambda>_. raise ServerUnbound)) (\<lambda>_.
      attempt
        (andthen (sock_call fails (Bind h p)) (\<lambda>_.
         andthen (case timeout of None \<Rightarrow> ret () | Some t \<Rightarrow> sock_call fails (SetTimeout t)) (\<lambda>_.
           sock_call fails (Listen 1))))
        (\<lambda>e. andthen (sock_call fails Close) (\<lambda>_. raise e))))"

definition close_socket :: "(sock_call \<Rightarrow> exn option) \<Rightarrow> unit sock_act" where
  "close_socket fails =
    andthen (attempt (sock_call fails ShutDown) (\<lambda>_. ret ())) (\<lambda>_. sock_call fails Close)"

section \<open>ClientConnection\<close>

text \<open>
  \<open>lt_listener\<close> is the class attribute \<open>listener\<close>; \<open>lt_connections\<close> are the sockets that \<open>accept_worker\<close>
  made connections of.
\<close>

record listener_state =
  lt_listener :: "(string \<times> int) option"
  lt_accepting :: bool
  lt_connections :: "nat list"

text \<open>\<open>created\<close> is the outcome of \<open>create_server\<close> with the address that \<open>getsockname\<close> gives.\<close>

definition listen :: "exn + string \<times> int \<Rightarrow> (listener_state, exn, string \<times> int) sem" where
  "listen created s =
    (if lt_listener s \<noteq> None then (Inl (AssertionError ''cls.listener is None''), s)
     else case created of
         Inl e \<Rightarrow> (Inl e, s)
       | Inr addr \<Rightarrow> (Inr addr, s\<lparr>lt_listener := Some addr, lt_accepting := True\<rparr>))"

text \<open>
  \<open>accept_worker\<close>: each \<open>accept()\<close> gives a socket or raises; an \<open>OSError\<close> ends the loop, and so does any
  exception that leaves it, such as one of the constructor \<open>cls(sock)\<close>.
\<close>

fun accept_worker :: "(nat \<Rightarrow> exn option) \<Rightarrow> (exn + nat) list \<Rightarrow> listener_state \<Rightarrow> exn option \<times> listener_state" where
  "accept_worker cls [] s = (None, s)"
| "accept_worker cls (Inl e # rest) s =
    ((case e of OSError _ \<Rightarrow> None | _ \<Rightarrow> Some e), s\<lparr>lt_accepting := False\<rparr>)"
| "accept_worker cls (Inr sock # rest) s =
    (case cls sock of
       Some e \<Rightarrow> (Some e, s\<lparr>lt_accepting := False\<rparr>)
     | None \<Rightarrow> accept_worker cls rest (s\<lparr>lt_connections := lt_connections s @ [sock]\<rparr>))"

text \<open>
  A listener that could not be set up is closed again, whichever call failed after the socket was
  there, provided that closing works.
\<close>

lemma failed_server_closed:
  assumes "create_server fails windows host port timeout calls = (Inl e, calls')" and "e \<noteq> ServerUnbound"
    and "fails Close = None"
  shows "last calls' = Close"
  using assms
  by (auto simp: create_server_def andthen_def attempt_def sock_call_def
      split: prod.splits sum.splits option.splits if_splits)

lemma accept_worker_connections:
  assumes "accept_worker cls outcomes s = (e, s')"
  shows "\<exists>socks. lt_connections s' = lt_connections s @ socks \<and> (\<exists>rest. outcomes = map Inr socks @ rest)"
  using assms
proof (induction cls outcomes s rule: accept_worker.induct)
  case (3 cls sock rest s)
  show ?case
  proof (cases "cls sock")
    case None
    with 3 obtain socks r where "lt_connections s' = (lt_connections s @ [sock]) @ socks" "rest = map Inr socks @ r"
      by fastforce
    then show ?thesis by (intro exI [of _ "sock # socks"]) auto
  next
    case (Some e')
    with 3(2) show ?thesis by (intro exI [of _ "[]"]) auto
  qed
qed auto

end
