(* ===== verification/AdapterMain.thy ===== *)
theory AdapterMain
  imports Sockets ServerFacts
begin

text \<open>
  \<open>adapter/__main__.py\<close>: the command line of the adapter, its start, and how it tells the debug server
  that spawned it where it listens.
\<close>

section \<open>argparse\<close>

text \<open>
  The part of \<open>argparse\<close> that \<open>_parse_argv\<close> uses: long options with or without a value, also given as
  \<open>--option=value\<close> and by an unambiguous prefix. An argument is an option, \<open>Some (names, value)\<close> with the
  options it can stand for, or a positional one, \<open>None\<close>.
\<close>

definition option_names :: "string list" where
  "option_names = [''-h'', ''--help'', ''--for-server'', ''--port'', ''--host'', ''--server-access-token'',
     ''--log-dir'', ''--log-stderr'']"

definition before_equals :: "string \<Rightarrow> string" where
  "before_equals s = takeWhile (\<lambda>c. c \<noteq> CHR ''='') s"

definition after_equals :: "string \<Rightarrow> string option" where
  "after_equals s = (case dropWhile (\<lambda>c. c \<noteq> CHR ''='') s of [] \<Rightarrow> None | _ # v \<Rightarrow> Some v)"

text \<open>\<open>^-\d+$|^-\d*\.\d+$\<close>\<close>

definition negative_number :: "string \<Rightarrow> bool" where
  "negative_number s =
    (case s of
       c # t \<Rightarrow>
         c = CHR ''-'' \<and>
         (let whole = takeWhile is_digit t; rest = dropWhile is_digit t in
          whole \<noteq> [] \<and> rest = [] \<or>
          (case rest of d # u \<Rightarrow> d = CHR ''.'' \<and> u \<noteq> [] \<and> list_all is_digit u | [] \<Rightarrow> False))
     | [] \<Rightarrow> False)"

definition classify :: "string \<Rightarrow> (string list \<times> string option) option" where
  "classify arg =
    (if \<not> starts_with arg ''-'' then None
     else if arg \<in> set option_names then Some ([arg], None)
     else if length arg = 1 then None
     else
       (let name = before_equals arg; v = after_equals arg;
            matches = filter (\<lambda>opt. starts_with opt name) option_names in
        if v \<noteq> None \<and> name \<in> set option_names then Some ([name], v)
        else if starts_with arg ''--'' \<and> matches \<noteq> [] then Some (matches, v)
        else if negative_number arg then None
        else if CHR '' '' \<in> set arg then None
        else Some ([], None)))"

record adapter_args =
  aa_for_server :: "int option"
  aa_port :: "int option"
  aa_host :: string
  aa_server_access_token :: "string option"
  aa_log_dir :: "string option"
  aa_log_stderr :: bool

definition default_args :: adapter_args where
  "default_args = \<lparr>aa_for_server = None, aa_port = None, aa_host = ''127.0.0.1'', aa_server_access_token = None,
     aa_log_dir = None, aa_log_stderr = False\<rparr>"

text \<open>What an option does with its value; \<open>None\<close> is an error, on which \<open>argparse\<close> exits with 2.\<close>

definition store :: "string \<Rightarrow> string \<Rightarrow> adapter_args \<Rightarrow> adapter_args option" where
  "store name v a =
    (if name = ''--for-server'' then map_option (\<lambda>n. a\<lparr>aa_for_server := Some n\<rparr>) (parse_int v)
     else if name = ''--port'' then map_option (\<lambda>n. a\<lparr>aa_port := Some n\<rparr>) (parse_int v)
     else if name = ''--host'' then Some (a\<lparr>aa_host := v\<rparr>)
     else if name = ''--server-access-token'' then Some (a\<lparr>aa_server_access_token := Some v\<rparr>)
     else if name = ''--log-dir'' then Some (a\<lparr>aa_log_dir := Some v\<rparr>)
     else None)"

datatype parse_end = UsageError | HelpShown

fun parse_options :: "string list \<Rightarrow> bool \<Rightarrow> adapter_args \<Rightarrow> parse_end + adapter_args" where
  "parse_options [] extras a = (if extras then Inl UsageError else Inr a)"
| "parse_options (arg # args) extras a =
    (case classify arg of
       None \<Rightarrow> parse_options args True a
     | Some ([], _) \<Rightarrow> parse_options args True a
     | Some ([name], v) \<Rightarrow>
         if name = ''--help'' \<or> name = ''-h'' then (if v = None then Inl HelpShown else Inl UsageError)
         else if name = ''--log-stderr''
         then (if v = None then parse_options args extras (a\<lparr>aa_log_stderr := True\<rparr>) else Inl UsageError)
         else
           (case v of
              Some x \<Rightarrow>
                (case store name x a of None \<Rightarrow> Inl UsageError | Some a' \<Rightarrow> parse_options args extras a')
            | None \<Rightarrow>
                (case args of
                   [] \<Rightarrow> Inl UsageError
                 | x # args' \<Rightarrow>
                     if classify x \<noteq> None then Inl UsageError
                     else (case store name x a of
                         None \<Rightarrow> Inl UsageError | Some a' \<Rightarrow> parse_options args' extras a')))
     | Some _ \<Rightarrow> Inl UsageError)"

text \<open>\<open>_parse_argv\<close>, for arguments other than \<open>--\<close> and one-letter options run together.\<close>

definition parse_argv :: "string list \<Rightarrow> parse_end + adapter_args" where
  "parse_argv argv =
    sbind (parse_options (tl argv) False default_args) (\<lambda>a.
      if aa_port a = None \<and> (aa_log_stderr a \<or> aa_for_server a \<noteq> None) then Inl UsageError else Inr a)"

section \<open>main\<close>

text \<open>
  The process: whether it is on POSIX and is the parent after the second fork, the listeners, the random
  access token, and whether its reports arrive.
\<close>

record adapter_env =
  ae_posix :: bool
  ae_parent :: bool
  ae_token :: string
  ae_listen_servers :: "exn + string \<times> int"
  ae_listen_ide :: "string \<Rightarrow> int option \<Rightarrow> exn + string \<times> int"
  ae_send :: "int \<Rightarrow> exn option"
  ae_endpoints_file :: "string option"
  ae_write :: "exn option"

record adapter_proc =
  ap_daemon :: bool
  ap_stdio_closed :: bool
  ap_log_dir :: "string option"
  ap_log_stderr :: bool
  ap_server_token :: "string option"
  ap_adapter_token :: "string option"
  ap_sent :: "(int \<times> (string, jv) odict) list"
  ap_written :: "(string \<times> (string, jv) odict) list"
  ap_stdio_ide :: bool
  ap_atexit :: "string list"
  ap_waits :: "string list"

type_synonym 'a main_act = "(adapter_proc, halt, 'a) sem"

definition exit_with :: "int \<Rightarrow> 'a main_act" where
  "exit_with n = raise (SystemExit n)"

definition daemonize :: "adapter_env \<Rightarrow> unit main_act" where
  "daemonize E =
    andthen
      (if ae_posix E then
         andthen (modify (\<lambda>s. s\<lparr>ap_daemon := True\<rparr>)) (\<lambda>_. if ae_parent E then exit_with 0 else ret ())
       else ret ())
      (\<lambda>_. modify (\<lambda>s. s\<lparr>ap_stdio_closed := True\<rparr>))"

definition address_json :: "string \<times> int \<Rightarrow> jv" where
  "address_json addr = JObj [(''host'', JStr (fst addr)), (''port'', JInt (snd addr))]"

text \<open>The listeners: an error is part of the report when there is someone to report to.\<close>

definition endpoints_of :: "adapter_env \<Rightarrow> adapter_args \<Rightarrow> exn + (string, jv) odict" where
  "endpoints_of E a =
    (case ae_listen_servers E of
       Inl e \<Rightarrow>
         if aa_for_server a = None then Inl e
         else Inr [(''error'', JStr (''Can't listen for server connections: '' @ exn_str e))]
     | Inr server \<Rightarrow>
         (case ae_listen_ide E (aa_host a) (aa_port a) of
            Inl e \<Rightarrow>
              if aa_for_server a = None then Inl e
              else Inr [(''error'', JStr (''Can't listen for IDE connections: '' @ exn_str e))]
          | Inr ide \<Rightarrow> Inr [(''server'', address_json server), (''ide'', address_json ide)]))"

definition report_to_server :: "adapter_env \<Rightarrow> adapter_args \<Rightarrow> (string, jv) odict \<Rightarrow> unit main_act" where
  "report_to_server E a endpoints =
    (case aa_for_server a of
       None \<Rightarrow> ret ()
     | Some p \<Rightarrow>
         (case ae_send E p of
            Some e \<Rightarrow> raise (Fails e)
          | None \<Rightarrow>
              andthen (modify (\<lambda>s. s\<lparr>ap_sent := ap_sent s @ [(p, endpoints)]\<rparr>)) (\<lambda>_.
              if ''error'' \<in> set (od_keys endpoints) then exit_with 1 else ret ())))"

text \<open>The file is opened, its removal registered, and then written.\<close>

definition write_endpoints_file :: "adapter_env \<Rightarrow> (string, jv) odict \<Rightarrow> unit main_act" where
  "write_endpoints_file E endpoints =
    (case ae_endpoints_file E of
       None \<Rightarrow> ret ()
     | Some f \<Rightarrow>
         (case ae_write E of
            Some e \<Rightarrow> raise (Fails e)
          | None \<Rightarrow> modify (\<lambda>s. s\<lparr>ap_atexit := ap_atexit s @ [''delete_listener_file''],
                                ap_written := ap_written s @ [(f, endpoints)]\<rparr>)))"

definition adapter_main :: "adapter_env \<Rightarrow> adapter_args \<Rightarrow> unit main_act" where
  "adapter_main E a =
    andthen (if aa_for_server a \<noteq> None then daemonize E else ret ()) (\<lambda>_.
    andthen (modify (\<lambda>s. s\<lparr>ap_log_stderr := ap_log_stderr s \<or> aa_log_stderr a,
        ap_log_dir := (if aa_log_dir a = None then ap_log_dir s else aa_log_dir a),
        ap_server_token := aa_server_access_token a,
        ap_adapter_token := (if aa_for_server a = None then Some (ae_token E) else ap_adapter_token s)\<rparr>)) (\<lambda>_.
    case endpoints_of E a of
      Inl e \<Rightarrow> raise (Fails e)
    | Inr endpoints \<Rightarrow>
        andthen (report_to_server E a endpoints) (\<lambda>_.
        andthen (write_endpoints_file E endpoints) (\<lambda>_.
        andthen (modify (\<lambda>s. s\<lparr>ap_stdio_ide := (aa_port a = None),
            ap_atexit := ap_atexit s @ [''servers.stop_listening'', ''ide.stop_listening''],
            ap_waits := ap_waits s @ [''servers.wait_until_disconnected'', ''sessions.wait_until_ended'']\<rparr>))
          (\<lambda>_. ret ())))))"

section \<open>The debug server and the adapter that it spawns\<close>

lemma show_int_no_dash: "0 \<le> n \<Longrightarrow> \<not> starts_with (show_int n) ''-''"
proof -
  assume "0 \<le> n"
  obtain c cs where c: "show_nat (nat n) = c # cs" by (cases "show_nat (nat n)") auto
  then have "is_digit c" using show_nat_digits [of "nat n"] by simp
  then show ?thesis using c \<open>0 \<le> n\<close> by (auto simp: show_int_def starts_with_def is_digit_def)
qed

lemma parse_int_show_int: "0 \<le> n \<Longrightarrow> parse_int (show_int n) = Some n"
  by (simp add: show_int_def)

lemma classify_value: "\<not> starts_with v ''-'' \<Longrightarrow> classify v = None"
  by (simp add: classify_def)

lemma classify_options:
  "classify ''--for-server'' = Some ([''--for-server''], None)" "classify ''--host'' = Some ([''--host''], None)"
  "classify ''--port'' = Some ([''--port''], None)"
  "classify ''--server-access-token'' = Some ([''--server-access-token''], None)"
  "classify ''--log-dir'' = Some ([''--log-dir''], None)"
  by (simp_all add: classify_def option_names_def starts_with_def)

definition plain :: "string \<Rightarrow> bool" where
  "plain v \<longleftrightarrow> \<not> starts_with v ''-''"

text \<open>What the options of the debug server make of the adapter's arguments.\<close>

definition spawned_args :: "senv \<Rightarrow> int \<Rightarrow> server_proc \<Rightarrow> adapter_args" where
  "spawned_args E n s = \<lparr>aa_for_server = Some n, aa_port = Some (op_port (dp_options s)), aa_host = op_host (dp_options s),
     aa_server_access_token = Some (se_token E), aa_log_dir = dp_log_dir s, aa_log_stderr = False\<rparr>"

lemma adapter_cmdline_parsed:
  assumes "0 \<le> n" and "0 \<le> op_port (dp_options s)" and "plain (op_host (dp_options s))" and "plain (se_token E)"
    and "\<And>d. dp_log_dir s = Some d \<Longrightarrow> plain d"
  shows "parse_argv (tl (adapter_cmdline E n s)) = Inr (spawned_args E n s)"
  using assms show_int_no_dash [OF assms(1)] show_int_no_dash [OF assms(2)]
  by (auto simp: parse_argv_def adapter_cmdline_def classify_options classify_value plain_def store_def parse_int_show_int
      default_args_def spawned_args_def split: option.splits)

definition endpoints_report :: "string \<times> int \<Rightarrow> string \<times> int \<Rightarrow> (string, jv) odict" where
  "endpoints_report server ide = [(''server'', address_json server), (''ide'', address_json ide)]"

lemma endpoints_report_parsed: "parse_endpoints (endpoints_report server ide) = Inr (fst server, snd server, snd ide)"
  by (simp add: parse_endpoints_def endpoint_def subscript_def endpoints_report_def address_json_def py_int_def py_str_def)

lemma adapter_main_reports:
  assumes "aa_for_server a = Some n" and "ae_listen_servers A = Inr server"
    and "ae_listen_ide A (aa_host a) (aa_port a) = Inr ide" and "ae_send A n = None" and "\<not> ae_parent A"
    and "ae_write A = None"
  shows "\<exists>p'. adapter_main A a p = (Inr (), p') \<and> ap_sent p' = ap_sent p @ [(n, endpoints_report server ide)] \<and>
    ap_server_token p' = aa_server_access_token a"
  using assms
  by (auto simp: adapter_main_def andthen_def daemonize_def endpoints_of_def report_to_server_def write_endpoints_file_def
      endpoints_report_def od_keys_def split: option.splits)

text \<open>
  C20: The debug server and the adapter that it spawns find each other: the command line that \<open>enable_attach\<close>
  builds is parsed by the adapter to the options it was built from; the adapter then reports where it
  listens to the port it was given; and from that report \<open>enable_attach\<close> connects pydevd to the adapter's
  listener for servers, with the access token that the adapter expects of servers, and tells its caller the
  address for the IDE.
\<close>

theorem adapter_handshake:
  assumes "se_listen E = Inr n" and "0 \<le> n" and "0 \<le> op_port (dp_options s)"
    and "plain (op_host (dp_options s))" and "plain (se_token E)" and "\<forall>d. dp_log_dir s = Some d \<longrightarrow> plain d"
    and "ae_listen_servers A = Inr server" and "\<not> ae_parent A" and "ae_send A n = None" and "ae_write A = None"
    and "ae_listen_ide A (op_host (dp_options s)) (Some (op_port (dp_options s))) = Inr ide"
    and "\<not> dp_adapter s" and "se_spawn E (adapter_cmdline E n s) = None" and "\<forall>x. se_settrace E x = None"
  shows "\<exists>a p'. parse_argv (tl (adapter_cmdline E n s)) = Inr a \<and>
    adapter_main A a p = (Inr (), p') \<and> ap_sent p' = ap_sent p @ [(n, endpoints_report server ide)] \<and>
    (se_endpoints E = Endpoints (endpoints_report server ide) \<longrightarrow>
      (\<exists>s' x. enable_attach_body E s = (Inr (Some (op_host (dp_options s), snd ide)), s') \<and>
         dp_effects s' = dp_effects s @ [SpawnsAdapter (adapter_cmdline E n s), Settrace x] \<and>
         st_host x = Some (fst server) \<and> st_port x = Some (snd server) \<and>
         st_access_token x = ap_server_token p' \<and> op_port (dp_options s') = snd ide))"
proof -
  have parsed: "parse_argv (tl (adapter_cmdline E n s)) = Inr (spawned_args E n s)"
    using assms(6) by (intro adapter_cmdline_parsed assms) simp
  obtain p' where p': "adapter_main A (spawned_args E n s) p = (Inr (), p')"
    "ap_sent p' = ap_sent p @ [(n, endpoints_report server ide)]" "ap_server_token p' = Some (se_token E)"
    using adapter_main_reports [of "spawned_args E n s" n A server ide p] assms by (auto simp: spawned_args_def)
  have "''error'' \<notin> set (od_keys (endpoints_report server ide))"
    by (simp add: endpoints_report_def od_keys_def)
  then have "se_endpoints E = Endpoints (endpoints_report server ide) \<longrightarrow>
      (\<exists>s' x. enable_attach_body E s = (Inr (Some (op_host (dp_options s), snd ide)), s') \<and>
         dp_effects s' = dp_effects s @ [SpawnsAdapter (adapter_cmdline E n s), Settrace x] \<and>
         st_host x = Some (fst server) \<and> st_port x = Some (snd server) \<and>
         st_access_token x = Some (se_token E) \<and> op_port (dp_options s') = snd ide)"
    using assms(1,12-14)
    by (simp add: enable_attach_body_def andthen_def do_effect_def connect_to_adapter_def endpoints_report_parsed
        upd_options_def settrace_def adapter_settrace_def plain_settrace_def)
  with parsed p' show ?thesis by auto
qed

definition demo_adapter_env :: adapter_env where
  "demo_adapter_env =
    \<lparr>ae_posix = True, ae_parent = False, ae_token = ''token'', ae_listen_servers = Inr (''127.0.0.1'', 6000),
     ae_listen_ide = (\<lambda>_ _. Inr (''127.0.0.1'', 7000)), ae_send = (\<lambda>_. None), ae_endpoints_file = None, ae_write = None\<rparr>"

definition new_adapter :: adapter_proc where
  "new_adapter = \<lparr>ap_daemon = False, ap_stdio_closed = False, ap_log_dir = None, ap_log_stderr = False,
     ap_server_token = None, ap_adapter_token = None, ap_sent = [], ap_written = [], ap_stdio_ide = False,
     ap_atexit = [], ap_waits = []\<rparr>"

theorem adapter_handshake_witness:
  "\<exists>a p' s' x. parse_argv (tl (adapter_cmdline demo_process_env 5000 (new_process [''app'']))) = Inr a \<and>
    adapter_main demo_adapter_env a new_adapter = (Inr (), p') \<and>
    ap_sent p' = [(5000, endpoints_report (''127.0.0.1'', 6000) (''127.0.0.1'', 7000))] \<and>
    enable_attach_body demo_process_env (new_process [''app'']) = (Inr (Some (''127.0.0.1'', 7000)), s') \<and>
    Settrace x \<in> set (dp_effects s') \<and> st_port x = Some 6000 \<and> st_access_token x = ap_server_token p'"
proof -
  let ?s = "new_process [''app'']"
  have s: "op_port (dp_options ?s) = 5678" "op_host (dp_options ?s) = ''127.0.0.1''" "dp_log_dir ?s = None" "\<not> dp_adapter ?s"
    by (simp_all add: new_process_def default_options_def)
  have E: "se_listen demo_process_env = Inr 5000" "se_token demo_process_env = ''token''"
    "se_spawn demo_process_env c = None" "\<forall>x. se_settrace demo_process_env x = None"
    "se_endpoints demo_process_env = Endpoints (endpoints_report (''127.0.0.1'', 6000) (''127.0.0.1'', 7000))" for c
    by (simp_all add: demo_process_env_def endpoints_report_def address_json_def)
  have A: "ae_listen_servers demo_adapter_env = Inr (''127.0.0.1'', 6000)" "\<not> ae_parent demo_adapter_env"
    "ae_send demo_adapter_env 5000 = None" "ae_write demo_adapter_env = None"
    "ae_listen_ide demo_adapter_env h q = Inr (''127.0.0.1'', 7000)" for h q
    by (simp_all add: demo_adapter_env_def)
  have plain: "plain (op_host (dp_options ?s))" "plain (se_token demo_process_env)"
    by (simp_all add: plain_def starts_with_def s E)
  have n: "(0 :: int) \<le> 5000" "0 \<le> op_port (dp_options ?s)" by (simp_all add: s)
  have none: "\<forall>d. dp_log_dir ?s = Some d \<longrightarrow> plain d" by (simp add: s)
  obtain a p' where h: "parse_argv (tl (adapter_cmdline demo_process_env 5000 ?s)) = Inr a"
    "adapter_main demo_adapter_env a new_adapter = (Inr (), p')"
    "ap_sent p' = ap_sent new_adapter @ [(5000, endpoints_report (''127.0.0.1'', 6000) (''127.0.0.1'', 7000))]"
    and d: "\<exists>s' x. enable_attach_body demo_process_env ?s =
         (Inr (Some (op_host (dp_options ?s), snd (''127.0.0.1'', 7000 :: int))), s') \<and>
         dp_effects s' = dp_effects ?s @ [SpawnsAdapter (adapter_cmdline demo_process_env 5000 ?s), Settrace x] \<and>
         st_host x = Some (fst (''127.0.0.1'', 6000 :: int)) \<and> st_port x = Some (snd (''127.0.0.1'', 6000)) \<and>
         st_access_token x = ap_server_token p' \<and> op_port (dp_options s') = snd (''127.0.0.1'', 7000)"
    using adapter_handshake [OF E(1) n plain none A(1-4) A(5) s(4) E(3,4), of new_adapter] E(5) by blast
  from d obtain s' x where "enable_attach_body demo_process_env ?s = (Inr (Some (''127.0.0.1'', 7000)), s')"
    "dp_effects s' = dp_effects ?s @ [SpawnsAdapter (adapter_cmdline demo_process_env 5000 ?s), Settrace x]" "st_port x = Some 6000" "st_access_token x = ap_server_token p'"
    unfolding s(2) snd_conv fst_conv by blast
  with h show ?thesis
    by (intro exI [of _ a] exI [of _ p'] exI [of _ s'] exI [of _ x]) (simp add: new_adapter_def)
qed

end
