(* ===== verification/SourceMapping.thy ===== *)
theory SourceMapping
  imports PyValues
begin

text \<open>
  \<open>_pydevd_bundle/pydevd_source_mapping.py\<close>: which lines of a source file stand for which
  lines of a runtime source (a notebook cell), and the translation of positions in both directions.

  The library's binary search \<open>bisect.bisect\<close> is modelled by its algorithm and shown
  to give the insertion point.
\<close>

section \<open>Entries\<close>

record entry =
  en_source :: "string option"
  en_line :: int
  en_end_line :: int
  en_runtime_line :: int
  en_runtime_source :: string

text \<open>\<open>SourceMappingEntry.__init__\<close>; its arguments are integers already.\<close>

definition new_entry :: "int \<Rightarrow> int \<Rightarrow> int \<Rightarrow> string \<Rightarrow> entry" where
  "new_entry line end_line runtime_line runtime_source =
    \<lparr>en_source = None, en_line = line, en_end_line = end_line,
     en_runtime_line = runtime_line, en_runtime_source = runtime_source\<rparr>"

definition contains_line :: "entry \<Rightarrow> int \<Rightarrow> bool" where
  "contains_line e i \<longleftrightarrow> en_line e \<le> i \<and> i \<le> en_end_line e"

text \<open>The code adds the two lines of the source where their difference is meant.\<close>

definition contains_runtime_line :: "entry \<Rightarrow> int \<Rightarrow> bool" where
  "contains_runtime_line e i =
    (let line_count = en_end_line e + en_line e;
         runtime_end_line = en_runtime_line e + line_count
     in en_runtime_line e \<le> i \<and> i \<le> runtime_end_line)"

section \<open>Binary search\<close>

text \<open>\<open>bisect.bisect(a, x, lo, hi)\<close>, where \<open>a\<close> is read through \<open>_KeyifyList.__getitem__\<close>.\<close>

function bisect_between :: "('a \<Rightarrow> int) \<Rightarrow> 'a list \<Rightarrow> int \<Rightarrow> nat \<Rightarrow> nat \<Rightarrow> nat" where
  "bisect_between key a x lo hi =
    (if lo < hi then
       let mid = (lo + hi) div 2 in
       if x < key (a ! mid) then bisect_between key a x lo mid else bisect_between key a x (mid + 1) hi
     else lo)"
  by pat_completeness auto
termination
  by (relation "measure (\<lambda>(_, _, _, lo, hi). hi - lo)") auto

declare bisect_between.simps [simp del]

definition bisect :: "('a \<Rightarrow> int) \<Rightarrow> 'a list \<Rightarrow> int \<Rightarrow> nat" where
  "bisect key a x = bisect_between key a x 0 (length a)"

lemma bisect_between_spec:
  assumes "sorted (map key a)" and "lo \<le> hi" and "hi \<le> length a"
    and "\<forall>i < lo. key (a ! i) \<le> x" and "\<forall>i. hi \<le> i \<longrightarrow> i < length a \<longrightarrow> x < key (a ! i)"
  shows "(let k = bisect_between key a x lo hi in
    k \<le> length a \<and> (\<forall>i < k. key (a ! i) \<le> x) \<and> (\<forall>i. k \<le> i \<longrightarrow> i < length a \<longrightarrow> x < key (a ! i)))"
  using assms
proof (induction key a x lo hi rule: bisect_between.induct)
  case (1 key a x lo hi)
  show ?case
  proof (cases "lo < hi")
    case True
    define mid where "mid = (lo + hi) div 2"
    have mid: "lo \<le> mid" "mid < hi" "mid < length a" using True 1(5) by (auto simp: mid_def)
    have mono: "key (a ! i) \<le> key (a ! j)" if "i \<le> j" "j < length a" for i j
      using 1(3) that by (auto simp: sorted_iff_nth_mono)
    show ?thesis
    proof (cases "x < key (a ! mid)")
      case left: True
      have "\<forall>i. mid \<le> i \<longrightarrow> i < length a \<longrightarrow> x < key (a ! i)" using left mono [of mid] by fastforce
      with 1(1) [OF True mid_def left 1(3)] mid left True show ?thesis
        using 1(6) by (subst bisect_between.simps) (simp add: mid_def [symmetric])
    next
      case right: False
      have "\<forall>i < mid + 1. key (a ! i) \<le> x"
      proof (intro allI impI)
        fix i assume "i < mid + 1"
        then have "key (a ! i) \<le> key (a ! mid)" using mono [of i mid] mid(3) by simp
        with right show "key (a ! i) \<le> x" by simp
      qed
      with 1(2) [OF True mid_def right 1(3)] mid right True show ?thesis
        using 1(5,7) by (subst bisect_between.simps) (simp add: mid_def [symmetric])
    qed
  next
    case False
    with 1 show ?thesis by (subst bisect_between.simps) auto
  qed
qed

text \<open>The insertion point of \<open>x\<close> after its equals.\<close>

lemma bisect_point:
  assumes "sorted (map key a)"
  shows "bisect key a x \<le> length a"
    and "i < bisect key a x \<Longrightarrow> key (a ! i) \<le> x"
    and "bisect key a x \<le> i \<Longrightarrow> i < length a \<Longrightarrow> x < key (a ! i)"
  using bisect_between_spec [OF assms, of 0 "length a" x] by (simp_all add: bisect_def Let_def)

lemma bisect_append:
  assumes "sorted (map key (a @ b))" and "\<forall>e \<in> set a. key e \<le> x" and "\<forall>e \<in> set b. x < key e"
  shows "bisect key (a @ b) x = length a"
proof (rule antisym)
  show "bisect key (a @ b) x \<le> length a"
  proof (rule ccontr)
    assume "\<not> ?thesis"
    with bisect_point(1) [OF assms(1), of x] have l: "length a < bisect key (a @ b) x" "b \<noteq> []" by auto
    with bisect_point(2) [OF assms(1) l(1)] have "key (b ! 0) \<le> x" by (simp add: nth_append)
    moreover have "x < key (b ! 0)" using assms(3) l(2) by simp
    ultimately show False by simp
  qed
  show "length a \<le> bisect key (a @ b) x"
  proof (rule ccontr)
    assume *: "\<not> ?thesis"
    then have "x < key ((a @ b) ! bisect key (a @ b) x)"
      by (intro bisect_point(3) [OF assms(1)]) auto
    with assms(2) * show False by (auto simp: nth_append not_le dest!: bspec [OF _ nth_mem])
  qed
qed

section \<open>The mapping\<close>

record source_mapping =
  sm_to_server :: "(string, entry list) odict"
  sm_to_client :: "(string, string) odict"
  sm_cache :: "(string \<times> int \<times> string, string \<times> int \<times> bool) odict"

definition new_source_mapping :: source_mapping where
  "new_source_mapping = \<lparr>sm_to_server = [], sm_to_client = [], sm_cache = []\<rparr>"

definition conflict_message :: "string \<Rightarrow> string \<Rightarrow> string \<Rightarrow> string" where
  "conflict_message source_filename runtime existing =
    ''Cannot apply mapping from '' @ source_filename @ '' to '' @ runtime @
    '' (it conflicts with mapping: '' @ existing @ '' to '' @ runtime @ '')''"

text \<open>The file that has the runtime source of \<open>e\<close> already: an empty name counts as none.\<close>

definition conflicts :: "source_mapping \<Rightarrow> string \<Rightarrow> entry \<Rightarrow> bool" where
  "conflicts s source_filename e =
    (case map_of (sm_to_client s) (en_runtime_source e) of
       None \<Rightarrow> False
     | Some existing \<Rightarrow> existing \<noteq> [] \<and> existing \<noteq> source_filename)"

fun find_conflict :: "source_mapping \<Rightarrow> string \<Rightarrow> entry list \<Rightarrow> string option" where
  "find_conflict s source_filename [] = None"
| "find_conflict s source_filename (e # es) =
    (if conflicts s source_filename e
     then Some (conflict_message source_filename (en_runtime_source e)
                  (the (map_of (sm_to_client s) (en_runtime_source e))))
     else find_conflict s source_filename es)"

text \<open>\<open>del self._mappings_to_client[map_entry.runtime_source]\<close> for every entry.\<close>

fun forget_entries :: "entry list \<Rightarrow> (source_mapping, exn, unit) sem" where
  "forget_entries [] s = (Inr (), s)"
| "forget_entries (e # es) s =
    (if map_of (sm_to_client s) (en_runtime_source e) = None
     then (Inl (KeyError (en_runtime_source e)), s)
     else forget_entries es (s\<lparr>sm_to_client := od_del (en_runtime_source e) (sm_to_client s)\<rparr>))"

definition set_source_mapping :: "string \<Rightarrow> entry list \<Rightarrow> (source_mapping, exn, string) sem" where
  "set_source_mapping source_filename mapping s =
    (case find_conflict s source_filename mapping of
       Some message \<Rightarrow> (Inr message, s)
     | None \<Rightarrow>
         (let current = (case map_of (sm_to_server s) source_filename of None \<Rightarrow> [] | Some es \<Rightarrow> es) in
          andthen (forget_entries current) (\<lambda>_.
          andthen (modify (\<lambda>s. s\<lparr>sm_to_server := od_set source_filename (sort_key en_line mapping) (sm_to_server s)\<rparr>)) (\<lambda>_.
          andthen (modify (\<lambda>s. s\<lparr>sm_to_client :=
              foldl (\<lambda>m e. od_set (en_runtime_source e) source_filename m) (sm_to_client s) mapping\<rparr>)) (\<lambda>_.
          ret []))) s))"

text \<open>The two nested loops of \<open>map_to_client\<close>: over the files, and over the entries of a file.\<close>

definition entry_at_runtime :: "string \<Rightarrow> int \<Rightarrow> entry \<Rightarrow> bool" where
  "entry_at_runtime filename lineno e \<longleftrightarrow> en_runtime_source e = filename \<and> contains_runtime_line e lineno"

fun search_client :: "string \<Rightarrow> int \<Rightarrow> (string, entry list) odict \<Rightarrow> (string \<times> int \<times> bool) option" where
  "search_client filename lineno [] = None"
| "search_client filename lineno ((source_filename, mapping) # files) =
    (case find (entry_at_runtime filename lineno) mapping of
       Some e \<Rightarrow> Some (source_filename, en_line e + (lineno - en_runtime_line e), True)
     | None \<Rightarrow> search_client filename lineno files)"

definition map_to_client :: "source_mapping \<Rightarrow> string \<Rightarrow> int \<Rightarrow> string \<times> int \<times> bool" where
  "map_to_client s filename lineno =
    (case map_of (sm_cache s) (filename, lineno, ''client'') of
       Some r \<Rightarrow> r
     | None \<Rightarrow>
         (case search_client filename lineno (sm_to_server s) of
            Some r \<Rightarrow> r
          | None \<Rightarrow> (filename, lineno, False)))"

text \<open>The entry that \<open>map_to_server\<close> decides on, for a file with entries.\<close>

definition entry_for_line :: "entry list \<Rightarrow> int \<Rightarrow> entry option" where
  "entry_for_line mappings lineno =
    (let i = bisect en_line mappings lineno;
         i = (if length mappings \<le> i then i - 1 else i);
         e = (if i = 0 then mappings ! i else mappings ! (i - 1))
     in if contains_line e lineno then Some e
        else if contains_line (mappings ! i) lineno then Some (mappings ! i)
        else None)"

definition map_to_server :: "source_mapping \<Rightarrow> string \<Rightarrow> int \<Rightarrow> string \<times> int \<times> bool" where
  "map_to_server s filename lineno =
    (case map_of (sm_to_server s) filename of
       None \<Rightarrow> (filename, lineno, False)
     | Some mappings \<Rightarrow>
         if mappings = [] then (filename, lineno, False)
         else
           (case entry_for_line mappings lineno of
              None \<Rightarrow> (filename, lineno, False)
            | Some e \<Rightarrow> (en_runtime_source e, en_runtime_line e + (lineno - en_line e), True)))"

section \<open>The invariant\<close>

definition entries_of :: "source_mapping \<Rightarrow> string \<Rightarrow> entry list" where
  "entries_of s f = (case map_of (sm_to_server s) f of None \<Rightarrow> [] | Some es \<Rightarrow> es)"

text \<open>
  The entries of a file are sorted, their runtime sources are those, and only those, that are
  recorded for the file, and nothing is cached.
\<close>

definition mapping_inv :: "source_mapping \<Rightarrow> bool" where
  "mapping_inv s \<longleftrightarrow>
    distinct (od_keys (sm_to_server s)) \<and> sm_cache s = [] \<and> [] \<notin> set (od_keys (sm_to_server s)) \<and>
    (\<forall>f. sorted (map en_line (entries_of s f))) \<and>
    (\<forall>f r. map_of (sm_to_client s) r = Some f \<longleftrightarrow> r \<in> en_runtime_source ` set (entries_of s f))"

lemma mapping_inv_new: "mapping_inv new_source_mapping"
  by (simp add: mapping_inv_def new_source_mapping_def entries_of_def od_keys_def)

lemma new_source_mapping_simps [simp]:
  "sm_to_client new_source_mapping = []" "entries_of new_source_mapping f = []"
  by (simp_all add: new_source_mapping_def entries_of_def)

lemma mapping_invD:
  assumes "mapping_inv s"
  shows "e \<in> set (entries_of s f) \<Longrightarrow> map_of (sm_to_client s) (en_runtime_source e) = Some f"
    and "map_of (sm_to_client s) r = Some f \<Longrightarrow> f \<noteq> []"
    and "sorted (map en_line (entries_of s f))"
    and "sm_cache s = []"
proof -
  show "e \<in> set (entries_of s f) \<Longrightarrow> map_of (sm_to_client s) (en_runtime_source e) = Some f"
    using assms by (auto simp: mapping_inv_def)
  assume "map_of (sm_to_client s) r = Some f"
  with assms have "entries_of s f \<noteq> []" by (force simp: mapping_inv_def)
  then have "f \<in> set (od_keys (sm_to_server s))"
    by (auto simp: entries_of_def in_od_keys_iff split: option.splits)
  with assms show "f \<noteq> []" by (auto simp: mapping_inv_def)
qed (use assms in \<open>auto simp: mapping_inv_def\<close>)

lemma find_conflict_iff:
  assumes "mapping_inv s"
  shows "find_conflict s f es = None \<longleftrightarrow>
    (\<forall>e \<in> set es. \<forall>g. map_of (sm_to_client s) (en_runtime_source e) = Some g \<longrightarrow> g = f)"
proof (induction es)
  case (Cons e es)
  with mapping_invD(2) [OF assms, of "en_runtime_source e"] show ?case
    by (auto simp: conflicts_def split: option.splits)
qed simp

lemma find_conflict_nonempty: "find_conflict s f es = Some m \<Longrightarrow> m \<noteq> []"
  by (induction es) (auto simp: conflict_message_def split: if_splits)

text \<open>Forgetting stops with \<open>KeyError\<close> at a runtime source that occurs for the second time.\<close>

lemma forget_entries_distinct:
  assumes "distinct (map en_runtime_source es)"
    and "\<forall>e \<in> set es. map_of (sm_to_client s) (en_runtime_source e) \<noteq> None"
  shows "\<exists>s'. forget_entries es s = (Inr (), s') \<and> sm_to_server s' = sm_to_server s \<and> sm_cache s' = sm_cache s \<and>
    map_of (sm_to_client s') =
      (\<lambda>r. if r \<in> en_runtime_source ` set es then None else map_of (sm_to_client s) r)"
  using assms
proof (induction es arbitrary: s)
  case (Cons e es)
  let ?s = "s\<lparr>sm_to_client := od_del (en_runtime_source e) (sm_to_client s)\<rparr>"
  have "\<exists>s'. forget_entries es ?s = (Inr (), s') \<and> sm_to_server s' = sm_to_server ?s \<and> sm_cache s' = sm_cache ?s \<and>
    map_of (sm_to_client s') =
      (\<lambda>r. if r \<in> en_runtime_source ` set es then None else map_of (sm_to_client ?s) r)"
    using Cons.prems by (intro Cons.IH) (auto, metis image_eqI)
  with Cons.prems show ?case by (auto simp: fun_eq_iff)
qed (simp add: fun_eq_iff)

lemma forget_entries_again:
  assumes "\<not> distinct (map en_runtime_source es)"
  shows "\<exists>k s'. forget_entries es s = (Inl (KeyError k), s') \<and> sm_to_server s' = sm_to_server s"
proof -
  have absent: "\<exists>k s'. forget_entries es s = (Inl (KeyError k), s') \<and> sm_to_server s' = sm_to_server s"
    if "e \<in> set es" "map_of (sm_to_client s) (en_runtime_source e) = None" for e and es :: "entry list" and s
    using that
  proof (induction es arbitrary: s)
    case (Cons a es)
    let ?s = "s\<lparr>sm_to_client := od_del (en_runtime_source a) (sm_to_client s)\<rparr>"
    show ?case
    proof (cases "map_of (sm_to_client s) (en_runtime_source a) = None")
      case False
      with Cons.prems have "e \<in> set es" by auto
      with Cons.IH [of ?s] Cons.prems False show ?thesis by auto
    qed simp
  qed simp
  show ?thesis
    using assms
  proof (induction es arbitrary: s)
    case (Cons e es)
    show ?case
    proof (cases "map_of (sm_to_client s) (en_runtime_source e) = None")
      case present: False
      let ?s = "s\<lparr>sm_to_client := od_del (en_runtime_source e) (sm_to_client s)\<rparr>"
      have "\<exists>k s'. forget_entries es ?s = (Inl (KeyError k), s') \<and> sm_to_server s' = sm_to_server ?s"
      proof (cases "distinct (map en_runtime_source es)")
        case True
        with Cons.prems obtain e' where "e' \<in> set es" "en_runtime_source e' = en_runtime_source e" by auto
        then show ?thesis by (intro absent) auto
      qed (rule Cons.IH)
      with present show ?thesis by simp
    qed simp
  qed simp
qed

lemma map_of_claims:
  "map_of (foldl (\<lambda>m e. od_set (en_runtime_source e) f m) m es) =
    (\<lambda>r. if r \<in> en_runtime_source ` set es then Some f else map_of m r)"
  by (induction es arbitrary: m) (auto simp: fun_eq_iff)

lemma set_source_mapping_ok:
  assumes "mapping_inv s" and "f \<noteq> []" and "find_conflict s f es = None"
    and "distinct (map en_runtime_source (entries_of s f))"
  shows "\<exists>s'. set_source_mapping f es s = (Inr [], s') \<and> mapping_inv s' \<and>
    (\<forall>g. entries_of s' g = (if g = f then sort_key en_line es else entries_of s g))"
proof -
  have free: "map_of (sm_to_client s) (en_runtime_source e) = Some g \<Longrightarrow> g = f" if "e \<in> set es" for e g
    using that assms(3) by (simp add: find_conflict_iff [OF assms(1)])
  from forget_entries_distinct [OF assms(4), of s] mapping_invD(1) [OF assms(1)] obtain t where
    t: "forget_entries (entries_of s f) s = (Inr (), t)" "sm_to_server t = sm_to_server s" "sm_cache t = sm_cache s"
    "map_of (sm_to_client t) = (\<lambda>r. if r \<in> en_runtime_source ` set (entries_of s f) then None else map_of (sm_to_client s) r)"
    by auto
  define s' where "s' = t\<lparr>sm_to_server := od_set f (sort_key en_line es) (sm_to_server t),
    sm_to_client := foldl (\<lambda>m e. od_set (en_runtime_source e) f m) (sm_to_client t) es\<rparr>"
  have run: "set_source_mapping f es s = (Inr [], s')"
    using t(1) by (simp add: set_source_mapping_def assms(3) entries_of_def [symmetric] s'_def andthen_def)
  have ent: "entries_of s' g = (if g = f then sort_key en_line es else entries_of s g)" for g
    by (simp add: s'_def t(2) entries_of_def)
  have cl: "map_of (sm_to_client s') r = Some g \<longleftrightarrow> r \<in> en_runtime_source ` set (entries_of s' g)" for r g
  proof -
    have old: "r \<in> en_runtime_source ` set (entries_of s h) \<longleftrightarrow> map_of (sm_to_client s) r = Some h" for h
      using assms(1) by (simp add: mapping_inv_def)
    have "map_of (sm_to_client s') r = (if r \<in> en_runtime_source ` set es then Some f
        else if map_of (sm_to_client s) r = Some f then None else map_of (sm_to_client s) r)"
      unfolding old [symmetric] by (simp add: s'_def map_of_claims t(4))
    moreover have "r \<in> en_runtime_source ` set (entries_of s' g) \<longleftrightarrow>
        (if g = f then r \<in> en_runtime_source ` set es else map_of (sm_to_client s) r = Some g)"
      by (simp add: ent old)
    ultimately show ?thesis using free by (auto split: if_splits)
  qed
  have "sorted (map en_line (entries_of s' g))" for g
    using mapping_invD(3) [OF assms(1)] by (simp add: ent)
  moreover have "distinct (od_keys (sm_to_server s'))" "[] \<notin> set (od_keys (sm_to_server s'))" "sm_cache s' = []"
    using assms(1,2) by (auto simp: s'_def t(2,3) distinct_od_set mapping_inv_def)
  ultimately have "mapping_inv s'" using cl by (simp add: mapping_inv_def)
  with run ent show ?thesis by blast
qed

lemma set_source_mapping_raises:
  assumes "find_conflict s f es = None" and "\<not> distinct (map en_runtime_source (entries_of s f))"
  shows "\<exists>k s'. set_source_mapping f es s = (Inl (KeyError k), s') \<and> sm_to_server s' = sm_to_server s"
  using forget_entries_again [OF assms(2), of s]
  by (auto simp: set_source_mapping_def assms(1) entries_of_def [symmetric] andthen_def)

lemma set_source_mapping_conflict:
  "find_conflict s f es = Some message \<Longrightarrow> set_source_mapping f es s = (Inr message, s)"
  by (simp add: set_source_mapping_def)

lemma set_source_mapping_keeps:
  assumes "mapping_inv s" and "f \<noteq> []" and "set_source_mapping f es s = (Inr r, t)"
  shows "mapping_inv t"
  using assms set_source_mapping_ok [OF assms(1,2), of es] set_source_mapping_raises [of s f es]
    set_source_mapping_conflict [of s f es]
  by (cases "find_conflict s f es"; cases "distinct (map en_runtime_source (entries_of s f))") auto

text \<open>Each step of the debugger's life that sets a mapping without an exception.\<close>

definition mapping_step :: "source_mapping \<Rightarrow> source_mapping \<Rightarrow> bool" where
  "mapping_step s t \<longleftrightarrow> (\<exists>f es r. f \<noteq> [] \<and> set_source_mapping f es s = (Inr r, t))"

interpretation mappings: inductive_invariant "\<lambda>s. s = new_source_mapping" mapping_step mapping_inv
  by unfold_locales (auto simp: mapping_inv_new mapping_step_def intro: set_source_mapping_keeps)

text \<open>
  What \<open>set_source_mapping\<close> does, on every branch. A mapping with a runtime source of another
  file is refused with a message and nothing changes. Otherwise the entries of the file are
  replaced and the invariant is kept, unless two of the entries that it had so far
  share a runtime source: then replacing them raises \<open>KeyError\<close> half-way, and the old entries stay.
\<close>

theorem set_source_mapping_spec:
  assumes "mapping_inv s" and "f \<noteq> []"
  shows "\<exists>r s'. set_source_mapping f es s = (r, s') \<and>
    (if \<exists>e \<in> set es. \<exists>g. map_of (sm_to_client s) (en_runtime_source e) = Some g \<and> g \<noteq> f
     then (\<exists>message. r = Inr message \<and> message \<noteq> []) \<and> s' = s
     else if distinct (map en_runtime_source (entries_of s f))
     then r = Inr [] \<and> mapping_inv s' \<and>
       (\<forall>g. entries_of s' g = (if g = f then sort_key en_line es else entries_of s g))
     else (\<exists>k. r = Inl (KeyError k)) \<and> sm_to_server s' = sm_to_server s)"
proof (cases "find_conflict s f es")
  case (Some message)
  with find_conflict_iff [OF assms(1), of f es]
  have "\<exists>e \<in> set es. \<exists>g. map_of (sm_to_client s) (en_runtime_source e) = Some g \<and> g \<noteq> f" by auto
  with set_source_mapping_conflict [OF Some] find_conflict_nonempty [OF Some] show ?thesis by simp
next
  case None
  then have "\<not> (\<exists>e \<in> set es. \<exists>g. map_of (sm_to_client s) (en_runtime_source e) = Some g \<and> g \<noteq> f)"
    by (auto simp: find_conflict_iff [OF assms(1)])
  with set_source_mapping_ok [OF assms None] set_source_mapping_raises [OF None] show ?thesis
    by (cases "distinct (map en_runtime_source (entries_of s f))") auto
qed

definition demo_map :: "entry list" where
  "demo_map = [new_entry 5 8 1 ''<cell 2>'', new_entry 1 3 1 ''<cell 1>'']"

text \<open>A mapping sent twice is accepted twice: its runtime sources differ.\<close>

theorem set_source_mapping_spec_witness:
  "\<exists>s s'. set_source_mapping ''nb.py'' demo_map new_source_mapping = (Inr [], s) \<and>
     set_source_mapping ''nb.py'' demo_map s = (Inr [], s') \<and> mapping_inv s' \<and>
     (\<exists>message. message \<noteq> [] \<and> set_source_mapping ''other.py'' demo_map s' = (Inr message, s'))"
proof -
  have sort: "distinct (map en_runtime_source (sort_key en_line demo_map))"
    by (simp add: demo_map_def new_entry_def)
  obtain s where s: "set_source_mapping ''nb.py'' demo_map new_source_mapping = (Inr [], s)" "mapping_inv s"
    "entries_of s ''nb.py'' = sort_key en_line demo_map" "\<And>g. g \<noteq> ''nb.py'' \<Longrightarrow> entries_of s g = []"
    using set_source_mapping_spec [OF mapping_inv_new, of "''nb.py''" demo_map]
    by auto
  have cl: "map_of (sm_to_client t) r = Some g \<Longrightarrow> g = ''nb.py''"
    if "mapping_inv t" "\<And>g. g \<noteq> ''nb.py'' \<Longrightarrow> entries_of t g = []" for t r g
    using that by (force simp: mapping_inv_def)
  obtain s' where s': "set_source_mapping ''nb.py'' demo_map s = (Inr [], s')" "mapping_inv s'"
    "entries_of s' ''nb.py'' = sort_key en_line demo_map" "\<And>g. g \<noteq> ''nb.py'' \<Longrightarrow> entries_of s' g = []"
    using set_source_mapping_spec [OF s(2), of "''nb.py''" demo_map] sort s(3,4) cl [OF s(2,4)]
    by (auto split: if_splits)
  have "map_of (sm_to_client s') ''<cell 1>'' = Some ''nb.py''"
    using mapping_invD(1) [OF s'(2), of "new_entry 1 3 1 ''<cell 1>''" "''nb.py''"] s'(3)
    by (simp add: demo_map_def new_entry_def)
  then have "\<exists>e \<in> set demo_map. \<exists>g. map_of (sm_to_client s') (en_runtime_source e) = Some g \<and> g \<noteq> ''other.py''"
    by (auto simp: demo_map_def new_entry_def)
  with set_source_mapping_spec [OF s'(2), of "''other.py''" demo_map] s(1) s'(1,2) show ?thesis by auto
qed

section \<open>From the source to the runtime\<close>

text \<open>The blocks of a file that do not overlap, in the order of their lines.\<close>

definition blocks :: "entry list \<Rightarrow> bool" where
  "blocks es \<longleftrightarrow> (\<forall>e \<in> set es. en_line e \<le> en_end_line e) \<and> sorted_wrt (\<lambda>a b. en_end_line a < en_line b) es"

definition to_runtime :: "entry \<Rightarrow> int \<Rightarrow> int" where
  "to_runtime e lineno = en_runtime_line e + (lineno - en_line e)"

lemma blocks_sorted: "blocks es \<Longrightarrow> sorted (map en_line es)"
  unfolding blocks_def by (induction es) force+

lemma blocks_unique:
  assumes "blocks es" and "e \<in> set es" "e' \<in> set es" "contains_line e l" "contains_line e' l"
  shows "e = e'"
  using assms by (induction es) (force simp: blocks_def contains_line_def)+

lemma find_block:
  assumes "blocks es" and "e \<in> set es" and "contains_line e l"
  shows "find (\<lambda>e. contains_line e l) es = Some e"
proof -
  obtain e' where "find (\<lambda>e. contains_line e l) es = Some e'"
    using assms(2,3) by (cases "find (\<lambda>e. contains_line e l) es") (auto simp: find_None_iff)
  moreover from this have "e' \<in> set es" "contains_line e' l" by (auto simp: find_Some_iff)
  ultimately show ?thesis using blocks_unique [OF assms(1)] assms(2,3) by metis
qed

text \<open>The binary search with its two probes finds the block of a line.\<close>

lemma entry_for_line_find:
  assumes "blocks es" and "es \<noteq> []"
  shows "entry_for_line es l = find (\<lambda>e. contains_line e l) es"
proof -
  define a where "a = takeWhile (\<lambda>e. en_line e \<le> l) es"
  define b where "b = dropWhile (\<lambda>e. en_line e \<le> l) es"
  have es: "es = a @ b" by (simp add: a_def b_def)
  have below: "\<forall>e \<in> set a. en_line e \<le> l" by (auto simp: a_def dest: set_takeWhileD)
  have above: "\<forall>e \<in> set b. l < en_line e"
  proof (cases b)
    case (Cons x b')
    then have "\<not> en_line x \<le> l" using hd_dropWhile [of "\<lambda>e. en_line e \<le> l" es] by (auto simp: b_def)
    moreover have "sorted (map en_line b)" using blocks_sorted [OF assms(1)] by (simp add: es sorted_append)
    ultimately show ?thesis using Cons by fastforce
  qed simp
  have i: "bisect en_line es l = length a"
    using blocks_sorted [OF assms(1)] below above unfolding es by (intro bisect_append) auto
  have out: "\<not> contains_line e l" if "e \<in> set b" for e using that above by (force simp: contains_line_def)
  show ?thesis
  proof (cases a rule: rev_cases)
    case Nil
    then obtain x b' where "es = x # b'" using assms(2) es by (cases b) auto
    have "find (\<lambda>e. contains_line e l) es = None" using Nil es out by (simp add: find_None_iff)
    moreover have "bisect en_line es l = 0" "\<not> contains_line x l"
      using i Nil out es \<open>es = x # b'\<close> by auto
    ultimately show ?thesis by (simp add: entry_for_line_def Let_def \<open>es = x # b'\<close>)
  next
    case (snoc a' x)
    have before: "\<not> contains_line e l" if "e \<in> set a'" for e
      using assms(1) that below by (force simp: blocks_def contains_line_def es snoc sorted_wrt_append)
    have f: "find (\<lambda>e. contains_line e l) es = (if contains_line x l then Some x else None)"
    proof (cases "contains_line x l")
      case True
      then show ?thesis using find_block [OF assms(1), of x l] by (simp add: es snoc)
    qed (use before out in \<open>auto simp: es snoc find_None_iff\<close>)
    show ?thesis
    proof (cases b)
      case Nil
      then have *: "es = a' @ [x]" and k: "bisect en_line es l = Suc (length a')" using es snoc i by simp_all
      show ?thesis
      proof (cases a' rule: rev_cases)
        case Nil
        then show ?thesis unfolding f entry_for_line_def k by (simp add: Let_def *)
      next
        case (snoc a'' y)
        with before have "\<not> contains_line y l" by simp
        then show ?thesis unfolding f entry_for_line_def k by (simp add: Let_def * snoc nth_append)
      qed
    next
      case (Cons y b')
      then have *: "es = a' @ x # y # b'" and k: "bisect en_line es l = Suc (length a')" using es snoc i by simp_all
      have "\<not> contains_line y l" using out Cons by simp
      then show ?thesis unfolding f entry_for_line_def k by (simp add: Let_def * nth_append)
    qed
  qed
qed


section \<open>From the runtime to the source\<close>

lemma search_client_source:
  assumes "distinct (od_keys files)" and "map_of files f = Some es"
    and "\<forall>(g, gs) \<in> set files. g \<noteq> f \<longrightarrow> (\<forall>e \<in> set gs. en_runtime_source e \<noteq> r)"
  shows "search_client r k files =
    map_option (\<lambda>e. (f, en_line e + (k - en_runtime_line e), True)) (find (entry_at_runtime r k) es)"
  using assms
proof (induction files)
  case (Cons p files)
  obtain g gs where p: "p = (g, gs)" by (cases p)
  show ?case
  proof (cases "g = f")
    case True
    have "\<forall>(h, hs) \<in> set files. find (entry_at_runtime r k) hs = None"
    proof clarify
      fix h hs assume "(h, hs) \<in> set files"
      moreover from this have "h \<noteq> f" using Cons.prems(1) True by (force simp: p od_keys_def)
      ultimately show "find (entry_at_runtime r k) hs = None"
        using Cons.prems(3) by (fastforce simp: find_None_iff entry_at_runtime_def)
    qed
    then have "search_client r k files = None"
      by (induction files) auto
    then show ?thesis using True Cons.prems(2) by (auto simp: p split: option.splits)
  next
    case False
    then have "find (entry_at_runtime r k) gs = None"
      using Cons.prems(3) by (auto simp: p find_None_iff entry_at_runtime_def)
    then show ?thesis using False Cons by (simp add: p od_keys_def)
  qed
qed simp

text \<open>
  Only the file that a runtime source is recorded for is searched: the order of the files, in
  which Python's dicts keep them from 3.7 on, does not matter.
\<close>

lemma map_to_client_source:
  assumes "mapping_inv s" and "e \<in> set (entries_of s f)"
  shows "map_to_client s (en_runtime_source e) k =
    (case find (entry_at_runtime (en_runtime_source e) k) (entries_of s f) of
       None \<Rightarrow> (en_runtime_source e, k, False)
     | Some e' \<Rightarrow> (f, en_line e' + (k - en_runtime_line e'), True))"
proof -
  obtain es where es: "map_of (sm_to_server s) f = Some es" "entries_of s f = es"
    using assms(2) by (cases "map_of (sm_to_server s) f") (auto simp: entries_of_def)
  have "en_runtime_source e' \<noteq> en_runtime_source e"
    if "(g, gs) \<in> set (sm_to_server s)" "g \<noteq> f" "e' \<in> set gs" for g gs e'
  proof -
    have "entries_of s g = gs"
      using that(1) assms(1) by (simp add: mapping_inv_def entries_of_def od_keys_def)
    with mapping_invD(1) [OF assms(1), of e' g] mapping_invD(1) [OF assms] that show ?thesis by auto
  qed
  then have "search_client (en_runtime_source e) k (sm_to_server s) =
    map_option (\<lambda>e. (f, en_line e + (k - en_runtime_line e), True)) (find (entry_at_runtime (en_runtime_source e) k) es)"
    using assms(1) es by (intro search_client_source) (auto simp: mapping_inv_def)
  then show ?thesis
    by (auto simp: map_to_client_def mapping_invD(4) [OF assms(1)] es split: option.splits)
qed

lemma find_only_source:
  assumes "distinct (map en_runtime_source es)" and "e \<in> set es"
  shows "find (entry_at_runtime (en_runtime_source e) k) es = (if contains_runtime_line e k then Some e else None)"
proof (cases "contains_runtime_line e k")
  case True
  with assms(2) have "\<exists>e'. find (entry_at_runtime (en_runtime_source e) k) es = Some e'"
    by (cases "find (entry_at_runtime (en_runtime_source e) k) es") (auto simp: find_None_iff entry_at_runtime_def)
  then obtain e' where e': "find (entry_at_runtime (en_runtime_source e) k) es = Some e'" by blast
  then have "e' \<in> set es" "en_runtime_source e' = en_runtime_source e"
    by (auto simp: find_Some_iff entry_at_runtime_def)
  with assms have "e' = e" by (auto simp: distinct_map inj_on_def)
  with e' True show ?thesis by simp
next
  case False
  with assms have "\<forall>e' \<in> set es. \<not> entry_at_runtime (en_runtime_source e) k e'"
    by (auto simp: entry_at_runtime_def distinct_map inj_on_def)
  with False show ?thesis by (simp add: find_None_iff)
qed


text \<open>
  \<open>contains_runtime_line\<close> adds the two ends of a block where their difference is meant: the
  line of a cell directly after the block is reported to the client as the line after the block in the source, to
  which no mapping applies, and so are as many lines more as the block's first line has for its number, twice.
\<close>

theorem runtime_block_overrun:
  assumes "mapping_inv s" and "distinct (map en_runtime_source (entries_of s f))"
    and "e \<in> set (entries_of s f)" and "en_line e \<le> en_end_line e" and "1 \<le> n" and "n \<le> 2 * en_line e"
  shows "map_to_client s (en_runtime_source e) (to_runtime e (en_end_line e) + n) = (f, en_end_line e + n, True)"
proof -
  have "contains_runtime_line e (to_runtime e (en_end_line e) + n)"
    using assms(4-6) by (simp add: contains_runtime_line_def to_runtime_def Let_def)
  with map_to_client_source [OF assms(1,3)] find_only_source [OF assms(2,3)] show ?thesis
    by (simp add: to_runtime_def)
qed

text \<open>A file with two cells, as \<open>setPydevdSourceMap\<close> sets it.\<close>

definition demo_source_mapping :: source_mapping where
  "demo_source_mapping = snd (set_source_mapping ''nb.py'' demo_map new_source_mapping)"

lemma demo_source_mapping:
  "mapping_inv demo_source_mapping"
  "entries_of demo_source_mapping ''nb.py'' = [new_entry 1 3 1 ''<cell 1>'', new_entry 5 8 1 ''<cell 2>'']"
proof -
  have "find_conflict new_source_mapping ''nb.py'' demo_map = None"
    by (simp add: find_conflict_iff [OF mapping_inv_new])
  from set_source_mapping_ok [OF mapping_inv_new _ this]
  show "mapping_inv demo_source_mapping"
    "entries_of demo_source_mapping ''nb.py'' = [new_entry 1 3 1 ''<cell 1>'', new_entry 5 8 1 ''<cell 2>'']"
    by (auto simp: demo_source_mapping_def demo_map_def new_entry_def)
qed

lemma demo_blocks: "blocks (entries_of demo_source_mapping ''nb.py'')"
  "distinct (map en_runtime_source (entries_of demo_source_mapping ''nb.py''))"
  by (simp_all add: demo_source_mapping blocks_def new_entry_def)



theorem runtime_block_overrun_witness:
  "map_to_client demo_source_mapping ''<cell 1>'' 4 = (''nb.py'', 4, True)"
  using runtime_block_overrun [OF demo_source_mapping(1) demo_blocks(2), of "new_entry 1 3 1 ''<cell 1>''" 1]
  by (simp add: demo_source_mapping(2) new_entry_def to_runtime_def)

text \<open>
  After a failed replacement two files can claim the same cell, which \<open>set_source_mapping\<close>
  means to refuse: a file with two blocks in one cell, sent again, raises, and another file
  is then let in.
\<close>

theorem failed_replacement_lets_other_in:
  "let twice = [new_entry 1 2 1 ''<cell>'', new_entry 4 5 4 ''<cell>''];
       s1 = snd (set_source_mapping ''a.py'' twice new_source_mapping);
       (r2, s2) = set_source_mapping ''a.py'' twice s1;
       (r3, s3) = set_source_mapping ''b.py'' [new_entry 1 9 1 ''<cell>''] s2
   in r2 = Inl (KeyError ''<cell>'') \<and> r3 = Inr [] \<and>
      map_to_server s3 ''a.py'' 1 = (''<cell>'', 1, True) \<and> map_to_server s3 ''b.py'' 1 = (''<cell>'', 1, True)"
  by code_simp

end
