(* ===== verification/FileUtils.thy ===== *)
theory FileUtils
  imports PyValues
begin

text \<open>
  \<open>pydevd_file_utils.py\<close>: normal forms of file names, and the translation of file names
  between the IDE's machine and the debuggee's, with its source references.

  What the operating system knows is a parameter, one snapshot \<open>os_env\<close>: absolute and real paths,
  which files exist, \<open>sys.path\<close>, the entries of zip files, and the Windows calls for long names and
  for the case of a name on disk. \<open>_NormPaths\<close> and \<open>exists\<close> only cache functions of that
  snapshot; their caches are left out. Strings are taken as characters of Latin-1 where letters are
  lowered.
\<close>

section \<open>The operating system\<close>

record os_env =
  os_windows :: bool
  os_abspath :: "string \<Rightarrow> string"
  os_realpath :: "string \<Rightarrow> string"
  os_isabs :: "string \<Rightarrow> bool"
  os_exists :: "string \<Rightarrow> bool"
  os_join :: "string \<Rightarrow> string \<Rightarrow> string"
  os_sys_path :: "string list"
  os_library_dir :: string
  os_zip_has :: "string \<Rightarrow> string \<Rightarrow> bool"
  os_long_path :: "string \<Rightarrow> string"
  os_real_case :: "string \<Rightarrow> string"

section \<open>Strings\<close>

definition lower_char :: "char \<Rightarrow> char" where
  "lower_char c = (let n = (of_char c :: nat) in
    if 65 \<le> n \<and> n \<le> 90 \<or> 192 \<le> n \<and> n \<le> 222 \<and> n \<noteq> 215 then char_of (n + 32) else c)"

definition lower :: "string \<Rightarrow> string" where
  "lower s = map lower_char s"

text \<open>\<open>s.replace(a, b)\<close> for single characters.\<close>

definition replace_char :: "char \<Rightarrow> char \<Rightarrow> string \<Rightarrow> string" where
  "replace_char a b s = map (\<lambda>c. if c = a then b else c) s"

fun find_sub :: "string \<Rightarrow> string \<Rightarrow> nat option" where
  "find_sub p [] = (if p = [] then Some 0 else None)"
| "find_sub p (c # s) = (if starts_with (c # s) p then Some 0 else map_option Suc (find_sub p s))"

definition slash :: char where "slash = CHR ''/''"

definition backslash :: char where "backslash = CHR 0x5C"

definition has_char :: "char \<Rightarrow> string \<Rightarrow> bool" where
  "has_char c s \<longleftrightarrow> c \<in> set s"

text \<open>A synthetic name such as \<open><string>\<close>.\<close>

definition synthetic :: "string \<Rightarrow> bool" where
  "synthetic s \<longleftrightarrow> starts_with s ''<''"

section \<open>Normal forms\<close>

definition normcase_windows :: "os_env \<Rightarrow> string \<Rightarrow> string" where
  "normcase_windows E filename =
    (let filename = (if has_char (CHR 0x7E) filename then os_long_path E filename else filename) in
     lower (lower (replace_char slash backslash filename)))"

definition normcase_linux :: "string \<Rightarrow> string" where
  "normcase_linux filename = filename"

definition normcase :: "os_env \<Rightarrow> string \<Rightarrow> string" where
  "normcase E = (if os_windows E then normcase_windows E else normcase_linux)"

fun first_existing :: "os_env \<Rightarrow> (string \<Rightarrow> string) \<Rightarrow> string \<Rightarrow> string list \<Rightarrow> string option" where
  "first_existing E normpath filename [] = None"
| "first_existing E normpath filename (p # ps) =
    (let r = normpath (os_join E p filename) in
     if os_exists E r then Some r else first_existing E normpath filename ps)"

definition get_relative_filename_abs_path :: "os_env \<Rightarrow> string \<Rightarrow> (string \<Rightarrow> string) \<Rightarrow> string" where
  "get_relative_filename_abs_path E filename normpath =
    (case first_existing E normpath filename (os_sys_path E) of
       Some r \<Rightarrow> r
     | None \<Rightarrow> normpath (os_join E (os_library_dir E) filename))"

text \<open>The position of the first \<open>.zip\<close>, or else of the first \<open>.egg\<close>.\<close>

definition archive_at :: "string \<Rightarrow> nat option" where
  "archive_at r = (case find_sub ''.zip'' r of Some i \<Rightarrow> Some i | None \<Rightarrow> find_sub ''.egg'' r)"

definition split_archive :: "string \<Rightarrow> nat \<Rightarrow> string \<times> string" where
  "split_archive r i =
    (let zip_path = take (i + 4) r; inner_path = drop (i + 4) r in
     if starts_with inner_path ''!'' then (zip_path @ ''!'', drop 1 inner_path) else (zip_path, inner_path))"

definition strip_separator :: "string \<Rightarrow> string" where
  "strip_separator s = (if starts_with s [slash] \<or> starts_with s [backslash] then drop 1 s else s)"

definition norm_path :: "os_env \<Rightarrow> string \<Rightarrow> (string \<Rightarrow> string) \<Rightarrow> bool \<Rightarrow> string" where
  "norm_path E filename normpath isabs =
    (if synthetic filename then filename
     else
       let r = normpath filename;
           r = (if \<not> isabs \<and> \<not> os_exists E r then get_relative_filename_abs_path E filename normpath else r)
       in case archive_at r of
            None \<Rightarrow> normcase E r
          | Some i \<Rightarrow>
              let (zip_path, inner_path) = split_archive r i;
                  inner_path = strip_separator inner_path
              in if inner_path \<noteq> [] then os_join E (normcase E zip_path) inner_path else normcase E r)"

definition norm_paths :: "os_env \<Rightarrow> string \<Rightarrow> string \<times> string" where
  "norm_paths E filename =
    (let isabs = os_isabs E filename in
     (norm_path E filename (os_abspath E) isabs, norm_path E filename (os_realpath E) isabs))"

definition norm_file :: "os_env \<Rightarrow> string \<Rightarrow> string" where
  "norm_file E filename = snd (norm_paths E filename)"

definition abs_file :: "os_env \<Rightarrow> string \<Rightarrow> string" where
  "abs_file E filename = fst (norm_paths E filename)"

definition file_exists :: "os_env \<Rightarrow> string \<Rightarrow> bool" where
  "file_exists E filename =
    (if os_exists E filename then True
     else
       let file = (if \<not> os_isabs E filename then get_relative_filename_abs_path E filename (os_abspath E) else filename) in
       if \<not> os_isabs E filename \<and> os_exists E file then True
       else case archive_at file of
              None \<Rightarrow> False
            | Some i \<Rightarrow>
                let (zip_path, inner_path) = split_archive file i;
                    inner_path = strip_separator inner_path
                in os_zip_has E zip_path (replace_char backslash slash inner_path))"

text \<open>\<open>get_path_with_real_case\<close> does nothing but on Windows.\<close>

definition real_case :: "os_env \<Rightarrow> string \<Rightarrow> string" where
  "real_case E filename = (if os_windows E then os_real_case E filename else filename)"

definition ends_with :: "string \<Rightarrow> string \<Rightarrow> bool" where
  "ends_with s p \<longleftrightarrow> length p \<le> length s \<and> drop (length s - length p) s = p"

definition source_of_bytecode :: "string \<Rightarrow> string" where
  "source_of_bytecode f =
    (if ends_with f ''.pyc'' then butlast f
     else if ends_with f ''$py.class'' then take (length f - length ''$py.class'') f @ ''.py''
     else f)"

text \<open>\<open>os.path.basename\<close>: what follows the last separator, and the drive on Windows.\<close>

definition basename :: "os_env \<Rightarrow> string \<Rightarrow> string" where
  "basename E s =
    (let s = (if os_windows E \<and> drop 1 (take 2 s) = '':'' then drop 2 s else s)
     in rev (takeWhile (\<lambda>c. c \<noteq> slash \<and> \<not> (os_windows E \<and> c = backslash)) (rev s)))"

definition get_abs_path_real_path_and_base_from_file :: "os_env \<Rightarrow> string \<Rightarrow> string \<times> string \<times> string" where
  "get_abs_path_real_path_and_base_from_file E f =
    (let (abs_path, real_path) = norm_paths E (source_of_bytecode f)
     in (abs_path, real_path, basename E real_path))"

section \<open>Path mappings\<close>

text \<open>
  What \<open>setup_client_server_paths\<close> closes its two functions over: the separators, the fixed
  mappings, their normal forms, and a cache for each direction.
\<close>

record translation =
  tr_eclipse_sep :: char
  tr_python_sep :: char
  tr_initial :: "(string \<times> string) list"
  tr_normal :: "(string \<times> string) list"
  tr_server_cache :: "(string, string) odict"
  tr_client_cache :: "(string, string) odict"

text \<open>
  The globals of the module. \<open>_normcase_from_client\<close> is not among them: \<open>set_ide_os\<close> keeps it
  the function that \<open>_ide_os\<close> determines.
\<close>

record path_state =
  ps_ide_windows :: bool
  ps_last_paths :: "(string \<times> string) list"
  ps_translation :: "translation option"
  ps_original_cache :: "(string, string) odict"
  ps_reference_to_file :: "(int, string) odict"
  ps_client_to_reference :: "(string, int) odict"
  ps_next_reference :: int

definition normcase_from_client :: "os_env \<Rightarrow> bool \<Rightarrow> string \<Rightarrow> string" where
  "normcase_from_client E ide_windows = (if ide_windows then normcase_windows E else normcase_linux)"

definition separator :: "bool \<Rightarrow> char" where
  "separator windows = (if windows then backslash else slash)"

definition fix_path :: "string \<Rightarrow> char \<Rightarrow> string" where
  "fix_path path sep =
    (let path = (if ends_with path [slash] \<or> ends_with path [backslash] then butlast path else path)
     in if sep \<noteq> slash then replace_char slash sep path else path)"

definition new_translation :: "os_env \<Rightarrow> bool \<Rightarrow> (string \<times> string) list \<Rightarrow> translation" where
  "new_translation E ide_windows paths =
    (let python_sep = separator (os_windows E);
         eclipse_sep = separator ide_windows;
         initial = map (\<lambda>(path0, path1). (fix_path path0 eclipse_sep, fix_path path1 python_sep)) paths;
         normal = map (\<lambda>(path0, path1). (normcase_from_client E ide_windows path0, normcase E path1)) initial
     in \<lparr>tr_eclipse_sep = eclipse_sep, tr_python_sep = python_sep, tr_initial = initial, tr_normal = normal,
         tr_server_cache = [], tr_client_cache = []\<rparr>)"

definition setup_client_server_paths :: "os_env \<Rightarrow> (string \<times> string) list \<Rightarrow> path_state \<Rightarrow> path_state" where
  "setup_client_server_paths E paths s =
    s\<lparr>ps_last_paths := paths, ps_reference_to_file := [], ps_client_to_reference := [], ps_next_reference := 1,
      ps_translation := (if paths = [] then None else Some (new_translation E (ps_ide_windows s) paths))\<rparr>"

text \<open>The module as it is loaded, before the mappings of the environment are set up.\<close>

definition loaded_paths :: "os_env \<Rightarrow> path_state" where
  "loaded_paths E =
    \<lparr>ps_ide_windows = os_windows E, ps_last_paths = [], ps_translation = None, ps_original_cache = [],
     ps_reference_to_file = [], ps_client_to_reference = [], ps_next_reference = 1\<rparr>"

definition set_ide_os :: "os_env \<Rightarrow> string \<Rightarrow> (path_state, exn, unit) sem" where
  "set_ide_os E os s =
    (let os = (if os = ''WIN'' then ''WINDOWS'' else os) in
     if os \<noteq> ''WINDOWS'' \<and> os \<noteq> ''UNIX'' then (Inl (AssertionError ''os in (WINDOWS, UNIX)''), s)
     else if ps_ide_windows s \<noteq> (os = ''WINDOWS'')
     then (Inr (), setup_client_server_paths E (ps_last_paths s) (s\<lparr>ps_ide_windows := (os = ''WINDOWS'')\<rparr>))
     else (Inr (), s))"

definition convert_seps :: "char \<Rightarrow> char \<Rightarrow> string \<Rightarrow> string" where
  "convert_seps from_sep to_sep s = (if from_sep \<noteq> to_sep then replace_char from_sep to_sep s else s)"

text \<open>The first mapping whose prefix on one side \<open>name\<close> starts with, by position.\<close>

fun first_prefix :: "('a \<Rightarrow> string) \<Rightarrow> 'a list \<Rightarrow> string \<Rightarrow> (nat \<times> 'a) option" where
  "first_prefix side [] name = None"
| "first_prefix side (m # ms) name =
    (if starts_with name (side m) then Some (0, m)
     else map_option (\<lambda>(i, m). (Suc i, m)) (first_prefix side ms name))"

text \<open>What \<open>_norm_file_to_server\<close> computes on a cache miss, from the name with the IDE's separators.\<close>

definition translate_to_server :: "os_env \<Rightarrow> bool \<Rightarrow> translation \<Rightarrow> string \<Rightarrow> string" where
  "translate_to_server E ide_windows t filename =
    (case first_prefix fst (tr_normal t) (normcase_from_client E ide_windows filename) of
       Some (_, eclipse_prefix, server_prefix) \<Rightarrow>
         norm_file E (convert_seps (tr_eclipse_sep t) (tr_python_sep t)
           (server_prefix @ drop (length eclipse_prefix) filename))
     | None \<Rightarrow>
         let translated = convert_seps (tr_eclipse_sep t) (tr_python_sep t) filename in
         if os_exists E translated then norm_file E translated else translated)"

text \<open>\<open>cache[filename]\<close> is set after \<open>filename\<close> got the IDE's separators.\<close>

definition norm_file_to_server :: "os_env \<Rightarrow> string \<Rightarrow> path_state \<Rightarrow> string \<times> path_state" where
  "norm_file_to_server E filename s =
    (case ps_translation s of
       None \<Rightarrow> (norm_file E filename, s)
     | Some t \<Rightarrow>
         (case map_of (tr_server_cache t) filename of
            Some translated \<Rightarrow> (translated, s)
          | None \<Rightarrow>
              let filename = convert_seps (tr_python_sep t) (tr_eclipse_sep t) filename;
                  translated = translate_to_server E (ps_ide_windows s) t filename
              in (translated, s\<lparr>ps_translation :=
                    Some (t\<lparr>tr_server_cache := od_set filename translated (tr_server_cache t)\<rparr>)\<rparr>)))"

text \<open>
  What \<open>_norm_file_to_client\<close> computes on a cache miss, with whether a mapping applied. Without a
  mapping the name with its real case is used only when the translation is being debugged: the
  assignment stands in the branch that writes the message.
\<close>

definition translate_to_client :: "os_env \<Rightarrow> translation \<Rightarrow> string \<Rightarrow> string \<times> bool" where
  "translate_to_client E t filename =
    (let proper = real_case E (norm_file E filename);
         translated = norm_file E proper;
         proper = (if os_windows E \<and> lower translated \<noteq> lower proper then translated else proper)
     in case first_prefix snd (tr_normal t) translated of
          Some (i, _, python_prefix) \<Rightarrow>
            (convert_seps (tr_python_sep t) (tr_eclipse_sep t)
               (fst (tr_initial t ! i) @ drop (length python_prefix) proper), True)
        | None \<Rightarrow> (convert_seps (tr_python_sep t) (tr_eclipse_sep t) translated, False))"

text \<open>The source reference of a name that the client sees for the first time: 0 if it can open the file.\<close>

definition refer_to :: "string \<Rightarrow> bool \<Rightarrow> string \<Rightarrow> path_state \<Rightarrow> path_state" where
  "refer_to translated mapped filename s =
    (if map_of (ps_client_to_reference s) translated \<noteq> None then s
     else
       let reference = (if mapped then 0 else ps_next_reference s) in
       s\<lparr>ps_next_reference := (if mapped then ps_next_reference s else ps_next_reference s + 1),
         ps_client_to_reference := od_set translated reference (ps_client_to_reference s),
         ps_reference_to_file := od_set reference filename (ps_reference_to_file s)\<rparr>)"

definition norm_file_to_client :: "os_env \<Rightarrow> string \<Rightarrow> path_state \<Rightarrow> string \<times> path_state" where
  "norm_file_to_client E filename s =
    (case ps_translation s of
       None \<Rightarrow>
         (case map_of (ps_original_cache s) filename of
            Some translated \<Rightarrow> (translated, s)
          | None \<Rightarrow>
              let translated = real_case E (abs_file E filename) in
              (translated, s\<lparr>ps_original_cache := od_set filename translated (ps_original_cache s)\<rparr>))
     | Some t \<Rightarrow>
         (case map_of (tr_client_cache t) filename of
            Some translated \<Rightarrow> (translated, s)
          | None \<Rightarrow>
              let (translated, mapped) = translate_to_client E t filename;
                  s = s\<lparr>ps_translation :=
                    Some (t\<lparr>tr_client_cache := od_set filename translated (tr_client_cache t)\<rparr>)\<rparr>
              in (translated, refer_to translated mapped filename s)))"

definition get_client_filename_source_reference :: "path_state \<Rightarrow> string \<Rightarrow> int" where
  "get_client_filename_source_reference s client_filename =
    (case map_of (ps_client_to_reference s) client_filename of None \<Rightarrow> 0 | Some r \<Rightarrow> r)"

definition get_server_filename_from_source_reference :: "path_state \<Rightarrow> int \<Rightarrow> string" where
  "get_server_filename_from_source_reference s reference =
    (case map_of (ps_reference_to_file s) reference of None \<Rightarrow> [] | Some f \<Rightarrow> f)"

section \<open>The caches and the source references\<close>

lemma convert_seps_idem [simp]: "convert_seps a b (convert_seps a b s) = convert_seps a b s"
  by (simp add: convert_seps_def replace_char_def)

lemma convert_seps_same [simp]: "convert_seps a a s = s"
  by (simp add: convert_seps_def)

text \<open>
  Both caches hold what would be computed again. Source references count up from 1, and the
  file behind each is one that no mapping applies to and that has the client name it was made for.
\<close>

definition translation_ok :: "os_env \<Rightarrow> path_state \<Rightarrow> translation \<Rightarrow> bool" where
  "translation_ok E s t \<longleftrightarrow>
    t\<lparr>tr_server_cache := [], tr_client_cache := []\<rparr> = new_translation E (ps_ide_windows s) (ps_last_paths s) \<and>
    (\<forall>f g. map_of (tr_server_cache t) f = Some g \<longrightarrow>
       translate_to_server E (ps_ide_windows s) t f = g \<and> convert_seps (tr_python_sep t) (tr_eclipse_sep t) f = f) \<and>
    (\<forall>f g. map_of (tr_client_cache t) f = Some g \<longrightarrow> fst (translate_to_client E t f) = g)"

definition references_ok :: "os_env \<Rightarrow> path_state \<Rightarrow> bool" where
  "references_ok E s \<longleftrightarrow> 1 \<le> ps_next_reference s \<and>
    (\<forall>c r. map_of (ps_client_to_reference s) c = Some r \<longrightarrow> 0 \<le> r \<and> r < ps_next_reference s) \<and>
    (\<forall>c c' r. map_of (ps_client_to_reference s) c = Some r \<longrightarrow> map_of (ps_client_to_reference s) c' = Some r \<longrightarrow>
       r \<noteq> 0 \<longrightarrow> c = c') \<and>
    (\<forall>c r. map_of (ps_client_to_reference s) c = Some r \<longrightarrow> r \<noteq> 0 \<longrightarrow>
       (\<exists>t f. ps_translation s = Some t \<and> map_of (ps_reference_to_file s) r = Some f \<and>
          translate_to_client E t f = (c, False)))"

definition path_inv :: "os_env \<Rightarrow> path_state \<Rightarrow> bool" where
  "path_inv E s \<longleftrightarrow> references_ok E s \<and> (ps_translation s = None \<longleftrightarrow> ps_last_paths s = []) \<and> (\<forall>t. ps_translation s = Some t \<longrightarrow> translation_ok E s t)"

lemma translate_caches [simp]:
  "translate_to_server E w (t\<lparr>tr_server_cache := sc\<rparr>) f = translate_to_server E w t f"
  "translate_to_server E w (t\<lparr>tr_client_cache := cc\<rparr>) f = translate_to_server E w t f"
  "translate_to_client E (t\<lparr>tr_server_cache := sc\<rparr>) f = translate_to_client E t f"
  "translate_to_client E (t\<lparr>tr_client_cache := cc\<rparr>) f = translate_to_client E t f"
  by (auto simp: translate_to_server_def translate_to_client_def Let_def split: option.splits)

lemma path_inv_loaded: "path_inv E (loaded_paths E)"
  by (simp add: path_inv_def references_ok_def loaded_paths_def)

lemma path_inv_setup: "path_inv E (setup_client_server_paths E paths s)"
  by (auto simp: path_inv_def references_ok_def translation_ok_def setup_client_server_paths_def new_translation_def Let_def)

lemma path_inv_set_ide_os: "path_inv E s \<Longrightarrow> path_inv E (snd (set_ide_os E os s))"
  by (simp add: set_ide_os_def path_inv_setup Let_def)

lemma path_inv_to_server:
  assumes "path_inv E s"
  shows "path_inv E (snd (norm_file_to_server E f s))"
proof (cases "ps_translation s")
  case (Some t)
  show ?thesis
  proof (cases "map_of (tr_server_cache t) f")
    case None
    define g where "g = convert_seps (tr_python_sep t) (tr_eclipse_sep t) f"
    define t' where "t' = t\<lparr>tr_server_cache := od_set g (translate_to_server E (ps_ide_windows s) t g) (tr_server_cache t)\<rparr>"
    have "translation_ok E s t" using assms Some by (simp add: path_inv_def)
    then have "translation_ok E (s\<lparr>ps_translation := Some t'\<rparr>) t'"
      by (auto simp: translation_ok_def t'_def g_def)
    moreover have "references_ok E (s\<lparr>ps_translation := Some t'\<rparr>)"
      using assms Some by (simp add: path_inv_def references_ok_def t'_def)
    moreover have "snd (norm_file_to_server E f s) = s\<lparr>ps_translation := Some t'\<rparr>"
      using Some None by (simp add: norm_file_to_server_def t'_def g_def Let_def)
    ultimately show ?thesis using assms Some by (simp add: path_inv_def)
  qed (use assms Some in \<open>simp add: norm_file_to_server_def\<close>)
qed (use assms in \<open>simp add: norm_file_to_server_def\<close>)

lemma references_ok_refer:
  assumes "references_ok E s" and "ps_translation s = Some t" and "translate_to_client E t f = (c, mapped)"
  shows "references_ok E (refer_to c mapped f s)"
proof (cases "map_of (ps_client_to_reference s) c")
  case None
  let ?r = "ps_next_reference s"
  have r: "1 \<le> ?r" and below: "\<And>c r. map_of (ps_client_to_reference s) c = Some r \<Longrightarrow> 0 \<le> r \<and> r < ?r"
    and inj: "\<And>c c' r. map_of (ps_client_to_reference s) c = Some r \<Longrightarrow>
      map_of (ps_client_to_reference s) c' = Some r \<Longrightarrow> r \<noteq> 0 \<Longrightarrow> c = c'"
    and behind: "\<And>c r. map_of (ps_client_to_reference s) c = Some r \<Longrightarrow> r \<noteq> 0 \<Longrightarrow>
      \<exists>f. map_of (ps_reference_to_file s) r = Some f \<and> translate_to_client E t f = (c, False)"
    using assms(1,2) unfolding references_ok_def by (blast, blast, blast, fastforce)
  have fresh: "map_of (ps_client_to_reference s) c' \<noteq> Some ?r" for c'
    using below [of c' ?r] by auto
  show ?thesis
  proof (cases mapped)
    case True
    with None r below inj behind assms(2) show ?thesis
      by (auto simp: refer_to_def references_ok_def)
  next
    case False
    have "references_ok E (refer_to c False f s)"
      unfolding references_ok_def
    proof (intro conjI allI impI)
      fix c' r assume "map_of (ps_client_to_reference (refer_to c False f s)) c' = Some r" "r \<noteq> 0"
      then show "\<exists>t f'. ps_translation (refer_to c False f s) = Some t \<and>
          map_of (ps_reference_to_file (refer_to c False f s)) r = Some f' \<and> translate_to_client E t f' = (c', False)"
        using None False assms(2,3) behind [of c' r] below [of c' r]
        by (auto simp: refer_to_def Let_def split: if_splits)
    qed (use None r inj fresh in \<open>auto simp: refer_to_def Let_def split: if_splits dest!: below\<close>)
    with False show ?thesis by simp
  qed
qed (use assms in \<open>simp add: refer_to_def\<close>)

lemma refer_to_simps [simp]:
  "ps_translation (refer_to c mapped f s) = ps_translation s"
  "ps_ide_windows (refer_to c mapped f s) = ps_ide_windows s"
  "ps_last_paths (refer_to c mapped f s) = ps_last_paths s"
  by (simp_all add: refer_to_def Let_def)

lemma path_inv_to_client:
  assumes "path_inv E s"
  shows "path_inv E (snd (norm_file_to_client E f s))"
proof (cases "ps_translation s")
  case None
  with assms show ?thesis
    by (auto simp: norm_file_to_client_def path_inv_def references_ok_def Let_def split: option.splits)
next
  case (Some t)
  show ?thesis
  proof (cases "map_of (tr_client_cache t) f")
    case None
    obtain c mapped where c: "translate_to_client E t f = (c, mapped)" by fastforce
    define t' where "t' = t\<lparr>tr_client_cache := od_set f c (tr_client_cache t)\<rparr>"
    let ?s = "s\<lparr>ps_translation := Some t'\<rparr>"
    have "translation_ok E s t" "references_ok E s" using assms Some by (simp_all add: path_inv_def)
    then have "translation_ok E ?s t'" and "references_ok E ?s"
      using c Some by (auto simp: translation_ok_def references_ok_def t'_def)
    moreover have "translate_to_client E t' f = (c, mapped)" by (simp add: t'_def c)
    ultimately have "references_ok E (refer_to c mapped f ?s)" by (intro references_ok_refer) auto
    moreover have "snd (norm_file_to_client E f s) = refer_to c mapped f ?s"
      using Some None c by (simp add: norm_file_to_client_def t'_def Let_def)
    moreover have "ps_last_paths s \<noteq> []" using assms Some by (simp add: path_inv_def)
    ultimately show ?thesis using \<open>translation_ok E ?s t'\<close> by (simp add: path_inv_def translation_ok_def)
  qed (use assms Some in \<open>simp add: norm_file_to_client_def\<close>)
qed

text \<open>The calls that the rest of the debugger makes.\<close>

inductive path_step :: "os_env \<Rightarrow> path_state \<Rightarrow> path_state \<Rightarrow> bool" for E where
  set_paths: "path_step E s (setup_client_server_paths E paths s)"
| set_os: "path_step E s (snd (set_ide_os E os s))"
| to_server: "path_step E s (snd (norm_file_to_server E f s))"
| to_client: "path_step E s (snd (norm_file_to_client E f s))"

lemma reachable_setup:
  "reachable (\<lambda>s. s = loaded_paths E) (path_step E) (setup_client_server_paths E paths (loaded_paths E))"
proof (rule reachable_step)
  show "reachable (\<lambda>s. s = loaded_paths E) (path_step E) (loaded_paths E)" by (rule reachable_init) (rule refl)
qed (rule path_step.set_paths)

interpretation paths: inductive_invariant "\<lambda>s. s = loaded_paths E" "path_step E" "path_inv E" for E
proof unfold_locales
  fix s t assume "path_inv E s" "path_step E s t"
  then show "path_inv E t"
    by (cases rule: path_step.cases [OF \<open>path_step E s t\<close>])
      (simp_all add: path_inv_setup path_inv_set_ide_os path_inv_to_server path_inv_to_client)
qed (simp add: path_inv_loaded)

section \<open>Translation there and back\<close>

lemma to_server_value:
  assumes "path_inv E s" and "ps_translation s = Some t"
  shows "fst (norm_file_to_server E f s) =
    translate_to_server E (ps_ide_windows s) t (convert_seps (tr_python_sep t) (tr_eclipse_sep t) f)"
  using assms by (auto simp: norm_file_to_server_def path_inv_def translation_ok_def Let_def split: option.splits)

lemma to_client_value:
  assumes "path_inv E s" and "ps_translation s = Some t"
  shows "fst (norm_file_to_client E f s) = fst (translate_to_client E t f)"
  using assms by (auto simp: norm_file_to_client_def path_inv_def translation_ok_def Let_def split: option.splits prod.splits)

lemma to_server_translation:
  assumes "ps_translation s = Some t"
  shows "\<exists>sc. ps_translation (snd (norm_file_to_server E f s)) = Some (t\<lparr>tr_server_cache := sc\<rparr>)"
proof (cases "map_of (tr_server_cache t) f")
  case None
  with assms show ?thesis by (auto simp: norm_file_to_server_def Let_def)
next
  case (Some g)
  then have "ps_translation (snd (norm_file_to_server E f s)) = Some (t\<lparr>tr_server_cache := tr_server_cache t\<rparr>)"
    using assms by (simp add: norm_file_to_server_def)
  then show ?thesis ..
qed

lemma first_prefix_Some:
  "first_prefix side ms name = Some (i, m) \<Longrightarrow> i < length ms \<and> ms ! i = m \<and> starts_with name (side m)"
  by (induction ms arbitrary: i) (auto split: if_splits)

text \<open>The mappings between two UNIX machines: the prefixes without their last slash.\<close>

definition unix_prefixes :: "(string \<times> string) list \<Rightarrow> (string \<times> string) list" where
  "unix_prefixes paths = map (\<lambda>(c, p). (fix_path c slash, fix_path p slash)) paths"

lemma unix_translation:
  assumes "path_inv E s" and "\<not> os_windows E" and "\<not> ps_ide_windows s" and "ps_last_paths s \<noteq> []"
  shows "\<exists>t. ps_translation s = Some t \<and> tr_initial t = unix_prefixes (ps_last_paths s) \<and>
    tr_normal t = unix_prefixes (ps_last_paths s) \<and> tr_eclipse_sep t = slash \<and> tr_python_sep t = slash"
proof -
  obtain t where t: "ps_translation s = Some t" using assms by (auto simp: path_inv_def)
  then have n: "t\<lparr>tr_server_cache := [], tr_client_cache := []\<rparr> = new_translation E (ps_ide_windows s) (ps_last_paths s)"
    using assms(1) by (simp add: path_inv_def translation_ok_def)
  from arg_cong [OF n, of tr_initial] arg_cong [OF n, of tr_normal] arg_cong [OF n, of tr_eclipse_sep]
    arg_cong [OF n, of tr_python_sep] t assms(2,3)
  show ?thesis
    by (auto simp: new_translation_def unix_prefixes_def separator_def normcase_from_client_def normcase_def
        normcase_linux_def Let_def split: prod.splits)
qed

lemma unix_to_server:
  assumes "path_inv E s" and "\<not> os_windows E" and "\<not> ps_ide_windows s" and "ps_last_paths s \<noteq> []"
    and "first_prefix fst (unix_prefixes (ps_last_paths s)) f = Some (i, c, p)"
  shows "fst (norm_file_to_server E f s) = norm_file E (p @ drop (length c) f)"
proof -
  from unix_translation [OF assms(1-4)] obtain t where t: "ps_translation s = Some t"
    "tr_normal t = unix_prefixes (ps_last_paths s)" "tr_eclipse_sep t = slash" "tr_python_sep t = slash" by blast
  show ?thesis
    using to_server_value [OF assms(1) t(1), of f] assms(3,5)
    by (simp add: t(2-) translate_to_server_def normcase_from_client_def normcase_linux_def)
qed


definition demo_os :: os_env where
  "demo_os = \<lparr>os_windows = False, os_abspath = id, os_realpath = id, os_isabs = (\<lambda>f. starts_with f ''/''),
    os_exists = (\<lambda>_. True), os_join = (\<lambda>a b. a @ ''/'' @ b), os_sys_path = [], os_library_dir = ''/lib'',
    os_zip_has = (\<lambda>_ _. False), os_long_path = id, os_real_case = id\<rparr>"

definition demo_paths :: path_state where
  "demo_paths = setup_client_server_paths demo_os [(''/home/me/'', ''/srv/app'')] (loaded_paths demo_os)"

lemma demo_paths:
  "reachable (\<lambda>s. s = loaded_paths demo_os) (path_step demo_os) demo_paths"
  "\<not> os_windows demo_os" "\<not> ps_ide_windows demo_paths" "ps_last_paths demo_paths = [(''/home/me/'', ''/srv/app'')]"
  "unix_prefixes [(''/home/me/'', ''/srv/app'')] = [(''/home/me'', ''/srv/app'')]"
  unfolding demo_paths_def
  by (rule reachable_setup)
    (simp_all add: demo_os_def setup_client_server_paths_def loaded_paths_def unix_prefixes_def fix_path_def ends_with_def
      slash_def backslash_def)


text \<open>
  A mapping also applies to names that only begin like its directory, whose last slash
  \<open>_fix_path\<close> has cut off: a file of a sibling directory is sent to the debuggee as a file of a
  directory that the mapping says nothing about.
\<close>

theorem mapping_ignores_boundary:
  assumes "reachable (\<lambda>s. s = loaded_paths E) (path_step E) s"
    and "\<not> os_windows E" and "\<not> ps_ide_windows s"
    and "ps_last_paths s = [(directory @ ''/'', target @ ''/'')]"
  shows "fst (norm_file_to_server E (directory @ rest) s) = norm_file E (target @ rest)"
proof -
  have "ends_with (d @ ''/'') [slash]" for d by (simp add: ends_with_def slash_def)
  then have "unix_prefixes (ps_last_paths s) = [(directory, target)]"
    by (simp add: assms(4) unix_prefixes_def fix_path_def)
  with unix_to_server [OF paths.holds [OF assms(1)] assms(2,3)] assms(4) show ?thesis by simp
qed

definition demo_paths2 :: path_state where
  "demo_paths2 = setup_client_server_paths demo_os [(''/home/me/'', ''/srv/app/'')] (loaded_paths demo_os)"

theorem mapping_ignores_boundary_witness:
  "fst (norm_file_to_server demo_os ''/home/menu.py'' demo_paths2) = ''/srv/appnu.py''"
proof -
  have "reachable (\<lambda>s. s = loaded_paths demo_os) (path_step demo_os) demo_paths2"
    unfolding demo_paths2_def by (rule reachable_setup)
  moreover have "\<not> ps_ide_windows demo_paths2" "ps_last_paths demo_paths2 = [(''/home/me'' @ ''/'', ''/srv/app'' @ ''/'')]"
    by (simp_all add: demo_paths2_def setup_client_server_paths_def loaded_paths_def demo_os_def)
  moreover have "norm_file demo_os ''/srv/appnu.py'' = ''/srv/appnu.py''" by code_simp
  ultimately show ?thesis
    using mapping_ignores_boundary [of demo_os demo_paths2 "''/home/me''" "''/srv/app''" "''nu.py''"] demo_paths(2) by simp
qed

text \<open>
  A source reference that the client is given opens the file it was given for: the file
  behind it translates to the client's name without a mapping, and no two names
  share a reference, whatever mappings were set and files translated before.
\<close>

theorem source_references_open:
  assumes "reachable (\<lambda>s. s = loaded_paths E) (path_step E) s"
    and "r = get_client_filename_source_reference s c" and "r \<noteq> 0"
  shows "(\<exists>t. ps_translation s = Some t \<and>
      translate_to_client E t (get_server_filename_from_source_reference s r) = (c, False)) \<and>
    (\<forall>c'. get_client_filename_source_reference s c' = r \<longleftrightarrow> c' = c)"
proof -
  have refs: "references_ok E s" using paths.holds [OF assms(1)] by (simp add: path_inv_def)
  have r: "map_of (ps_client_to_reference s) c = Some r"
    using assms(2,3) by (auto simp: get_client_filename_source_reference_def split: option.splits)
  have "c' = c" if "get_client_filename_source_reference s c' = r" for c'
  proof -
    have "map_of (ps_client_to_reference s) c' = Some r"
      using that assms(3) by (auto simp: get_client_filename_source_reference_def split: option.splits)
    with refs r assms(3) show ?thesis unfolding references_ok_def by blast
  qed
  moreover from refs r assms(3) obtain t f where "ps_translation s = Some t"
    "map_of (ps_reference_to_file s) r = Some f" "translate_to_client E t f = (c, False)"
    unfolding references_ok_def by blast
  ultimately show ?thesis
    using assms(2) by (auto simp: get_server_filename_from_source_reference_def)
qed

theorem source_references_open_witness:
  "let s = snd (norm_file_to_client demo_os ''/usr/lib/os.py'' demo_paths) in
   get_client_filename_source_reference s ''/usr/lib/os.py'' = 1 \<and>
   (\<exists>t. translate_to_client demo_os t (get_server_filename_from_source_reference s 1) = (''/usr/lib/os.py'', False))"
proof -
  define s where "s = snd (norm_file_to_client demo_os ''/usr/lib/os.py'' demo_paths)"
  have "reachable (\<lambda>s. s = loaded_paths demo_os) (path_step demo_os) s"
    unfolding s_def by (rule reachable_step [OF demo_paths(1) path_step.to_client])
  moreover have r: "1 = get_client_filename_source_reference s ''/usr/lib/os.py''"
    unfolding s_def demo_paths_def by code_simp
  ultimately have "\<exists>t. translate_to_client demo_os t (get_server_filename_from_source_reference s 1) = (''/usr/lib/os.py'', False)"
    using source_references_open by fastforce
  with r show ?thesis by (simp add: s_def Let_def)
qed


end
