(* ===== verification/FilesFilter.thy ===== *)
theory FilesFilter
  imports FileUtils JsonStream
begin

text \<open>
  \<open>_pydevd_bundle/pydevd_filtering.py\<close>, \<open>pydevd_dont_trace_files.py\<close> and the methods of \<open>PyDB\<close> that
  decide, with their caches, whether a frame's file is traced when stepping. The
  library's \<open>fnmatch\<close> is modelled for patterns of \<open>*\<close>, \<open>?\<close> and character classes;
  characters are those of Latin-1.
\<close>

section \<open>fnmatch\<close>

datatype glob_item = AnyText | AnyChar | OneOf bool "(char \<times> char) list" | Literal char

text \<open>The ranges of a class; an empty range matches nothing.\<close>

fun class_ranges :: "string \<Rightarrow> (char \<times> char) list" where
  "class_ranges (c # d # e # s) =
    (if d = CHR ''-'' then (c, e) # class_ranges s else (c, c) # class_ranges (d # e # s))"
| "class_ranges s = map (\<lambda>c. (c, c)) s"

text \<open>After \<open>[\<close>: whether the class is negated, its inside, and what follows \<open>]\<close>, if there is one.\<close>

definition class_end :: "string \<Rightarrow> (bool \<times> string \<times> string) option" where
  "class_end s =
    (let negated = starts_with s ''!'';
         s = (if negated then drop 1 s else s);
         bracket = (if starts_with s '']'' then '']'' else []);
         s = drop (length bracket) s;
         inside = takeWhile (\<lambda>c. c \<noteq> CHR '']'') s;
         after = dropWhile (\<lambda>c. c \<noteq> CHR '']'') s
     in if after = [] then None else Some (negated, bracket @ inside, tl after))"

lemma class_end_shorter: "class_end s = Some (n, c, r) \<Longrightarrow> length r < length s"
proof -
  assume *: "class_end s = Some (n, c, r)"
  define t where "t = (if starts_with s ''!'' then drop 1 s else s)"
  define u where "u = drop (length (if starts_with t '']'' then '']'' else [])) t"
  define after where "after = dropWhile (\<lambda>c. c \<noteq> CHR '']'') u"
  have "r = tl after" "after \<noteq> []"
    using * unfolding class_end_def Let_def t_def [symmetric] u_def [symmetric] after_def [symmetric]
    by (simp_all split: if_split_asm del: dropWhile_eq_Nil_conv)
  moreover have "length after \<le> length u" by (simp add: after_def length_dropWhile_le)
  moreover have "length u \<le> length s" by (simp add: u_def t_def)
  ultimately show ?thesis by (cases after) auto
qed

function translate :: "string \<Rightarrow> glob_item list" where
  "translate [] = []"
| "translate (c # s) =
    (if c = CHR ''*'' then AnyText # translate s
     else if c = CHR ''?'' then AnyChar # translate s
     else if c = CHR ''['' then
       (case class_end s of
          None \<Rightarrow> Literal c # translate s
        | Some (negated, inside, after) \<Rightarrow> OneOf negated (class_ranges inside) # translate after)
     else Literal c # translate s)"
  by pat_completeness auto
termination
  by (relation "measure length") (auto dest: class_end_shorter)

definition in_ranges :: "char \<Rightarrow> (char \<times> char) list \<Rightarrow> bool" where
  "in_ranges c rs = list_ex (\<lambda>(a, b). (of_char a :: nat) \<le> of_char c \<and> (of_char c :: nat) \<le> of_char b) rs"

fun item_matches :: "glob_item \<Rightarrow> char \<Rightarrow> bool" where
  "item_matches AnyText c = True"
| "item_matches AnyChar c = True"
| "item_matches (OneOf negated rs) c = (in_ranges c rs \<noteq> negated)"
| "item_matches (Literal d) c = (c = d)"

fun matches :: "glob_item list \<Rightarrow> string \<Rightarrow> bool" where
  "matches [] s = (s = [])"
| "matches (AnyText # ps) [] = matches ps []"
| "matches (AnyText # ps) (c # s) = (matches ps (c # s) \<or> matches (AnyText # ps) s)"
| "matches (p # ps) [] = False"
| "matches (p # ps) (c # s) = (item_matches p c \<and> matches ps s)"

text \<open>\<open>os.path.normcase\<close> of the library, which \<open>fnmatch.fnmatch\<close> applies to both.\<close>

definition os_normcase :: "os_env \<Rightarrow> string \<Rightarrow> string" where
  "os_normcase E s = (if os_windows E then lower (replace_char slash backslash s) else s)"

definition fnmatch :: "os_env \<Rightarrow> string \<Rightarrow> string \<Rightarrow> bool" where
  "fnmatch E name pat = matches (translate (os_normcase E pat)) (os_normcase E name)"

text \<open>\<open>glob.has_magic\<close>.\<close>

definition has_magic :: "string \<Rightarrow> bool" where
  "has_magic s = list_ex (\<lambda>c. c = CHR ''*'' \<or> c = CHR ''?'' \<or> c = CHR ''['') s"

section \<open>Globs over paths\<close>

fun check_matches :: "os_env \<Rightarrow> string list \<Rightarrow> string list \<Rightarrow> bool" where
  "check_matches E [] paths = (paths = [])"
| "check_matches E (pattern # patterns) [] = False"
| "check_matches E (pattern # patterns) (path # paths) =
    (let p = normcase E pattern; q = normcase E path in
     if \<not> has_magic p then (if p \<noteq> q then False else check_matches E patterns paths)
     else if p = ''**'' then
       (if patterns = [] then True
        else if \<exists>i \<in> set [0..<length (path # paths)]. check_matches E patterns (drop i (path # paths)) then True
        else check_matches E patterns paths)
     else if \<not> fnmatch E q p then False
     else check_matches E patterns paths)"

fun split_on :: "char \<Rightarrow> string \<Rightarrow> string list" where
  "split_on c [] = [[]]"
| "split_on c (d # s) =
    (if d = c then [] # split_on c s
     else case split_on c s of [] \<Rightarrow> [[d]] | w # ws \<Rightarrow> (d # w) # ws)"

definition without_first_empty :: "string list \<Rightarrow> string list" where
  "without_first_empty ws = (case ws of [] \<Rightarrow> [] | w # ws' \<Rightarrow> if w = [] then ws' else ws)"

definition second_is_colon :: "string \<Rightarrow> bool" where
  "second_is_colon s \<longleftrightarrow> 1 < length s \<and> s ! 1 = CHR '':''"

definition glob_matches_path :: "os_env \<Rightarrow> string \<Rightarrow> string \<Rightarrow> bool" where
  "glob_matches_path E path pattern =
    (let sep = separator (os_windows E);
         pattern = (if os_windows E then replace_char slash sep pattern else pattern);
         path = (if os_windows E then replace_char slash sep path else path);
         has_drive = second_is_colon path;
         drive = take 1 path;
         path = (if has_drive then drop 2 path else path)
     in if has_drive \<and> second_is_colon pattern \<and> lower drive \<noteq> lower (take 1 pattern) then False
        else
          let pattern = (if has_drive \<and> second_is_colon pattern then drop 2 pattern else pattern)
          in check_matches E (without_first_empty (split_on sep pattern)) (without_first_empty (split_on sep path)))"

section \<open>FilesFiltering\<close>

record exclude_filter =
  xf_name :: string
  xf_exclude :: bool
  xf_is_path :: bool

record files_filtering =
  ff_exclude_filters :: "exclude_filter list"
  ff_project_roots :: "string list"
  ff_library_roots :: "string list"
  ff_use_libraries_filter :: bool
  ff_require_module :: bool

text \<open>The environment variables, the site's library directories and the parsed JSON of a dict of filters.\<close>

record filter_env =
  fe_os :: os_env
  fe_getenv :: "string \<Rightarrow> string option"
  fe_default_library_roots :: "string list"
  fe_json_filters :: "string \<Rightarrow> (string \<times> bool) list"

definition norm_root :: "filter_env \<Rightarrow> string \<Rightarrow> string" where
  "norm_root E filename = fst (get_abs_path_real_path_and_base_from_file (fe_os E) filename)"

definition fix_roots :: "filter_env \<Rightarrow> string list \<Rightarrow> string list" where
  "fix_roots E roots = map (norm_root E) (filter (\<lambda>root. root \<noteq> []) roots)"

definition ff_set_project_roots :: "filter_env \<Rightarrow> string list \<Rightarrow> files_filtering \<Rightarrow> files_filtering" where
  "ff_set_project_roots E roots ff = ff\<lparr>ff_project_roots := fix_roots E roots\<rparr>"

definition ff_set_library_roots :: "filter_env \<Rightarrow> string list \<Rightarrow> files_filtering \<Rightarrow> files_filtering" where
  "ff_set_library_roots E roots ff = ff\<lparr>ff_library_roots := fix_roots E roots\<rparr>"

definition env_filters :: "filter_env \<Rightarrow> string \<Rightarrow> exclude_filter list" where
  "env_filters E pydevd_filters =
    (if pydevd_filters = [] then []
     else if starts_with pydevd_filters ''{'' then
       map (\<lambda>(key, val). \<lparr>xf_name = key, xf_exclude = val, xf_is_path = True\<rparr>) (fe_json_filters E pydevd_filters)
     else map (\<lambda>f. \<lparr>xf_name = strip f, xf_exclude = True, xf_is_path = True\<rparr>)
            (filter (\<lambda>f. strip f \<noteq> []) (split_on (CHR '';'') pydevd_filters)))"

definition path_separator :: "filter_env \<Rightarrow> char" where
  "path_separator E = (if os_windows (fe_os E) then CHR '';'' else CHR '':'')"

definition new_files_filtering :: "filter_env \<Rightarrow> files_filtering" where
  "new_files_filtering E =
    (let ff = \<lparr>ff_exclude_filters = [], ff_project_roots = [], ff_library_roots = [],
               ff_use_libraries_filter = (fe_getenv E ''PYDEVD_FILTER_LIBRARIES'' \<noteq> None), ff_require_module = False\<rparr>;
         ff = ff_set_project_roots E (case fe_getenv E ''IDE_PROJECT_ROOTS'' of
                None \<Rightarrow> [] | Some roots \<Rightarrow> split_on (path_separator E) roots) ff;
         ff = ff_set_library_roots E (case fe_getenv E ''LIBRARY_ROOTS'' of
                None \<Rightarrow> fe_default_library_roots E | Some roots \<Rightarrow> split_on (path_separator E) roots) ff
     in ff\<lparr>ff_exclude_filters := env_filters E (case fe_getenv E ''PYDEVD_FILTERS'' of None \<Rightarrow> [] | Some f \<Rightarrow> f)\<rparr>)"

definition roots_of :: "string \<Rightarrow> string list \<Rightarrow> string list" where
  "roots_of filename roots = filter (\<lambda>root. root \<noteq> [] \<and> starts_with filename root) roots"

definition longest :: "string list \<Rightarrow> nat" where
  "longest roots = fold max (map length roots) 0"

definition in_project_roots :: "filter_env \<Rightarrow> files_filtering \<Rightarrow> string \<Rightarrow> bool" where
  "in_project_roots E ff filename =
    (if synthetic filename then \<not> starts_with filename ''<frozen ''
     else
       let filename = norm_root E filename;
           found_in_project = roots_of filename (ff_project_roots ff);
           found_in_library = roots_of filename (ff_library_roots ff)
       in if ff_project_roots ff = [] then found_in_library = []
          else found_in_project \<noteq> [] \<and>
            (found_in_library = [] \<or> longest found_in_library < longest found_in_project))"

definition use_exclude_filters :: "files_filtering \<Rightarrow> bool" where
  "use_exclude_filters ff \<longleftrightarrow> ff_exclude_filters ff \<noteq> []"

text \<open>The first filter that matches decides; a path filter with the glob, another with the module name.\<close>

fun exclude_by :: "os_env \<Rightarrow> exclude_filter list \<Rightarrow> string \<Rightarrow> string \<Rightarrow> bool option" where
  "exclude_by E [] filename module_name = None"
| "exclude_by E (f # fs) filename module_name =
    (if (if xf_is_path f then glob_matches_path E filename (xf_name f)
         else xf_name f = module_name \<or> starts_with module_name (xf_name f @ ''.''))
     then Some (xf_exclude f) else exclude_by E fs filename module_name)"

definition exclude_by_filter :: "filter_env \<Rightarrow> files_filtering \<Rightarrow> string \<Rightarrow> string \<Rightarrow> bool option" where
  "exclude_by_filter E ff filename module_name = exclude_by (fe_os E) (ff_exclude_filters ff) filename module_name"

definition ff_set_exclude_filters :: "exclude_filter list \<Rightarrow> files_filtering \<Rightarrow> files_filtering" where
  "ff_set_exclude_filters filters ff =
    ff\<lparr>ff_exclude_filters := filters, ff_require_module := list_ex (\<lambda>f. \<not> xf_is_path f) filters\<rparr>"

definition ff_set_use_libraries_filter :: "bool \<Rightarrow> files_filtering \<Rightarrow> files_filtering" where
  "ff_set_use_libraries_filter use ff = ff\<lparr>ff_use_libraries_filter := use\<rparr>"

section \<open>What a glob over a path means\<close>

definition double_star :: "os_env \<Rightarrow> string \<Rightarrow> bool" where
  "double_star E pattern \<longleftrightarrow> normcase E pattern = ''**''"

definition component_fits :: "os_env \<Rightarrow> string \<Rightarrow> string \<Rightarrow> bool" where
  "component_fits E pattern path =
    (let p = normcase E pattern; q = normcase E path in if has_magic p then fnmatch E q p else p = q)"

text \<open>A part of the path that a component of the pattern stands for: one component, or any number for \<open>**\<close>.\<close>

definition fits :: "os_env \<Rightarrow> string \<Rightarrow> string list \<Rightarrow> bool" where
  "fits E pattern part \<longleftrightarrow> double_star E pattern \<or> (\<exists>path. part = [path] \<and> component_fits E pattern path)"

text \<open>The path is cut into a part for each component; a \<open>**\<close> at the end takes at least one.\<close>

definition divides :: "os_env \<Rightarrow> string list \<Rightarrow> string list list \<Rightarrow> bool" where
  "divides E patterns parts \<longleftrightarrow> list_all2 (fits E) patterns parts \<and>
    (patterns \<noteq> [] \<longrightarrow> double_star E (last patterns) \<longrightarrow> last parts \<noteq> [])"

lemma divides_Nil [simp]: "divides E [] parts \<longleftrightarrow> parts = []"
  by (auto simp: divides_def)

lemma divides_single: "divides E [p] parts \<longleftrightarrow> (\<exists>part. parts = [part] \<and> fits E p part \<and> (double_star E p \<longrightarrow> part \<noteq> []))"
proof (cases parts)
  case (Cons part parts')
  then show ?thesis by (cases parts') (auto simp: divides_def)
qed (simp add: divides_def)

lemma divides_Cons:
  "patterns \<noteq> [] \<Longrightarrow> divides E (p # patterns) parts \<longleftrightarrow>
    (\<exists>part parts'. parts = part # parts' \<and> fits E p part \<and> divides E patterns parts')"
proof -
  assume ne: "patterns \<noteq> []"
  then have "parts' \<noteq> []" if "list_all2 (fits E) patterns parts'" for parts' using that by auto
  with ne show ?thesis by (fastforce simp: divides_def list_all2_Cons1)
qed

lemma divides_nonempty:
  assumes "divides E patterns parts" and "patterns \<noteq> []"
  shows "concat parts \<noteq> []"
proof -
  have l: "list_all2 (fits E) patterns parts" using assms(1) by (simp add: divides_def)
  with assms(2) have "parts \<noteq> []" by auto
  moreover from this l assms(2) have "fits E (last patterns) (last parts)"
    by (auto simp: list_all2_conv_all_nth last_conv_nth)
  moreover from this have "last parts \<noteq> []"
    using assms by (auto simp: divides_def fits_def)
  ultimately show ?thesis by auto
qed

lemma not_double_star: "\<not> has_magic (normcase E p) \<Longrightarrow> \<not> double_star E p"
  by (auto simp: double_star_def has_magic_def)

text \<open>A component other than \<open>**\<close> takes one component of the path.\<close>

lemma divides_component:
  assumes "\<not> double_star E p"
  shows "(\<exists>parts. concat parts = q # paths \<and> divides E (p # patterns) parts) \<longleftrightarrow>
    component_fits E p q \<and> (\<exists>parts. concat parts = paths \<and> divides E patterns parts)"
proof (cases "patterns = []")
  case True
  with assms show ?thesis by (auto simp: divides_single fits_def intro!: exI [of _ "[[q]]"])
next
  case False
  show ?thesis
  proof
    assume "\<exists>parts. concat parts = q # paths \<and> divides E (p # patterns) parts"
    with assms False show "component_fits E p q \<and> (\<exists>parts. concat parts = paths \<and> divides E patterns parts)"
      by (auto simp: divides_Cons fits_def)
  next
    assume "component_fits E p q \<and> (\<exists>parts. concat parts = paths \<and> divides E patterns parts)"
    then obtain parts where "component_fits E p q" "concat parts = paths" "divides E patterns parts" by blast
    with assms False have "concat ([q] # parts) = q # paths \<and> divides E (p # patterns) ([q] # parts)"
      by (auto simp: divides_Cons fits_def)
    then show "\<exists>parts. concat parts = q # paths \<and> divides E (p # patterns) parts" by blast
  qed
qed

lemma divides_double_star:
  assumes "double_star E p" and "patterns \<noteq> []"
  shows "(\<exists>parts. concat parts = paths \<and> divides E (p # patterns) parts) \<longleftrightarrow>
    (\<exists>i < length paths. \<exists>parts. concat parts = drop i paths \<and> divides E patterns parts)"
proof
  assume "\<exists>parts. concat parts = paths \<and> divides E (p # patterns) parts"
  then obtain part parts where *: "part @ concat parts = paths" "divides E patterns parts"
    using assms by (auto simp: divides_Cons)
  with divides_nonempty [OF *(2) assms(2)] have "length part < length paths" by auto
  moreover have "concat parts = drop (length part) paths" using *(1) by auto
  ultimately show "\<exists>i < length paths. \<exists>parts. concat parts = drop i paths \<and> divides E patterns parts"
    using *(2) by blast
next
  assume "\<exists>i < length paths. \<exists>parts. concat parts = drop i paths \<and> divides E patterns parts"
  then obtain i parts where *: "concat parts = drop i paths" "divides E patterns parts" by blast
  then have "concat (take i paths # parts) = paths \<and> divides E (p # patterns) (take i paths # parts)"
    using assms by (auto simp: divides_Cons fits_def)
  then show "\<exists>parts. concat parts = paths \<and> divides E (p # patterns) parts" by blast
qed

lemma check_matches_Cons: "check_matches E (p # patterns) (q # paths) \<longleftrightarrow>
    (if \<not> has_magic (normcase E p) then (if normcase E p \<noteq> normcase E q then False else check_matches E patterns paths)
     else if normcase E p = ''**'' then
       (if patterns = [] then True
        else if \<exists>i \<in> set [0..<length (q # paths)]. check_matches E patterns (drop i (q # paths)) then True
        else check_matches E patterns paths)
     else if \<not> fnmatch E (normcase E q) (normcase E p) then False
     else check_matches E patterns paths)"
  unfolding check_matches.simps(3) Let_def by (rule refl)

lemma check_matches_double_star:
  assumes "double_star E p" and "patterns \<noteq> []"
  shows "check_matches E (p # patterns) (q # paths) \<longleftrightarrow>
    (\<exists>i \<in> set [0..<length (q # paths)]. check_matches E patterns (drop i (q # paths))) \<or> check_matches E patterns paths"
  using assms by (subst check_matches_Cons) (simp add: has_magic_def double_star_def del: set_upt)

lemma check_matches_suffix:
  assumes "double_star E p" and "patterns \<noteq> []"
  shows "check_matches E (p # patterns) (q # paths) \<longleftrightarrow>
    (\<exists>i < length (q # paths). check_matches E patterns (drop i (q # paths)))"
proof -
  have "\<not> check_matches E patterns []" using assms(2) by (cases patterns) auto
  then have "check_matches E patterns paths \<Longrightarrow> \<exists>i < length (q # paths). check_matches E patterns (drop i (q # paths))"
    by (intro exI [of _ 1]) (cases paths, auto)
  moreover have "(\<exists>i \<in> set [0..<length (q # paths)]. check_matches E patterns (drop i (q # paths))) \<longleftrightarrow>
      (\<exists>i < length (q # paths). check_matches E patterns (drop i (q # paths)))"
    unfolding set_upt atLeastLessThan_iff Bex_def by (simp only: le0 simp_thms)
  ultimately show ?thesis unfolding check_matches_double_star [OF assms] by argo
qed

lemma check_matches_last:
  assumes "double_star E p"
  shows "check_matches E [p] (q # paths) \<and> (\<exists>parts. concat parts = q # paths \<and> divides E [p] parts)"
proof
  have "has_magic (normcase E p)" using assms not_double_star by blast
  with assms show "check_matches E [p] (q # paths)" by (simp add: double_star_def)
  have "concat [q # paths] = q # paths \<and> divides E [p] [q # paths]"
    using assms by (auto simp: divides_single fits_def)
  then show "\<exists>parts. concat parts = q # paths \<and> divides E [p] parts" by blast
qed

text \<open>
  C28: A glob matches a path exactly if the path can be cut into parts, one for each component of
  the glob: one component of the path for each component of the glob, by \<open>fnmatch\<close> or equality, and
  any number, none included, for \<open>**\<close>, but at least one for a \<open>**\<close> at the end. The search with its early
  exits tries every such cut.
\<close>

theorem check_matches_iff:
  "check_matches E patterns paths \<longleftrightarrow> (\<exists>parts. concat parts = paths \<and> divides E patterns parts)"
proof (induction E patterns paths rule: check_matches.induct)
  case (1 E paths)
  then show ?case by auto
next
  case (2 E p patterns)
  have "concat parts \<noteq> []" if "divides E (p # patterns) parts" for parts
    using divides_nonempty [OF that] by simp
  then show ?case by auto
next
  case (3 E p patterns q paths)
  show ?case
  proof (cases "double_star E p")
    case False
    have "check_matches E (p # patterns) (q # paths) \<longleftrightarrow> component_fits E p q \<and> check_matches E patterns paths"
      using False by (auto simp: component_fits_def double_star_def Let_def)
    also have "\<dots> \<longleftrightarrow> component_fits E p q \<and> (\<exists>parts. concat parts = paths \<and> divides E patterns parts)"
    proof (cases "component_fits E p q")
      case True
      with 3 False have "check_matches E patterns paths \<longleftrightarrow> (\<exists>parts. concat parts = paths \<and> divides E patterns parts)"
        by (cases "has_magic (normcase E p)") (auto simp: component_fits_def double_star_def Let_def)
      with True show ?thesis by simp
    qed simp
    finally show ?thesis using divides_component [OF False] by simp
  next
    case True
    then have magic: "has_magic (normcase E p)" using not_double_star by blast
    show ?thesis
    proof (cases "patterns = []")
      case False
      have "check_matches E patterns (drop i (q # paths)) \<longleftrightarrow>
          (\<exists>parts. concat parts = drop i (q # paths) \<and> divides E patterns parts)" if "i < length (q # paths)" for i
      proof -
        have "i \<in> set [0..<length (q # paths)]" using that by (simp only: set_upt atLeastLessThan_iff) simp
        with 3(2) [OF refl refl _ _ False, of i] magic True show ?thesis by (simp add: double_star_def)
      qed
      then show ?thesis
        unfolding check_matches_suffix [OF True False] divides_double_star [OF True False, of "q # paths"] by blast
    qed (use check_matches_last [OF True] in simp)
  qed
qed

end
