(* ===== verification/FilterCache.thy ===== *)
theory FilterCache
  imports FilesFilter
begin

text \<open>
  The methods of \<open>PyDB\<close> in \<open>pydevd.py\<close> that decide whether a frame is stepped over: the type of
  its file, whether it is in the project, the exclude filters, and the four caches in front of
  them. Files of eggs of Python 2.7, whose name is read from the frame's globals, are left out.
\<close>

section \<open>Frames and file types\<close>

text \<open>A code object compares by its contents, \<open>co_rest\<close> standing for those that are not read here.\<close>

record code =
  co_firstlineno :: int
  co_filename :: string
  co_name :: string
  co_rest :: nat

text \<open>A frame: its code, \<open>__name__\<close> in its globals, and the frame that called it.\<close>

datatype frame = Frame code "string option" "frame option"

fun f_code :: "frame \<Rightarrow> code" where "f_code (Frame c m b) = c"

fun f_module :: "frame \<Rightarrow> string option" where "f_module (Frame c m b) = m"

fun f_back :: "frame \<Rightarrow> frame option" where "f_back (Frame c m b) = b"

datatype file_type = LibFile | PydevFile

definition lib_files :: "string list" where
  "lib_files = [
    ''Queue.py'', ''queue.py'', ''socket.py'', ''weakref.py'', ''_weakrefset.py'', ''linecache.py'',
    ''threading.py'', ''dis.py'', ''io.py'', ''cp1252.py'', ''utf_8.py'', ''codecs.py'']"

definition pydev_files :: "string list" where
  "pydev_files = [
    ''_pydev_execfile.py'', ''__main__pydevd_gen_debug_adapter_protocol.py'',
    ''_pydev_BaseHTTPServer.py'', ''_pydev_SimpleXMLRPCServer.py'', ''_pydev_SocketServer.py'',
    ''_pydev_calltip_util.py'', ''_pydev_completer.py'', ''_pydev_filesystem_encoding.py'',
    ''_pydev_getopt.py'', ''_pydev_imports_tipper.py'', ''_pydev_inspect.py'',
    ''_pydev_jy_imports_tipper.py'', ''_pydev_log.py'', ''_pydev_pkgutil_old.py'',
    ''_pydev_saved_modules.py'', ''_pydev_sys_patch.py'', ''_pydev_tipper_common.py'',
    ''_pydev_xmlrpclib.py'', ''django_debug.py'', ''jinja2_debug.py'', ''pycompletionserver.py'',
    ''pydev_app_engine_debug_startup.py'', ''pydev_console_utils.py'', ''pydev_import_hook.py'',
    ''pydev_imports.py'', ''pydev_ipython_console.py'', ''pydev_ipython_console_011.py'',
    ''pydev_is_thread_alive.py'', ''pydev_localhost.py'', ''pydev_log.py'', ''pydev_monkey.py'',
    ''pydev_monkey_qt.py'', ''pydev_override.py'', ''pydev_run_in_console.py'', ''pydev_umd.py'',
    ''pydev_versioncheck.py'', ''pydevconsole.py'', ''pydevconsole_code_for_ironpython.py'',
    ''pydevd.py'', ''pydevd_additional_thread_info.py'',
    ''pydevd_additional_thread_info_regular.py'', ''pydevd_api.py'', ''pydevd_base_schema.py'',
    ''pydevd_breakpoints.py'', ''pydevd_collect_bytecode_info.py'', ''pydevd_comm.py'',
    ''pydevd_comm_constants.py'', ''pydevd_command_line_handling.py'',
    ''pydevd_concurrency_logger.py'', ''pydevd_console.py'', ''pydevd_constants.py'',
    ''pydevd_custom_frames.py'', ''pydevd_cython_wrapper.py'', ''pydevd_defaults.py'',
    ''pydevd_dont_trace.py'', ''pydevd_dont_trace_files.py'', ''pydevd_exec.py'',
    ''pydevd_exec2.py'', ''pydevd_extension_api.py'', ''pydevd_extension_utils.py'',
    ''pydevd_file_utils.py'', ''pydevd_filtering.py'', ''pydevd_frame.py'',
    ''pydevd_frame_eval_cython_wrapper.py'', ''pydevd_frame_eval_main.py'',
    ''pydevd_frame_tracing.py'', ''pydevd_frame_utils.py'', ''pydevd_helpers.py'',
    ''pydevd_import_class.py'', ''pydevd_io.py'', ''pydevd_json_debug_options.py'',
    ''pydevd_modify_bytecode.py'', ''pydevd_net_command.py'',
    ''pydevd_net_command_factory_json.py'', ''pydevd_net_command_factory_xml.py'',
    ''pydevd_plugin_numpy_types.py'', ''pydevd_plugin_utils.py'',
    ''pydevd_plugins_django_form_str.py'', ''pydevd_process_net_command.py'',
    ''pydevd_process_net_command_json.py'', ''pydevd_referrers.py'', ''pydevd_reload.py'',
    ''pydevd_resolver.py'', ''pydevd_safe_repr.py'', ''pydevd_save_locals.py'',
    ''pydevd_schema.py'', ''pydevd_schema_log.py'', ''pydevd_signature.py'',
    ''pydevd_source_mapping.py'', ''pydevd_stackless.py'', ''pydevd_suspended_frames.py'',
    ''pydevd_thread_wrappers.py'', ''pydevd_trace_api.py'', ''pydevd_trace_dispatch.py'',
    ''pydevd_trace_dispatch_regular.py'', ''pydevd_traceproperty.py'', ''pydevd_tracing.py'',
    ''pydevd_utils.py'', ''pydevd_vars.py'', ''pydevd_vm_type.py'', ''pydevd_xml.py'']"

text \<open>\<open>DONT_TRACE.get\<close>.\<close>

definition dont_trace :: "string \<Rightarrow> file_type option" where
  "dont_trace name =
    (if name \<in> set pydev_files then Some PydevFile else if name \<in> set lib_files then Some LibFile else None)"

definition code_path :: "filter_env \<Rightarrow> code \<Rightarrow> string" where
  "code_path E c = fst (get_abs_path_real_path_and_base_from_file (fe_os E) (co_filename c))"

definition code_base :: "filter_env \<Rightarrow> code \<Rightarrow> string" where
  "code_base E c = snd (snd (get_abs_path_real_path_and_base_from_file (fe_os E) (co_filename c)))"

definition internal_get_file_type :: "filter_env \<Rightarrow> code \<Rightarrow> file_type option" where
  "internal_get_file_type E c =
    (if starts_with (code_base E c) ''<frozen '' then Some PydevFile
     else if starts_with (code_path E c) ''<builtin'' \<or> starts_with (code_path E c) ''<attrs'' then Some PydevFile
     else dont_trace (code_base E c))"

text \<open>The prefixes and suffixes of \<open>set_dont_trace_start_end_patterns\<close>, once it was called.\<close>

type_synonym patterns = "(string list \<times> string list) option"

definition dont_trace_external_files :: "patterns \<Rightarrow> string \<Rightarrow> bool" where
  "dont_trace_external_files P path =
    (case P of None \<Rightarrow> False
     | Some (starts, ends) \<Rightarrow> list_ex (starts_with path) starts \<or> list_ex (ends_with path) ends)"

definition plain_file_type :: "filter_env \<Rightarrow> patterns \<Rightarrow> code \<Rightarrow> file_type option" where
  "plain_file_type E P c =
    (case internal_get_file_type E c of
       Some t \<Rightarrow> Some t
     | None \<Rightarrow> if dont_trace_external_files P (code_path E c) then Some PydevFile else None)"

definition from_string :: "filter_env \<Rightarrow> code \<Rightarrow> bool" where
  "from_string E c \<longleftrightarrow> code_path E c = ''<string>''"

text \<open>A frame that makes a \<open><string>\<close> further up the stack count as a library's.\<close>

definition counts_as_user :: "filter_env \<Rightarrow> file_type option \<Rightarrow> code \<Rightarrow> bool" where
  "counts_as_user E t c \<longleftrightarrow> t \<noteq> Some PydevFile \<and> code_base E c \<notin> {''runpy.py'', ''<string>''}"

section \<open>The state\<close>

type_synonym file_key = "int \<times> string \<times> code"

record filters =
  fl_filtering :: files_filtering
  fl_exclude_enabled :: bool
  fl_libraries_enabled :: bool
  fl_patterns :: patterns
  fl_file_types :: "(file_key, file_type option) odict"
  fl_scope_cache :: "(file_key, bool) odict"
  fl_exclude_cache :: "(string \<times> string, bool option) odict"
  fl_apply_cache :: "(int \<times> string \<times> bool \<times> code, bool) odict"
  fl_plugin_breaks :: bool

definition is_files_filter_enabled :: "filters \<Rightarrow> bool" where
  "is_files_filter_enabled s \<longleftrightarrow> fl_exclude_enabled s \<or> fl_libraries_enabled s"

definition clear_filters_caches :: "filters \<Rightarrow> filters" where
  "clear_filters_caches s =
    s\<lparr>fl_scope_cache := [], fl_exclude_cache := [], fl_apply_cache := [],
      fl_exclude_enabled := use_exclude_filters (fl_filtering s),
      fl_libraries_enabled := ff_use_libraries_filter (fl_filtering s)\<rparr>"

definition new_filters :: "filter_env \<Rightarrow> filters" where
  "new_filters E =
    (let ff = new_files_filtering E in
     \<lparr>fl_filtering = ff, fl_exclude_enabled = use_exclude_filters ff, fl_libraries_enabled = ff_use_libraries_filter ff,
      fl_patterns = None, fl_file_types = [], fl_scope_cache = [], fl_exclude_cache = [], fl_apply_cache = [],
      fl_plugin_breaks = False\<rparr>)"

definition set_project_roots :: "filter_env \<Rightarrow> string list \<Rightarrow> filters \<Rightarrow> filters" where
  "set_project_roots E roots s =
    clear_filters_caches (s\<lparr>fl_filtering := ff_set_project_roots E roots (fl_filtering s)\<rparr>)"

definition set_exclude_filters :: "exclude_filter list \<Rightarrow> filters \<Rightarrow> filters" where
  "set_exclude_filters filters s =
    clear_filters_caches (s\<lparr>fl_filtering := ff_set_exclude_filters filters (fl_filtering s)\<rparr>)"

definition set_use_libraries_filter :: "bool \<Rightarrow> filters \<Rightarrow> filters" where
  "set_use_libraries_filter use s =
    clear_filters_caches (s\<lparr>fl_filtering := ff_set_use_libraries_filter use (fl_filtering s)\<rparr>)"

definition clear_dont_trace_caches :: "filters \<Rightarrow> filters" where
  "clear_dont_trace_caches s = clear_filters_caches (s\<lparr>fl_file_types := []\<rparr>)"

definition set_dont_trace_start_end_patterns :: "string list \<Rightarrow> string list \<Rightarrow> filters \<Rightarrow> filters" where
  "set_dont_trace_start_end_patterns starts ends s =
    (if fl_patterns s = None \<and> starts = [] \<and> ends = [] then s
     else
       let reset_caches = fl_file_types s \<noteq> [] \<and>
             (case fl_patterns s of None \<Rightarrow> True | Some (starts', ends') \<Rightarrow> starts' \<noteq> starts \<or> ends' \<noteq> ends);
           s = s\<lparr>fl_patterns := Some (starts, ends)\<rparr>
       in if reset_caches then clear_dont_trace_caches s else s)"

section \<open>The decisions, with their caches\<close>

definition file_key :: "filter_env \<Rightarrow> code \<Rightarrow> file_key" where
  "file_key E c = (co_firstlineno c, code_path E c, c)"

definition remember_type :: "file_key \<Rightarrow> file_type option \<Rightarrow> filters \<Rightarrow> filters" where
  "remember_type k t s = s\<lparr>fl_file_types := od_set k t (fl_file_types s)\<rparr>"

text \<open>\<open>get_file_type\<close> and its loop over the callers of a \<open><string>\<close>.\<close>

fun get_file_type :: "filter_env \<Rightarrow> frame \<Rightarrow> filters \<Rightarrow> file_type option \<times> filters"
and search_callers :: "filter_env \<Rightarrow> frame option \<Rightarrow> filters \<Rightarrow> bool \<times> filters"
where
  "get_file_type E (Frame c m back) s =
    (case map_of (fl_file_types s) (file_key E c) of
       Some t \<Rightarrow> (t, s)
     | None \<Rightarrow>
         if from_string E c then
           (case search_callers E back s of
              (found, s') \<Rightarrow>
                let t = (if found then Some LibFile else None) in (t, remember_type (file_key E c) t s'))
         else let t = plain_file_type E (fl_patterns s) c in (t, remember_type (file_key E c) t s))"
| "search_callers E None s = (False, s)"
| "search_callers E (Some (Frame c m back)) s =
    (case get_file_type E (Frame c m back) s of
       (t, s') \<Rightarrow> if counts_as_user E t c then (True, s') else search_callers E back s')"

definition scope_decision :: "filter_env \<Rightarrow> files_filtering \<Rightarrow> file_type option \<Rightarrow> string \<Rightarrow> bool" where
  "scope_decision E ff t path =
    (if t = Some PydevFile then False
     else if t = Some LibFile \<and> path = ''<string>'' then False
     else in_project_roots E ff path)"

definition in_project_scope :: "filter_env \<Rightarrow> frame \<Rightarrow> filters \<Rightarrow> bool \<times> filters" where
  "in_project_scope E fr s =
    (let k = file_key E (f_code fr) in
     case map_of (fl_scope_cache s) k of
       Some v \<Rightarrow> (v, s)
     | None \<Rightarrow>
         (case get_file_type E fr s of
            (t, s) \<Rightarrow>
              let v = scope_decision E (fl_filtering s) t (code_path E (f_code fr))
              in (v, s\<lparr>fl_scope_cache := od_set k v (fl_scope_cache s)\<rparr>)))"

definition frame_module :: "files_filtering \<Rightarrow> frame \<Rightarrow> string" where
  "frame_module ff fr =
    (if ff_require_module ff then (case f_module fr of None \<Rightarrow> [] | Some m \<Rightarrow> m) else [])"

definition exclude_decision :: "filter_env \<Rightarrow> files_filtering \<Rightarrow> file_type option \<Rightarrow> frame \<Rightarrow> string \<Rightarrow> bool option" where
  "exclude_decision E ff t fr filename =
    (if t = Some PydevFile then Some True else exclude_by_filter E ff filename (frame_module ff fr))"

definition exclude_frame_by_filter :: "filter_env \<Rightarrow> frame \<Rightarrow> string \<Rightarrow> filters \<Rightarrow> bool option \<times> filters" where
  "exclude_frame_by_filter E fr filename s =
    (let k = (filename, co_name (f_code fr)) in
     case map_of (fl_exclude_cache s) k of
       Some v \<Rightarrow> (v, s)
     | None \<Rightarrow>
         (case get_file_type E fr s of
            (t, s) \<Rightarrow>
              let v = exclude_decision E (fl_filtering s) t fr filename
              in (v, s\<lparr>fl_exclude_cache := od_set k v (fl_exclude_cache s)\<rparr>)))"

definition apply_decision ::
  "filter_env \<Rightarrow> (frame \<Rightarrow> bool) \<Rightarrow> frame \<Rightarrow> string \<Rightarrow> bool \<Rightarrow> filters \<Rightarrow> bool \<times> filters" where
  "apply_decision E plugin_can_skip fr filename force s =
    (if fl_plugin_breaks s \<and> \<not> plugin_can_skip fr then (False, s)
     else
       case (if fl_exclude_enabled s then exclude_frame_by_filter E fr filename s else (None, s)) of
         (Some excluded, s) \<Rightarrow> (excluded, s)
       | (None, s) \<Rightarrow>
           if fl_libraries_enabled s \<or> force
           then (case in_project_scope E fr s of (in_project, s) \<Rightarrow> (\<not> in_project, s))
           else (False, s))"

definition apply_files_filter ::
  "filter_env \<Rightarrow> (frame \<Rightarrow> bool) \<Rightarrow> frame \<Rightarrow> string \<Rightarrow> bool \<Rightarrow> filters \<Rightarrow> bool \<times> filters" where
  "apply_files_filter E plugin_can_skip fr filename force s =
    (let k = (co_firstlineno (f_code fr), filename, force, f_code fr) in
     case map_of (fl_apply_cache s) k of
       Some v \<Rightarrow> (v, s)
     | None \<Rightarrow>
         (case apply_decision E plugin_can_skip fr filename force s of
            (v, s) \<Rightarrow> (v, s\<lparr>fl_apply_cache := od_set k v (fl_apply_cache s)\<rparr>)))"

text \<open>\<open>exclude_exception_by_filter\<close>; without a traceback the frame is \<open>None\<close>.\<close>

definition exclude_exception_by_filter :: "filter_env \<Rightarrow> bool \<Rightarrow> frame option \<Rightarrow> filters \<Rightarrow> bool \<times> filters" where
  "exclude_exception_by_filter E ignore_libraries trace s =
    (if \<not> ignore_libraries \<and> \<not> fl_exclude_enabled s then (False, s)
     else case trace of
         None \<Rightarrow> (True, s)
       | Some fr \<Rightarrow>
           (case (if ignore_libraries then in_project_scope E fr s else (True, s)) of
              (in_project, s) \<Rightarrow>
                if \<not> in_project then (True, s)
                else if fl_exclude_enabled s
                then (case exclude_frame_by_filter E fr (co_filename (f_code fr)) s of
                        (x, s) \<Rightarrow> (x = Some True, s))
                else (False, s)))"

section \<open>The decisions without caches\<close>

fun file_type_of :: "filter_env \<Rightarrow> patterns \<Rightarrow> frame \<Rightarrow> file_type option"
and user_caller :: "filter_env \<Rightarrow> patterns \<Rightarrow> frame option \<Rightarrow> bool"
where
  "file_type_of E P (Frame c m back) =
    (if from_string E c then (if user_caller E P back then Some LibFile else None) else plain_file_type E P c)"
| "user_caller E P None = False"
| "user_caller E P (Some (Frame c m back)) =
    (counts_as_user E (file_type_of E P (Frame c m back)) c \<or> user_caller E P back)"

definition in_scope :: "filter_env \<Rightarrow> filters \<Rightarrow> frame \<Rightarrow> bool" where
  "in_scope E s fr = scope_decision E (fl_filtering s) (file_type_of E (fl_patterns s) fr) (code_path E (f_code fr))"

definition excluded :: "filter_env \<Rightarrow> filters \<Rightarrow> frame \<Rightarrow> bool option" where
  "excluded E s fr = exclude_decision E (fl_filtering s) (file_type_of E (fl_patterns s) fr) fr (co_filename (f_code fr))"

text \<open>Whether a frame's file is skipped, from the current settings alone.\<close>

definition filtered :: "filter_env \<Rightarrow> filters \<Rightarrow> frame \<Rightarrow> bool \<Rightarrow> bool" where
  "filtered E s fr force =
    (case (if use_exclude_filters (fl_filtering s) then excluded E s fr else None) of
       Some x \<Rightarrow> x
     | None \<Rightarrow> (ff_use_libraries_filter (fl_filtering s) \<or> force) \<and> \<not> in_scope E s fr)"

text \<open>
  Frames that the keys of the caches tell apart: those with equal code have the same
  callers as far as a \<open><string>\<close> is concerned, and those of one file and one function name the same
  module. A set of frames contains the callers of its members.
\<close>

definition told_apart :: "filter_env \<Rightarrow> frame set \<Rightarrow> bool" where
  "told_apart E U \<longleftrightarrow>
    (\<forall>f \<in> U. \<forall>g. f_back f = Some g \<longrightarrow> g \<in> U) \<and>
    (\<forall>f \<in> U. \<forall>g \<in> U. f_code f = f_code g \<longrightarrow> (\<forall>P. file_type_of E P f = file_type_of E P g)) \<and>
    (\<forall>f \<in> U. \<forall>g \<in> U. co_filename (f_code f) = co_filename (f_code g) \<longrightarrow> co_name (f_code f) = co_name (f_code g) \<longrightarrow>
       f_module f = f_module g)"

lemma told_apartD:
  assumes "told_apart E U"
  shows "Frame c m (Some g) \<in> U \<Longrightarrow> g \<in> U"
    and "f \<in> U \<Longrightarrow> g \<in> U \<Longrightarrow> f_code f = f_code g \<Longrightarrow> file_type_of E P f = file_type_of E P g"
    and "f \<in> U \<Longrightarrow> g \<in> U \<Longrightarrow> co_filename (f_code f) = co_filename (f_code g) \<Longrightarrow>
      co_name (f_code f) = co_name (f_code g) \<Longrightarrow> f_module f = f_module g"
  using assms unfolding told_apart_def by fastforce+

definition types_ok :: "filter_env \<Rightarrow> frame set \<Rightarrow> filters \<Rightarrow> bool" where
  "types_ok E U s \<longleftrightarrow> (\<forall>f \<in> U. \<forall>t. map_of (fl_file_types s) (file_key E (f_code f)) = Some t \<longrightarrow>
     t = file_type_of E (fl_patterns s) f)"

text \<open>Looking a file type up only fills the cache of file types.\<close>

definition types_filled :: "filters \<Rightarrow> filters \<Rightarrow> bool" where
  "types_filled s s' \<longleftrightarrow> (\<exists>ts. s' = s\<lparr>fl_file_types := ts\<rparr> \<and> (fl_file_types s \<noteq> [] \<longrightarrow> ts \<noteq> []))"

lemma types_filled_refl [simp]: "types_filled s s"
  unfolding types_filled_def by (rule exI [of _ "fl_file_types s"]) simp

lemma types_filled_trans: "types_filled s t \<Longrightarrow> types_filled t u \<Longrightarrow> types_filled s u"
  unfolding types_filled_def by force

lemma od_set_nonempty [simp]: "od_set k v m \<noteq> []"
  by (induction k v m rule: od_set.induct) auto

lemma types_filled_remember: "types_filled s (remember_type k t s)"
  unfolding types_filled_def remember_type_def by (rule exI [of _ "od_set k t (fl_file_types s)"]) simp

lemma types_filled_simps:
  assumes "types_filled s s'"
  shows "fl_filtering s' = fl_filtering s" "fl_patterns s' = fl_patterns s"
    "fl_exclude_enabled s' = fl_exclude_enabled s" "fl_libraries_enabled s' = fl_libraries_enabled s"
    "fl_scope_cache s' = fl_scope_cache s" "fl_exclude_cache s' = fl_exclude_cache s"
    "fl_apply_cache s' = fl_apply_cache s" "fl_plugin_breaks s' = fl_plugin_breaks s"
  using assms by (auto simp: types_filled_def)

lemma types_ok_remember:
  assumes "told_apart E U" and "types_ok E U s" and "f \<in> U"
  shows "types_ok E U (remember_type (file_key E (f_code f)) (file_type_of E (fl_patterns s) f) s)"
  unfolding types_ok_def
proof (intro ballI allI impI)
  fix g t
  assume g: "g \<in> U" and t: "map_of (fl_file_types (remember_type (file_key E (f_code f)) (file_type_of E (fl_patterns s) f) s))
    (file_key E (f_code g)) = Some t"
  have p: "fl_patterns (remember_type k u s) = fl_patterns s" for k u by (simp add: remember_type_def)
  show "t = file_type_of E (fl_patterns (remember_type (file_key E (f_code f)) (file_type_of E (fl_patterns s) f) s)) g"
  proof (cases "file_key E (f_code g) = file_key E (f_code f)")
    case True
    then have "f_code f = f_code g" by (simp add: file_key_def)
    from told_apartD(2) [OF assms(1,3) g this] t True show ?thesis by (simp add: p) (simp add: remember_type_def)
  next
    case False
    with t assms(2) g show ?thesis by (simp add: p types_ok_def) (simp add: remember_type_def)
  qed
qed

lemma get_file_type_ok:
  "told_apart E U \<Longrightarrow> types_ok E U s \<Longrightarrow> fr \<in> U \<Longrightarrow>
    (case get_file_type E fr s of (t, s') \<Rightarrow>
       t = file_type_of E (fl_patterns s) fr \<and> types_ok E U s' \<and> types_filled s s' \<and> fl_file_types s' \<noteq> [])"
  "told_apart E U \<Longrightarrow> types_ok E U s \<Longrightarrow> (\<forall>fr. caller = Some fr \<longrightarrow> fr \<in> U) \<Longrightarrow>
    (case search_callers E caller s of (found, s') \<Rightarrow>
       found = user_caller E (fl_patterns s) caller \<and> types_ok E U s' \<and> types_filled s s')"
proof (induction E fr s and E caller s
    rule: get_file_type_search_callers.induct)
  case (1 E c m b s)
  let ?k = "file_key E c"
  show ?case
  proof (cases "map_of (fl_file_types s) ?k")
    case (Some t)
    with 1(3,4) have "t = file_type_of E (fl_patterns s) (Frame c m b)" by (auto simp: types_ok_def)
    with Some 1(3) show ?thesis by auto
  next
    case None
    show ?thesis
    proof (cases "from_string E c")
      case True
      obtain found s' where r: "search_callers E b s = (found, s')" by fastforce
      have "\<forall>fr. b = Some fr \<longrightarrow> fr \<in> U" using told_apartD(1) [OF 1(2)] 1(4) by auto
      with 1(1) [OF None True 1(2,3)] r
      have s': "found = user_caller E (fl_patterns s) b" "types_ok E U s'" "types_filled s s'" by auto
      define t where "t = (if found then Some LibFile else None)"
      have p: "fl_patterns s' = fl_patterns s" by (rule types_filled_simps [OF s'(3)])
      have t: "t = file_type_of E (fl_patterns s') (Frame c m b)" "t = file_type_of E (fl_patterns s) (Frame c m b)"
        using True by (simp_all add: t_def s'(1) p)
      have "get_file_type E (Frame c m b) s = (t, remember_type (file_key E c) t s')"
        using None True r by (simp add: t_def Let_def)
      moreover have "types_ok E U (remember_type (file_key E c) t s')"
        using types_ok_remember [OF 1(2) s'(2) 1(4)] t(1) by simp
      moreover have "types_filled s (remember_type (file_key E c) t s')"
        by (rule types_filled_trans [OF s'(3) types_filled_remember])
      ultimately show ?thesis using t(2) by (simp add: remember_type_def)
    next
      case False
      with None types_ok_remember [OF 1(2,3,4)] types_filled_remember show ?thesis
        by (simp add: remember_type_def Let_def)
    qed
  qed
next
  case (3 E c m b s)
  obtain t s' where r: "get_file_type E (Frame c m b) s = (t, s')" by fastforce
  with 3(1,3,4,5) have t: "t = file_type_of E (fl_patterns s) (Frame c m b)" "types_ok E U s'" "types_filled s s'"
    by auto
  show ?case
  proof (cases "counts_as_user E t c")
    case False
    have "\<forall>fr. b = Some fr \<longrightarrow> fr \<in> U" using told_apartD(1) [OF 3(3)] 3(5) by auto
    with 3(2) [OF r [symmetric] False 3(3) t(2)] types_filled_trans [OF t(3)] False t(1) r
      types_filled_simps [OF t(3)]
    show ?thesis by (auto split: prod.splits)
  qed (use r t in simp)
qed simp


section \<open>The caches hold what the settings give\<close>

definition caches_ok :: "filter_env \<Rightarrow> frame set \<Rightarrow> filters \<Rightarrow> bool" where
  "caches_ok E U s \<longleftrightarrow> types_ok E U s \<and>
    (\<forall>f \<in> U. \<forall>v. map_of (fl_scope_cache s) (file_key E (f_code f)) = Some v \<longrightarrow> v = in_scope E s f) \<and>
    (\<forall>f \<in> U. \<forall>v. map_of (fl_exclude_cache s) (co_filename (f_code f), co_name (f_code f)) = Some v \<longrightarrow>
       v = excluded E s f) \<and>
    (\<forall>f \<in> U. \<forall>force v.
       map_of (fl_apply_cache s) (co_firstlineno (f_code f), co_filename (f_code f), force, f_code f) = Some v \<longrightarrow>
       v = filtered E s f force)"

text \<open>Without a known file type nothing that depends on one has been cached.\<close>

definition types_first :: "filters \<Rightarrow> bool" where
  "types_first s \<longleftrightarrow> (fl_file_types s = [] \<longrightarrow> fl_scope_cache s = [] \<and> fl_exclude_cache s = [] \<and>
     (fl_apply_cache s \<noteq> [] \<longrightarrow> \<not> fl_exclude_enabled s \<and> \<not> fl_libraries_enabled s \<and>
        (\<forall>(l, f, force, c) \<in> set (od_keys (fl_apply_cache s)). \<not> force)))"

definition filters_inv :: "filter_env \<Rightarrow> frame set \<Rightarrow> filters \<Rightarrow> bool" where
  "filters_inv E U s \<longleftrightarrow> caches_ok E U s \<and> types_first s \<and> \<not> fl_plugin_breaks s \<and>
    fl_exclude_enabled s = use_exclude_filters (fl_filtering s) \<and>
    fl_libraries_enabled s = ff_use_libraries_filter (fl_filtering s)"

lemma decisions_cong:
  assumes "fl_filtering s' = fl_filtering s" and "fl_patterns s' = fl_patterns s"
  shows "in_scope E s' f = in_scope E s f" "excluded E s' f = excluded E s f" "filtered E s' f force = filtered E s f force"
  using assms by (auto simp: in_scope_def excluded_def filtered_def split: option.splits)

lemma types_ok_cong:
  "fl_file_types s' = fl_file_types s \<Longrightarrow> fl_patterns s' = fl_patterns s \<Longrightarrow> types_ok E U s' = types_ok E U s"
  by (simp add: types_ok_def)

text \<open>The parts of a frame that each cache's key does not hold make no difference.\<close>

lemma same_decisions:
  assumes "told_apart E U" and "f \<in> U" and "g \<in> U"
  shows "f_code f = f_code g \<Longrightarrow> in_scope E s f = in_scope E s g"
    and "co_filename (f_code f) = co_filename (f_code g) \<Longrightarrow> co_name (f_code f) = co_name (f_code g) \<Longrightarrow>
      excluded E s f = excluded E s g"
    and "f_code f = f_code g \<Longrightarrow> filtered E s f force = filtered E s g force"
proof -
  note types = told_apartD(2) [OF assms] and modules = told_apartD(3) [OF assms]
  show scope: "f_code f = f_code g \<Longrightarrow> in_scope E s f = in_scope E s g"
    using types by (simp add: in_scope_def)
  have pydev: "file_type_of E P f = Some PydevFile \<longleftrightarrow> file_type_of E P g = Some PydevFile"
    if "co_filename (f_code f) = co_filename (f_code g)" for P
  proof -
    have same: "code_path E (f_code f) = code_path E (f_code g)" "code_base E (f_code f) = code_base E (f_code g)"
      using that by (simp_all add: code_path_def code_base_def)
    then have "plain_file_type E P (f_code f) = plain_file_type E P (f_code g)"
      by (simp add: plain_file_type_def internal_get_file_type_def)
    with same show ?thesis by (cases f; cases g) (auto simp: from_string_def)
  qed
  show excl: "excluded E s f = excluded E s g"
    if "co_filename (f_code f) = co_filename (f_code g)" "co_name (f_code f) = co_name (f_code g)"
    using pydev [OF that(1)] modules [OF that] that(1)
    by (simp add: excluded_def exclude_decision_def frame_module_def)
  show "f_code f = f_code g \<Longrightarrow> filtered E s f force = filtered E s g force"
    using scope excl by (auto simp: filtered_def split: option.splits)
qed

lemma caches_ok_filled:
  assumes "caches_ok E U s" and "types_filled s s'" and "types_ok E U s'"
  shows "caches_ok E U s'"
  using assms unfolding caches_ok_def
  by (simp add: types_filled_simps [OF assms(2)] decisions_cong [OF types_filled_simps(1,2) [OF assms(2)]])

lemma types_first_filled: "types_filled s s' \<Longrightarrow> fl_file_types s' \<noteq> [] \<Longrightarrow> types_first s'"
  by (simp add: types_first_def)

lemma in_project_scope_ok:
  assumes "told_apart E U" and "filters_inv E U s" and "fr \<in> U"
  shows "case in_project_scope E fr s of (v, s') \<Rightarrow>
    v = in_scope E s fr \<and> filters_inv E U s' \<and> fl_file_types s' \<noteq> [] \<and>
    fl_filtering s' = fl_filtering s \<and> fl_patterns s' = fl_patterns s \<and> fl_apply_cache s' = fl_apply_cache s"
proof (cases "map_of (fl_scope_cache s) (file_key E (f_code fr))")
  case (Some v)
  then have "fl_file_types s \<noteq> []" using assms(2) by (auto simp: filters_inv_def types_first_def)
  with Some assms show ?thesis by (auto simp: in_project_scope_def filters_inv_def caches_ok_def)
next
  case None
  obtain t s1 where r: "get_file_type E fr s = (t, s1)" by fastforce
  have inv: "caches_ok E U s" "types_ok E U s" using assms(2) by (auto simp: filters_inv_def caches_ok_def)
  from get_file_type_ok(1) [OF assms(1) inv(2) assms(3)] r
  have t: "t = file_type_of E (fl_patterns s) fr" "types_ok E U s1" "types_filled s s1" "fl_file_types s1 \<noteq> []" by auto
  note same = types_filled_simps [OF t(3)]
  let ?v = "in_scope E s fr"
  define s' where "s' = s1\<lparr>fl_scope_cache := od_set (file_key E (f_code fr)) ?v (fl_scope_cache s1)\<rparr>"
  have "scope_decision E (fl_filtering s1) t (code_path E (f_code fr)) = ?v"
    by (simp add: t(1) in_scope_def same)
  then have run: "in_project_scope E fr s = (?v, s')" using None r by (simp add: in_project_scope_def s'_def Let_def)
  have d: "in_scope E s' f = in_scope E s f" "excluded E s' f = excluded E s f" "filtered E s' f force = filtered E s f force"
    for f force by (intro decisions_cong; simp add: s'_def same)+
  have "types_ok E U s'" using t(2) by (simp add: s'_def types_ok_def)
  then have "caches_ok E U s'"
    using inv(1) same_decisions(1) [OF assms(1) assms(3), of _ s]
    unfolding caches_ok_def d by (auto simp: s'_def same file_key_def split: if_splits)
  with run t(4) assms(2) show ?thesis
    by (auto simp: filters_inv_def s'_def same types_first_def)
qed

lemma exclude_frame_by_filter_ok:
  assumes "told_apart E U" and "filters_inv E U s" and "fr \<in> U"
  shows "case exclude_frame_by_filter E fr (co_filename (f_code fr)) s of (v, s') \<Rightarrow>
    v = excluded E s fr \<and> filters_inv E U s' \<and> fl_file_types s' \<noteq> [] \<and>
    fl_filtering s' = fl_filtering s \<and> fl_patterns s' = fl_patterns s \<and> fl_apply_cache s' = fl_apply_cache s"
proof (cases "map_of (fl_exclude_cache s) (co_filename (f_code fr), co_name (f_code fr))")
  case (Some v)
  then have "fl_file_types s \<noteq> []" using assms(2) by (auto simp: filters_inv_def types_first_def)
  with Some assms show ?thesis by (auto simp: exclude_frame_by_filter_def filters_inv_def caches_ok_def)
next
  case None
  obtain t s1 where r: "get_file_type E fr s = (t, s1)" by fastforce
  have inv: "caches_ok E U s" "types_ok E U s" using assms(2) by (auto simp: filters_inv_def caches_ok_def)
  from get_file_type_ok(1) [OF assms(1) inv(2) assms(3)] r
  have t: "t = file_type_of E (fl_patterns s) fr" "types_ok E U s1" "types_filled s s1" "fl_file_types s1 \<noteq> []" by auto
  note same = types_filled_simps [OF t(3)]
  let ?v = "excluded E s fr"
  define s' where "s' = s1\<lparr>fl_exclude_cache := od_set (co_filename (f_code fr), co_name (f_code fr)) ?v (fl_exclude_cache s1)\<rparr>"
  have "exclude_decision E (fl_filtering s1) t fr (co_filename (f_code fr)) = ?v"
    by (simp add: t(1) excluded_def same)
  then have run: "exclude_frame_by_filter E fr (co_filename (f_code fr)) s = (?v, s')"
    using None r by (simp add: exclude_frame_by_filter_def s'_def Let_def)
  have d: "in_scope E s' f = in_scope E s f" "excluded E s' f = excluded E s f" "filtered E s' f force = filtered E s f force"
    for f force by (intro decisions_cong; simp add: s'_def same)+
  have "types_ok E U s'" using t(2) by (simp add: s'_def types_ok_def)
  then have "caches_ok E U s'"
    using inv(1) same_decisions(2) [OF assms(1) assms(3), of _ s]
    unfolding caches_ok_def d by (auto simp: s'_def same split: if_splits)
  with run t(4) assms(2) show ?thesis
    by (auto simp: filters_inv_def s'_def same types_first_def)
qed


lemma types_first_keys:
  assumes "types_first s" and "fl_file_types s = []"
  shows "\<forall>(l, f, force, c) \<in> set (od_keys (fl_apply_cache s)). \<not> force"
  using assms by (cases "fl_apply_cache s = []") (simp_all add: types_first_def od_keys_def)

lemma apply_files_filter_ok:
  assumes "told_apart E U" and "filters_inv E U s" and "fr \<in> U"
  shows "case apply_files_filter E can_skip fr (co_filename (f_code fr)) force s of (v, s') \<Rightarrow>
    v = filtered E s fr force \<and> filters_inv E U s'"
proof (cases "map_of (fl_apply_cache s) (co_firstlineno (f_code fr), co_filename (f_code fr), force, f_code fr)")
  case (Some v)
  with assms show ?thesis by (auto simp: apply_files_filter_def filters_inv_def caches_ok_def)
next
  case None
  let ?f = "co_filename (f_code fr)" and ?v = "filtered E s fr force"
  have flags: "fl_exclude_enabled s = use_exclude_filters (fl_filtering s)"
    "fl_libraries_enabled s = ff_use_libraries_filter (fl_filtering s)" "\<not> fl_plugin_breaks s"
    using assms(2) by (simp_all add: filters_inv_def)
  obtain x s1 where x: "(if fl_exclude_enabled s then exclude_frame_by_filter E fr ?f s else (None, s)) = (x, s1)"
    by fastforce
  have s1: "x = (if use_exclude_filters (fl_filtering s) then excluded E s fr else None) \<and> filters_inv E U s1 \<and>
    fl_filtering s1 = fl_filtering s \<and> fl_patterns s1 = fl_patterns s \<and> fl_apply_cache s1 = fl_apply_cache s \<and>
    (use_exclude_filters (fl_filtering s) \<longrightarrow> fl_file_types s1 \<noteq> [])"
    using x exclude_frame_by_filter_ok [OF assms] flags(1) assms(2) by (auto split: if_splits)
  obtain v s2 where r: "apply_decision E can_skip fr ?f force s = (v, s2)" by fastforce
  have s2: "v = ?v \<and> filters_inv E U s2 \<and> fl_filtering s2 = fl_filtering s \<and> fl_patterns s2 = fl_patterns s \<and>
    fl_apply_cache s2 = fl_apply_cache s \<and>
    (use_exclude_filters (fl_filtering s) \<or> ff_use_libraries_filter (fl_filtering s) \<or> force \<longrightarrow> fl_file_types s2 \<noteq> [])"
  proof (cases x)
    case (Some excl)
    then have "apply_decision E can_skip fr ?f force s = (excl, s1)" using flags(3) by (simp add: apply_decision_def x)
    moreover have "use_exclude_filters (fl_filtering s)" "excluded E s fr = Some excl"
      using s1 Some by (auto split: if_splits)
    ultimately show ?thesis using r s1 by (simp add: filtered_def)
  next
    case None
    have libs: "fl_libraries_enabled s1 = ff_use_libraries_filter (fl_filtering s)" using s1 by (simp add: filters_inv_def)
    have run: "apply_decision E can_skip fr ?f force s =
      (if fl_libraries_enabled s1 \<or> force then (case in_project_scope E fr s1 of (p, s) \<Rightarrow> (\<not> p, s)) else (False, s1))"
      using flags(3) None by (simp add: apply_decision_def x)
    have "in_scope E s1 fr = in_scope E s fr" using s1 by (intro decisions_cong) auto
    with run r s1 None libs in_project_scope_ok [OF assms(1) _ assms(3), of s1] show ?thesis
      by (auto simp: filtered_def split: if_splits prod.splits)
  qed
  define s' where "s' = s2\<lparr>fl_apply_cache := od_set (co_firstlineno (f_code fr), ?f, force, f_code fr) ?v (fl_apply_cache s2)\<rparr>"
  have d: "in_scope E s' f = in_scope E s2 f" "excluded E s' f = excluded E s2 f" "filtered E s' f force = filtered E s2 f force"
    for f force by (intro decisions_cong; simp add: s'_def)+
  have v2: "?v = filtered E s2 fr force" using s2 by (intro decisions_cong(3) [symmetric]) auto
  have inv2: "caches_ok E U s2" "types_first s2" using s2 by (simp_all add: filters_inv_def)
  have "types_ok E U s'" using inv2(1) by (simp add: s'_def types_ok_def caches_ok_def)
  then have "caches_ok E U s'"
    using inv2(1) same_decisions(3) [OF assms(1) assms(3), of _ s2]
    unfolding caches_ok_def d by (auto simp: s'_def v2 split: if_splits)
  moreover have "types_first s'"
  proof (cases "fl_file_types s2 = []")
    case True
    with s2 have "\<not> force" "\<not> fl_exclude_enabled s2" "\<not> fl_libraries_enabled s2"
      by (auto simp: filters_inv_def)
    moreover have "fl_scope_cache s2 = []" "fl_exclude_cache s2 = []"
      using inv2(2) True by (simp_all add: types_first_def)
    ultimately show ?thesis
      using types_first_keys [OF inv2(2) True] by (simp add: types_first_def s'_def)
  qed (simp add: types_first_def s'_def)
  ultimately have "filters_inv E U s'" using s2 by (simp add: filters_inv_def s'_def)
  with r s2 None show ?thesis by (simp add: apply_files_filter_def s'_def Let_def)
qed

lemma filters_inv_cleared:
  assumes "types_ok E U s" and "\<not> fl_plugin_breaks s"
  shows "filters_inv E U (clear_filters_caches s)"
  using assms by (simp add: filters_inv_def caches_ok_def types_ok_def types_first_def clear_filters_caches_def)

lemma filters_inv_new: "filters_inv E U (new_filters E)"
  by (simp add: filters_inv_def caches_ok_def types_ok_def types_first_def new_filters_def Let_def)

lemma types_ok_settings:
  assumes "filters_inv E U s"
  shows "types_ok E U (s\<lparr>fl_filtering := ff\<rparr>)"
  using assms by (simp add: filters_inv_def caches_ok_def types_ok_def)

text \<open>
  The patterns are changed without clearing only while no file type is known: then the caches hold
  no decision that depends on them.
\<close>

lemma filters_inv_patterns:
  assumes "filters_inv E U s"
  shows "filters_inv E U (set_dont_trace_start_end_patterns starts ends s)"
proof -
  define s1 where "s1 = s\<lparr>fl_patterns := Some (starts, ends)\<rparr>"
  have plugin: "\<not> fl_plugin_breaks s" using assms by (simp add: filters_inv_def)
  consider "set_dont_trace_start_end_patterns starts ends s = s"
    | "set_dont_trace_start_end_patterns starts ends s = clear_dont_trace_caches s1"
    | "set_dont_trace_start_end_patterns starts ends s = s1" "fl_file_types s = []"
  proof (cases "fl_patterns s = None \<and> starts = [] \<and> ends = [] \<or> fl_patterns s = Some (starts, ends)")
    case True
    then have "set_dont_trace_start_end_patterns starts ends s = s"
      by (auto simp: set_dont_trace_start_end_patterns_def)
    then show ?thesis by (rule that(1))
  next
    case False
    then have "set_dont_trace_start_end_patterns starts ends s =
        (if fl_file_types s \<noteq> [] then clear_dont_trace_caches s1 else s1)"
      by (auto simp: set_dont_trace_start_end_patterns_def s1_def Let_def split: option.splits)
    with that(2,3) show ?thesis by (auto split: if_splits)
  qed
  then show ?thesis
  proof cases
    case 2
    have "types_ok E U (s1\<lparr>fl_file_types := []\<rparr>)" by (simp add: types_ok_def)
    with 2 plugin show ?thesis by (simp add: clear_dont_trace_caches_def filters_inv_cleared s1_def)
  next
    case 3
    have f: "fl_scope_cache s = []" "fl_exclude_cache s = []"
      "fl_apply_cache s \<noteq> [] \<Longrightarrow> \<not> use_exclude_filters (fl_filtering s) \<and> \<not> ff_use_libraries_filter (fl_filtering s)"
      "\<forall>(l, g, force, c) \<in> set (od_keys (fl_apply_cache s)). \<not> force"
      using assms 3(2) types_first_keys [of s] by (auto simp: filters_inv_def types_first_def)
    have "filtered E s1 fr force = filtered E s fr force"
      if "map_of (fl_apply_cache s) (l, g, force, c) = Some v" for l g force c v fr
    proof -
      have "(l, g, force, c) \<in> set (od_keys (fl_apply_cache s))" using that by (simp add: in_od_keys_iff)
      moreover have "fl_apply_cache s \<noteq> []" using that by auto
      ultimately have "\<not> force" "\<not> use_exclude_filters (fl_filtering s)" "\<not> ff_use_libraries_filter (fl_filtering s)"
        using f(3,4) by auto
      then show ?thesis by (simp add: filtered_def s1_def)
    qed
    with assms 3 f(1,2) show ?thesis
      by (simp add: filters_inv_def caches_ok_def types_ok_def types_first_def s1_def) (metis s1_def)
  qed (use assms in simp)
qed

text \<open>What the rest of the debugger does with the filters, on frames of \<open>U\<close>.\<close>

inductive filter_step :: "filter_env \<Rightarrow> frame set \<Rightarrow> filters \<Rightarrow> filters \<Rightarrow> bool" for E U where
  set_roots: "filter_step E U s (set_project_roots E roots s)"
| set_filters: "filter_step E U s (set_exclude_filters xs s)"
| set_libraries: "filter_step E U s (set_use_libraries_filter use s)"
| set_patterns: "filter_step E U s (set_dont_trace_start_end_patterns starts ends s)"
| ask_type: "fr \<in> U \<Longrightarrow> filter_step E U s (snd (get_file_type E fr s))"
| ask_scope: "fr \<in> U \<Longrightarrow> filter_step E U s (snd (in_project_scope E fr s))"
| ask_filter: "fr \<in> U \<Longrightarrow> filter_step E U s (snd (apply_files_filter E can_skip fr (co_filename (f_code fr)) force s))"
| ask_exception: "fr \<in> U \<Longrightarrow> filter_step E U s (snd (exclude_exception_by_filter E ignore_libraries (Some fr) s))"

lemma filters_inv_step:
  assumes "told_apart E U" and "filters_inv E U s" and "filter_step E U s t"
  shows "filters_inv E U t"
  using assms(3)
proof cases
  case (ask_type fr)
  have inv: "caches_ok E U s" "types_ok E U s" using assms(2) by (auto simp: filters_inv_def caches_ok_def)
  obtain u where u: "get_file_type E fr s = (u, t)" using ask_type by (cases "get_file_type E fr s") auto
  from get_file_type_ok(1) [OF assms(1) inv(2) ask_type(2)] u
  have t: "types_ok E U t" "types_filled s t" "fl_file_types t \<noteq> []" by auto
  from caches_ok_filled [OF inv(1) t(2,1)] types_first_filled [OF t(2,3)] assms(2) show ?thesis
    by (simp add: filters_inv_def types_filled_simps [OF t(2)])
next
  case (ask_exception fr ignore_libraries)
  let ?s = "if ignore_libraries then in_project_scope E fr s else (True, s)"
  have *: "filters_inv E U (snd ?s)"
    using in_project_scope_ok [OF assms(1,2) ask_exception(2)] assms(2) by (auto split: prod.splits)
  have "filters_inv E U (snd (exclude_frame_by_filter E fr (co_filename (f_code fr)) (snd ?s)))"
    using exclude_frame_by_filter_ok [OF assms(1) * ask_exception(2)] by (auto split: prod.splits)
  with * assms(2) ask_exception show ?thesis
    by (cases ?s) (auto simp: exclude_exception_by_filter_def split: prod.splits if_splits)
next
  case (ask_scope fr)
  with in_project_scope_ok [OF assms(1,2) ask_scope(2)] show ?thesis by (auto split: prod.splits)
next
  case ask_filter
  then show ?thesis using apply_files_filter_ok [OF assms(1,2)] by (simp add: case_prod_beta)
qed (use assms(2) in \<open>auto simp: set_project_roots_def set_exclude_filters_def set_use_libraries_filter_def
  filters_inv_patterns intro!: filters_inv_cleared types_ok_settings, auto simp: filters_inv_def\<close>)

interpretation filter_caches: inductive_invariant
  "\<lambda>s. s = new_filters E" "filter_step E U" "\<lambda>s. told_apart E U \<longrightarrow> filters_inv E U s" for E U
  by unfold_locales (auto simp: filters_inv_new intro: filters_inv_step)



definition demo_filter_env :: filter_env where
  "demo_filter_env = \<lparr>fe_os = demo_os, fe_getenv = (\<lambda>_. None), fe_default_library_roots = [''/usr/lib''], fe_json_filters = (\<lambda>_. [])\<rparr>"

definition demo_frame :: "int \<Rightarrow> string \<Rightarrow> frame" where
  "demo_frame line modname =
    Frame \<lparr>co_firstlineno = line, co_filename = ''/app/x.py'', co_name = ''f'', co_rest = 0\<rparr> (Some modname) None"

definition demo_filters :: "exclude_filter list" where
  "demo_filters = [\<lparr>xf_name = ''__main__'', xf_exclude = True, xf_is_path = False\<rparr>]"

lemma demo_decisions:
  "filtered demo_filter_env (set_exclude_filters demo_filters (new_filters demo_filter_env)) (demo_frame 1 ''__main__'') False"
  "\<not> filtered demo_filter_env (set_exclude_filters demo_filters (new_filters demo_filter_env)) (demo_frame 9 ''pkg.x'') False"
  by code_simp+


text \<open>
  The cache of the exclude filters is looked up by file and function name, not by module. A
  file that runs as a script and is imported as a module too has its functions excluded, or not,
  by the module that was asked about first, where a filter names one of the modules.
\<close>

theorem exclude_cache_ignores_module:
  "let E = demo_filter_env; s = set_exclude_filters demo_filters (new_filters E);
       ask = (\<lambda>fr s. apply_files_filter E (\<lambda>_. True) fr ''/app/x.py'' False s);
       script = demo_frame 1 ''__main__''; imported = demo_frame 9 ''pkg.x''
   in fst (ask imported s) = False \<and> fst (ask imported (snd (ask script s))) = True \<and>
      filtered E (snd (ask script s)) imported False = False"
  by code_simp


end
