(* ===== verification/Breakpoints.thy ===== *)
theory Breakpoints
  imports SourceMapping FilterCache
begin

text \<open>
  Line breakpoints in \<open>pydevd_api.py\<close>, \<open>pydevd_breakpoints.py\<close>, \<open>PyDB\<close> and
  \<open>on_setbreakpoints_request\<close>: how a breakpoint of the IDE is translated by path mappings and source
  mapping, checked, filed by its id, and consolidated by its line for the tracer. The breakpoints of
  the two template plugins are filed together and consolidated apart.

  Tracing of running threads, which \<open>on_breakpoints_changed\<close> refreshes, and log messages are left out.
\<close>

section \<open>Breakpoints\<close>

text \<open>
  A breakpoint object is mutable and is filed under its id and under its line: \<open>lb_object\<close> is its
  identity, under which its hit count is kept.
\<close>

record line_breakpoint =
  lb_object :: nat
  lb_line :: int
  lb_condition :: "string option"
  lb_func_name :: string
  lb_expression :: "string option"
  lb_suspend_policy :: string
  lb_hit_condition :: "string option"
  lb_is_logpoint :: bool

datatype break_kind = PythonLine | DjangoLine | Jinja2Line

fun kind_of :: "string \<Rightarrow> break_kind option" where
  "kind_of t = (if t = ''python-line'' then Some PythonLine
    else if t = ''django-line'' then Some DjangoLine
    else if t = ''jinja2-line'' then Some Jinja2Line else None)"

text \<open>The parameters of \<open>add_breakpoint\<close> that are kept to apply it again.\<close>

record break_params =
  bp_filename :: string
  bp_type :: string
  bp_id :: int
  bp_line :: int
  bp_condition :: "string option"
  bp_func_name :: string
  bp_expression :: "string option"
  bp_suspend_policy :: string
  bp_hit_condition :: "string option"
  bp_is_logpoint :: bool

type_synonym id_to_breakpoint = "(int, line_breakpoint) odict"

record pydb =
  db_paths :: path_state
  db_mapping :: source_mapping
  db_filters :: filters
  db_received :: "(string \<times> int, string \<times> break_params) odict"
  db_line_ids :: "(string, id_to_breakpoint) odict"
  db_plugin_ids :: "(string, id_to_breakpoint) odict"
  db_breakpoints :: "(string, id_to_breakpoint) odict"
  db_django :: "(string, id_to_breakpoint) odict"
  db_jinja2 :: "(string, id_to_breakpoint) odict"
  db_active_plugins :: "break_kind list"
  db_ready_to_run :: bool
  db_mtime :: int
  db_next_object :: nat
  db_hits :: "nat \<Rightarrow> nat"

text \<open>
  The files on disk, by the lines of their code if they can be read and compiled, and whether
  the template plugins are loaded and can skip a frame.
\<close>

record break_env =
  be_filter :: filter_env
  be_code_lines :: "string \<Rightarrow> int list option"
  be_plugins :: bool
  be_plugin_can_skip :: "frame \<Rightarrow> bool"

definition be_os :: "break_env \<Rightarrow> os_env" where
  "be_os E = fe_os (be_filter E)"

text \<open>The state that \<open>PyDB.__init__\<close> sets up.\<close>

definition new_pydb :: "break_env \<Rightarrow> pydb" where
  "new_pydb E = \<lparr>db_paths = loaded_paths (be_os E), db_mapping = new_source_mapping, db_filters = new_filters (be_filter E),
     db_received = [], db_line_ids = [], db_plugin_ids = [], db_breakpoints = [], db_django = [], db_jinja2 = [],
     db_active_plugins = [], db_ready_to_run = False, db_mtime = 0, db_next_object = 0, db_hits = (\<lambda>_. 0)\<rparr>"

type_synonym 'a dbact = "(pydb, exn, 'a) sem"

definition on_breakpoints_changed :: "unit dbact" where
  "on_breakpoints_changed = modify (\<lambda>s. if db_ready_to_run s then s\<lparr>db_mtime := db_mtime s + 1\<rparr> else s)"

text \<open>\<open>consolidate_breakpoints\<close>: a later id on the same line hides an earlier one.\<close>

definition by_line :: "id_to_breakpoint \<Rightarrow> id_to_breakpoint" where
  "by_line ids = foldl (\<lambda>m (_, b). od_set (lb_line b) b m) [] ids"

definition breaks_of :: "break_kind \<Rightarrow> pydb \<Rightarrow> (string, id_to_breakpoint) odict" where
  "breaks_of k s = (case k of PythonLine \<Rightarrow> db_breakpoints s | DjangoLine \<Rightarrow> db_django s | Jinja2Line \<Rightarrow> db_jinja2 s)"

definition set_breaks :: "break_kind \<Rightarrow> (string, id_to_breakpoint) odict \<Rightarrow> pydb \<Rightarrow> pydb" where
  "set_breaks k m s =
    (case k of PythonLine \<Rightarrow> s\<lparr>db_breakpoints := m\<rparr> | DjangoLine \<Rightarrow> s\<lparr>db_django := m\<rparr> | Jinja2Line \<Rightarrow> s\<lparr>db_jinja2 := m\<rparr>)"

definition ids_of :: "break_kind \<Rightarrow> pydb \<Rightarrow> (string, id_to_breakpoint) odict" where
  "ids_of k s = (if k = PythonLine then db_line_ids s else db_plugin_ids s)"

definition set_ids :: "break_kind \<Rightarrow> (string, id_to_breakpoint) odict \<Rightarrow> pydb \<Rightarrow> pydb" where
  "set_ids k m s = (if k = PythonLine then s\<lparr>db_line_ids := m\<rparr> else s\<lparr>db_plugin_ids := m\<rparr>)"

definition consolidate_breakpoints :: "break_kind \<Rightarrow> string \<Rightarrow> id_to_breakpoint \<Rightarrow> pydb \<Rightarrow> pydb" where
  "consolidate_breakpoints k filename ids s = set_breaks k (od_set filename (by_line ids) (breaks_of k s)) s"

text \<open>
  \<open>has_line_breaks\<close> of the active plugins, as \<open>PyDB\<close> keeps it. Before the first plugin breakpoint there is
  no active plugin and the flag is false.
\<close>

definition has_line_breaks :: "pydb \<Rightarrow> bool" where
  "has_line_breaks s = list_ex (\<lambda>k. list_ex (\<lambda>(_, m). m \<noteq> []) (breaks_of k s)) (db_active_plugins s)"

definition refresh_plugin_breaks :: "pydb \<Rightarrow> pydb" where
  "refresh_plugin_breaks s = s\<lparr>db_filters := (db_filters s)\<lparr>fl_plugin_breaks := has_line_breaks s\<rparr>\<rparr>"

definition activate :: "break_kind \<Rightarrow> pydb \<Rightarrow> pydb" where
  "activate k s =
    (if k = PythonLine \<or> k \<in> set (db_active_plugins s) then s
     else s\<lparr>db_active_plugins := db_active_plugins s @ [k]\<rparr>)"

section \<open>Adding\<close>

datatype add_error = NoError | FileNotFound | FileExcluded

record add_result =
  ar_error :: add_error
  ar_filename :: string
  ar_line :: int

definition filename_to_server :: "break_env \<Rightarrow> string \<Rightarrow> string dbact" where
  "filename_to_server E filename s =
    (case norm_file_to_server (be_os E) filename (db_paths s) of
       (translated, paths) \<Rightarrow> (Inr translated, s\<lparr>db_paths := paths\<rparr>))"

text \<open>The first preceding line of code, if the line is none itself.\<close>

definition adjusted_line :: "break_env \<Rightarrow> string \<Rightarrow> int \<Rightarrow> int" where
  "adjusted_line E filename line =
    (case be_code_lines E filename of
       None \<Rightarrow> line
     | Some ls \<Rightarrow>
         let lines = sort ls in
         if line \<in> set lines then line
         else (case filter (\<lambda>l. l < line) lines of [] \<Rightarrow> line | ls' \<Rightarrow> last ls'))"

text \<open>A frame made up for the filters, with a code object that no other is equal to.\<close>

definition dummy_frame :: "string \<Rightarrow> nat \<Rightarrow> frame" where
  "dummy_frame filename n =
    Frame \<lparr>co_firstlineno = 1, co_filename = filename, co_name = ''invalid func name '', co_rest = n\<rparr> None None"

definition excluded_by_filters :: "break_env \<Rightarrow> string \<Rightarrow> bool dbact" where
  "excluded_by_filters E filename s =
    (if is_files_filter_enabled (db_filters s) \<and> \<not> ff_require_module (fl_filtering (db_filters s))
     then (case apply_files_filter (be_filter E) (be_plugin_can_skip E) (dummy_frame filename (db_next_object s))
                  filename False (db_filters s) of
             (x, fl) \<Rightarrow> (Inr x, s\<lparr>db_filters := fl, db_next_object := db_next_object s + 1\<rparr>))
     else (Inr False, s))"

text \<open>The breakpoints of the plugins are made without a suspend policy, so theirs is the default.\<close>

definition new_breakpoint :: "break_kind \<Rightarrow> break_params \<Rightarrow> int \<Rightarrow> line_breakpoint dbact" where
  "new_breakpoint k p line s =
    (Inr \<lparr>lb_object = db_next_object s, lb_line = line, lb_condition = bp_condition p, lb_func_name = bp_func_name p,
          lb_expression = bp_expression p, lb_suspend_policy = (if k = PythonLine then bp_suspend_policy p else ''NONE''),
          lb_hit_condition = bp_hit_condition p, lb_is_logpoint = bp_is_logpoint p\<rparr>,
     s\<lparr>db_hits := (db_hits s)(db_next_object s := 0), db_next_object := db_next_object s + 1\<rparr>)"

definition ids_in :: "break_kind \<Rightarrow> string \<Rightarrow> pydb \<Rightarrow> id_to_breakpoint" where
  "ids_in k filename s = (case map_of (ids_of k s) filename of None \<Rightarrow> [] | Some ids \<Rightarrow> ids)"

text \<open>From the creation of the breakpoint to the notification; an unknown type raises \<open>NameError\<close>.\<close>

definition file_breakpoint :: "break_env \<Rightarrow> break_params \<Rightarrow> string \<Rightarrow> int \<Rightarrow> unit dbact" where
  "file_breakpoint E p filename line =
    (case kind_of (bp_type p) of
       None \<Rightarrow> raise (RuntimeError (''NameError: '' @ bp_type p))
     | Some k \<Rightarrow>
         if k \<noteq> PythonLine \<and> \<not> be_plugins E then raise (RuntimeError (''NameError: '' @ bp_type p))
         else
           andthen (new_breakpoint k p line) (\<lambda>b.
           andthen (modify (\<lambda>s.
             let ids = od_set (bp_id p) b (ids_in k filename s) in
             refresh_plugin_breaks (consolidate_breakpoints k filename ids
               (set_ids k (od_set filename ids (ids_of k s)) (activate k s))))) (\<lambda>_.
           on_breakpoints_changed)))"

definition add_breakpoint :: "break_env \<Rightarrow> break_params \<Rightarrow> bool \<Rightarrow> add_result dbact" where
  "add_breakpoint E p adjust_line =
    andthen (filename_to_server E (bp_filename p)) (\<lambda>filename.
    andthen (gets (\<lambda>s. map_to_server (db_mapping s) filename (bp_line p))) (\<lambda>(new_filename, new_line, mapped).
    andthen (modify (\<lambda>s. s\<lparr>db_received := od_set (bp_filename p, bp_id p) (new_filename, p) (db_received s)\<rparr>)) (\<lambda>_.
    let line = (if mapped then new_line
                else if adjust_line \<and> \<not> synthetic filename then adjusted_line E filename (bp_line p) else bp_line p);
        result = \<lparr>ar_error = NoError, ar_filename = filename, ar_line = (if mapped then bp_line p else line)\<rparr>;
        filename = (if mapped then new_filename else filename)
    in if \<not> synthetic filename \<and> \<not> file_exists (be_os E) filename then ret (result\<lparr>ar_error := FileNotFound\<rparr>)
       else
         andthen (if synthetic filename then ret False else excluded_by_filters E filename) (\<lambda>x.
         andthen (file_breakpoint E p filename line) (\<lambda>_.
         ret (if x then result\<lparr>ar_error := FileExcluded\<rparr> else result))))))"

section \<open>Removing\<close>

definition drop_file :: "string \<Rightarrow> pydb \<Rightarrow> pydb" where
  "drop_file f s = s\<lparr>db_line_ids := od_del f (db_line_ids s), db_plugin_ids := od_del f (db_plugin_ids s),
     db_breakpoints := od_del f (db_breakpoints s), db_django := od_del f (db_django s), db_jinja2 := od_del f (db_jinja2 s)\<rparr>"

definition has_file :: "string \<Rightarrow> pydb \<Rightarrow> bool" where
  "has_file f s \<longleftrightarrow> f \<in> set (od_keys (db_line_ids s)) \<union> set (od_keys (db_plugin_ids s)) \<union> set (od_keys (db_breakpoints s))
     \<union> set (od_keys (db_django s)) \<union> set (od_keys (db_jinja2 s))"

definition remove_all_breakpoints :: "string \<Rightarrow> unit dbact" where
  "remove_all_breakpoints filename s =
    (if filename = ''*'' then
       let changed = db_line_ids s \<noteq> [] \<or> db_plugin_ids s \<noteq> [] \<or> db_breakpoints s \<noteq> [] \<or> db_django s \<noteq> [] \<or> db_jinja2 s \<noteq> [];
           s = s\<lparr>db_received := [], db_line_ids := [], db_plugin_ids := [], db_breakpoints := [], db_django := [], db_jinja2 := []\<rparr>
       in (if changed then on_breakpoints_changed s else (Inr (), s))
     else
       let translated = map (\<lambda>(_, new_filename, _). new_filename) (filter (\<lambda>((f, _), _). f = filename) (db_received s));
           changed = list_ex (\<lambda>f. has_file f s) translated;
           s = foldl (\<lambda>s f. drop_file f s)
                 (s\<lparr>db_received := filter (\<lambda>((f, _), _). f \<noteq> filename) (db_received s)\<rparr>) translated
       in (if changed then on_breakpoints_changed s else (Inr (), s)))"

text \<open>
  The first entry with the name and id is forgotten. The file to remove from is the
  one that the path mappings give: the source mapping is not applied. A missing id is only logged.
\<close>

definition remove_breakpoint :: "break_env \<Rightarrow> string \<Rightarrow> string \<Rightarrow> int \<Rightarrow> unit dbact" where
  "remove_breakpoint E filename t i =
    andthen (modify (\<lambda>s. s\<lparr>db_received := od_del (filename, i) (db_received s)\<rparr>)) (\<lambda>_.
    andthen (filename_to_server E filename) (\<lambda>filename.
    andthen (modify (\<lambda>s.
      case kind_of t of
        None \<Rightarrow> s
      | Some k \<Rightarrow>
          if k \<noteq> PythonLine \<and> k \<notin> set (db_active_plugins s) then s
          else if map_of (ids_in k filename s) i = None then s
          else
            let ids = od_del i (ids_in k filename s) in
            refresh_plugin_breaks (consolidate_breakpoints k filename ids
              (set_ids k (od_set filename ids (ids_of k s)) s)))) (\<lambda>_.
    on_breakpoints_changed)))"

fun add_all :: "break_env \<Rightarrow> (break_params \<times> bool) list \<Rightarrow> add_result list dbact" where
  "add_all E [] = ret []"
| "add_all E ((p, adjust) # ps) =
    andthen (add_breakpoint E p adjust) (\<lambda>r. andthen (add_all E ps) (\<lambda>rs. ret (r # rs)))"

text \<open>The kept parameters are those before \<open>adjust_line\<close>, which has its default here.\<close>

definition reapply_breakpoints :: "break_env \<Rightarrow> unit dbact" where
  "reapply_breakpoints E =
    andthen (gets (\<lambda>s. map (\<lambda>(_, _, p). (p, False)) (db_received s))) (\<lambda>items.
    andthen (remove_all_breakpoints ''*'') (\<lambda>_.
    andthen (add_all E items) (\<lambda>_. ret ())))"

definition api_set_source_mapping :: "break_env \<Rightarrow> string \<Rightarrow> entry list \<Rightarrow> string dbact" where
  "api_set_source_mapping E source_filename mapping =
    andthen (filename_to_server E source_filename) (\<lambda>filename.
    andthen (\<lambda>s. case set_source_mapping filename (map (\<lambda>e. e\<lparr>en_source := Some filename\<rparr>) mapping) (db_mapping s) of
        (r, m) \<Rightarrow> (r, s\<lparr>db_mapping := m\<rparr>)) (\<lambda>message.
    if message \<noteq> [] then ret message
    else andthen (reapply_breakpoints E) (\<lambda>_. ret [])))"

end
