(* ===== verification/LogPoints.thy ===== *)
theory LogPoints
  imports Breakpoints
begin

text \<open>
  What a breakpoint of the IDE evaluates: hit conditions, conditions and log messages. The two texts
  of the protocol are made into Python expressions (\<open>_get_hit_condition_expression\<close> in
  \<open>pydevd_process_net_command_json.py\<close> and \<open>convert_dap_log_message_to_expression\<close> in
  \<open>pydevd_utils.py\<close>), which are evaluated in the frame (\<open>handle_hit_condition\<close> of
  \<open>pydevd_breakpoints.py\<close>, \<open>handle_breakpoint_condition\<close> in \<open>pydevd.py\<close>).

  Evaluating an expression is Python's: a function from the text to its truth, or to nothing if it raises.
\<close>

section \<open>Hit conditions\<close>

text \<open>\<open>'...{}...'.format(expr)\<close> with the one placeholder.\<close>

definition hit_condition_expression :: "string option \<Rightarrow> string option" where
  "hit_condition_expression hit_condition =
    (case hit_condition of
       None \<Rightarrow> None
     | Some text \<Rightarrow>
         if text = [] then None
         else
           let expr = strip text in
           if parse_int expr \<noteq> None then Some (''@HIT@ == '' @ expr)
           else if starts_with expr ''%'' then Some (''@HIT@ '' @ expr @ '' == 0'')
           else if starts_with expr ''=='' \<or> starts_with expr ''>'' \<or> starts_with expr ''<'' then Some (''@HIT@ '' @ expr)
           else Some text)"

text \<open>\<open>str.replace\<close> of a text that is not empty.\<close>

function replace_text :: "string \<Rightarrow> string \<Rightarrow> string \<Rightarrow> string" where
  "replace_text old new s =
    (case s of
       [] \<Rightarrow> []
     | c # s' \<Rightarrow>
         if old \<noteq> [] \<and> starts_with s old then new @ replace_text old new (drop (length old) s)
         else c # replace_text old new s')"
  by pat_completeness auto
termination by (relation "measure (\<lambda>(_, _, s). length s)") auto

type_synonym evaluator = "string \<Rightarrow> bool option"

definition falsy :: "string option \<Rightarrow> bool" where
  "falsy t \<longleftrightarrow> t = None \<or> t = Some []"

text \<open>Counts the hit, and is true when the condition is; one that raises is false.\<close>

definition handle_hit_condition :: "evaluator \<Rightarrow> line_breakpoint \<Rightarrow> pydb \<Rightarrow> bool \<times> pydb" where
  "handle_hit_condition ev b s =
    (if falsy (lb_hit_condition b) then (False, s)
     else
       let hits = db_hits s (lb_object b) + 1;
           expr = replace_text ''@HIT@'' (show_nat hits) (the (lb_hit_condition b))
       in (ev expr = Some True, s\<lparr>db_hits := (db_hits s)(lb_object b := hits)\<rparr>))"

definition has_condition :: "line_breakpoint \<Rightarrow> bool" where
  "has_condition b \<longleftrightarrow> \<not> falsy (lb_condition b) \<or> \<not> falsy (lb_hit_condition b)"

text \<open>
  A condition that raises suspends, unless its exception is one of the kind to be skipped
  (\<open>skips\<close>). The messages that are written then are left out.
\<close>

definition handle_breakpoint_condition ::
  "evaluator \<Rightarrow> (string \<Rightarrow> bool) \<Rightarrow> line_breakpoint \<Rightarrow> pydb \<Rightarrow> bool \<times> pydb" where
  "handle_breakpoint_condition ev skips b s =
    (case handle_hit_condition ev b s of
       (True, s) \<Rightarrow> (True, s)
     | (False, s) \<Rightarrow>
         if falsy (lb_condition b) then (False, s)
         else (case ev (the (lb_condition b)) of
                 Some v \<Rightarrow> (v, s)
               | None \<Rightarrow> (\<not> skips (the (lb_condition b)), s)))"

section \<open>Log messages\<close>

text \<open>\<open>_extract_variable_nested_braces\<close>, with what the iterator has left; nothing for its \<open>SyntaxError\<close>.\<close>

fun extract_variable :: "int \<Rightarrow> string \<Rightarrow> string \<Rightarrow> (string \<times> string) option" where
  "extract_variable level expression [] = None"
| "extract_variable level expression (c # cs) =
    (let level = (if c = CHR ''{'' then level + 1 else level);
         level = (if c = CHR ''}'' then level - 1 else level)
     in if level = -1 then Some (strip (rev expression), cs)
        else extract_variable level (c # expression) cs)"

lemma extract_variable_shorter: "extract_variable level acc s = Some (v, r) \<Longrightarrow> length r < length s"
  by (induction level acc s rule: extract_variable.induct) (fastforce simp: Let_def split: if_splits)+

function extract_expression_list :: "string \<Rightarrow> (string \<times> string list) option" where
  "extract_expression_list [] = Some ([], [])"
| "extract_expression_list (c # cs) =
    (if c = CHR ''{'' then
       (case extract_variable 0 [] cs of
          None \<Rightarrow> None
        | Some (v, rest) \<Rightarrow>
            (case extract_expression_list rest of
               None \<Rightarrow> None
             | Some (expression, vars) \<Rightarrow>
                 if v = [] then Some (expression, vars) else Some (''%s'' @ expression, v # vars)))
     else
       (case extract_expression_list cs of
          None \<Rightarrow> None
        | Some (expression, vars) \<Rightarrow> Some (c # expression, vars)))"
  by pat_completeness auto
termination
  by (relation "measure length") (auto dest: extract_variable_shorter)

definition convert_dap_log_message_to_expression :: "string \<Rightarrow> string" where
  "convert_dap_log_message_to_expression log_message =
    (case extract_expression_list log_message of
       None \<Rightarrow> repr_str (''Unbalanced braces in: '' @ log_message)
     | Some (expression, vars) \<Rightarrow>
         if vars = [] then repr_str expression
         else repr_str expression @ '' % ('' @ join '', '' vars @ '',)'')"

section \<open>What a logged message is\<close>

text \<open>
  Python's \<open>format % values\<close> as far as these expressions use it: \<open>%s\<close> takes the next value and \<open>%%\<close> is a
  percent sign. Any other conversion is nothing here; a text without conversions must have no values.
\<close>

fun py_format :: "string \<Rightarrow> string list \<Rightarrow> string option" where
  "py_format [] vs = (if vs = [] then Some [] else None)"
| "py_format (c # cs) vs =
    (if c \<noteq> CHR ''%'' then map_option (Cons c) (py_format cs vs)
     else (case cs of
       [] \<Rightarrow> None
     | d # ds \<Rightarrow>
         if d = CHR ''%'' then map_option (Cons d) (py_format ds vs)
         else if d = CHR ''s'' then (case vs of [] \<Rightarrow> None | v # vs' \<Rightarrow> map_option (append v) (py_format ds vs'))
         else None))"

text \<open>What a log message means: its text, with every expression in braces replaced by its value.\<close>

datatype log_part = Plain char | Braces string

definition log_text :: "log_part list \<Rightarrow> string" where
  "log_text ps = concat (map (\<lambda>p. case p of Plain c \<Rightarrow> [c] | Braces e \<Rightarrow> ''{'' @ e @ ''}'') ps)"

definition log_meaning :: "(string \<Rightarrow> string) \<Rightarrow> log_part list \<Rightarrow> string" where
  "log_meaning val ps = concat (map (\<lambda>p. case p of Plain c \<Rightarrow> [c]
     | Braces e \<Rightarrow> if strip e = [] then [] else val (strip e)) ps)"

text \<open>Braces inside an expression are balanced: none closes the expression early.\<close>

fun depth_after :: "int \<Rightarrow> string \<Rightarrow> int option" where
  "depth_after level [] = Some level"
| "depth_after level (c # cs) =
    (let level = (if c = CHR ''{'' then level + 1 else if c = CHR ''}'' then level - 1 else level)
     in if level = -1 then None else depth_after level cs)"

fun part_ok :: "log_part \<Rightarrow> bool" where
  "part_ok (Plain c) \<longleftrightarrow> c \<noteq> CHR ''{''"
| "part_ok (Braces e) \<longleftrightarrow> depth_after 0 e = Some 0"

lemma extract_variable_balanced:
  "depth_after level e = Some 0 \<Longrightarrow>
    extract_variable level acc (e @ CHR ''}'' # rest) = Some (strip (rev acc @ e), rest)"
proof (induction level e arbitrary: acc rule: depth_after.induct)
  case (2 level c cs)
  then show ?case by (auto simp: Let_def split: if_splits)
qed simp

definition log_vars :: "log_part list \<Rightarrow> string list" where
  "log_vars ps = filter (\<lambda>v. v \<noteq> []) (map strip (concat (map (\<lambda>p. case p of Plain _ \<Rightarrow> [] | Braces e \<Rightarrow> [e]) ps)))"

definition log_format :: "log_part list \<Rightarrow> string" where
  "log_format ps = concat (map (\<lambda>p. case p of Plain c \<Rightarrow> [c] | Braces e \<Rightarrow> if strip e = [] then [] else ''%s'') ps)"

lemma extract_parts:
  "list_all part_ok ps \<Longrightarrow> extract_expression_list (log_text ps) = Some (log_format ps, log_vars ps)"
proof (induction ps)
  case (Cons p ps)
  then show ?case
    using extract_variable_balanced [of 0 _ "[]"]
    by (cases p) (auto simp: log_text_def log_format_def log_vars_def)
qed (simp add: log_text_def log_format_def log_vars_def)

lemma format_parts:
  "list_all (\<lambda>p. p \<noteq> Plain (CHR ''%'')) ps \<Longrightarrow>
    py_format (log_format ps) (map val (log_vars ps)) = Some (log_meaning val ps)"
proof (induction ps)
  case (Cons p ps)
  then show ?case by (cases p) (auto simp: log_format_def log_vars_def log_meaning_def)
qed (simp add: log_format_def log_vars_def log_meaning_def)



text \<open>
  A percent sign in a log message with an expression is not doubled for the format, so
  that the expression raises, for every value, and its error is logged instead of the message.
\<close>

theorem log_message_percent_breaks:
  assumes "depth_after 0 e = Some 0" and "strip e \<noteq> []"
  shows "convert_dap_log_message_to_expression (''100%: {'' @ e @ ''}'') =
      repr_str ''100%: %s'' @ '' % ('' @ strip e @ '',)'' \<and> py_format ''100%: %s'' [v] = None"
proof -
  have "extract_expression_list (''100%: {'' @ e @ ''}'') = Some (''100%: %s'', [strip e])"
    using extract_parts [of "map Plain ''100%: '' @ [Braces e]"] assms
    by (simp add: log_text_def log_format_def log_vars_def)
  then show ?thesis by (simp add: convert_dap_log_message_to_expression_def)
qed

theorem log_message_percent_breaks_witness:
  "convert_dap_log_message_to_expression ''100%: {x}'' = repr_str ''100%: %s'' @ '' % (x,)'' \<and>
   py_format ''100%: %s'' [''1''] = None"
proof -
  have "strip ''x'' = ''x''" by code_simp
  then show ?thesis using log_message_percent_breaks [of "''x''" "''1''"] by simp
qed

section \<open>Counting hits\<close>

text \<open>What the next hits of a breakpoint decide.\<close>

fun hit_results :: "evaluator \<Rightarrow> line_breakpoint \<Rightarrow> nat \<Rightarrow> pydb \<Rightarrow> bool list" where
  "hit_results ev b 0 s = []"
| "hit_results ev b (Suc n) s = (case handle_hit_condition ev b s of (r, s') \<Rightarrow> r # hit_results ev b n s')"

definition demo_hit_breakpoint :: "string option \<Rightarrow> line_breakpoint" where
  "demo_hit_breakpoint c = \<lparr>lb_object = 0, lb_line = 3, lb_condition = None, lb_func_name = ''None'', lb_expression = None,
     lb_suspend_policy = ''ALL'', lb_hit_condition = c, lb_is_logpoint = False\<rparr>"

lemma replace_absent: "CHR ''@'' \<notin> set s \<Longrightarrow> replace_text ''@HIT@'' new s = s"
proof (induction s)
  case (Cons c s)
  then show ?case by (subst replace_text.simps) (auto simp: starts_with_def)
qed simp

lemma replace_hit:
  assumes "CHR ''@'' \<notin> set s"
  shows "replace_text ''@HIT@'' new (''@HIT@'' @ s) = new @ s"
  using replace_absent [OF assms, of new] by (subst replace_text.simps) (simp add: starts_with_def)

lemma hit_results_eq:
  assumes "lb_hit_condition b = Some (''@HIT@'' @ t)" and "CHR ''@'' \<notin> set t"
  shows "hit_results ev b n s =
    map (\<lambda>i. ev (show_nat i @ t) = Some True) [Suc (db_hits s (lb_object b)) ..< Suc (db_hits s (lb_object b)) + n]"
proof (induction n arbitrary: s)
  case (Suc n)
  have "handle_hit_condition ev b s =
      (ev (show_nat (db_hits s (lb_object b) + 1) @ t) = Some True,
       s\<lparr>db_hits := (db_hits s)(lb_object b := db_hits s (lb_object b) + 1)\<rparr>)"
    using replace_hit [OF assms(2)] by (simp add: handle_hit_condition_def falsy_def assms(1) Let_def)
  with Suc show ?case by (simp add: upt_conv_Cons del: upt_Suc)
qed simp

text \<open>An evaluator that knows the arithmetic of the hit conditions.\<close>

definition counts_hits :: "evaluator \<Rightarrow> bool" where
  "counts_hits ev \<longleftrightarrow> (\<forall>i n.
     ev (show_nat i @ '' == '' @ show_nat n) = Some (i = n) \<and>
     ev (show_nat i @ '' >= '' @ show_nat n) = Some (n \<le> i) \<and>
     (0 < n \<longrightarrow> ev (show_nat i @ '' % '' @ show_nat n @ '' == 0'') = Some (i mod n = 0)))"

lemma strip_number: "strip (show_nat n) = show_nat n"
  using show_nat_digits by (intro strip_no_blank) (auto simp: digit_not_blank)

lemma int_body_digits: "\<forall>c \<in> set s. is_digit c \<Longrightarrow> int_body_ok a s = (a \<or> s \<noteq> [])"
  by (induction s arbitrary: a) auto

lemma parse_number: "parse_int (show_nat n) \<noteq> None"
proof -
  obtain c s where s: "show_nat n = c # s" by (cases "show_nat n") auto
  then have "is_digit c" "\<forall>c \<in> set s. is_digit c" using show_nat_digits [of n] by auto
  moreover from this have "c \<noteq> CHR ''-''" "c \<noteq> CHR ''+''" by (auto simp: is_digit_def)
  moreover have "strip (c # s) = c # s" using strip_number [of n] s by simp
  ultimately show ?thesis
    using int_body_digits [of s True] by (simp add: parse_int_def Let_def s)
qed

lemma strip_ends:
  assumes "s \<noteq> []" and "\<not> is_blank (hd s)" and "\<not> is_blank (last s)"
  shows "strip s = s"
proof -
  have "dropWhile is_blank s = s" using assms(1,2) by (cases s) auto
  moreover have "dropWhile is_blank (rev s) = rev s" using assms(1,3) by (cases s rule: rev_cases) auto
  ultimately show ?thesis by (simp add: strip_def)
qed

lemma last_number: "\<not> is_blank (last (show_nat n))"
  using show_nat_digits [of n] last_in_set [of "show_nat n"] by (auto simp: digit_not_blank)

lemma number_no_at: "CHR ''@'' \<notin> set (show_nat n)"
  using show_nat_digits [of n] by (auto simp: is_digit_def)

lemma number_expression:
  "hit_condition_expression (Some (show_nat n)) = Some (''@HIT@'' @ '' == '' @ show_nat n)"
  using parse_number [of n] by (simp add: hit_condition_expression_def strip_number)

lemma operator_expression:
  "hit_condition_expression (Some (''>= '' @ show_nat n)) = Some (''@HIT@'' @ '' >= '' @ show_nat n)"
  "hit_condition_expression (Some (''% '' @ show_nat n)) = Some (''@HIT@'' @ '' % '' @ show_nat n @ '' == 0'')"
proof -
  have "strip (op # CHR ''='' # CHR '' '' # show_nat n) = op # CHR ''='' # CHR '' '' # show_nat n" if "\<not> is_blank op" for op
    using that last_number [of n] by (intro strip_ends) auto
  moreover have "strip (op # CHR '' '' # show_nat n) = op # CHR '' '' # show_nat n" if "\<not> is_blank op" for op
    using that last_number [of n] by (intro strip_ends) auto
  ultimately show
    "hit_condition_expression (Some (''>= '' @ show_nat n)) = Some (''@HIT@'' @ '' >= '' @ show_nat n)"
    "hit_condition_expression (Some (''% '' @ show_nat n)) = Some (''@HIT@'' @ '' % '' @ show_nat n @ '' == 0'')"
    by (simp_all add: hit_condition_expression_def parse_int_def is_blank_def is_digit_def starts_with_def Let_def)
qed

text \<open>
  C32: From the hits so far on, a breakpoint with the hit condition \<open>n\<close> suspends at the \<open>n\<close>-th hit
  and at no other, with \<open>>= n\<close> from the \<open>n\<close>-th on, and with \<open>% n\<close> at the multiples of \<open>n\<close>.
\<close>

theorem hit_condition_counts:
  assumes "counts_hits ev" and "h = db_hits s (lb_object b)" and "0 < n"
  shows "hit_results ev (b\<lparr>lb_hit_condition := hit_condition_expression (Some (show_nat n))\<rparr>) k s =
      map (\<lambda>i. i = n) [Suc h ..< Suc h + k] \<and>
    hit_results ev (b\<lparr>lb_hit_condition := hit_condition_expression (Some (''>= '' @ show_nat n))\<rparr>) k s =
      map (\<lambda>i. n \<le> i) [Suc h ..< Suc h + k] \<and>
    hit_results ev (b\<lparr>lb_hit_condition := hit_condition_expression (Some (''% '' @ show_nat n))\<rparr>) k s =
      map (\<lambda>i. i mod n = 0) [Suc h ..< Suc h + k]"
proof (intro conjI)
  note ev = assms(1) [unfolded counts_hits_def, rule_format, of _ n]
  have run: "hit_results ev (b\<lparr>lb_hit_condition := hit_condition_expression (Some c)\<rparr>) k s =
      map (\<lambda>i. ev (show_nat i @ t) = Some True) [Suc h ..< Suc h + k]"
    if "hit_condition_expression (Some c) = Some (''@HIT@'' @ t)" and "CHR ''@'' \<notin> set t" for c t
    using hit_results_eq [of "b\<lparr>lb_hit_condition := hit_condition_expression (Some c)\<rparr>" t ev k s] that assms(2) by simp
  show "hit_results ev (b\<lparr>lb_hit_condition := hit_condition_expression (Some (show_nat n))\<rparr>) k s =
      map (\<lambda>i. i = n) [Suc h ..< Suc h + k]"
    by (subst run [OF number_expression]) (simp_all add: number_no_at ev del: append.simps upt_Suc)
  show "hit_results ev (b\<lparr>lb_hit_condition := hit_condition_expression (Some (''>= '' @ show_nat n))\<rparr>) k s =
      map (\<lambda>i. n \<le> i) [Suc h ..< Suc h + k]"
    by (subst run [OF operator_expression(1)]) (simp_all add: number_no_at ev del: append.simps upt_Suc)
  show "hit_results ev (b\<lparr>lb_hit_condition := hit_condition_expression (Some (''% '' @ show_nat n))\<rparr>) k s =
      map (\<lambda>i. i mod n = 0) [Suc h ..< Suc h + k]"
    using assms(3)
    by (subst run [OF operator_expression(2)]) (simp_all add: number_no_at ev del: append.simps upt_Suc)
qed

text \<open>An evaluator of just these expressions.\<close>

definition demo_ev :: evaluator where
  "demo_ev e =
    (let i = read_nat (takeWhile is_digit e); r = dropWhile is_digit e in
     if starts_with r '' == '' then Some (i = read_nat (drop 4 r))
     else if starts_with r '' >= '' then Some (read_nat (drop 4 r) \<le> i)
     else if starts_with r '' % '' then Some (i mod read_nat (takeWhile is_digit (drop 3 r)) = 0)
     else None)"

lemma number_then:
  assumes "r = [] \<or> \<not> is_digit (hd r)"
  shows "takeWhile is_digit (show_nat n @ r) = show_nat n" "dropWhile is_digit (show_nat n @ r) = r"
  using show_nat_digits [of n] assms by (cases r; simp add: takeWhile_append2 dropWhile_append2)+

lemma demo_ev_counts: "counts_hits demo_ev"
  by (simp add: counts_hits_def demo_ev_def number_then is_digit_def starts_with_def Let_def)

definition demo_break_env :: break_env where
  "demo_break_env = \<lparr>be_filter = demo_filter_env, be_code_lines = (\<lambda>_. Some [1, 2, 4]), be_plugins = True,
     be_plugin_can_skip = (\<lambda>_. True)\<rparr>"

theorem hit_condition_counts_witness:
  "hit_results demo_ev (demo_hit_breakpoint (hit_condition_expression (Some ''2''))) 3 (new_pydb demo_break_env) =
     [False, True, False] \<and>
   hit_results demo_ev (demo_hit_breakpoint (hit_condition_expression (Some ''>= 2''))) 3 (new_pydb demo_break_env) =
     [False, True, True] \<and>
   hit_results demo_ev (demo_hit_breakpoint (hit_condition_expression (Some ''% 2''))) 4 (new_pydb demo_break_env) =
     [False, True, False, True]"
proof -
  have two: "show_nat 2 = ''2''" by code_simp
  have b: "(demo_hit_breakpoint None)\<lparr>lb_hit_condition := c\<rparr> = demo_hit_breakpoint c" for c
    by (simp add: demo_hit_breakpoint_def)
  have h: "0 = db_hits (new_pydb demo_break_env) (lb_object (demo_hit_breakpoint None))"
    by (simp add: new_pydb_def)
  have r: "[Suc 0..<Suc 0 + 3] = [1, 2, 3]" "[Suc 0..<Suc 0 + 4] = [1, 2, 3, 4]" by code_simp+
  from hit_condition_counts [OF demo_ev_counts h, of 2 3] hit_condition_counts [OF demo_ev_counts h, of 2 4]
  show ?thesis unfolding b two r by simp
qed

end
