(* ===== verification/DebugOptions.thy ===== *)
theory DebugOptions
  imports FilterCache
begin

text \<open>
  The options of a launch or attach request: \<open>pydevd_json_debug_options.py\<close>, the rules in
  \<open>_convert_rules_to_exclude_filters\<close>, and \<open>_set_debug_options\<close> of
  \<open>pydevd_process_net_command_json.py\<close> as far as it sets filters and path mappings. Like in
  \<open>FilesFilter\<close>, a character of a name is one code point.

  \<open>urllib\<close>'s \<open>unquote\<close>, \<open>os.path.isdir\<close> and the current directory are parameters.
\<close>

section \<open>Debug options\<close>

record debug_options =
  do_debug_stdlib :: bool
  do_redirect_output :: bool
  do_show_return_value :: bool
  do_break_system_exit_zero :: bool
  do_django_debug :: bool
  do_flask_debug :: bool
  do_stop_on_entry :: bool
  do_max_exception_stack_frames :: int

definition new_debug_options :: debug_options where
  "new_debug_options = \<lparr>do_debug_stdlib = False, do_redirect_output = False, do_show_return_value = False,
     do_break_system_exit_zero = False, do_django_debug = False, do_flask_debug = False, do_stop_on_entry = False,
     do_max_exception_stack_frames = 0\<rparr>"

definition bool_parser :: "jv \<Rightarrow> bool" where
  "bool_parser s = py_in s [JStr ''True'', JStr ''true'', JStr ''1'', JBool True, JInt 1]"

text \<open>\<open>int(s)\<close>, with 0 for what it does not take.\<close>

definition int_parser :: "jv \<Rightarrow> int" where
  "int_parser v =
    (case v of
       JInt i \<Rightarrow> i
     | JBool b \<Rightarrow> (if b then 1 else 0)
     | JFloat r \<Rightarrow> (if r < 0 then - \<lfloor>- r\<rfloor> else \<lfloor>r\<rfloor>)
     | JStr s \<Rightarrow> (case parse_int s of Some i \<Rightarrow> i | None \<Rightarrow> 0)
     | _ \<Rightarrow> 0)"

datatype option_parser = BoolParser | Unquote
datatype opt_value = OptBool bool | OptText string

definition debug_options_parser :: "string \<Rightarrow> option_parser option" where
  "debug_options_parser key =
    (if key = ''CLIENT_OS_TYPE'' then Some Unquote
     else if key \<in> set [''WAIT_ON_ABNORMAL_EXIT'', ''WAIT_ON_NORMAL_EXIT'', ''BREAK_SYSTEMEXIT_ZERO'', ''REDIRECT_OUTPUT'',
       ''DJANGO_DEBUG'', ''FLASK_DEBUG'', ''FIX_FILE_PATH_CASE'', ''DEBUG_STDLIB'', ''STOP_ON_ENTRY'',
       ''SHOW_RETURN_VALUE'', ''MULTIPROCESS''] then Some BoolParser
     else None)"

definition debug_options_by_flag :: "(string \<times> string) list" where
  "debug_options_by_flag =
    [(''RedirectOutput'', ''REDIRECT_OUTPUT=True''),
     (''WaitOnNormalExit'', ''WAIT_ON_NORMAL_EXIT=True''),
     (''WaitOnAbnormalExit'', ''WAIT_ON_ABNORMAL_EXIT=True''),
     (''BreakOnSystemExitZero'', ''BREAK_SYSTEMEXIT_ZERO=True''),
     (''Django'', ''DJANGO_DEBUG=True''),
     (''Flask'', ''FLASK_DEBUG=True''),
     (''Jinja'', ''FLASK_DEBUG=True''),
     (''FixFilePathCase'', ''FIX_FILE_PATH_CASE=True''),
     (''DebugStdLib'', ''DEBUG_STDLIB=True''),
     (''WindowsClient'', ''CLIENT_OS_TYPE=WINDOWS''),
     (''UnixClient'', ''CLIENT_OS_TYPE=UNIX''),
     (''StopOnEntry'', ''STOP_ON_ENTRY=True''),
     (''ShowReturnValue'', ''SHOW_RETURN_VALUE=True''),
     (''Multiprocess'', ''MULTIPROCESS=True'')]"

definition build_debug_options :: "string list option \<Rightarrow> string" where
  "build_debug_options flags =
    join '';'' (List.map_filter (map_of debug_options_by_flag) (case flags of None \<Rightarrow> [] | Some fs \<Rightarrow> fs))"

text \<open>An option that is not one \<open>key=value\<close>, or whose key is not known, is skipped.\<close>

definition parse_option :: "(string \<Rightarrow> string) \<Rightarrow> string \<Rightarrow> (string, opt_value) odict \<Rightarrow> (string, opt_value) odict" where
  "parse_option unquote opt options =
    (case split_on (CHR ''='') opt of
       [key, val] \<Rightarrow>
         (case debug_options_parser key of
            None \<Rightarrow> options
          | Some BoolParser \<Rightarrow> od_set key (OptBool (bool_parser (JStr val))) options
          | Some Unquote \<Rightarrow> od_set key (OptText (unquote val)) options)
     | _ \<Rightarrow> options)"

definition parse_debug_options :: "(string \<Rightarrow> string) \<Rightarrow> string \<Rightarrow> (string, opt_value) odict" where
  "parse_debug_options unquote opts =
    (if opts = [] then [] else foldl (\<lambda>options opt. parse_option unquote opt options) [] (split_on (CHR '';'') opts))"

definition extract_debug_options :: "(string \<Rightarrow> string) \<Rightarrow> string option \<Rightarrow> string list option \<Rightarrow> (string, opt_value) odict" where
  "extract_debug_options unquote opts flags =
    parse_debug_options unquote
      (case opts of None \<Rightarrow> build_debug_options flags | Some t \<Rightarrow> if t = [] then build_debug_options flags else t)"

definition opt_flag :: "string \<Rightarrow> (string, opt_value) odict \<Rightarrow> bool \<Rightarrow> bool" where
  "opt_flag key options old = (case map_of options key of Some (OptBool b) \<Rightarrow> b | _ \<Rightarrow> old)"

definition update_from_debug_options :: "(string, opt_value) odict \<Rightarrow> debug_options \<Rightarrow> debug_options" where
  "update_from_debug_options os d =
    d\<lparr>do_debug_stdlib := opt_flag ''DEBUG_STDLIB'' os (do_debug_stdlib d),
      do_redirect_output := opt_flag ''REDIRECT_OUTPUT'' os (do_redirect_output d),
      do_show_return_value := opt_flag ''SHOW_RETURN_VALUE'' os (do_show_return_value d),
      do_break_system_exit_zero := opt_flag ''BREAK_SYSTEMEXIT_ZERO'' os (do_break_system_exit_zero d),
      do_django_debug := opt_flag ''DJANGO_DEBUG'' os (do_django_debug d),
      do_flask_debug := opt_flag ''FLASK_DEBUG'' os (do_flask_debug d),
      do_stop_on_entry := opt_flag ''STOP_ON_ENTRY'' os (do_stop_on_entry d)\<rparr>"

definition arg_flag :: "string \<Rightarrow> (string, jv) odict \<Rightarrow> bool \<Rightarrow> bool" where
  "arg_flag key args old = (case map_of args key of Some v \<Rightarrow> bool_parser v | None \<Rightarrow> old)"

definition update_from_args :: "(string, jv) odict \<Rightarrow> debug_options \<Rightarrow> debug_options" where
  "update_from_args args d =
    d\<lparr>do_debug_stdlib := arg_flag ''debugStdLib'' args (do_debug_stdlib d),
      do_redirect_output := arg_flag ''redirectOutput'' args (do_redirect_output d),
      do_show_return_value := arg_flag ''showReturnValue'' args (do_show_return_value d),
      do_break_system_exit_zero := arg_flag ''breakOnSystemExitZero'' args (do_break_system_exit_zero d),
      do_django_debug := arg_flag ''django'' args (do_django_debug d),
      do_flask_debug := arg_flag ''jinja'' args (arg_flag ''flask'' args (do_flask_debug d)),
      do_stop_on_entry := arg_flag ''stopOnEntry'' args (do_stop_on_entry d),
      do_max_exception_stack_frames :=
        int_parser (case map_of args ''maxExceptionStackFrames'' of Some v \<Rightarrow> v | None \<Rightarrow> JInt 0)\<rparr>"

section \<open>Rules\<close>

datatype rule_error = RulesNotList jv | RuleNotDict jv | RuleWithoutInclude jv | RuleWithoutName jv

datatype rule_kind = DirectoryRule | GlobRule | ModuleRule

text \<open>
  One rule, with the translation of the path: its value is dropped, and only what the translation
  caches stays. A name that is not a string raises \<open>TypeError\<close> here.
\<close>

definition get_or_none :: "string \<Rightarrow> (string \<times> jv) list \<Rightarrow> jv" where
  "get_or_none key m = (case map_of m key of Some v \<Rightarrow> v | None \<Rightarrow> JNull)"

definition directory_glob :: "(string \<Rightarrow> bool) \<Rightarrow> string \<Rightarrow> string" where
  "directory_glob isdir path =
    (if isdir path
     then (if \<not> ends_with path [slash] \<and> \<not> ends_with path [backslash] then path @ [slash] else path) @ ''**''
     else path)"

definition convert_rule :: "os_env \<Rightarrow> (string \<Rightarrow> bool) \<Rightarrow> jv \<Rightarrow> jv \<Rightarrow>
    (path_state, exn, rule_error + rule_kind \<times> exclude_filter) sem" where
  "convert_rule E isdir rules rule =
    (case rule of
       JObj m \<Rightarrow>
         (let incl = get_or_none ''include'' m; path = get_or_none ''path'' m; modname = get_or_none ''module'' m in
          if incl = JNull then ret (Inl (RuleWithoutInclude rule))
          else if path = JNull \<and> modname = JNull then ret (Inl (RuleWithoutName rule))
          else if path \<noteq> JNull then
            (case path of
               JStr p \<Rightarrow>
                 if CHR ''*'' \<notin> set p \<and> CHR ''?'' \<notin> set p
                 then andthen (\<lambda>s. case norm_file_to_server E p s of (translated, s') \<Rightarrow> (Inr translated, s')) (\<lambda>_.
                   ret (Inr (DirectoryRule,
                     \<lparr>xf_name = directory_glob isdir p, xf_exclude = \<not> truthy incl, xf_is_path = True\<rparr>)))
                 else ret (Inr (GlobRule, \<lparr>xf_name = p, xf_exclude = \<not> truthy incl, xf_is_path = True\<rparr>))
             | _ \<Rightarrow> raise (TypeError ''path''))
          else
            (case modname of
               JStr n \<Rightarrow> ret (Inr (ModuleRule, \<lparr>xf_name = n, xf_exclude = \<not> truthy incl, xf_is_path = False\<rparr>))
             | _ \<Rightarrow> raise (TypeError ''module'')))
     | _ \<Rightarrow> ret (Inl (RuleNotDict rules)))"

fun convert_each :: "os_env \<Rightarrow> (string \<Rightarrow> bool) \<Rightarrow> jv \<Rightarrow> jv list \<Rightarrow>
    (path_state, exn, (rule_error + rule_kind \<times> exclude_filter) list) sem" where
  "convert_each E isdir rules [] = ret []"
| "convert_each E isdir rules (rule # rs) =
    andthen (convert_rule E isdir rules rule) (\<lambda>r. andthen (convert_each E isdir rules rs) (\<lambda>out. ret (r # out)))"

definition of_kind :: "rule_kind \<Rightarrow> (rule_error + rule_kind \<times> exclude_filter) list \<Rightarrow> exclude_filter list" where
  "of_kind k out = List.map_filter (\<lambda>r. case r of Inl _ \<Rightarrow> None | Inr (k', f) \<Rightarrow> if k' = k then Some f else None) out"

text \<open>Python's \<open>sorted\<close> with the key \<open>-len(name)\<close> is stable.\<close>

definition longest_first :: "exclude_filter list \<Rightarrow> exclude_filter list" where
  "longest_first fs = sort_key (\<lambda>f. - int (length (xf_name f))) fs"

definition errors_of :: "(rule_error + rule_kind \<times> exclude_filter) list \<Rightarrow> rule_error list" where
  "errors_of out = List.map_filter (\<lambda>r. case r of Inl e \<Rightarrow> Some e | Inr _ \<Rightarrow> None) out"

definition convert_rules_to_exclude_filters :: "os_env \<Rightarrow> (string \<Rightarrow> bool) \<Rightarrow> jv \<Rightarrow>
    (path_state, exn, exclude_filter list \<times> rule_error list) sem" where
  "convert_rules_to_exclude_filters E isdir rules =
    (case rules of
       JList rs \<Rightarrow>
         andthen (convert_each E isdir rules rs) (\<lambda>out.
         ret (longest_first (of_kind DirectoryRule out) @ of_kind GlobRule out @ longest_first (of_kind ModuleRule out),
              errors_of out))
     | _ \<Rightarrow> ret ([], [RulesNotList rules]))"

section \<open>Flags\<close>

lemma split_on_plain: "c \<notin> set w \<Longrightarrow> split_on c w = [w]"
  by (induction w) auto

lemma split_on_sep: "c \<notin> set w \<Longrightarrow> split_on c (w @ c # s) = w # split_on c s"
  by (induction w) auto

lemma split_on_join:
  "\<forall>w \<in> set ws. c \<notin> set w \<Longrightarrow> ws \<noteq> [] \<Longrightarrow> split_on c (join [c] ws) = ws"
  by (induction ws rule: induct_list012) (auto simp: split_on_plain split_on_sep)

text \<open>The option that a flag stands for.\<close>

definition flag_option :: "(string \<Rightarrow> string) \<Rightarrow> string \<Rightarrow> (string \<times> opt_value) option" where
  "flag_option unquote flag =
    (case map_of debug_options_by_flag flag of
       None \<Rightarrow> None
     | Some opt \<Rightarrow> (case parse_option unquote opt [] of [kv] \<Rightarrow> Some kv | _ \<Rightarrow> None))"

definition option_known :: "string \<Rightarrow> bool" where
  "option_known opt \<longleftrightarrow> opt \<noteq> [] \<and> list_all (\<lambda>c. c \<noteq> CHR '';'') opt \<and>
    (case split_on (CHR ''='') opt of
       [k, v] \<Rightarrow> (case debug_options_parser k of Some BoolParser \<Rightarrow> v = ''True'' | Some Unquote \<Rightarrow> True | None \<Rightarrow> False)
     | _ \<Rightarrow> False)"

lemma all_known: "list_all (\<lambda>(_, opt). option_known opt) debug_options_by_flag"
  by code_simp

lemma known_flags:
  assumes "map_of debug_options_by_flag flag = Some opt"
  shows "opt \<noteq> [] \<and> CHR '';'' \<notin> set opt \<and> (\<exists>k v. split_on (CHR ''='') opt = [k, v] \<and>
      (debug_options_parser k = Some BoolParser \<and> v = ''True'' \<or> debug_options_parser k = Some Unquote))"
proof -
  have "option_known opt" using all_known map_of_SomeD [OF assms] by (auto simp: list_all_iff)
  then show ?thesis
    by (auto simp: option_known_def list_all_iff split: list.splits option.splits option_parser.splits)
qed

lemma parse_known_flag:
  assumes "map_of debug_options_by_flag flag = Some opt"
  shows "\<exists>k v. flag_option unquote flag = Some (k, v) \<and> (\<forall>os. parse_option unquote opt os = od_set k v os)"
proof -
  from known_flags [OF assms] obtain k v where kv: "split_on (CHR ''='') opt = [k, v]"
    "debug_options_parser k = Some BoolParser \<and> v = ''True'' \<or> debug_options_parser k = Some Unquote" by blast
  then show ?thesis by (auto simp: flag_option_def assms parse_option_def)
qed

lemma parse_flags:
  assumes "\<forall>f \<in> set flags. map_of debug_options_by_flag f \<noteq> None"
  shows "map_of (foldl (\<lambda>os opt. parse_option unquote opt os) os (map (the \<circ> map_of debug_options_by_flag) flags)) k =
    (case map_of (rev (map (the \<circ> flag_option unquote) flags)) k of None \<Rightarrow> map_of os k | Some v \<Rightarrow> Some v)"
  using assms
proof (induction flags arbitrary: os)
  case (Cons f fs)
  then obtain opt where opt: "map_of debug_options_by_flag f = Some opt" by auto
  from parse_known_flag [OF opt, of unquote] obtain k' v where
    kv: "flag_option unquote f = Some (k', v)" "\<And>os. parse_option unquote opt os = od_set k' v os" by blast
  with Cons opt show ?case by (auto simp: map_add_def split: option.splits)
qed simp

lemma map_filter_total:
  "List.map_filter m xs = map (the \<circ> m) (filter (\<lambda>x. m x \<noteq> None) xs)"
  by (induction xs) (auto simp: List.map_filter_simps)

lemma extract_flags:
  "map_of (extract_debug_options unquote None (Some flags)) k =
    map_of (rev (map (the \<circ> flag_option unquote) (filter (\<lambda>f. map_of debug_options_by_flag f \<noteq> None) flags))) k"
proof (cases "filter (\<lambda>f. map_of debug_options_by_flag f \<noteq> None) flags = []")
  case True
  then show ?thesis
    by (simp add: extract_debug_options_def build_debug_options_def parse_debug_options_def map_filter_total)
next
  case False
  let ?fs = "filter (\<lambda>f. map_of debug_options_by_flag f \<noteq> None) flags"
  let ?opts = "map (the \<circ> map_of debug_options_by_flag) ?fs"
  have "\<forall>w \<in> set ?opts. CHR '';'' \<notin> set w" using known_flags by fastforce
  with False have parts: "split_on (CHR '';'') (join '';'' ?opts) = ?opts" by (intro split_on_join) simp_all
  have "join '';'' ?opts \<noteq> []"
  proof -
    have "join '';'' (w # ws) \<noteq> []" if "w \<noteq> []" for w ws using that by (cases ws) auto
    moreover obtain f fs where fs: "?fs = f # fs" using False by (cases ?fs) auto
    then have "f \<in> set ?fs" by simp
    then have "the (map_of debug_options_by_flag f) \<noteq> []" using known_flags by fastforce
    ultimately show ?thesis unfolding fs by simp
  qed
  then have "extract_debug_options unquote None (Some flags) =
      foldl (\<lambda>os opt. parse_option unquote opt os) [] ?opts"
    by (simp add: extract_debug_options_def build_debug_options_def parse_debug_options_def map_filter_total parts del: not_None_eq)
  with parse_flags [of ?fs unquote "[]" k] show ?thesis by (simp split: option.splits)
qed

definition flag_keys :: "(string \<times> string) list" where
  "flag_keys = map (\<lambda>(flag, opt). (flag, hd (split_on (CHR ''='') opt))) debug_options_by_flag"

lemma flag_keys_table:
  "flag_keys =
    [(''RedirectOutput'', ''REDIRECT_OUTPUT''), (''WaitOnNormalExit'', ''WAIT_ON_NORMAL_EXIT''),
     (''WaitOnAbnormalExit'', ''WAIT_ON_ABNORMAL_EXIT''), (''BreakOnSystemExitZero'', ''BREAK_SYSTEMEXIT_ZERO''),
     (''Django'', ''DJANGO_DEBUG''), (''Flask'', ''FLASK_DEBUG''), (''Jinja'', ''FLASK_DEBUG''),
     (''FixFilePathCase'', ''FIX_FILE_PATH_CASE''), (''DebugStdLib'', ''DEBUG_STDLIB''),
     (''WindowsClient'', ''CLIENT_OS_TYPE''), (''UnixClient'', ''CLIENT_OS_TYPE''), (''StopOnEntry'', ''STOP_ON_ENTRY''),
     (''ShowReturnValue'', ''SHOW_RETURN_VALUE''), (''Multiprocess'', ''MULTIPROCESS'')]"
  by code_simp

lemma flag_option_key:
  assumes "map_of debug_options_by_flag f \<noteq> None"
  shows "\<exists>k v. flag_option unquote f = Some (k, v) \<and> map_of flag_keys f = Some k \<and>
    (debug_options_parser k = Some BoolParser \<longrightarrow> v = OptBool True)"
proof -
  from assms obtain opt where opt: "map_of debug_options_by_flag f = Some opt" by auto
  from known_flags [OF opt] obtain k v where kv: "split_on (CHR ''='') opt = [k, v]"
    "debug_options_parser k = Some BoolParser \<and> v = ''True'' \<or> debug_options_parser k = Some Unquote" by blast
  moreover have "map_of flag_keys f = Some k"
    using opt kv(1) by (simp add: flag_keys_def map_of_map [of "\<lambda>opt. hd (split_on (CHR ''='') opt)"])
  moreover have "bool_parser (JStr ''True'')" by code_simp
  ultimately show ?thesis by (auto simp: flag_option_def opt parse_option_def)
qed

lemma flag_set:
  assumes "debug_options_parser k = Some BoolParser"
  shows "opt_flag k (extract_debug_options unquote None (Some flags)) False =
    (\<exists>f \<in> set flags. map_of flag_keys f = Some k)"
proof -
  let ?known = "filter (\<lambda>f. map_of debug_options_by_flag f \<noteq> None) flags"
  let ?kvs = "map (the \<circ> flag_option unquote) ?known"
  have none: "map_of debug_options_by_flag f = None \<Longrightarrow> map_of flag_keys f = None" for f
    by (simp add: flag_keys_def map_of_map [of "\<lambda>opt. hd (split_on (CHR ''='') opt)"])
  have each: "\<exists>f \<in> set flags. map_of flag_keys f = Some k' \<and> (k' = k \<longrightarrow> v = OptBool True)"
    if "(k', v) \<in> set ?kvs" for k' v
    using that flag_option_key [of _ unquote] assms by fastforce
  have "opt_flag k (extract_debug_options unquote None (Some flags)) False = (k \<in> fst ` set ?kvs)"
  proof (cases "map_of (rev ?kvs) k")
    case None
    then have "k \<notin> fst ` set ?kvs" by (metis map_of_eq_None_iff set_rev)
    with None show ?thesis by (simp add: opt_flag_def extract_flags)
  next
    case (Some v)
    then have "(k, v) \<in> set ?kvs" by (metis map_of_SomeD set_rev)
    from each [OF this] have "v = OptBool True" by simp
    with Some have "opt_flag k (extract_debug_options unquote None (Some flags)) False"
      by (simp add: opt_flag_def extract_flags)
    moreover have "k \<in> fst ` set ?kvs" using \<open>(k, v) \<in> set ?kvs\<close> by (rule image_eqI [rotated]) simp
    ultimately show ?thesis by simp
  qed
  also have "\<dots> = (\<exists>f \<in> set flags. map_of flag_keys f = Some k)"
  proof
    assume "k \<in> fst ` set ?kvs"
    then show "\<exists>f \<in> set flags. map_of flag_keys f = Some k" using each by force
  next
    assume "\<exists>f \<in> set flags. map_of flag_keys f = Some k"
    then obtain f where f: "f \<in> set flags" "map_of flag_keys f = Some k" by blast
    then have known: "map_of debug_options_by_flag f \<noteq> None" using none by fastforce
    with flag_option_key [OF this, of unquote] f(2) have "fst (the (flag_option unquote f)) = k" by auto
    with f(1) known show "k \<in> fst ` set ?kvs" by (force simp: image_iff)
  qed
  finally show ?thesis .
qed

lemma flag_key_iff: "map_of flag_keys f = Some k \<longleftrightarrow> (f, k) \<in> set flag_keys"
proof -
  have "distinct (map fst flag_keys)" unfolding flag_keys_table by simp
  then show ?thesis by simp
qed

lemma named_flags:
  "(\<exists>f \<in> set flags. map_of flag_keys f = Some k) = (\<exists>f \<in> set (map fst (filter (\<lambda>(_, k'). k' = k) flag_keys)). f \<in> set flags)"
  unfolding flag_key_iff by force

text \<open>
  The debug options that a list of flags is turned into and read back from set exactly the
  options that the flags name, whatever else the list holds, in any order and number.
\<close>

theorem debug_flags_spec:
  "update_from_debug_options (extract_debug_options unquote None (Some flags)) new_debug_options =
    \<lparr>do_debug_stdlib = (''DebugStdLib'' \<in> set flags), do_redirect_output = (''RedirectOutput'' \<in> set flags),
     do_show_return_value = (''ShowReturnValue'' \<in> set flags),
     do_break_system_exit_zero = (''BreakOnSystemExitZero'' \<in> set flags), do_django_debug = (''Django'' \<in> set flags),
     do_flask_debug = (''Flask'' \<in> set flags \<or> ''Jinja'' \<in> set flags), do_stop_on_entry = (''StopOnEntry'' \<in> set flags),
     do_max_exception_stack_frames = 0\<rparr>"
proof -
  have parsed: "\<forall>k \<in> set [''DEBUG_STDLIB'', ''REDIRECT_OUTPUT'', ''SHOW_RETURN_VALUE'', ''BREAK_SYSTEMEXIT_ZERO'',
      ''DJANGO_DEBUG'', ''FLASK_DEBUG'', ''STOP_ON_ENTRY'']. debug_options_parser k = Some BoolParser"
    by code_simp
  have named: "map fst (filter (\<lambda>(_, k'). k' = ''DEBUG_STDLIB'') flag_keys) = [''DebugStdLib'']"
    "map fst (filter (\<lambda>(_, k'). k' = ''REDIRECT_OUTPUT'') flag_keys) = [''RedirectOutput'']"
    "map fst (filter (\<lambda>(_, k'). k' = ''SHOW_RETURN_VALUE'') flag_keys) = [''ShowReturnValue'']"
    "map fst (filter (\<lambda>(_, k'). k' = ''BREAK_SYSTEMEXIT_ZERO'') flag_keys) = [''BreakOnSystemExitZero'']"
    "map fst (filter (\<lambda>(_, k'). k' = ''DJANGO_DEBUG'') flag_keys) = [''Django'']"
    "map fst (filter (\<lambda>(_, k'). k' = ''FLASK_DEBUG'') flag_keys) = [''Flask'', ''Jinja'']"
    "map fst (filter (\<lambda>(_, k'). k' = ''STOP_ON_ENTRY'') flag_keys) = [''StopOnEntry'']"
    by code_simp+
  have "opt_flag k (extract_debug_options unquote None (Some flags)) False =
      list_ex (\<lambda>f. f \<in> set flags) (map fst (filter (\<lambda>(_, k'). k' = k) flag_keys))"
    if "debug_options_parser k = Some BoolParser" for k
    unfolding flag_set [OF that] named_flags list_ex_iff ..
  with parsed named show ?thesis
    by (simp add: update_from_debug_options_def new_debug_options_def)
qed

section \<open>What the rules decide\<close>

text \<open>A rule's outcome, without the translation of its path.\<close>

definition rule_outcome :: "(string \<Rightarrow> bool) \<Rightarrow> jv \<Rightarrow> jv \<Rightarrow> exn + (rule_error + rule_kind \<times> exclude_filter)" where
  "rule_outcome isdir rules rule = fst (convert_rule demo_os isdir rules rule (loaded_paths demo_os))"

lemma convert_rule_outcome: "fst (convert_rule E isdir rules rule s) = rule_outcome isdir rules rule"
proof -
  have "fst (convert_rule E isdir rules rule s) = fst (convert_rule E' isdir rules rule s')" for E' s'
    by (auto simp: convert_rule_def Let_def andthen_def ret_def raise_def split: jv.splits prod.splits)
  then show ?thesis by (simp add: rule_outcome_def)
qed

lemma convert_each_outcome:
  "fst (convert_each E isdir rules rs s) = smap_idx (\<lambda>_. rule_outcome isdir rules) 0 rs"
proof -
  have "fst (convert_each E isdir rules rs s) = smap_idx (\<lambda>_. rule_outcome isdir rules) i rs" for i
  proof (induction rs arbitrary: s i)
    case (Cons r rs)
    obtain x s' where x: "convert_rule E isdir rules r s = (x, s')" by fastforce
    then have "rule_outcome isdir rules r = x" using convert_rule_outcome [of E isdir rules r s] by simp
    with x show ?case
      using Cons [of s' "Suc i"]
      by (cases x; cases "convert_each E isdir rules rs s'"; cases "fst (convert_each E isdir rules rs s')")
        (auto simp: andthen_def ret_def sbind_def)
  qed simp
  then show ?thesis .
qed

lemma fst_bind_ret: "fst (andthen m (\<lambda>x. ret (f x)) s) = map_sum id f (fst (m s))"
  by (cases "m s"; cases "fst (m s)") (auto simp: andthen_def ret_def)

lemma convert_rules_outcome:
  "fst (convert_rules_to_exclude_filters E isdir (JList rs) s) =
    map_sum id (\<lambda>out. (longest_first (of_kind DirectoryRule out) @ of_kind GlobRule out @
        longest_first (of_kind ModuleRule out), errors_of out))
      (smap_idx (\<lambda>_. rule_outcome isdir (JList rs)) 0 rs)"
  by (simp add: convert_rules_to_exclude_filters_def fst_bind_ret convert_each_outcome)

text \<open>
  The path mappings make no difference to the filters of the rules: the translation of a rule's
  path is thrown away, and a path of the IDE's machine is compared with the files of the debuggee.
\<close>

theorem rules_ignore_path_mappings:
  "fst (convert_rules_to_exclude_filters E isdir rules s) = fst (convert_rules_to_exclude_filters E isdir rules s')"
  by (cases rules) (simp_all only: convert_rules_outcome, simp_all add: convert_rules_to_exclude_filters_def ret_def)

text \<open>
  A directory rule and a module rule that made a filter.
\<close>

definition directory_rule :: "(string \<Rightarrow> bool) \<Rightarrow> jv list \<Rightarrow> exclude_filter \<Rightarrow> bool" where
  "directory_rule isdir rs f \<longleftrightarrow> (\<exists>rule \<in> set rs. rule_outcome isdir (JList rs) rule = Inr (Inr (DirectoryRule, f)))"

definition module_rule :: "(string \<Rightarrow> bool) \<Rightarrow> jv list \<Rightarrow> exclude_filter \<Rightarrow> bool" where
  "module_rule isdir rs f \<longleftrightarrow> (\<exists>rule \<in> set rs. rule_outcome isdir (JList rs) rule = Inr (Inr (ModuleRule, f)))"

definition filter_matches :: "os_env \<Rightarrow> string \<Rightarrow> string \<Rightarrow> exclude_filter \<Rightarrow> bool" where
  "filter_matches E filename modname f =
    (if xf_is_path f then glob_matches_path E filename (xf_name f)
     else xf_name f = modname \<or> starts_with modname (xf_name f @ ''.''))"

lemma exclude_by_find:
  "exclude_by E fs filename modname = map_option xf_exclude (find (filter_matches E filename modname) fs)"
  by (induction fs) (simp_all add: filter_matches_def)

lemma find_append: "find P (xs @ ys) = (case find P xs of Some x \<Rightarrow> Some x | None \<Rightarrow> find P ys)"
  by (induction xs) auto

lemma find_longest:
  assumes "f \<in> set fs" and "P f" and "\<forall>g \<in> set fs. P g \<longrightarrow> g = f \<or> length (xf_name g) < length (xf_name f)"
  shows "find P (longest_first fs) = Some f"
proof (rule ccontr)
  let ?key = "\<lambda>f. - int (length (xf_name f))"
  assume no: "find P (longest_first fs) \<noteq> Some f"
  have f: "f \<in> set (longest_first fs)" using assms(1) by (simp add: longest_first_def)
  with assms(2) obtain g where g: "find P (longest_first fs) = Some g"
    by (cases "find P (longest_first fs)") (auto simp: find_None_iff)
  then obtain i where i: "i < length (longest_first fs)" "P g" "g = longest_first fs ! i"
    "\<And>j. j < i \<Longrightarrow> \<not> P (longest_first fs ! j)" by (auto simp: find_Some_iff)
  from f obtain j where j: "j < length (longest_first fs)" "f = longest_first fs ! j" by (auto simp: in_set_conv_nth)
  with i(4) assms(2) have "i \<le> j" by (metis leI)
  moreover have "sorted (map ?key (longest_first fs))" by (simp add: longest_first_def)
  ultimately have "?key g \<le> ?key f"
    using sorted_nth_mono [of "map ?key (longest_first fs)" i j] i j by simp
  moreover have "g \<in> set fs" using i by (metis longest_first_def nth_mem set_sort)
  ultimately show False using assms(3) i(2) no g by force
qed

lemma of_kind_set:
  "smap_idx (\<lambda>_. h) i rs = Inr out \<Longrightarrow> set (of_kind k out) = {f. \<exists>rule \<in> set rs. h rule = Inr (Inr (k, f))}"
proof (induction rs arbitrary: i out)
  case (Cons r rs)
  then show ?case
    by (fastforce simp: of_kind_def List.map_filter_simps split: sum.splits option.splits prod.splits if_splits)
qed (simp add: of_kind_def List.map_filter_simps)

text \<open>
  Of the directory rules that match a file the one with the longest path decides, whatever the order
  of the rules, and before every rule with a pattern or a module.
\<close>

theorem longest_directory_decides:
  assumes "fst (convert_rules_to_exclude_filters E isdir (JList rs) s) = Inr (fs, errors)"
    and "directory_rule isdir rs f" and "filter_matches (fe_os E') filename modname f"
    and "\<forall>g. directory_rule isdir rs g \<longrightarrow> filter_matches (fe_os E') filename modname g \<longrightarrow>
      g = f \<or> length (xf_name g) < length (xf_name f)"
  shows "exclude_by_filter E' (ff_set_exclude_filters fs ff) filename modname = Some (xf_exclude f)"
proof -
  let ?P = "filter_matches (fe_os E') filename modname"
  from assms(1) obtain out where out: "smap_idx (\<lambda>_. rule_outcome isdir (JList rs)) 0 rs = Inr out"
    and fs: "fs = longest_first (of_kind DirectoryRule out) @ of_kind GlobRule out @ longest_first (of_kind ModuleRule out)"
    unfolding convert_rules_outcome by (cases "smap_idx (\<lambda>_. rule_outcome isdir (JList rs)) 0 rs") auto
  have "f \<in> set (of_kind DirectoryRule out)"
    using assms(2) of_kind_set [OF out] by (simp add: directory_rule_def)
  moreover have "\<forall>g \<in> set (of_kind DirectoryRule out). ?P g \<longrightarrow> g = f \<or> length (xf_name g) < length (xf_name f)"
    using assms(4) of_kind_set [OF out] by (simp add: directory_rule_def)
  ultimately have "find ?P (longest_first (of_kind DirectoryRule out)) = Some f"
    using assms(3) by (intro find_longest)
  then show ?thesis
    by (simp add: exclude_by_filter_def ff_set_exclude_filters_def exclude_by_find fs find_append)
qed

definition demo_rules :: "jv list" where
  "demo_rules =
    [JObj [(''path'', JStr ''/app''), (''include'', JBool False)],
     JObj [(''path'', JStr ''/app/lib''), (''include'', JBool True)]]"

theorem longest_directory_decides_witness:
  "\<exists>fs. convert_rules_to_exclude_filters demo_os (\<lambda>_. True) (JList demo_rules) demo_paths =
      (Inr (fs, []), demo_paths\<lparr>ps_translation := ps_translation (snd (norm_file_to_server demo_os ''/app/lib''
        (snd (norm_file_to_server demo_os ''/app'' demo_paths))))\<rparr>) \<and>
    exclude_by_filter demo_filter_env (ff_set_exclude_filters fs (fl_filtering (new_filters demo_filter_env)))
      ''/app/lib/x.py'' '''' = Some False"
proof -
  let ?app = "\<lparr>xf_name = ''/app/**'', xf_exclude = True, xf_is_path = True\<rparr>"
  let ?lib = "\<lparr>xf_name = ''/app/lib/**'', xf_exclude = False, xf_is_path = True\<rparr>"
  have run: "convert_rules_to_exclude_filters demo_os (\<lambda>_. True) (JList demo_rules) demo_paths =
      (Inr ([?lib, ?app], []), demo_paths\<lparr>ps_translation := ps_translation (snd (norm_file_to_server demo_os ''/app/lib''
        (snd (norm_file_to_server demo_os ''/app'' demo_paths))))\<rparr>)"
    unfolding demo_rules_def demo_paths_def by code_simp
  have outcomes: "map (rule_outcome (\<lambda>_. True) (JList demo_rules)) demo_rules =
      [Inr (Inr (DirectoryRule, ?app)), Inr (Inr (DirectoryRule, ?lib))]"
    unfolding demo_rules_def by code_simp
  then have dir: "directory_rule (\<lambda>_. True) demo_rules g \<longleftrightarrow> g = ?app \<or> g = ?lib" for g
    unfolding directory_rule_def by (auto simp: demo_rules_def)
  have match: "filter_matches (fe_os demo_filter_env) ''/app/lib/x.py'' '''' ?lib" by code_simp
  have "exclude_by_filter demo_filter_env (ff_set_exclude_filters [?lib, ?app] (fl_filtering (new_filters demo_filter_env)))
      ''/app/lib/x.py'' '''' = Some (xf_exclude ?lib)"
    by (rule longest_directory_decides [of demo_os "\<lambda>_. True" demo_rules demo_paths _ "[]"]) (simp_all add: run dir match)
  with run show ?thesis by auto
qed

end
