(* ===== verification/DapBreakpoints.thy ===== *)
theory DapBreakpoints
  imports LogPoints DebugOptions
begin

text \<open>
  The requests of the adapter that decide where the debugged program stops at breakpoints:
  \<open>launch\<close> or \<open>attach\<close> (their filters and path mappings), \<open>setBreakpoints\<close>, \<open>setPydevdSourceMap\<close> and \<open>disconnect\<close>
  in \<open>pydevd_process_net_command_json.py\<close>; then the invariant of the breakpoints over these requests
  and what \<open>setBreakpoints\<close> promises.

  The arguments have been parsed. Options of a launch that decide neither where a breakpoint is nor
  whether its file is excluded only set \<open>jp_options\<close>.
\<close>

section \<open>Requests\<close>

record json_processor =
  jp_options :: debug_options
  jp_launched :: bool
  jp_next_id :: nat
  jp_db :: pydb

record launch_env =
  le_break :: break_env
  le_isdir :: "string \<Rightarrow> bool"
  le_cwd :: string
  le_unquote :: "string \<Rightarrow> string"

type_synonym 'a jact = "(json_processor, exn, 'a) sem"

definition new_json_processor :: "launch_env \<Rightarrow> json_processor" where
  "new_json_processor L =
    \<lparr>jp_options = new_debug_options, jp_launched = False, jp_next_id = 0, jp_db = new_pydb (le_break L)\<rparr>"

definition on_db :: "'a dbact \<Rightarrow> 'a jact" where
  "on_db m j = (case m (jp_db j) of (r, s) \<Rightarrow> (r, j\<lparr>jp_db := s\<rparr>))"

definition resolve_remote_root :: "launch_env \<Rightarrow> string \<Rightarrow> string \<Rightarrow> string" where
  "resolve_remote_root L local_root remote_root =
    (if remote_root = ''.''
     then le_cwd L @ (if ends_with local_root [backslash] \<or> ends_with local_root [slash]
       then (if os_windows (be_os (le_break L)) then [backslash] else [slash]) else [])
     else remote_root)"

text \<open>The arguments of \<open>launch\<close> and \<open>attach\<close> that are used here; a path mapping is a pair of roots.\<close>

record launch_arguments =
  la_rules :: jv
  la_options :: "string option"
  la_debug_options :: "string list option"
  la_args :: "(string, jv) odict"
  la_path_mappings :: "(string \<times> string) list"

definition path_mappings :: "launch_env \<Rightarrow> (string \<times> string) list \<Rightarrow> (string \<times> string) list" where
  "path_mappings L ms =
    filter (\<lambda>(l, r). l \<noteq> [] \<and> r \<noteq> []) (map (\<lambda>(l, r). (l, resolve_remote_root L l r)) ms)"

definition on_paths :: "(path_state, exn, 'a) sem \<Rightarrow> 'a dbact" where
  "on_paths m s = (case m (db_paths s) of (r, p) \<Rightarrow> (r, s\<lparr>db_paths := p\<rparr>))"

text \<open>The rules are converted before the path mappings of the same request are set up.\<close>

definition set_debug_options :: "launch_env \<Rightarrow> launch_arguments \<Rightarrow> unit jact" where
  "set_debug_options L a =
    (let os = be_os (le_break L); ms = path_mappings L (la_path_mappings a) in
     andthen (if la_rules a = JNull then ret []
       else andthen (on_db (on_paths (convert_rules_to_exclude_filters os (le_isdir L) (la_rules a)))) (\<lambda>(fs, errors). ret fs)) (\<lambda>fs.
     andthen (on_db (modify (\<lambda>s. s\<lparr>db_filters := set_exclude_filters fs (db_filters s)\<rparr>))) (\<lambda>_.
     andthen (modify (\<lambda>j. j\<lparr>jp_options := update_from_args (la_args a)
       (update_from_debug_options (extract_debug_options (le_unquote L) (la_options a) (la_debug_options a)) (jp_options j))\<rparr>)) (\<lambda>_.
     andthen (modify (\<lambda>j. j\<lparr>jp_db := (jp_db j)\<lparr>db_filters :=
       set_use_libraries_filter (\<not> do_debug_stdlib (jp_options j)) (db_filters (jp_db j))\<rparr>\<rparr>)) (\<lambda>_.
     if ms \<noteq> [] then on_db (modify (\<lambda>s. s\<lparr>db_paths := setup_client_server_paths os ms (db_paths s)\<rparr>)) else ret ())))))"

definition on_launch_request :: "launch_env \<Rightarrow> launch_arguments \<Rightarrow> unit jact" where
  "on_launch_request L a = andthen (modify (\<lambda>j. j\<lparr>jp_launched := True\<rparr>)) (\<lambda>_. set_debug_options L a)"

text \<open>Without \<open>terminateDebuggee\<close>. The exception breakpoints and the threads are left out.\<close>

definition on_disconnect_request :: "unit jact" where
  "on_disconnect_request =
    andthen (modify (\<lambda>j. j\<lparr>jp_launched := False\<rparr>)) (\<lambda>_. on_db (remove_all_breakpoints ''*''))"

record source_breakpoint =
  sb_line :: int
  sb_condition :: "string option"
  sb_hit_condition :: "string option"
  sb_log_message :: "string option"

record breakpoint_answer =
  ba_verified :: bool
  ba_id :: "nat option"
  ba_line :: int
  ba_message :: "string option"

definition breakpoint_type_of :: "debug_options \<Rightarrow> string \<Rightarrow> string" where
  "breakpoint_type_of d filename =
    (if ends_with (lower filename) ''.py'' then ''python-line''
     else if do_django_debug d then ''django-line''
     else if do_flask_debug d then ''jinja2-line''
     else ''python-line'')"

definition params_of :: "string \<Rightarrow> string \<Rightarrow> source_breakpoint \<Rightarrow> break_params" where
  "params_of filename t b =
    \<lparr>bp_filename = filename, bp_type = t, bp_id = sb_line b, bp_line = sb_line b, bp_condition = sb_condition b,
     bp_func_name = ''None'',
     bp_expression = (if falsy (sb_log_message b) then None
       else Some (convert_dap_log_message_to_expression (the (sb_log_message b)))),
     bp_suspend_policy = ''ALL'', bp_hit_condition = hit_condition_expression (sb_hit_condition b),
     bp_is_logpoint = (\<not> falsy (sb_log_message b))\<rparr>"

definition error_message :: "bool \<Rightarrow> add_error \<Rightarrow> string" where
  "error_message libraries_filter e =
    (if e = FileNotFound then ''Breakpoint in file that does not exist.''
     else ''Breakpoint in file excluded by filters.'' @
       (if libraries_filter
        then CHR 0x0A # ''Note: may be excluded because of \"justMyCode\" option (default == true).'' @
          ''Try setting \"justMyCode\": false in the debug configuration (e.g., launch.json).'' @ [CHR 0x0A]
        else []))"

definition answer_of :: "add_result \<Rightarrow> breakpoint_answer jact" where
  "answer_of r j =
    (if ar_error r = NoError
     then (Inr \<lparr>ba_verified = True, ba_id = Some (jp_next_id j), ba_line = ar_line r, ba_message = None\<rparr>,
           j\<lparr>jp_next_id := jp_next_id j + 1\<rparr>)
     else (Inr \<lparr>ba_verified = False, ba_id = None, ba_line = ar_line r,
             ba_message = Some (error_message (ff_use_libraries_filter (fl_filtering (db_filters (jp_db j)))) (ar_error r))\<rparr>, j))"

fun set_each :: "break_env \<Rightarrow> string \<Rightarrow> string \<Rightarrow> source_breakpoint list \<Rightarrow> breakpoint_answer list jact" where
  "set_each E filename t [] = ret []"
| "set_each E filename t (b # bs) =
    andthen (on_db (add_breakpoint E (params_of filename t b) True)) (\<lambda>r.
    andthen (answer_of r) (\<lambda>a.
    andthen (set_each E filename t bs) (\<lambda>as. ret (a # as))))"

datatype set_breakpoints_response = Refused string | Answers "breakpoint_answer list"

definition on_setbreakpoints_request :: "break_env \<Rightarrow> string \<Rightarrow> source_breakpoint list \<Rightarrow> set_breakpoints_response jact" where
  "on_setbreakpoints_request E filename bs j =
    (if \<not> jp_launched j
     then (Inr (Refused ''Breakpoints may only be set after the launch request is received.''), j)
     else
       andthen (on_db (remove_all_breakpoints filename)) (\<lambda>_.
       andthen (set_each E filename (breakpoint_type_of (jp_options j) filename) bs) (\<lambda>as.
       ret (Answers as))) j)"

definition on_setpydevdsourcemap_request :: "break_env \<Rightarrow> string \<Rightarrow> entry list \<Rightarrow> string jact" where
  "on_setpydevdsourcemap_request E filename mapping = on_db (api_set_source_mapping E filename mapping)"

section \<open>What adding a breakpoint does\<close>

definition server_name :: "break_env \<Rightarrow> pydb \<Rightarrow> string \<Rightarrow> string" where
  "server_name E s f = fst (norm_file_to_server (be_os E) f (db_paths s))"

text \<open>Translating a name only fills a cache.\<close>

definition same_paths :: "break_env \<Rightarrow> pydb \<Rightarrow> pydb \<Rightarrow> bool" where
  "same_paths E s s' \<longleftrightarrow> path_inv (be_os E) (db_paths s') \<and> server_name E s' = server_name E s"

lemma same_pathsI: "path_inv (be_os E) (db_paths s) \<Longrightarrow> db_paths s' = db_paths s \<Longrightarrow> same_paths E s s'"
  by (simp add: same_paths_def server_name_def fun_eq_iff)

lemma same_paths_cong: "same_paths E s u \<Longrightarrow> db_paths v = db_paths u \<Longrightarrow> same_paths E s v"
  by (simp add: same_paths_def server_name_def fun_eq_iff)

lemma same_paths_trans: "same_paths E s t \<Longrightarrow> same_paths E t u \<Longrightarrow> same_paths E s u"
  by (simp add: same_paths_def)

lemma to_server_stable:
  assumes "path_inv E p"
  shows "fst (norm_file_to_server E g (snd (norm_file_to_server E f p))) = fst (norm_file_to_server E g p)"
proof (cases "ps_translation p")
  case None
  then show ?thesis by (simp add: norm_file_to_server_def)
next
  case (Some t)
  from to_server_translation [OF Some, of E f] obtain sc where
    t': "ps_translation (snd (norm_file_to_server E f p)) = Some (t\<lparr>tr_server_cache := sc\<rparr>)" by blast
  have "ps_ide_windows (snd (norm_file_to_server E f p)) = ps_ide_windows p"
    by (simp add: norm_file_to_server_def Let_def split: option.splits)
  with to_server_value [OF path_inv_to_server [OF assms] t', of g] to_server_value [OF assms Some, of g]
  show ?thesis by simp
qed

lemma filename_to_server:
  assumes "path_inv (be_os E) (db_paths s)"
  shows "\<exists>p. filename_to_server E f s = (Inr (server_name E s f), s\<lparr>db_paths := p\<rparr>) \<and> same_paths E s (s\<lparr>db_paths := p\<rparr>)"
proof -
  let ?p = "snd (norm_file_to_server (be_os E) f (db_paths s))"
  have "filename_to_server E f s = (Inr (server_name E s f), s\<lparr>db_paths := ?p\<rparr>)"
    by (simp add: filename_to_server_def server_name_def split: prod.splits)
  moreover have "same_paths E s (s\<lparr>db_paths := ?p\<rparr>)"
    using assms by (simp add: same_paths_def server_name_def fun_eq_iff to_server_stable path_inv_to_server)
  ultimately show ?thesis by blast
qed

lemma map_to_server_unmapped: "map_to_server m f l = (f', l', False) \<Longrightarrow> f' = f \<and> l' = l"
  by (auto simp: map_to_server_def split: option.splits if_splits)

text \<open>Where a breakpoint of the IDE goes: its file, and its line if it is adjusted or not.\<close>

definition target_file :: "break_env \<Rightarrow> pydb \<Rightarrow> string \<Rightarrow> int \<Rightarrow> string" where
  "target_file E s f l = fst (map_to_server (db_mapping s) (server_name E s f) l)"

definition target_line :: "break_env \<Rightarrow> pydb \<Rightarrow> bool \<Rightarrow> string \<Rightarrow> int \<Rightarrow> int" where
  "target_line E s adjust f l =
    (case map_to_server (db_mapping s) (server_name E s f) l of
       (f', l', mapped) \<Rightarrow>
         if mapped then l'
         else if adjust \<and> \<not> synthetic f' then adjusted_line E f' l else l)"

definition answer_line :: "break_env \<Rightarrow> pydb \<Rightarrow> bool \<Rightarrow> string \<Rightarrow> int \<Rightarrow> int" where
  "answer_line E s adjust f l =
    (if snd (snd (map_to_server (db_mapping s) (server_name E s f) l)) then l else target_line E s adjust f l)"

definition can_break :: "break_env \<Rightarrow> string \<Rightarrow> bool" where
  "can_break E f \<longleftrightarrow> synthetic f \<or> file_exists (be_os E) f"

text \<open>The breakpoint made of the parameters, whatever its identity.\<close>

definition made_from :: "break_params \<Rightarrow> int \<Rightarrow> line_breakpoint \<Rightarrow> bool" where
  "made_from p l b \<longleftrightarrow> lb_line b = l \<and> lb_condition b = bp_condition p \<and> lb_func_name b = bp_func_name p \<and>
    lb_expression b = bp_expression p \<and> lb_suspend_policy b = bp_suspend_policy p \<and>
    lb_hit_condition b = bp_hit_condition p \<and> lb_is_logpoint b = bp_is_logpoint p"

definition filed :: "break_params \<Rightarrow> string \<Rightarrow> int \<Rightarrow> pydb \<Rightarrow> pydb \<Rightarrow> bool" where
  "filed p f l s s' \<longleftrightarrow> (\<exists>b. made_from p l b \<and>
     (let ids = od_set (bp_id p) b (ids_in PythonLine f s) in
      db_line_ids s' = od_set f ids (db_line_ids s) \<and> db_breakpoints s' = od_set f (by_line ids) (db_breakpoints s)))"

definition tables_kept :: "pydb \<Rightarrow> pydb \<Rightarrow> bool" where
  "tables_kept s s' \<longleftrightarrow> db_line_ids s' = db_line_ids s \<and> db_breakpoints s' = db_breakpoints s"

lemmas table_simps = breaks_of_def set_breaks_def ids_of_def set_ids_def consolidate_breakpoints_def
  refresh_plugin_breaks_def activate_def on_breakpoints_changed_def

lemma python_kind [simp]: "kind_of t = Some PythonLine \<longleftrightarrow> t = ''python-line''"
  by simp

lemma file_breakpoint_python:
  assumes "bp_type p = ''python-line''"
  shows "\<exists>s'. file_breakpoint E p f l s = (Inr (), s') \<and> filed p f l s s' \<and> db_paths s' = db_paths s \<and>
    db_mapping s' = db_mapping s \<and> db_received s' = db_received s"
proof -
  obtain b s0 where b: "new_breakpoint PythonLine p l s = (Inr b, s0)" "made_from p l b"
    "db_line_ids s0 = db_line_ids s" "db_breakpoints s0 = db_breakpoints s" "db_paths s0 = db_paths s"
    "db_mapping s0 = db_mapping s" "db_received s0 = db_received s"
    by (simp add: new_breakpoint_def made_from_def)
  then show ?thesis
    by (auto simp: file_breakpoint_def assms andthen_def modify_def Let_def table_simps ids_in_def filed_def)
qed

lemma file_breakpoint_other:
  assumes "bp_type p \<noteq> ''python-line''"
  shows "tables_kept s (snd (file_breakpoint E p f l s)) \<and> db_paths (snd (file_breakpoint E p f l s)) = db_paths s \<and>
    db_mapping (snd (file_breakpoint E p f l s)) = db_mapping s \<and> db_received (snd (file_breakpoint E p f l s)) = db_received s"
proof (cases "kind_of (bp_type p)")
  case (Some k)
  with assms have "k \<noteq> PythonLine" by (auto split: if_splits)
  then show ?thesis
    by (cases k) (simp_all add: file_breakpoint_def Some new_breakpoint_def andthen_def modify_def raise_def Let_def
      table_simps tables_kept_def del: kind_of.simps)
qed (simp add: file_breakpoint_def raise_def tables_kept_def del: kind_of.simps)

lemma excluded_by_filters_keeps:
  "\<exists>x fl n. excluded_by_filters E f s = (Inr x, s\<lparr>db_filters := fl, db_next_object := n\<rparr>)"
proof (cases "is_files_filter_enabled (db_filters s) \<and> \<not> ff_require_module (fl_filtering (db_filters s))")
  case False
  then have "excluded_by_filters E f s = (Inr False, s\<lparr>db_filters := db_filters s, db_next_object := db_next_object s\<rparr>)"
    by (auto simp: excluded_by_filters_def)
  then show ?thesis by blast
qed (auto simp: excluded_by_filters_def split: prod.splits)

text \<open>All that the requests depend on of what \<open>add_breakpoint\<close> does.\<close>

definition added :: "break_env \<Rightarrow> break_params \<Rightarrow> bool \<Rightarrow> pydb \<Rightarrow> pydb \<Rightarrow> bool" where
  "added E p adjust s s' \<longleftrightarrow>
    same_paths E s s' \<and> db_mapping s' = db_mapping s \<and>
    db_received s' = od_set (bp_filename p, bp_id p) (target_file E s (bp_filename p) (bp_line p), p) (db_received s) \<and>
    (if bp_type p = ''python-line'' \<and> can_break E (target_file E s (bp_filename p) (bp_line p))
     then filed p (target_file E s (bp_filename p) (bp_line p)) (target_line E s adjust (bp_filename p) (bp_line p)) s s'
     else tables_kept s s')"

lemma filed_cong:
  "filed p f l t t' \<Longrightarrow> db_line_ids t = db_line_ids s \<Longrightarrow> db_breakpoints t = db_breakpoints s \<Longrightarrow> filed p f l s t'"
  by (simp add: filed_def ids_in_def ids_of_def)

lemma add_breakpoint_effect:
  assumes "path_inv (be_os E) (db_paths s)"
  shows "added E p adjust s (snd (add_breakpoint E p adjust s)) \<and>
    (bp_type p = ''python-line'' \<longrightarrow>
      (\<exists>e. fst (add_breakpoint E p adjust s) = Inr \<lparr>ar_error = e, ar_filename = server_name E s (bp_filename p),
          ar_line = answer_line E s adjust (bp_filename p) (bp_line p)\<rparr> \<and>
        (e = FileNotFound \<longleftrightarrow> \<not> can_break E (target_file E s (bp_filename p) (bp_line p)))))"
proof -
  let ?tf = "server_name E s (bp_filename p)"
  obtain ps where ps: "filename_to_server E (bp_filename p) s = (Inr ?tf, s\<lparr>db_paths := ps\<rparr>)"
    "same_paths E s (s\<lparr>db_paths := ps\<rparr>)"
    using filename_to_server [OF assms] by blast
  obtain nf nl m where m: "map_to_server (db_mapping s) ?tf (bp_line p) = (nf, nl, m)" by (metis prod_cases3)
  have tf: "target_file E s (bp_filename p) (bp_line p) = nf" by (simp add: target_file_def m)
  have un: "\<not> m \<Longrightarrow> nf = ?tf" using m map_to_server_unmapped [of _ ?tf "bp_line p" nf nl] by simp
  define l where "l = target_line E s adjust (bp_filename p) (bp_line p)"
  have l: "l = (if m then nl else if adjust \<and> \<not> synthetic ?tf then adjusted_line E ?tf (bp_line p) else bp_line p)"
    using un by (simp add: l_def target_line_def m)
  have al: "answer_line E s adjust (bp_filename p) (bp_line p) = (if m then bp_line p else l)"
    by (simp add: answer_line_def m l_def)
  have nf: "(if m then nf else ?tf) = nf" using un by simp
  define t where "t = s\<lparr>db_paths := ps, db_received := od_set (bp_filename p, bp_id p) (nf, p) (db_received s)\<rparr>"
  define r where "r = \<lparr>ar_error = NoError, ar_filename = ?tf, ar_line = (if m then bp_line p else l)\<rparr>"
  have run: "add_breakpoint E p adjust s =
      (if \<not> can_break E nf then (Inr (r\<lparr>ar_error := FileNotFound\<rparr>), t)
       else andthen (if synthetic nf then ret False else excluded_by_filters E nf) (\<lambda>x.
         andthen (file_breakpoint E p nf l) (\<lambda>_.
         ret (if x then r\<lparr>ar_error := FileExcluded\<rparr> else r))) t)"
    unfolding add_breakpoint_def r_def t_def l
    using un by (cases m) (simp_all add: ps(1) m can_break_def Let_def)
  show ?thesis
  proof (cases "can_break E nf")
    case False
    moreover have "same_paths E s t" using same_paths_cong [OF ps(2)] by (simp add: t_def)
    ultimately show ?thesis
      by (simp add: run added_def tf tables_kept_def t_def r_def al)
  next
    case True
    obtain x fl n where x: "(if synthetic nf then ret False else excluded_by_filters E nf) t =
        (Inr x, t\<lparr>db_filters := fl, db_next_object := n\<rparr>)"
    proof (cases "synthetic nf")
      case True
      then show thesis by (intro that [of False "db_next_object t" "db_filters t"]) simp
    next
      case False
      then show thesis using that excluded_by_filters_keeps [of E nf t] by auto
    qed
    let ?u = "t\<lparr>db_filters := fl, db_next_object := n\<rparr>"
    have s': "snd (add_breakpoint E p adjust s) = snd (file_breakpoint E p nf l ?u)"
      using True x by (cases "file_breakpoint E p nf l ?u"; cases "fst (file_breakpoint E p nf l ?u)")
        (auto simp: run andthen_def ret_def)
    have u: "db_paths ?u = ps" "db_mapping ?u = db_mapping s" "db_line_ids ?u = db_line_ids s"
      "db_breakpoints ?u = db_breakpoints s" "db_received ?u = od_set (bp_filename p, bp_id p) (nf, p) (db_received s)"
      by (simp_all add: t_def)
    have paths: "db_paths v = ps \<Longrightarrow> same_paths E s v" for v
      using same_paths_cong [OF ps(2)] by simp
    show ?thesis
    proof (cases "bp_type p = ''python-line''")
      case py: True
      from file_breakpoint_python [OF py, of E nf l ?u] obtain s' where
        f: "file_breakpoint E p nf l ?u = (Inr (), s')" "filed p nf l ?u s'" "db_paths s' = ps"
        "db_mapping s' = db_mapping s" "db_received s' = od_set (bp_filename p, bp_id p) (nf, p) (db_received s)"
        using u by auto
      have "fst (add_breakpoint E p adjust s) = Inr (if x then r\<lparr>ar_error := FileExcluded\<rparr> else r)"
        using True x f(1) by (simp add: run andthen_def ret_def)
      moreover have "filed p nf l s s'" using filed_cong [OF f(2) u(3,4)] .
      ultimately show ?thesis
        using True py s' f paths by (auto simp: added_def tf r_def al l_def)
    next
      case other: False
      from file_breakpoint_other [OF other, of ?u E nf l] u paths
      show ?thesis by (simp add: added_def tf s' other tables_kept_def)
    qed
  qed
qed

section \<open>The invariant of the breakpoints\<close>

definition breakpoints_empty :: "pydb \<Rightarrow> bool" where
  "breakpoints_empty s \<longleftrightarrow> db_received s = [] \<and> db_line_ids s = [] \<and> db_breakpoints s = []"

text \<open>What is kept of the IDE's breakpoints says where they went.\<close>

definition received_ok :: "break_env \<Rightarrow> pydb \<Rightarrow> bool" where
  "received_ok E s \<longleftrightarrow> distinct (od_keys (db_received s)) \<and>
    (\<forall>f i nf p. map_of (db_received s) (f, i) = Some (nf, p) \<longrightarrow>
      bp_filename p = f \<and> bp_id p = i \<and> bp_line p = i \<and> nf = target_file E s f i)"

definition stands_at :: "break_env \<Rightarrow> pydb \<Rightarrow> string \<Rightarrow> int \<Rightarrow> string \<Rightarrow> int \<Rightarrow> bool" where
  "stands_at E s g i f l \<longleftrightarrow> target_file E s g i = f \<and> (l = target_line E s True g i \<or> l = target_line E s False g i)"

definition filed_ok :: "break_env \<Rightarrow> pydb \<Rightarrow> bool" where
  "filed_ok E s \<longleftrightarrow> (\<forall>f ids i b. map_of (db_line_ids s) f = Some ids \<longrightarrow> (i, b) \<in> set ids \<longrightarrow>
     (\<exists>g p. map_of (db_received s) (g, i) = Some (f, p) \<and> stands_at E s g i f (lb_line b)))"

definition tables_ok :: "pydb \<Rightarrow> bool" where
  "tables_ok s \<longleftrightarrow> (\<forall>f. map_of (db_breakpoints s) f = map_option by_line (map_of (db_line_ids s) f))"

definition db_inv :: "break_env \<Rightarrow> pydb \<Rightarrow> bool" where
  "db_inv E s \<longleftrightarrow> path_inv (be_os E) (db_paths s) \<and> received_ok E s \<and> filed_ok E s \<and> tables_ok s"

lemma db_inv_empty: "path_inv (be_os E) (db_paths s) \<Longrightarrow> breakpoints_empty s \<Longrightarrow> db_inv E s"
  by (simp add: db_inv_def received_ok_def filed_ok_def tables_ok_def breakpoints_empty_def od_keys_def)

lemma targets_cong:
  assumes "server_name E s' = server_name E s" and "sm_to_server (db_mapping s') = sm_to_server (db_mapping s)"
  shows "target_file E s' = target_file E s" "target_line E s' = target_line E s" "stands_at E s' = stands_at E s"
  using assms by (simp_all add: fun_eq_iff target_file_def target_line_def map_to_server_def stands_at_def)

lemma db_inv_cong:
  assumes "db_inv E s" and "same_paths E s s'" and "sm_to_server (db_mapping s') = sm_to_server (db_mapping s)"
    and "db_received s' = db_received s" and "tables_kept s s'"
  shows "db_inv E s'"
proof -
  have "server_name E s' = server_name E s" and path: "path_inv (be_os E) (db_paths s')"
    using assms(2) by (simp_all add: same_paths_def)
  note targets_cong [OF this(1) assms(3)]
  with assms(1,4,5) path show ?thesis
    unfolding db_inv_def received_ok_def filed_ok_def tables_ok_def tables_kept_def by simp
qed

lemma set_od_set: "set (od_set k v m) \<subseteq> insert (k, v) (set m)"
  by (induction k v m rule: od_set.induct) auto

lemma add_inv:
  assumes "db_inv E s" and "bp_id p = bp_line p" and "added E p adjust s s'"
  shows "db_inv E s'"
proof -
  let ?f = "bp_filename p" and ?i = "bp_line p"
  let ?nf = "target_file E s ?f ?i"
  have inv: "received_ok E s" "filed_ok E s" "tables_ok s" using assms(1) by (simp_all add: db_inv_def)
  have same: "same_paths E s s'" "db_mapping s' = db_mapping s"
    and rec: "db_received s' = od_set (?f, ?i) (?nf, p) (db_received s)"
    using assms(2,3) by (simp_all add: added_def)
  then have name: "server_name E s' = server_name E s" and path: "path_inv (be_os E) (db_paths s')"
    by (simp_all add: same_paths_def)
  have map: "sm_to_server (db_mapping s') = sm_to_server (db_mapping s)" by (simp add: same(2))
  note targets = targets_cong [OF name map]
  have received: "received_ok E s'"
    using inv(1) assms(2) by (auto simp: received_ok_def rec targets distinct_od_set)
  have kept: "\<exists>g p'. map_of (db_received s') (g, j) = Some (f, p') \<and> stands_at E s' g j f (lb_line b)"
    if b: "map_of (db_line_ids s) f = Some ids" "(j, b) \<in> set ids" for f ids j b
  proof -
    obtain g p' where g: "map_of (db_received s) (g, j) = Some (f, p')" "stands_at E s g j f (lb_line b)"
      using inv(2) b unfolding filed_ok_def by blast
    show ?thesis
    proof (cases "(g, j) = (?f, ?i)")
      case True
      with g(1) inv(1) have "f = ?nf" by (auto simp: received_ok_def)
      with True g(2) show ?thesis by (auto simp: rec targets)
    qed (use g in \<open>auto simp: rec targets\<close>)
  qed
  have "filed_ok E s' \<and> tables_ok s'"
  proof (cases "bp_type p = ''python-line'' \<and> can_break E ?nf")
    case False
    with assms(3) have "tables_kept s s'" by (auto simp: added_def)
    with kept inv(3) show ?thesis by (auto simp: filed_ok_def tables_ok_def tables_kept_def)
  next
    case True
    with assms(3) have "filed p ?nf (target_line E s adjust ?f ?i) s s'" by (simp add: added_def)
    then obtain b where b: "lb_line b = target_line E s adjust ?f ?i"
      "db_line_ids s' = od_set ?nf (od_set ?i b (ids_in PythonLine ?nf s)) (db_line_ids s)"
      "db_breakpoints s' = od_set ?nf (by_line (od_set ?i b (ids_in PythonLine ?nf s))) (db_breakpoints s)"
      using assms(2) by (auto simp: filed_def made_from_def Let_def)
    have "filed_ok E s'"
      unfolding filed_ok_def
    proof (intro allI impI)
      fix f ids j b'
      assume ids: "map_of (db_line_ids s') f = Some ids" "(j, b') \<in> set ids"
      show "\<exists>g p'. map_of (db_received s') (g, j) = Some (f, p') \<and> stands_at E s' g j f (lb_line b')"
      proof (cases "f = ?nf \<and> (j, b') = (?i, b)")
        case True
        then have "map_of (db_received s') (?f, j) = Some (f, p)" "stands_at E s' ?f j f (lb_line b')"
          using b(1) by (cases adjust; auto simp: rec targets stands_at_def)+
        then show ?thesis by blast
      next
        case False
        have "\<exists>old. map_of (db_line_ids s) f = Some old \<and> (j, b') \<in> set old"
        proof (cases "f = ?nf")
          case True
          with ids b(2) have "(j, b') \<in> set (od_set ?i b (ids_in PythonLine ?nf s))" by simp
          with set_od_set [of ?i b] False True have "(j, b') \<in> set (ids_in PythonLine ?nf s)" by blast
          with True show ?thesis by (cases "map_of (db_line_ids s) ?nf") (simp_all add: ids_in_def ids_of_def)
        qed (use ids b(2) in auto)
        with kept show ?thesis by blast
      qed
    qed
    moreover have "tables_ok s'" using inv(3) b(2,3) by (simp add: tables_ok_def)
    ultimately show ?thesis ..
  qed
  with received path show ?thesis by (simp add: db_inv_def)
qed

lemma on_breakpoints_changed_keeps [simp]:
  "fst (on_breakpoints_changed s) = Inr ()"
  "db_received (snd (on_breakpoints_changed s)) = db_received s"
  "db_line_ids (snd (on_breakpoints_changed s)) = db_line_ids s"
  "db_breakpoints (snd (on_breakpoints_changed s)) = db_breakpoints s"
  "db_paths (snd (on_breakpoints_changed s)) = db_paths s"
  "db_mapping (snd (on_breakpoints_changed s)) = db_mapping s"
  by (simp_all add: on_breakpoints_changed_def)

lemma remove_all_star:
  "fst (remove_all_breakpoints ''*'' s) = Inr () \<and> breakpoints_empty (snd (remove_all_breakpoints ''*'' s)) \<and>
   db_paths (snd (remove_all_breakpoints ''*'' s)) = db_paths s \<and> db_mapping (snd (remove_all_breakpoints ''*'' s)) = db_mapping s"
  by (simp add: remove_all_breakpoints_def breakpoints_empty_def Let_def)

lemma drop_files:
  "map_of (db_line_ids (foldl (\<lambda>s f. drop_file f s) s fs)) g = (if g \<in> set fs then None else map_of (db_line_ids s) g)"
  "map_of (db_breakpoints (foldl (\<lambda>s f. drop_file f s) s fs)) g = (if g \<in> set fs then None else map_of (db_breakpoints s) g)"
  "db_received (foldl (\<lambda>s f. drop_file f s) s fs) = db_received s"
  "db_paths (foldl (\<lambda>s f. drop_file f s) s fs) = db_paths s"
  "db_mapping (foldl (\<lambda>s f. drop_file f s) s fs) = db_mapping s"
  by (induction fs arbitrary: s) (simp_all add: drop_file_def)

text \<open>The files that breakpoints of a name went to.\<close>

definition files_of :: "pydb \<Rightarrow> string \<Rightarrow> string set" where
  "files_of s f = {nf. \<exists>i p. ((f, i), nf, p) \<in> set (db_received s)}"

definition removed :: "string \<Rightarrow> pydb \<Rightarrow> pydb \<Rightarrow> bool" where
  "removed f s s' \<longleftrightarrow> db_paths s' = db_paths s \<and> db_mapping s' = db_mapping s \<and>
    db_received s' = filter (\<lambda>((g, _), _). g \<noteq> f) (db_received s) \<and>
    (\<forall>g. map_of (db_line_ids s') g = (if g \<in> files_of s f then None else map_of (db_line_ids s) g)) \<and>
    (\<forall>g. map_of (db_breakpoints s') g = (if g \<in> files_of s f then None else map_of (db_breakpoints s) g))"

lemma remove_all_effect:
  assumes "f \<noteq> ''*''"
  shows "fst (remove_all_breakpoints f s) = Inr () \<and> removed f s (snd (remove_all_breakpoints f s))"
proof -
  let ?fs = "map (\<lambda>(_, new_filename, _). new_filename) (filter (\<lambda>((g, _), _). g = f) (db_received s))"
  have "set ?fs = files_of s f" by (force simp: files_of_def image_iff)
  then show ?thesis
    using assms by (simp add: remove_all_breakpoints_def removed_def Let_def drop_files del: set_map set_filter)
qed

lemma map_of_filter_keys:
  "map_of (filter (\<lambda>((g, _), _). g \<noteq> f) m) (g, i) = (if g = f then None else map_of m (g, i))"
  by (induction m) auto

lemma remove_inv:
  assumes "db_inv E s" and "removed f s s'"
  shows "db_inv E s'"
proof -
  have inv: "path_inv (be_os E) (db_paths s)" "received_ok E s" "filed_ok E s" "tables_ok s"
    using assms(1) by (simp_all add: db_inv_def)
  have paths: "same_paths E s s'" using assms(2) inv(1) by (intro same_pathsI) (simp_all add: removed_def)
  have map: "sm_to_server (db_mapping s') = sm_to_server (db_mapping s)" using assms(2) by (simp add: removed_def)
  have name: "server_name E s' = server_name E s" using paths by (simp add: same_paths_def)
  note targets = targets_cong [OF name map]
  have rec: "map_of (db_received s') (g, i) = (if g = f then None else map_of (db_received s) (g, i))" for g i
    using assms(2) by (simp add: removed_def map_of_filter_keys)
  have "distinct (od_keys (db_received s'))"
    using assms(2) inv(2) by (simp add: removed_def received_ok_def od_keys_def distinct_map_filter)
  then have "received_ok E s'" using inv(2) by (auto simp: received_ok_def rec targets split: if_splits)
  moreover have "filed_ok E s'"
    unfolding filed_ok_def
  proof (intro allI impI)
    fix g ids i b
    assume "map_of (db_line_ids s') g = Some ids" "(i, b) \<in> set ids"
    with assms(2) have g: "g \<notin> files_of s f" "map_of (db_line_ids s) g = Some ids" by (auto simp: removed_def split: if_splits)
    with inv(3) \<open>(i, b) \<in> set ids\<close> obtain h p where h: "map_of (db_received s) (h, i) = Some (g, p)" "stands_at E s h i g (lb_line b)"
      unfolding filed_ok_def by blast
    with g(1) have "h \<noteq> f" by (auto simp: files_of_def dest!: map_of_SomeD)
    with h show "\<exists>h p. map_of (db_received s') (h, i) = Some (g, p) \<and> stands_at E s' h i g (lb_line b)"
      by (auto simp: rec targets)
  qed
  moreover have "tables_ok s'" using inv(4) assms(2) by (simp add: tables_ok_def removed_def)
  ultimately show ?thesis using paths by (simp add: db_inv_def same_paths_def)
qed

lemma remove_all_inv:
  assumes "db_inv E s"
  shows "db_inv E (snd (remove_all_breakpoints f s))"
proof (cases "f = ''*''")
  case True
  have "path_inv (be_os E) (db_paths s)" using assms by (simp add: db_inv_def)
  with True remove_all_star [of s] show ?thesis by (simp add: db_inv_empty)
qed (use assms remove_all_effect remove_inv in blast)

lemma add_breakpoint_inv:
  assumes "db_inv E s" and "bp_id p = bp_line p"
  shows "db_inv E (snd (add_breakpoint E p adjust s))"
proof -
  have "path_inv (be_os E) (db_paths s)" using assms(1) by (simp add: db_inv_def)
  from conjunct1 [OF add_breakpoint_effect [OF this]] show ?thesis by (rule add_inv [OF assms])
qed

lemma add_all_inv:
  "db_inv E s \<Longrightarrow> \<forall>(p, _) \<in> set ps. bp_id p = bp_line p \<Longrightarrow> db_inv E (snd (add_all E ps s))"
proof (induction ps arbitrary: s)
  case (Cons q ps)
  obtain p adjust where q: "q = (p, adjust)" by fastforce
  obtain r t where r: "add_breakpoint E p adjust s = (r, t)" by fastforce
  with add_breakpoint_inv [OF Cons.prems(1), of p adjust] Cons.prems(2) q have t: "db_inv E t" by simp
  show ?case
  proof (cases r)
    case (Inr x)
    from Cons.IH [OF t] Cons.prems(2) show ?thesis
      by (cases "add_all E ps t"; cases "fst (add_all E ps t)") (auto simp: q r Inr andthen_def)
  qed (use t in \<open>simp add: q r\<close>)
qed simp

lemma reapply_inv:
  assumes "path_inv (be_os E) (db_paths s)" and "\<forall>(_, _, p) \<in> set (db_received s). bp_id p = bp_line p"
  shows "db_inv E (snd (reapply_breakpoints E s))"
proof -
  let ?items = "map (\<lambda>(_, _, p). (p, False)) (db_received s)"
  let ?t = "snd (remove_all_breakpoints ''*'' s)"
  have "remove_all_breakpoints ''*'' s = (Inr (), ?t)" using remove_all_star [of s] by (simp add: prod_eq_iff)
  then have "snd (reapply_breakpoints E s) = snd (add_all E ?items ?t)"
    by (cases "add_all E ?items ?t"; cases "fst (add_all E ?items ?t)") (auto simp: reapply_breakpoints_def)
  moreover have "db_inv E ?t" using remove_all_star [of s] assms(1) by (auto intro: db_inv_empty)
  moreover have "\<forall>(p, _) \<in> set ?items. bp_id p = bp_line p" using assms(2) by fastforce
  ultimately show ?thesis by (simp add: add_all_inv)
qed

lemma received_ids:
  assumes "received_ok E s"
  shows "\<forall>(_, _, p) \<in> set (db_received s). bp_id p = bp_line p"
proof safe
  fix f i nf p assume "((f, i), nf, p) \<in> set (db_received s)"
  with assms have "map_of (db_received s) (f, i) = Some (nf, p)" by (simp add: received_ok_def od_keys_def)
  with assms show "bp_id p = bp_line p" by (auto simp: received_ok_def)
qed

text \<open>Setting a source mapping without success leaves the entries of the files as they were.\<close>

lemma set_source_mapping_unless_done:
  "set_source_mapping f es m = (r, m') \<Longrightarrow> r \<noteq> Inr [] \<Longrightarrow> sm_to_server m' = sm_to_server m"
proof -
  assume run: "set_source_mapping f es m = (r, m')" and r: "r \<noteq> Inr []"
  have forget: "sm_to_server (snd (forget_entries xs u)) = sm_to_server u" for xs u
    by (induction xs u rule: forget_entries.induct) simp_all
  show ?thesis
  proof (cases "find_conflict m f es")
    case None
    let ?cur = "case map_of (sm_to_server m) f of None \<Rightarrow> [] | Some es \<Rightarrow> es"
    from run r None forget [of ?cur m] show ?thesis
      by (cases "forget_entries ?cur m"; cases "fst (forget_entries ?cur m)")
        (auto simp: set_source_mapping_def Let_def simp del: forget_entries.simps)
  qed (use run in \<open>simp add: set_source_mapping_def\<close>)
qed

lemma api_set_source_mapping_inv:
  assumes "db_inv E s"
  shows "db_inv E (snd (api_set_source_mapping E f es s))"
proof -
  have inv: "path_inv (be_os E) (db_paths s)" "received_ok E s" using assms by (simp_all add: db_inv_def)
  obtain ps where ps: "filename_to_server E f s = (Inr (server_name E s f), s\<lparr>db_paths := ps\<rparr>)"
    "same_paths E s (s\<lparr>db_paths := ps\<rparr>)"
    using filename_to_server [OF inv(1)] by blast
  let ?es = "map (\<lambda>e. e\<lparr>en_source := Some (server_name E s f)\<rparr>) es"
  obtain r m where m: "set_source_mapping (server_name E s f) ?es (db_mapping s) = (r, m)" by fastforce
  let ?t = "s\<lparr>db_paths := ps, db_mapping := m\<rparr>"
  have paths: "path_inv (be_os E) (db_paths ?t)" using ps(2) by (simp add: same_paths_def)
  show ?thesis
  proof (cases "r = Inr []")
    case True
    have "snd (api_set_source_mapping E f es s) = snd (reapply_breakpoints E ?t)"
      by (cases "reapply_breakpoints E ?t"; cases "fst (reapply_breakpoints E ?t)")
        (simp_all add: api_set_source_mapping_def andthen_def ps(1) m True)
    moreover have "\<forall>(_, _, p) \<in> set (db_received ?t). bp_id p = bp_line p" using received_ids [OF inv(2)] by simp
    ultimately show ?thesis using reapply_inv [OF paths] by simp
  next
    case False
    have "snd (api_set_source_mapping E f es s) = ?t"
      using False by (cases r) (auto simp: api_set_source_mapping_def andthen_def ps(1) m)
    moreover have "same_paths E s ?t" using same_paths_cong [OF ps(2)] by simp
    ultimately show ?thesis
      using db_inv_cong [OF assms, of ?t] set_source_mapping_unless_done [OF m False] by (simp add: tables_kept_def)
  qed
qed

section \<open>The life of the requests\<close>

definition json_inv :: "launch_env \<Rightarrow> json_processor \<Rightarrow> bool" where
  "json_inv L j \<longleftrightarrow> db_inv (le_break L) (jp_db j) \<and> (\<not> jp_launched j \<longrightarrow> breakpoints_empty (jp_db j))"

text \<open>
  A client launches or attaches once before it disconnects. Between the requests the tracer fills the
  caches of the filters and counts hits, and names are translated in both directions.
\<close>

inductive json_step :: "launch_env \<Rightarrow> json_processor \<Rightarrow> json_processor \<Rightarrow> bool" for L where
  launch: "\<not> jp_launched j \<Longrightarrow> json_step L j (snd (on_launch_request L a j))"
| disconnect: "json_step L j (snd (on_disconnect_request j))"
| set_breakpoints: "json_step L j (snd (on_setbreakpoints_request (le_break L) f bs j))"
| source_map: "json_step L j (snd (on_setpydevdsourcemap_request (le_break L) f es j))"
| traced: "json_step L j (j\<lparr>jp_db := (jp_db j)\<lparr>db_filters := fl, db_hits := hits, db_ready_to_run := ready\<rparr>\<rparr>)"
| to_client: "json_step L j (j\<lparr>jp_db := (jp_db j)\<lparr>db_paths :=
    snd (norm_file_to_client (be_os (le_break L)) f (db_paths (jp_db j)))\<rparr>\<rparr>)"
| to_server: "json_step L j (j\<lparr>jp_db := (jp_db j)\<lparr>db_paths :=
    snd (norm_file_to_server (be_os (le_break L)) f (db_paths (jp_db j)))\<rparr>\<rparr>)"

inductive_cases json_stepE: "json_step L j k"

lemma answer_of_keeps: "\<exists>a n. answer_of r j = (Inr a, j\<lparr>jp_next_id := n\<rparr>)"
proof (cases "ar_error r = NoError")
  case False
  then have "answer_of r j = (Inr \<lparr>ba_verified = False, ba_id = None, ba_line = ar_line r,
      ba_message = Some (error_message (ff_use_libraries_filter (fl_filtering (db_filters (jp_db j)))) (ar_error r))\<rparr>,
      j\<lparr>jp_next_id := jp_next_id j\<rparr>)"
    by (simp add: answer_of_def)
  then show ?thesis by blast
qed (auto simp: answer_of_def)

lemma params_of_ids [simp]:
  "bp_id (params_of f t b) = sb_line b" "bp_line (params_of f t b) = sb_line b" "bp_filename (params_of f t b) = f"
  "bp_type (params_of f t b) = t"
  by (simp_all add: params_of_def)

lemma set_each_inv:
  "db_inv E (jp_db j) \<Longrightarrow>
    db_inv E (jp_db (snd (set_each E f t bs j))) \<and> jp_launched (snd (set_each E f t bs j)) = jp_launched j"
proof (induction bs arbitrary: j)
  case (Cons b bs)
  obtain r s where r: "add_breakpoint E (params_of f t b) True (jp_db j) = (r, s)" by fastforce
  then have s: "db_inv E s" using add_breakpoint_inv [OF Cons.prems, of "params_of f t b" True] by simp
  show ?case
  proof (cases r)
    case (Inr x)
    obtain a n where a: "answer_of x (j\<lparr>jp_db := s\<rparr>) = (Inr a, j\<lparr>jp_db := s, jp_next_id := n\<rparr>)"
      using answer_of_keeps [of x "j\<lparr>jp_db := s\<rparr>"] by auto
    let ?k = "j\<lparr>jp_db := s, jp_next_id := n\<rparr>"
    show ?thesis
      using Cons.IH [of ?k] s
      by (cases "set_each E f t bs ?k"; cases "fst (set_each E f t bs ?k)")
        (auto simp: on_db_def r Inr a)
  qed (use s in \<open>simp add: on_db_def r\<close>)
qed simp

lemma set_breakpoints_inv:
  assumes "json_inv L j"
  shows "json_inv L (snd (on_setbreakpoints_request (le_break L) f bs j))"
proof (cases "jp_launched j")
  case True
  let ?E = "le_break L" and ?t = "breakpoint_type_of (jp_options j) f"
  have inv: "db_inv ?E (jp_db j)" using assms by (simp add: json_inv_def)
  let ?s = "snd (remove_all_breakpoints f (jp_db j))"
  have rm: "on_db (remove_all_breakpoints f) j = (Inr (), j\<lparr>jp_db := ?s\<rparr>)"
    using remove_all_star [of "jp_db j"] remove_all_effect [of f "jp_db j"]
    by (cases "f = ''*''") (simp_all add: on_db_def prod_eq_iff split: prod.splits)
  let ?k = "j\<lparr>jp_db := ?s\<rparr>"
  have "snd (on_setbreakpoints_request ?E f bs j) = snd (set_each ?E f ?t bs ?k)"
    by (cases "set_each ?E f ?t bs ?k"; cases "fst (set_each ?E f ?t bs ?k)")
      (auto simp: on_setbreakpoints_request_def True rm)
  moreover have "db_inv ?E (jp_db ?k)" using remove_all_inv [OF inv] by simp
  ultimately show ?thesis using set_each_inv [of ?E ?k f ?t bs] True by (simp add: json_inv_def)
qed (use assms in \<open>simp add: on_setbreakpoints_request_def\<close>)

lemma path_inv_convert_rule:
  "path_inv E s \<Longrightarrow> path_inv E (snd (convert_rule E isdir rules rule s))"
  using path_inv_to_server [of E s]
  by (auto simp: convert_rule_def Let_def andthen_def split: jv.splits prod.splits)
    (metis snd_conv)+

lemma path_inv_convert_each:
  "path_inv E s \<Longrightarrow> path_inv E (snd (convert_each E isdir rules rs s))"
proof (induction rs arbitrary: s)
  case (Cons r rs)
  obtain x t where x: "convert_rule E isdir rules r s = (x, t)" by fastforce
  with path_inv_convert_rule [OF Cons.prems, of isdir rules r] have "path_inv E t" by simp
  with Cons.IH [of t] show ?case
    by (cases x; cases "convert_each E isdir rules rs t"; cases "fst (convert_each E isdir rules rs t)")
      (auto simp: x)
qed simp

lemma path_inv_convert_rules:
  "path_inv E s \<Longrightarrow> path_inv E (snd (convert_rules_to_exclude_filters E isdir rules s))"
proof (cases rules)
  case (JList rs)
  assume "path_inv E s"
  then show ?thesis
    using path_inv_convert_each [of E s isdir rules rs]
    by (cases "convert_each E isdir rules rs s"; cases "fst (convert_each E isdir rules rs s)")
      (auto simp: convert_rules_to_exclude_filters_def JList)
qed (simp_all add: convert_rules_to_exclude_filters_def)

definition fresh_launch :: "launch_env \<Rightarrow> json_processor \<Rightarrow> bool" where
  "fresh_launch L j \<longleftrightarrow>
    jp_launched j \<and> path_inv (be_os (le_break L)) (db_paths (jp_db j)) \<and> breakpoints_empty (jp_db j)"

lemma keeps_on_db: "(\<And>j. P j \<Longrightarrow> P (j\<lparr>jp_db := snd (m (jp_db j))\<rparr>)) \<Longrightarrow> keeps P (on_db m)"
  by (auto simp: keeps_def wp_def on_db_def split: prod.splits sum.splits) (metis snd_conv)+

lemma set_debug_options_fresh: "keeps (fresh_launch L) (set_debug_options L a)"
  unfolding set_debug_options_def Let_def
proof (intro keeps_rules)
  show "keeps (fresh_launch L)
      (on_db (on_paths (convert_rules_to_exclude_filters (be_os (le_break L)) (le_isdir L) (la_rules a))))"
  proof (rule keeps_on_db)
    fix j assume "fresh_launch L j"
    then show "fresh_launch L (j\<lparr>jp_db := snd (on_paths (convert_rules_to_exclude_filters (be_os (le_break L)) (le_isdir L)
        (la_rules a)) (jp_db j))\<rparr>)"
      using path_inv_convert_rules [of "be_os (le_break L)" "db_paths (jp_db j)" "le_isdir L" "la_rules a"]
      by (auto simp: fresh_launch_def on_paths_def breakpoints_empty_def split: prod.splits)
  qed
qed (auto intro!: keeps_modify keeps_on_db keeps_basic simp: fresh_launch_def breakpoints_empty_def path_inv_setup split: prod.splits)

lemma launch_inv:
  assumes "json_inv L j" and "\<not> jp_launched j"
  shows "json_inv L (snd (on_launch_request L a j))"
proof -
  have "fresh_launch L (j\<lparr>jp_launched := True\<rparr>)" using assms by (simp add: json_inv_def db_inv_def fresh_launch_def)
  from keepsD [OF set_debug_options_fresh this, of a] have "fresh_launch L (snd (set_debug_options L a (j\<lparr>jp_launched := True\<rparr>)))"
    by (cases "set_debug_options L a (j\<lparr>jp_launched := True\<rparr>)") auto
  then show ?thesis
    by (simp add: on_launch_request_def fresh_launch_def json_inv_def db_inv_empty)
qed

lemma disconnect_inv:
  assumes "json_inv L j"
  shows "json_inv L (snd (on_disconnect_request j))"
proof -
  let ?s = "snd (remove_all_breakpoints ''*'' (jp_db j))"
  have "path_inv (be_os (le_break L)) (db_paths (jp_db j))" using assms by (simp add: json_inv_def db_inv_def)
  with remove_all_star [of "jp_db j"] have "db_inv (le_break L) ?s" "breakpoints_empty ?s" by (simp_all add: db_inv_empty)
  moreover have "snd (on_disconnect_request j) = j\<lparr>jp_launched := False, jp_db := ?s\<rparr>"
    by (simp add: on_disconnect_request_def on_db_def split: prod.splits)
  ultimately show ?thesis by (simp add: json_inv_def)
qed

lemma source_map_inv:
  assumes "json_inv L j"
  shows "json_inv L (snd (on_setpydevdsourcemap_request (le_break L) f es j))"
proof -
  let ?E = "le_break L" and ?s = "jp_db j"
  have inv: "db_inv ?E ?s" using assms by (simp add: json_inv_def)
  have "breakpoints_empty (snd (api_set_source_mapping ?E f es ?s))" if empty: "breakpoints_empty ?s"
  proof -
    obtain ps where ps: "filename_to_server ?E f ?s = (Inr (server_name ?E ?s f), ?s\<lparr>db_paths := ps\<rparr>)"
      using filename_to_server [of ?E ?s f] inv by (auto simp: db_inv_def)
    let ?es = "map (\<lambda>e. e\<lparr>en_source := Some (server_name ?E ?s f)\<rparr>) es"
    obtain r m where m: "set_source_mapping (server_name ?E ?s f) ?es (db_mapping ?s) = (r, m)" by fastforce
    let ?t = "?s\<lparr>db_paths := ps, db_mapping := m\<rparr>"
    let ?u = "snd (remove_all_breakpoints ''*'' ?t)"
    have u: "remove_all_breakpoints ''*'' ?t = (Inr (), ?u)" "breakpoints_empty ?u"
      using remove_all_star [of ?t] by (simp_all add: prod_eq_iff)
    have "db_received ?t = []" using empty by (simp add: breakpoints_empty_def)
    with u(1) have "reapply_breakpoints ?E ?t = (Inr (), ?u)" by (simp add: reapply_breakpoints_def)
    with empty u(2) show ?thesis
      by (cases r) (auto simp: api_set_source_mapping_def andthen_def ps m breakpoints_empty_def)
  qed
  then show ?thesis
    using api_set_source_mapping_inv [OF inv, of f es] assms
    by (auto simp: on_setpydevdsourcemap_request_def on_db_def json_inv_def split: prod.splits)
qed

lemma to_client_stable:
  assumes "path_inv E p"
  shows "fst (norm_file_to_server E g (snd (norm_file_to_client E f p))) = fst (norm_file_to_server E g p)"
proof (cases "ps_translation p")
  case None
  then show ?thesis by (simp add: norm_file_to_server_def norm_file_to_client_def Let_def split: option.splits)
next
  case (Some t)
  have "\<exists>cc. ps_translation (snd (norm_file_to_client E f p)) = Some (t\<lparr>tr_client_cache := cc\<rparr>)"
  proof (cases "map_of (tr_client_cache t) f")
    case None
    with Some show ?thesis by (auto simp: norm_file_to_client_def Let_def split: prod.splits)
  next
    case hit: (Some c)
    with Some have "ps_translation (snd (norm_file_to_client E f p)) = Some (t\<lparr>tr_client_cache := tr_client_cache t\<rparr>)"
      by (simp add: norm_file_to_client_def)
    then show ?thesis ..
  qed
  then obtain cc where t': "ps_translation (snd (norm_file_to_client E f p)) = Some (t\<lparr>tr_client_cache := cc\<rparr>)" ..
  have "ps_ide_windows (snd (norm_file_to_client E f p)) = ps_ide_windows p"
    by (auto simp: norm_file_to_client_def Let_def split: option.splits prod.splits)
  with to_server_value [OF path_inv_to_client [OF assms] t', of g] to_server_value [OF assms Some, of g]
  show ?thesis by simp
qed

lemma renamed_inv:
  assumes "json_inv L j" and "path_inv (be_os (le_break L)) p"
    and "\<And>g. fst (norm_file_to_server (be_os (le_break L)) g p) =
      fst (norm_file_to_server (be_os (le_break L)) g (db_paths (jp_db j)))"
  shows "json_inv L (j\<lparr>jp_db := (jp_db j)\<lparr>db_paths := p\<rparr>\<rparr>)"
proof -
  let ?s = "(jp_db j)\<lparr>db_paths := p\<rparr>"
  have "db_inv (le_break L) ?s"
    by (rule db_inv_cong [of _ "jp_db j"])
      (use assms in \<open>simp_all add: json_inv_def same_paths_def server_name_def fun_eq_iff tables_kept_def\<close>)
  with assms(1) show ?thesis by (simp add: json_inv_def breakpoints_empty_def)
qed

lemma json_inv_step:
  assumes "json_inv L j" and "json_step L j k"
  shows "json_inv L k"
  using assms(2)
proof (cases rule: json_step.cases)
  case (traced ready hits fl)
  let ?s = "(jp_db j)\<lparr>db_filters := fl, db_hits := hits, db_ready_to_run := ready\<rparr>"
  have inv: "db_inv (le_break L) (jp_db j)" using assms(1) by (simp add: json_inv_def)
  then have "same_paths (le_break L) (jp_db j) ?s" by (intro same_pathsI) (simp_all add: db_inv_def)
  with db_inv_cong [OF inv, of ?s] have "db_inv (le_break L) ?s" by (simp add: tables_kept_def)
  with assms(1) show ?thesis by (simp add: traced json_inv_def breakpoints_empty_def)
next
  case (to_client f)
  have path: "path_inv (be_os (le_break L)) (db_paths (jp_db j))" using assms(1) by (simp add: json_inv_def db_inv_def)
  show ?thesis
    unfolding to_client by (rule renamed_inv [OF assms(1)]) (simp_all add: to_client_stable path path_inv_to_client)
next
  case (to_server f)
  have path: "path_inv (be_os (le_break L)) (db_paths (jp_db j))" using assms(1) by (simp add: json_inv_def db_inv_def)
  show ?thesis
    unfolding to_server by (rule renamed_inv [OF assms(1)]) (simp_all add: to_server_stable path path_inv_to_server)
qed (simp_all add: launch_inv disconnect_inv set_breakpoints_inv source_map_inv assms(1))

lemma json_inv_new: "json_inv L (new_json_processor L)"
  by (simp add: json_inv_def new_json_processor_def new_pydb_def db_inv_empty breakpoints_empty_def path_inv_loaded)

interpretation dap_breakpoints: inductive_invariant "\<lambda>j. j = new_json_processor L" "json_step L" "json_inv L" for L
  by unfold_locales (auto simp: json_inv_new intro: json_inv_step)

text \<open>The breakpoint that the tracer finds for a line of a file.\<close>

definition breakpoint_at :: "pydb \<Rightarrow> string \<Rightarrow> int \<Rightarrow> line_breakpoint option" where
  "breakpoint_at s f l = (case map_of (db_breakpoints s) f of None \<Rightarrow> None | Some m \<Rightarrow> map_of m l)"

lemma by_line_Some:
  assumes "map_of (by_line ids) l = Some b"
  shows "lb_line b = l \<and> (\<exists>i. (i, b) \<in> set ids)"
proof -
  have "map_of (foldl (\<lambda>m (_, b). od_set (lb_line b) b m) m ids) l = Some b \<Longrightarrow>
      map_of m l = Some b \<or> lb_line b = l \<and> (\<exists>i. (i, b) \<in> set ids)" for m
    by (induction ids arbitrary: m) (fastforce split: if_splits)+
  from this [of "[]"] assms show ?thesis by (simp add: by_line_def)
qed

lemma by_line_lines: "set (od_keys (by_line ids)) = (lb_line \<circ> snd) ` set ids"
proof -
  have "set (od_keys (foldl (\<lambda>m (_, b). od_set (lb_line b) b m) m ids)) = set (od_keys m) \<union> (lb_line \<circ> snd) ` set ids" for m
    by (induction ids arbitrary: m) auto
  from this [of "[]"] show ?thesis by (simp add: by_line_def od_keys_def)
qed

lemma breakpoint_stands:
  assumes "db_inv E s" and "breakpoint_at s f l = Some b"
  shows "lb_line b = l \<and> (\<exists>g i p. map_of (db_received s) (g, i) = Some (f, p) \<and> stands_at E s g i f l)"
proof -
  obtain m where m: "map_of (db_breakpoints s) f = Some m" "map_of m l = Some b"
    using assms(2) by (auto simp: breakpoint_at_def split: option.splits)
  with assms(1) obtain ids where ids: "map_of (db_line_ids s) f = Some ids" "m = by_line ids"
    by (auto simp: db_inv_def tables_ok_def)
  with m(2) by_line_Some [of ids l b] obtain i where "lb_line b = l" "(i, b) \<in> set ids" by auto
  with ids(1) assms(1) show ?thesis unfolding db_inv_def filed_ok_def by blast
qed


section \<open>What setBreakpoints promises\<close>

definition line_for :: "break_env \<Rightarrow> string \<Rightarrow> int \<Rightarrow> int" where
  "line_for E f l = (if synthetic f then l else adjusted_line E f l)"

text \<open>The breakpoints filed for a file are those of some requested ones.\<close>

definition filed_from :: "break_env \<Rightarrow> string \<Rightarrow> string \<Rightarrow> source_breakpoint set \<Rightarrow> pydb \<Rightarrow> bool" where
  "filed_from E f tf D s \<longleftrightarrow> set (od_keys (ids_in PythonLine tf s)) = sb_line ` D \<and>
    (\<forall>i b. (i, b) \<in> set (ids_in PythonLine tf s) \<longrightarrow>
      (\<exists>sb \<in> D. sb_line sb = i \<and> made_from (params_of f ''python-line'' sb) (line_for E tf i) b))"

definition unmapped :: "break_env \<Rightarrow> string \<Rightarrow> string \<Rightarrow> pydb \<Rightarrow> bool" where
  "unmapped E f tf s \<longleftrightarrow> server_name E s f = tf \<and> entries_of (db_mapping s) tf = []"

lemma unmapped_targets:
  assumes "unmapped E f tf s"
  shows "target_file E s f i = tf" "target_line E s True f i = line_for E tf i" "answer_line E s True f i = line_for E tf i"
    "target_line E s False f i = i"
proof -
  have "map_to_server (db_mapping s) (server_name E s f) i = (tf, i, False)"
    using assms by (auto simp: unmapped_def map_to_server_def entries_of_def split: option.splits)
  then show "target_file E s f i = tf" "target_line E s True f i = line_for E tf i"
    "answer_line E s True f i = line_for E tf i" "target_line E s False f i = i"
    by (simp_all add: target_file_def target_line_def answer_line_def line_for_def)
qed

lemma add_one:
  assumes "db_inv E s" and "unmapped E f tf s" and "filed_from E f tf D s"
  shows "\<exists>r s'. add_breakpoint E (params_of f ''python-line'' sb) True s = (Inr r, s') \<and>
    ar_line r = line_for E tf (sb_line sb) \<and> (ar_error r = FileNotFound \<longleftrightarrow> \<not> can_break E tf) \<and>
    db_inv E s' \<and> unmapped E f tf s' \<and> filed_from E f tf (if can_break E tf then insert sb D else D) s' \<and>
    (\<forall>g. g \<noteq> tf \<longrightarrow> map_of (db_breakpoints s') g = map_of (db_breakpoints s) g)"
proof -
  let ?p = "params_of f ''python-line'' sb" and ?i = "sb_line sb"
  note targets = unmapped_targets [OF assms(2)]
  have "path_inv (be_os E) (db_paths s)" using assms(1) by (simp add: db_inv_def)
  from add_breakpoint_effect [OF this, of ?p True] obtain e s' where
    add: "added E ?p True s s'" and s': "s' = snd (add_breakpoint E ?p True s)"
    and r: "fst (add_breakpoint E ?p True s) = Inr \<lparr>ar_error = e, ar_filename = server_name E s f, ar_line = line_for E tf ?i\<rparr>"
      "e = FileNotFound \<longleftrightarrow> \<not> can_break E tf"
    by (auto simp: targets)
  have inv: "db_inv E s'" unfolding s' by (rule add_breakpoint_inv [OF assms(1)]) simp
  have un: "unmapped E f tf s'" using add assms(2) by (simp add: added_def unmapped_def same_paths_def)
  have "filed_from E f tf (if can_break E tf then insert sb D else D) s' \<and>
      (\<forall>g. g \<noteq> tf \<longrightarrow> map_of (db_breakpoints s') g = map_of (db_breakpoints s) g)"
  proof (cases "can_break E tf")
    case False
    with add assms(3) show ?thesis
      by (auto simp: added_def targets tables_kept_def filed_from_def ids_in_def ids_of_def)
  next
    case True
    with add obtain b where b: "made_from ?p (line_for E tf ?i) b"
      "db_line_ids s' = od_set tf (od_set ?i b (ids_in PythonLine tf s)) (db_line_ids s)"
      "db_breakpoints s' = od_set tf (by_line (od_set ?i b (ids_in PythonLine tf s))) (db_breakpoints s)"
      by (auto simp: added_def targets filed_def Let_def)
    have ids: "ids_in PythonLine tf s' = od_set ?i b (ids_in PythonLine tf s)"
      by (simp add: ids_in_def [of _ _ s'] ids_of_def b(2))
    have "filed_from E f tf (insert sb D) s'"
      unfolding filed_from_def
    proof (intro conjI allI impI)
      show "set (od_keys (ids_in PythonLine tf s')) = sb_line ` insert sb D"
        using assms(3) by (simp add: ids filed_from_def)
      fix i b' assume "(i, b') \<in> set (ids_in PythonLine tf s')"
      then have "(i, b') = (?i, b) \<or> (i, b') \<in> set (ids_in PythonLine tf s)"
        using set_od_set [of ?i b "ids_in PythonLine tf s"] unfolding ids by blast
      with assms(3) b(1) show "\<exists>sb \<in> insert sb D. sb_line sb = i \<and>
          made_from (params_of f ''python-line'' sb) (line_for E tf i) b'"
        by (auto simp: filed_from_def)
    qed
    with True b(3) show ?thesis by simp
  qed
  with inv un r s' show ?thesis by (auto simp: prod_eq_iff intro!: exI)
qed

lemma set_all:
  "db_inv E (jp_db j) \<Longrightarrow> unmapped E f tf (jp_db j) \<Longrightarrow> filed_from E f tf D (jp_db j) \<Longrightarrow>
    \<exists>as k. set_each E f ''python-line'' bs j = (Inr as, k) \<and> map ba_line as = map (\<lambda>sb. line_for E tf (sb_line sb)) bs \<and>
      (\<not> can_break E tf \<longrightarrow> (\<forall>a \<in> set as. \<not> ba_verified a)) \<and> db_inv E (jp_db k) \<and> unmapped E f tf (jp_db k) \<and>
      filed_from E f tf (if can_break E tf then D \<union> set bs else D) (jp_db k) \<and>
      (\<forall>g. g \<noteq> tf \<longrightarrow> map_of (db_breakpoints (jp_db k)) g = map_of (db_breakpoints (jp_db j)) g)"
proof (induction bs arbitrary: j D)
  case (Cons sb bs)
  from add_one [OF Cons.prems, of sb] obtain r s where
    r: "add_breakpoint E (params_of f ''python-line'' sb) True (jp_db j) = (Inr r, s)"
      "ar_line r = line_for E tf (sb_line sb)" "ar_error r = FileNotFound \<longleftrightarrow> \<not> can_break E tf"
    and s: "db_inv E s" "unmapped E f tf s" "filed_from E f tf (if can_break E tf then insert sb D else D) s"
      "\<forall>g. g \<noteq> tf \<longrightarrow> map_of (db_breakpoints s) g = map_of (db_breakpoints (jp_db j)) g"
    by blast
  obtain a n where a: "answer_of r (j\<lparr>jp_db := s\<rparr>) = (Inr a, j\<lparr>jp_db := s, jp_next_id := n\<rparr>)"
    using answer_of_keeps [of r "j\<lparr>jp_db := s\<rparr>"] by auto
  then have a': "ba_line a = line_for E tf (sb_line sb)" "\<not> can_break E tf \<longrightarrow> \<not> ba_verified a"
    using r(2,3) by (auto simp: answer_of_def split: if_splits)
  let ?j = "j\<lparr>jp_db := s, jp_next_id := n\<rparr>"
  define D' where "D' = (if can_break E tf then insert sb D else D)"
  have "db_inv E (jp_db ?j)" "unmapped E f tf (jp_db ?j)" "filed_from E f tf D' (jp_db ?j)"
    using s(1-3) by (simp_all add: D'_def)
  from Cons.IH [OF this] obtain as k where k: "set_each E f ''python-line'' bs ?j = (Inr as, k)"
    "map ba_line as = map (\<lambda>sb. line_for E tf (sb_line sb)) bs" "\<not> can_break E tf \<longrightarrow> (\<forall>a \<in> set as. \<not> ba_verified a)"
    "db_inv E (jp_db k)" "unmapped E f tf (jp_db k)"
    "filed_from E f tf (if can_break E tf then D' \<union> set bs else D') (jp_db k)"
    "\<forall>g. g \<noteq> tf \<longrightarrow> map_of (db_breakpoints (jp_db k)) g = map_of (db_breakpoints (jp_db ?j)) g"
    by blast
  have "set_each E f ''python-line'' (sb # bs) j = (Inr (a # as), k)"
    by (simp add: on_db_def r(1) a k(1))
  moreover have "filed_from E f tf (if can_break E tf then D \<union> set (sb # bs) else D) (jp_db k)"
    using k(6) by (simp add: D'_def split: if_splits)
  moreover have "\<forall>g. g \<noteq> tf \<longrightarrow> map_of (db_breakpoints (jp_db k)) g = map_of (db_breakpoints (jp_db j)) g"
    using k(7) s(4) by simp
  ultimately show ?case using k(2-5) a' by auto
qed auto

text \<open>No breakpoint of another name is in the file.\<close>

definition alone_in :: "pydb \<Rightarrow> string \<Rightarrow> string \<Rightarrow> bool" where
  "alone_in s f tf \<longleftrightarrow> (\<forall>g i p. map_of (db_received s) (g, i) = Some (tf, p) \<longrightarrow> g = f)"

lemma received_member:
  "received_ok E s \<Longrightarrow> ((f, i), nf, p) \<in> set (db_received s) \<longleftrightarrow> map_of (db_received s) (f, i) = Some (nf, p)"
  by (simp add: received_ok_def od_keys_def)

lemma cleared:
  assumes "db_inv E s" and "unmapped E f tf s" and "alone_in s f tf" and "removed f s s'"
  shows "db_inv E s' \<and> unmapped E f tf s' \<and> filed_from E f tf {} s' \<and>
    (\<forall>g. g \<noteq> tf \<longrightarrow> map_of (db_breakpoints s') g = map_of (db_breakpoints s) g)"
proof (intro conjI allI impI)
  have inv: "received_ok E s" "filed_ok E s" using assms(1) by (simp_all add: db_inv_def)
  show "db_inv E s'" by (rule remove_inv [OF assms(1,4)])
  show "unmapped E f tf s'" using assms(2,4) by (simp add: unmapped_def removed_def server_name_def)
  show "filed_from E f tf {} s'"
  proof (cases "map_of (db_line_ids s') tf")
    case (Some ids)
    with assms(4) have old: "tf \<notin> files_of s f" "map_of (db_line_ids s) tf = Some ids"
      by (auto simp: removed_def split: if_splits)
    have "(i, b) \<notin> set ids" for i b
    proof
      assume "(i, b) \<in> set ids"
      with inv(2) old(2) obtain g p where g: "map_of (db_received s) (g, i) = Some (tf, p)" unfolding filed_ok_def by blast
      with assms(3) have "g = f" by (auto simp: alone_in_def)
      with g old(1) show False by (auto simp: files_of_def received_member [OF inv(1)])
    qed
    then have "ids = []" by (cases ids) auto
    with Some show ?thesis by (simp add: filed_from_def ids_in_def ids_of_def od_keys_def)
  qed (simp add: filed_from_def ids_in_def ids_of_def od_keys_def)
  fix g assume g: "g \<noteq> tf"
  have "g \<notin> files_of s f"
  proof
    assume "g \<in> files_of s f"
    then obtain i p where "map_of (db_received s) (f, i) = Some (g, p)"
      by (auto simp: files_of_def received_member [OF inv(1)])
    with inv(1) have "g = target_file E s f i" by (auto simp: received_ok_def)
    with g unmapped_targets(1) [OF assms(2)] show False by simp
  qed
  with assms(4) show "map_of (db_breakpoints s') g = map_of (db_breakpoints s) g" by (simp add: removed_def)
qed

lemma filed_from_breakpoints:
  assumes "db_inv E s" and "filed_from E f tf D s"
  shows "(breakpoint_at s tf l \<noteq> None) = (l \<in> (\<lambda>sb. line_for E tf (sb_line sb)) ` D) \<and>
    (\<forall>b. breakpoint_at s tf l = Some b \<longrightarrow>
      (\<exists>sb \<in> D. line_for E tf (sb_line sb) = l \<and> made_from (params_of f ''python-line'' sb) l b))"
proof -
  let ?ids = "ids_in PythonLine tf s"
  have at: "breakpoint_at s tf l = map_of (by_line ?ids) l"
    using assms(1) by (cases "map_of (db_line_ids s) tf")
      (simp_all add: db_inv_def tables_ok_def breakpoint_at_def ids_in_def ids_of_def by_line_def)
  have from_request: "\<exists>sb \<in> D. sb_line sb = i \<and> made_from (params_of f ''python-line'' sb) (line_for E tf i) b"
    if "(i, b) \<in> set ?ids" for i b using assms(2) that by (simp add: filed_from_def)
  have "(lb_line \<circ> snd) ` set ?ids = line_for E tf ` set (od_keys ?ids)"
    using from_request by (force simp: made_from_def od_keys_def image_iff)
  also have "\<dots> = (\<lambda>sb. line_for E tf (sb_line sb)) ` D" using assms(2) by (simp add: filed_from_def image_image)
  finally have "(map_of (by_line ?ids) l \<noteq> None) = (l \<in> (\<lambda>sb. line_for E tf (sb_line sb)) ` D)"
    by (metis by_line_lines in_od_keys_iff)
  moreover have "\<exists>sb \<in> D. line_for E tf (sb_line sb) = l \<and> made_from (params_of f ''python-line'' sb) l b"
    if "map_of (by_line ?ids) l = Some b" for b
    using by_line_Some [OF that] from_request by (fastforce simp: made_from_def)
  ultimately show ?thesis by (simp add: at)
qed


definition demo_launch :: launch_env where
  "demo_launch = \<lparr>le_break = demo_break_env, le_isdir = (\<lambda>_. True), le_cwd = ''/'', le_unquote = id\<rparr>"

definition demo_arguments :: launch_arguments where
  "demo_arguments = \<lparr>la_rules = JNull, la_options = None, la_debug_options = None,
     la_args = [(''debugStdLib'', JBool True)],
     la_path_mappings = [(''/home/me/'', ''/srv/app'')]\<rparr>"

definition demo_launched :: json_processor where
  "demo_launched = snd (on_launch_request demo_launch demo_arguments (new_json_processor demo_launch))"

definition demo_breakpoints :: "source_breakpoint list" where
  "demo_breakpoints =
    [\<lparr>sb_line = 3, sb_condition = Some ''x'', sb_hit_condition = None, sb_log_message = None\<rparr>,
     \<lparr>sb_line = 4, sb_condition = None, sb_hit_condition = None, sb_log_message = None\<rparr>]"

lemma demo_launched:
  "reachable (\<lambda>j. j = new_json_processor demo_launch) (json_step demo_launch) demo_launched"
  "jp_launched demo_launched" "breakpoint_type_of (jp_options demo_launched) ''/home/me/x.py'' = ''python-line''"
  "unmapped demo_break_env ''/home/me/x.py'' ''/srv/app/x.py'' (jp_db demo_launched)"
  "db_received (jp_db demo_launched) = []"
proof -
  have "reachable (\<lambda>j. j = new_json_processor demo_launch) (json_step demo_launch) (new_json_processor demo_launch)"
    by (rule reachable_init) (rule refl)
  moreover have "json_step demo_launch (new_json_processor demo_launch) demo_launched"
    unfolding demo_launched_def by (rule json_step.launch) (simp add: new_json_processor_def)
  ultimately show "reachable (\<lambda>j. j = new_json_processor demo_launch) (json_step demo_launch) demo_launched"
    by (rule reachable_step)
  have ms: "path_mappings demo_launch (la_path_mappings demo_arguments) = [(''/home/me/'', ''/srv/app'')]" by code_simp
  have paths: "db_paths (jp_db demo_launched) = demo_paths"
    by (simp add: demo_launched_def on_launch_request_def set_debug_options_def ms Let_def on_db_def new_json_processor_def)
      (simp add: demo_arguments_def demo_launch_def demo_break_env_def demo_filter_env_def be_os_def new_pydb_def demo_paths_def)
  show "jp_launched demo_launched" "db_received (jp_db demo_launched) = []"
    by (simp_all add: demo_launched_def on_launch_request_def set_debug_options_def ms Let_def on_db_def new_json_processor_def)
      (simp_all add: demo_arguments_def new_pydb_def)
  have "db_mapping (jp_db demo_launched) = new_source_mapping"
    by (simp add: demo_launched_def on_launch_request_def set_debug_options_def ms Let_def on_db_def new_json_processor_def)
      (simp add: demo_arguments_def new_pydb_def)
  moreover have "be_os demo_break_env = demo_os" by (simp add: be_os_def demo_break_env_def demo_filter_env_def)
  moreover have "fst (norm_file_to_server demo_os ''/home/me/x.py'' demo_paths) = ''/srv/app/x.py''"
    unfolding demo_paths_def by code_simp
  ultimately show "unmapped demo_break_env ''/home/me/x.py'' ''/srv/app/x.py'' (jp_db demo_launched)"
    by (simp add: unmapped_def server_name_def paths new_source_mapping_def entries_of_def)
  have "ends_with (lower ''/home/me/x.py'') ''.py''" by code_simp
  then show "breakpoint_type_of (jp_options demo_launched) ''/home/me/x.py'' = ''python-line''"
    by (simp add: breakpoint_type_of_def)
qed

lemma demo_lines: "can_break demo_break_env ''/srv/app/x.py''"
  "line_for demo_break_env ''/srv/app/x.py'' 3 = 2" "line_for demo_break_env ''/srv/app/x.py'' 4 = 4"
  by code_simp+


section \<open>Breakpoints that are applied again\<close>

text \<open>The ids in the file stand at the lines that they are.\<close>

definition raw_ids :: "string \<Rightarrow> pydb \<Rightarrow> bool" where
  "raw_ids tf s \<longleftrightarrow> (\<forall>i b. (i, b) \<in> set (ids_in PythonLine tf s) \<longrightarrow> lb_line b = i)"

lemma add_one_raw:
  assumes "db_inv E s" and "bp_id p = bp_line p" and "unmapped E f tf s" and "can_break E tf" and "raw_ids tf s"
    and "target_file E s (bp_filename p) (bp_line p) = tf \<longleftrightarrow> bp_filename p = f"
    and "s' = snd (add_breakpoint E p False s)"
  shows "db_inv E s' \<and> unmapped E f tf s' \<and> target_file E s' = target_file E s \<and> raw_ids tf s' \<and>
    set (od_keys (ids_in PythonLine tf s')) = set (od_keys (ids_in PythonLine tf s)) \<union>
      (if bp_filename p = f \<and> bp_type p = ''python-line'' then {bp_line p} else {})"
proof -
  have path: "path_inv (be_os E) (db_paths s)" using assms(1) by (simp add: db_inv_def)
  have add: "added E p False s s'" unfolding assms(7) using add_breakpoint_effect [OF path] by simp
  have inv: "db_inv E s'" unfolding assms(7) by (rule add_breakpoint_inv [OF assms(1,2)])
  have un: "unmapped E f tf s'" using add assms(3) by (simp add: added_def unmapped_def same_paths_def)
  have targets: "target_file E s' = target_file E s"
    using add by (intro targets_cong) (simp_all add: added_def same_paths_def)
  have same: "ids_in PythonLine tf s' = ids_in PythonLine tf s" if "map_of (db_line_ids s') tf = map_of (db_line_ids s) tf"
    using that by (simp add: ids_in_def ids_of_def)
  have "raw_ids tf s' \<and> set (od_keys (ids_in PythonLine tf s')) = set (od_keys (ids_in PythonLine tf s)) \<union>
      (if bp_filename p = f \<and> bp_type p = ''python-line'' then {bp_line p} else {})"
  proof (cases "bp_filename p = f \<and> bp_type p = ''python-line''")
    case True
    with add assms(2,4) unmapped_targets [OF assms(3)] have "filed p tf (bp_line p) s s'" by (simp add: added_def)
    then obtain b where b: "lb_line b = bp_line p"
      "db_line_ids s' = od_set tf (od_set (bp_line p) b (ids_in PythonLine tf s)) (db_line_ids s)"
      using assms(2) by (auto simp: filed_def made_from_def Let_def)
    have ids: "ids_in PythonLine tf s' = od_set (bp_line p) b (ids_in PythonLine tf s)"
      by (simp add: ids_in_def [of _ _ s'] ids_of_def b(2))
    have "raw_ids tf s'"
      using set_od_set [of "bp_line p" b "ids_in PythonLine tf s"] assms(5) b(1) by (auto simp: raw_ids_def ids)
    with True show ?thesis by (simp add: ids)
  next
    case False
    have "map_of (db_line_ids s') tf = map_of (db_line_ids s) tf"
      using add False assms(6) by (auto simp: added_def filed_def tables_kept_def Let_def split: if_splits)
    from same [OF this] False assms(5) show ?thesis by (auto simp: raw_ids_def)
  qed
  with inv un targets show ?thesis by simp
qed

lemma add_all_raw:
  "add_all E ps s = (Inr rs, s') \<Longrightarrow> db_inv E s \<Longrightarrow> unmapped E f tf s \<Longrightarrow> can_break E tf \<Longrightarrow> raw_ids tf s \<Longrightarrow>
    \<forall>(p, adjust) \<in> set ps. \<not> adjust \<and> bp_id p = bp_line p \<and>
      (target_file E s (bp_filename p) (bp_line p) = tf \<longleftrightarrow> bp_filename p = f) \<Longrightarrow>
    db_inv E s' \<and> raw_ids tf s' \<and> set (od_keys (ids_in PythonLine tf s')) = set (od_keys (ids_in PythonLine tf s)) \<union>
      {bp_line p |p. (p, False) \<in> set ps \<and> bp_filename p = f \<and> bp_type p = ''python-line''}"
proof (induction ps arbitrary: s rs)
  case (Cons q ps)
  obtain p where q: "q = (p, False)" and p: "bp_id p = bp_line p"
    "target_file E s (bp_filename p) (bp_line p) = tf \<longleftrightarrow> bp_filename p = f"
    using Cons.prems(6) by (cases q) auto
  from Cons.prems(1) obtain r t rs' where t: "add_breakpoint E p False s = (Inr r, t)" "add_all E ps t = (Inr rs', s')"
    unfolding q by (auto simp: andthen_Inr)
  from add_one_raw [OF Cons.prems(2) p(1) Cons.prems(3,4,5) p(2), of t] t(1)
  have one: "db_inv E t" "unmapped E f tf t" "target_file E t = target_file E s" "raw_ids tf t"
    "set (od_keys (ids_in PythonLine tf t)) = set (od_keys (ids_in PythonLine tf s)) \<union>
      (if bp_filename p = f \<and> bp_type p = ''python-line'' then {bp_line p} else {})" by simp_all
  from Cons.IH [OF t(2) one(1,2) Cons.prems(4) one(4)] Cons.prems(6) one(3,5) show ?case
    by (auto simp: q)
qed auto

lemma set_source_mapping_others:
  assumes "set_source_mapping h es m = (Inr [], m')" and "g \<noteq> h"
  shows "map_of (sm_to_server m') g = map_of (sm_to_server m) g"
    and "map_of (sm_to_server m') h = Some (sort_key en_line es)"
proof -
  have forget: "sm_to_server (snd (forget_entries xs u)) = sm_to_server u" for xs u
    by (induction xs u rule: forget_entries.induct) simp_all
  let ?cur = "case map_of (sm_to_server m) h of None \<Rightarrow> [] | Some es \<Rightarrow> es"
  have none: "find_conflict m h es = None"
  proof (cases "find_conflict m h es")
    case (Some msg)
    with assms(1) find_conflict_nonempty [OF Some] show ?thesis by (simp add: set_source_mapping_def)
  qed
  from assms(1) none forget [of ?cur m]
  have "sm_to_server m' = od_set h (sort_key en_line es) (sm_to_server m)"
    by (cases "forget_entries ?cur m"; cases "fst (forget_entries ?cur m)")
      (auto simp: set_source_mapping_def Let_def simp del: forget_entries.simps)
  with assms(2) show "map_of (sm_to_server m') g = map_of (sm_to_server m) g"
    "map_of (sm_to_server m') h = Some (sort_key en_line es)" by simp_all
qed

lemma mapped_source:
  assumes "map_of (sm_to_server m) h = Some (sort_key en_line es)" and "map_to_server m h l = (f, l', True)"
  shows "f \<in> en_runtime_source ` set es"
proof -
  let ?es = "sort_key en_line es"
  from assms obtain e where e: "?es \<noteq> []" "entry_for_line ?es l = Some e" "f = en_runtime_source e"
    by (auto simp: map_to_server_def split: if_splits option.splits)
  have "bisect en_line ?es l \<le> length ?es" by (rule bisect_point(1)) simp
  with e(1,2) have "e \<in> set ?es"
    by (cases "bisect en_line ?es l = 0")
      (auto simp: entry_for_line_def Let_def simp del: set_sort length_sort split: if_splits intro!: nth_mem)
  with e(3) show ?thesis by simp
qed

text \<open>What a file's own ids say, and the lines where the debugger stops, are the same when no line was adjusted.\<close>

lemma lines_of_raw_ids:
  assumes "db_inv E s" and "raw_ids tf s"
  shows "{l. breakpoint_at s tf l \<noteq> None} = set (od_keys (ids_in PythonLine tf s))"
proof -
  let ?ids = "ids_in PythonLine tf s"
  have "breakpoint_at s tf l = map_of (by_line ?ids) l" for l
    using assms(1) by (cases "map_of (db_line_ids s) tf")
      (simp_all add: db_inv_def tables_ok_def breakpoint_at_def ids_in_def ids_of_def by_line_def)
  then have "{l. breakpoint_at s tf l \<noteq> None} = (lb_line \<circ> snd) ` set ?ids"
    unfolding by_line_lines [symmetric] in_od_keys_iff [symmetric] by (auto simp: in_od_keys_iff)
  also have "\<dots> = fst ` set ?ids"
  proof (rule image_cong)
    fix x assume "x \<in> set ?ids"
    with assms(2) show "(lb_line \<circ> snd) x = fst x" by (cases x) (simp add: raw_ids_def)
  qed simp
  finally show ?thesis by (simp add: od_keys_def)
qed

text \<open>A breakpoint is received under its own file and line, with the file that it was translated to.\<close>

lemma received_kept:
  assumes "received_ok E s" and "((g, i), nf, p) \<in> set (db_received s)"
  shows "bp_filename p = g \<and> bp_id p = i \<and> bp_line p = i \<and> nf = target_file E s g i \<and>
    map_of (db_received s) (g, i) = Some (nf, p)"
  using assms received_member [OF assms(1)] by (auto simp: received_ok_def)

text \<open>A successful request sets the mapping, drops every breakpoint and adds the received ones as they are.\<close>

definition as_received :: "pydb \<Rightarrow> (break_params \<times> bool) list" where
  "as_received s = map (\<lambda>(_, _, p). (p, False)) (db_received s)"

lemma as_received_iff:
  assumes "received_ok E s" and "unmapped E f tf s"
  shows "(p, False) \<in> set (as_received s) \<and> bp_filename p = f \<longleftrightarrow> (\<exists>i. map_of (db_received s) (f, i) = Some (tf, p))"
proof
  assume "(p, False) \<in> set (as_received s) \<and> bp_filename p = f"
  then obtain g i nf where p: "((g, i), nf, p) \<in> set (db_received s)" "bp_filename p = f" by (auto simp: as_received_def)
  with received_kept [OF assms(1) p(1)] unmapped_targets(1) [OF assms(2)]
  show "\<exists>i. map_of (db_received s) (f, i) = Some (tf, p)" by auto
next
  assume "\<exists>i. map_of (db_received s) (f, i) = Some (tf, p)"
  then obtain i where i: "((f, i), tf, p) \<in> set (db_received s)" using received_member [OF assms(1)] by blast
  then have "(p, False) \<in> set (as_received s)" by (force simp: as_received_def)
  with received_kept [OF assms(1) i] show "(p, False) \<in> set (as_received s) \<and> bp_filename p = f" by simp
qed

lemma source_map_run:
  assumes "path_inv (be_os E) (db_paths (jp_db j))" and "on_setpydevdsourcemap_request E h es j = (Inr [], k)"
  obtains m u rs where
    "set_source_mapping (server_name E (jp_db j) h) (map (\<lambda>e. e\<lparr>en_source := Some (server_name E (jp_db j) h)\<rparr>) es)
       (db_mapping (jp_db j)) = (Inr [], m)"
    and "breakpoints_empty u" and "same_paths E (jp_db j) u" and "db_mapping u = m"
    and "add_all E (as_received (jp_db j)) u = (Inr rs, jp_db k)"
proof -
  let ?s = "jp_db j" and ?es = "map (\<lambda>e. e\<lparr>en_source := Some (server_name E (jp_db j) h)\<rparr>) es"
  obtain ps where ps: "filename_to_server E h ?s = (Inr (server_name E ?s h), ?s\<lparr>db_paths := ps\<rparr>)"
    "same_paths E ?s (?s\<lparr>db_paths := ps\<rparr>)"
    using filename_to_server [OF assms(1)] by blast
  obtain r m where m: "set_source_mapping (server_name E ?s h) ?es (db_mapping ?s) = (r, m)" by fastforce
  have r: "r = Inr []"
    using assms(2) by (cases r)
      (auto simp: on_setpydevdsourcemap_request_def on_db_def api_set_source_mapping_def ps(1) m andthen_def
        split: prod.splits if_splits)
  let ?t = "?s\<lparr>db_paths := ps, db_mapping := m\<rparr>"
  let ?u = "snd (remove_all_breakpoints ''*'' ?t)"
  have star: "remove_all_breakpoints ''*'' ?t = (Inr (), ?u)" "breakpoints_empty ?u" "db_paths ?u = ps" "db_mapping ?u = m"
    using remove_all_star [of ?t] by (simp_all add: prod_eq_iff)
  obtain rs where "add_all E (as_received ?s) ?u = (Inr rs, jp_db k)"
    using assms(2) r star(1)
    by (auto simp: on_setpydevdsourcemap_request_def on_db_def api_set_source_mapping_def ps(1) m reapply_breakpoints_def
        as_received_def andthen_Inr split: prod.splits)
  moreover have "same_paths E ?s ?u" using same_paths_cong [OF ps(2), of ?u] star(3) by simp
  ultimately show ?thesis using that m r star by simp
qed

text \<open>A mapping for another file brings no other file to a file that it does not name as a runtime source.\<close>

lemma other_file_targets:
  assumes m: "set_source_mapping (server_name E s h) es (db_mapping s) = (Inr [], db_mapping u)" and "same_paths E s u"
    and "server_name E s h \<noteq> tf" and "tf \<notin> en_runtime_source ` set es" and "target_file E u g i = tf"
  shows "server_name E s g \<noteq> server_name E s h \<and> target_file E s g i = tf"
proof -
  have name: "server_name E u = server_name E s" using assms(2) by (simp add: same_paths_def)
  note others = set_source_mapping_others [OF m]
  obtain l' x where map: "map_to_server (db_mapping u) (server_name E s g) i = (tf, l', x)"
    using assms(5) name by (cases "map_to_server (db_mapping u) (server_name E s g) i") (auto simp: target_file_def)
  show ?thesis
  proof (cases "server_name E s g = server_name E s h")
    case True
    then show ?thesis
      using mapped_source [OF others(2), of tf] map map_to_server_unmapped assms(3,4) by (cases x) (metis, metis)
  next
    case False
    with others(1) [OF False] assms(5) name show ?thesis by (simp add: target_file_def map_to_server_def)
  qed
qed

text \<open>
  C26: When a source mapping is set for some file, the breakpoints of every other file are applied again,
  but without being adjusted: the debugger then stops at just the lines that were asked for, also
  at those without code, where it never does, and no longer at the lines that it had answered with.
\<close>

theorem reapplied_breakpoints_not_adjusted:
  assumes "reachable (\<lambda>j. j = new_json_processor L) (json_step L) j" and "le_break L = E"
    and "unmapped E f tf (jp_db j)" and "alone_in (jp_db j) f tf" and "can_break E tf"
    and "server_name E (jp_db j) h \<noteq> tf" and "tf \<notin> en_runtime_source ` set es"
    and "on_setpydevdsourcemap_request E h es j = (Inr [], k)"
  shows "{l. breakpoint_at (jp_db k) tf l \<noteq> None} =
    {bp_line p |i p. map_of (db_received (jp_db j)) (f, i) = Some (tf, p) \<and> bp_type p = ''python-line''}"
proof -
  let ?s = "jp_db j" and ?es = "map (\<lambda>e. e\<lparr>en_source := Some (server_name E (jp_db j) h)\<rparr>) es"
  have inv: "db_inv E ?s" using dap_breakpoints.holds [OF assms(1)] assms(2) by (simp add: json_inv_def)
  then have path: "path_inv (be_os E) (db_paths ?s)" and received: "received_ok E ?s" by (simp_all add: db_inv_def)
  from source_map_run [OF path assms(8)] obtain u rs where
    m: "set_source_mapping (server_name E ?s h) ?es (db_mapping ?s) = (Inr [], db_mapping u)"
    and u: "breakpoints_empty u" "same_paths E ?s u" and rs: "add_all E (as_received ?s) u = (Inr rs, jp_db k)" by metis
  note kept = received_kept [OF received]
  have unmapped_u: "unmapped E f tf u"
    using assms(3,6) set_source_mapping_others(1) [OF m, of tf] u(2)
    by (simp add: unmapped_def entries_of_def same_paths_def)
  have targets: "target_file E u g i = tf \<longleftrightarrow> g = f" if "((g, i), nf, p) \<in> set (db_received ?s)" for g i nf p
  proof
    assume "target_file E u g i = tf"
    with other_file_targets [OF m u(2) assms(6), of g i] assms(7) have "target_file E ?s g i = tf" by (simp add: image_image)
    with kept [OF that] assms(4) show "g = f" by (auto simp: alone_in_def)
  qed (use unmapped_u unmapped_targets(1) in blast)
  have "db_inv E u" using u inv by (intro db_inv_empty) (simp_all add: db_inv_def same_paths_def)
  moreover have "raw_ids tf u" using u(1) by (simp add: raw_ids_def breakpoints_empty_def ids_in_def ids_of_def)
  moreover have "\<forall>(p, adjust) \<in> set (as_received ?s). \<not> adjust \<and> bp_id p = bp_line p \<and>
      (target_file E u (bp_filename p) (bp_line p) = tf \<longleftrightarrow> bp_filename p = f)"
    using kept targets by (fastforce simp: as_received_def)
  ultimately have final: "db_inv E (jp_db k) \<and> raw_ids tf (jp_db k) \<and> set (od_keys (ids_in PythonLine tf (jp_db k))) =
      set (od_keys (ids_in PythonLine tf u)) \<union>
      {bp_line p |p. (p, False) \<in> set (as_received ?s) \<and> bp_filename p = f \<and> bp_type p = ''python-line''}"
    using add_all_raw [OF rs, of f tf] assms(5) unmapped_u by blast
  note as_received_iff [OF received assms(3)]
  with final lines_of_raw_ids [of E "jp_db k" tf] u(1) show ?thesis
    by (simp add: breakpoints_empty_def ids_in_def ids_of_def od_keys_def conj_assoc [symmetric] del: conj_assoc) blast
qed

definition demo_set :: json_processor where
  "demo_set = snd (on_setbreakpoints_request demo_break_env ''/home/me/x.py'' [hd demo_breakpoints] demo_launched)"

lemma demo_set_eval:
  "(let s = jp_db demo_set in
     (map (\<lambda>((f, i), nf, p). (f, i, nf, bp_type p, bp_line p)) (db_received s),
      server_name demo_break_env s ''/home/me/x.py'', sm_to_server (db_mapping s),
      server_name demo_break_env s ''/home/me/nb.py'', map_option lb_line (breakpoint_at s ''/srv/app/x.py'' 2))) =
    ([(''/home/me/x.py'', 3, ''/srv/app/x.py'', ''python-line'', 3)], ''/srv/app/x.py'', [], ''/srv/app/nb.py'', Some 2)"
  unfolding demo_set_def demo_launched_def by code_simp

lemma demo_set_facts:
  "map (\<lambda>((f, i), nf, p). (f, i, nf, bp_type p, bp_line p)) (db_received (jp_db demo_set)) =
    [(''/home/me/x.py'', 3, ''/srv/app/x.py'', ''python-line'', 3)]"
  "server_name demo_break_env (jp_db demo_set) ''/home/me/x.py'' = ''/srv/app/x.py''"
  "sm_to_server (db_mapping (jp_db demo_set)) = []"
  "server_name demo_break_env (jp_db demo_set) ''/home/me/nb.py'' = ''/srv/app/nb.py''"
  "map_option lb_line (breakpoint_at (jp_db demo_set) ''/srv/app/x.py'' 2) = Some 2"
  using demo_set_eval by (simp_all only: Let_def prod.inject)

lemma demo_set_run: "fst (on_setpydevdsourcemap_request demo_break_env ''/home/me/nb.py'' demo_map demo_set) = Inr []"
  unfolding demo_set_def demo_launched_def by code_simp

lemma demo_received:
  obtains p where "db_received (jp_db demo_set) = [((''/home/me/x.py'', 3), ''/srv/app/x.py'', p)]"
    "bp_type p = ''python-line''" "bp_line p = 3"
  using demo_set_facts(1) that by (auto simp: map_eq_Cons_conv split: prod.splits)

lemma demo_set:
  "reachable (\<lambda>j. j = new_json_processor demo_launch) (json_step demo_launch) demo_set"
  "unmapped demo_break_env ''/home/me/x.py'' ''/srv/app/x.py'' (jp_db demo_set)"
  "alone_in (jp_db demo_set) ''/home/me/x.py'' ''/srv/app/x.py''"
proof -
  have "json_step demo_launch demo_launched demo_set"
    using json_step.set_breakpoints [of demo_launch demo_launched] by (simp add: demo_set_def demo_launch_def)
  with demo_launched(1) show "reachable (\<lambda>j. j = new_json_processor demo_launch) (json_step demo_launch) demo_set"
    by (rule reachable_step)
  show "unmapped demo_break_env ''/home/me/x.py'' ''/srv/app/x.py'' (jp_db demo_set)"
    by (simp add: unmapped_def demo_set_facts entries_of_def)
  obtain p where "db_received (jp_db demo_set) = [((''/home/me/x.py'', 3), ''/srv/app/x.py'', p)]" by (rule demo_received)
  then show "alone_in (jp_db demo_set) ''/home/me/x.py'' ''/srv/app/x.py''" by (simp add: alone_in_def)
qed


theorem reapplied_breakpoints_not_adjusted_witness:
  "\<exists>k. on_setpydevdsourcemap_request demo_break_env ''/home/me/nb.py'' demo_map demo_set = (Inr [], k) \<and>
    {l. breakpoint_at (jp_db k) ''/srv/app/x.py'' l \<noteq> None} = {3} \<and> adjusted_line demo_break_env ''/srv/app/x.py'' 3 = 2"
proof -
  obtain k where k: "on_setpydevdsourcemap_request demo_break_env ''/home/me/nb.py'' demo_map demo_set = (Inr [], k)"
    using demo_set_run by (metis prod.collapse)
  have "server_name demo_break_env (jp_db demo_set) ''/home/me/nb.py'' \<noteq> ''/srv/app/x.py''" by (simp add: demo_set_facts)
  moreover have "''/srv/app/x.py'' \<notin> en_runtime_source ` set demo_map" by (simp add: demo_map_def new_entry_def)
  ultimately have lines: "{l. breakpoint_at (jp_db k) ''/srv/app/x.py'' l \<noteq> None} =
      {bp_line p |i p. map_of (db_received (jp_db demo_set)) (''/home/me/x.py'', i) = Some (''/srv/app/x.py'', p) \<and>
        bp_type p = ''python-line''}"
    by (intro reapplied_breakpoints_not_adjusted [OF demo_set(1) _ demo_set(2,3) demo_lines(1) _ _ k])
      (simp_all add: demo_launch_def)
  obtain p where p: "db_received (jp_db demo_set) = [((''/home/me/x.py'', 3), ''/srv/app/x.py'', p)]"
    "bp_type p = ''python-line''" "bp_line p = 3" by (rule demo_received)
  have "{l. breakpoint_at (jp_db k) ''/srv/app/x.py'' l \<noteq> None} = {3}" unfolding lines using p by (auto split: if_splits)
  moreover have "adjusted_line demo_break_env ''/srv/app/x.py'' 3 = 2" by code_simp
  ultimately show ?thesis using k by blast
qed

section \<open>Removing a breakpoint of a cell\<close>

lemma remove_breakpoint_effect:
  assumes "path_inv (be_os E) (db_paths s)"
  shows "db_received (snd (remove_breakpoint E f ''python-line'' i s)) = od_del (f, i) (db_received s) \<and>
    (\<forall>g. g \<noteq> server_name E s f \<longrightarrow>
      map_of (db_breakpoints (snd (remove_breakpoint E f ''python-line'' i s))) g = map_of (db_breakpoints s) g)"
proof -
  let ?s = "s\<lparr>db_received := od_del (f, i) (db_received s)\<rparr>"
  have name: "server_name E ?s f = server_name E s f" by (simp add: server_name_def)
  obtain ps where ps: "filename_to_server E f ?s = (Inr (server_name E s f), ?s\<lparr>db_paths := ps\<rparr>)"
    using filename_to_server [of E ?s f] assms name by auto
  have kind: "kind_of ''python-line'' = Some PythonLine" by simp
  show ?thesis
    by (simp add: remove_breakpoint_def ps kind Let_def table_simps del: kind_of.simps)
qed

text \<open>
  A breakpoint whose line the source mapping sends into a cell is not removed with its name and id: what
  is kept of it is forgotten, and the debugger still stops in the cell.
\<close>

theorem remove_breakpoint_misses_cell:
  assumes "path_inv (be_os E) (db_paths s)" and "bp_type p = ''python-line''"
    and "map_to_server (db_mapping s) (server_name E s (bp_filename p)) (bp_line p) = (cell, l, True)"
    and "cell \<noteq> server_name E s (bp_filename p)" and "can_break E cell"
    and "t = snd (add_breakpoint E p adjust s)"
    and "u = snd (remove_breakpoint E (bp_filename p) ''python-line'' (bp_id p) t)"
  shows "breakpoint_at u cell l \<noteq> None \<and> map_of (db_received u) (bp_filename p, bp_id p) = None"
proof -
  have target: "target_file E s (bp_filename p) (bp_line p) = cell" "target_line E s adjust (bp_filename p) (bp_line p) = l"
    using assms(3) by (simp_all add: target_file_def target_line_def)
  have add: "added E p adjust s t" unfolding assms(6) using add_breakpoint_effect [OF assms(1)] by simp
  then have paths: "path_inv (be_os E) (db_paths t)" "server_name E t = server_name E s"
    by (simp_all add: added_def same_paths_def)
  from add assms(2,5) target obtain b where b: "lb_line b = l"
    "db_breakpoints t = od_set cell (by_line (od_set (bp_id p) b (ids_in PythonLine cell s))) (db_breakpoints s)"
    by (auto simp: added_def filed_def made_from_def Let_def)
  let ?ids = "od_set (bp_id p) b (ids_in PythonLine cell s)"
  have "map_of ?ids (bp_id p) = Some b" by simp
  then have "(bp_id p, b) \<in> set ?ids" by (rule map_of_SomeD)
  with b(1) have "l \<in> (lb_line \<circ> snd) ` set ?ids" by force
  then have "map_of (by_line ?ids) l \<noteq> None" by (metis by_line_lines in_od_keys_iff)
  with remove_breakpoint_effect [OF paths(1), of "bp_filename p" "bp_id p"] assms(4) b(2) show ?thesis
    by (simp add: assms(7) paths(2) breakpoint_at_def)
qed

definition demo_mapped :: pydb where
  "demo_mapped = (new_pydb demo_break_env)\<lparr>db_mapping :=
     snd (set_source_mapping ''/nb.py'' demo_map new_source_mapping)\<rparr>"

theorem remove_breakpoint_misses_cell_witness:
  "let p = params_of ''/nb.py'' ''python-line'' \<lparr>sb_line = 2, sb_condition = None, sb_hit_condition = None, sb_log_message = None\<rparr>;
       t = snd (add_breakpoint demo_break_env p True demo_mapped);
       u = snd (remove_breakpoint demo_break_env ''/nb.py'' ''python-line'' 2 t)
   in breakpoint_at u ''<cell 1>'' 2 \<noteq> None \<and> map_of (db_received u) (''/nb.py'', 2) = None"
proof -
  let ?p = "params_of ''/nb.py'' ''python-line'' \<lparr>sb_line = 2, sb_condition = None, sb_hit_condition = None, sb_log_message = None\<rparr>"
  have path: "path_inv (be_os demo_break_env) (db_paths demo_mapped)"
    by (simp add: demo_mapped_def new_pydb_def path_inv_loaded)
  have map: "map_to_server (db_mapping demo_mapped) (server_name demo_break_env demo_mapped ''/nb.py'') 2 =
      (''<cell 1>'', 2, True)"
    unfolding demo_mapped_def by code_simp
  moreover have "server_name demo_break_env demo_mapped ''/nb.py'' = ''/nb.py''" unfolding demo_mapped_def by code_simp
  moreover have "can_break demo_break_env ''<cell 1>''" by (simp add: can_break_def synthetic_def starts_with_def)
  ultimately show ?thesis
    using remove_breakpoint_misses_cell [OF path, of ?p "''<cell 1>''" 2 _ True] by (simp add: Let_def)
qed

end
