(* ===== verification/PydevdLink.thy ===== *)
theory PydevdLink
  imports JsonStream
begin

text \<open>
  The debugger's end of the connection to the adapter: \<open>ReaderThread\<close> and \<open>WriterThread\<close> of
  \<open>pydevd_comm.py\<close> and \<open>NetCommand\<close> of \<open>pydevd_net_command.py\<close>, and that it understands \<open>JsonIOStream\<close> at the
  other end, in both directions. The protocol is the one that ptvsd sets, \<open>HTTP_JSON_PROTOCOL\<close>.

  A socket is the \<open>reader\<close> or \<open>writer\<close> of \<open>JsonStream\<close>; \<open>recv\<close> delivers at least one byte, at most
  as many as asked for, and an error of it counts as the end.
\<close>

section \<open>Reading\<close>

record link =
  lk_buffer :: bytes
  lk_sock :: reader

definition unread :: "link \<Rightarrow> bytes" where
  "unread l = lk_buffer l @ rd_data (lk_sock l)"

definition recv :: "nat \<Rightarrow> link \<Rightarrow> bytes \<times> link" where
  "recv n l = (case sock_read n (lk_sock l) of
     (Inl _, r) \<Rightarrow> ([], l\<lparr>lk_sock := r\<rparr>) | (Inr c, r) \<Rightarrow> (c, l\<lparr>lk_sock := r\<rparr>))"

lemma recv_some:
  assumes "0 < n" and "rd_data (lk_sock l) \<noteq> []"
  obtains c r where "recv n l = (c, l\<lparr>lk_sock := r\<rparr>)" and "c \<noteq> []" and "length c \<le> n" and "rd_data (lk_sock l) = c @ rd_data r"
proof -
  from sock.read_some [OF assms(2,1)] obtain c r where "sock_read n (lk_sock l) = (Inr c, r)" "c \<noteq> []" "length c \<le> n"
    "rd_data (lk_sock l) = c @ rd_data r" by blast
  with that show ?thesis by (simp add: recv_def)
qed

lemma recv_end:
  assumes "rd_data (lk_sock l) = []"
  obtains r where "recv n l = ([], l\<lparr>lk_sock := r\<rparr>)" and "rd_data r = []"
proof -
  have "recv n l = ([], l\<lparr>lk_sock := lk_sock l\<rparr>)"
    using assms by (cases "rd_fail (lk_sock l)") (simp_all add: recv_def sock_read_def rd_at_end_def)
  with that assms show ?thesis by blast
qed

lemma recv_cases:
  assumes "0 < n"
  obtains (got) c r where "recv n l = (c, l\<lparr>lk_sock := r\<rparr>)" and "c \<noteq> []" and "rd_data (lk_sock l) = c @ rd_data r"
  | (ended) r where "recv n l = ([], l\<lparr>lk_sock := r\<rparr>)" and "rd_data (lk_sock l) = []" and "rd_data r = []"
proof (cases "rd_data (lk_sock l) = []")
  case True
  then show ?thesis using recv_end [of l n] ended by metis
next
  case False
  then show ?thesis using recv_some [OF assms False] got by metis
qed

lemma recv_shorter:
  "recv n l = (r, l') \<Longrightarrow> 0 < n \<Longrightarrow> r \<noteq> [] \<Longrightarrow> length (rd_data (lk_sock l')) < length (rd_data (lk_sock l))"
  by (erule recv_cases [of n l]) auto

text \<open>\<open>find(b'\n')\<close>, and the line with its newline.\<close>

definition cut_line :: "bytes \<Rightarrow> (bytes \<times> bytes) option" where
  "cut_line s = (if LF \<in> set s then Some (takeWhile (\<lambda>c. c \<noteq> LF) s @ [LF], drop 1 (dropWhile (\<lambda>c. c \<noteq> LF) s)) else None)"

function pl_read_line :: "link \<Rightarrow> bytes \<times> link" where
  "pl_read_line l =
    (case cut_line (lk_buffer l) of
       Some (line, rest) \<Rightarrow> (line, l\<lparr>lk_buffer := rest\<rparr>)
     | None \<Rightarrow>
         (case recv 1024 l of
            (r, l') \<Rightarrow> if r = [] then ([], l') else pl_read_line (l'\<lparr>lk_buffer := lk_buffer l' @ r\<rparr>)))"
  by pat_completeness auto
termination
  by (relation "measure (\<lambda>l. length (rd_data (lk_sock l)))") (auto dest: recv_shorter [OF sym])

declare pl_read_line.simps [simp del]

text \<open>Slices with a negative bound count from the end.\<close>

definition slice_point :: "int \<Rightarrow> bytes \<Rightarrow> nat" where
  "slice_point n s = nat (if n < 0 then max 0 (int (length s) + n) else n)"

function pl_read :: "int \<Rightarrow> link \<Rightarrow> bytes \<times> link" where
  "pl_read n l =
    (let buffer = lk_buffer l; buffer_len = int (length buffer) in
     if buffer_len = n then (buffer, l\<lparr>lk_buffer := []\<rparr>)
     else if n < buffer_len
     then (take (slice_point n buffer) buffer, l\<lparr>lk_buffer := drop (slice_point n buffer) buffer\<rparr>)
     else
       (case recv (nat (max (n - buffer_len) 1024)) l of
          (r, l') \<Rightarrow> if r = [] then ([], l') else pl_read n (l'\<lparr>lk_buffer := lk_buffer l' @ r\<rparr>)))"
  by pat_completeness auto
termination
  by (relation "measure (\<lambda>(_, l). length (rd_data (lk_sock l)))") (auto dest: recv_shorter [OF sym])

declare pl_read.simps [simp del]

section \<open>The reader thread\<close>

text \<open>
  What it has handed to \<open>process_net_command_json\<close> and to \<open>process_command\<close>, and whether it has called
  \<open>_terminate_on_socket_close\<close>.
\<close>

record reader_thread =
  rt_link :: link
  rt_content_len :: int
  rt_json :: "bytes list"
  rt_commands :: "(int \<times> int \<times> bytes) list"
  rt_terminated :: bool

definition without_newline :: "bytes \<Rightarrow> bytes" where
  "without_newline line =
    (case rev line of
       b # a # _ \<Rightarrow> if a = LF \<and> b = LF then take (length line - 2) line
         else if b = LF \<or> b = CR then butlast line else line
     | [b] \<Rightarrow> if b = LF \<or> b = CR then [] else line
     | [] \<Rightarrow> line)"

text \<open>\<open>line.split('\t', 2)\<close> and the two numbers; anything wrong with them is only logged.\<close>

definition parse_command :: "bytes \<Rightarrow> (int \<times> int \<times> bytes) option" where
  "parse_command line =
    (let tab = (\<lambda>c. c \<noteq> CHR 0x09);
         a = takeWhile tab line; rest = dropWhile tab line;
         b = takeWhile tab (drop 1 rest); rest' = dropWhile tab (drop 1 rest)
     in if rest = [] \<or> rest' = [] then None
        else case (parse_int a, parse_int b) of
            (Some i, Some j) \<Rightarrow> Some (i, j, drop 1 rest')
          | _ \<Rightarrow> None)"

definition content_length_prefix :: bytes where
  "content_length_prefix = ''Content-Length:''"

text \<open>
  One iteration of the loop of \<open>_on_run\<close>, and whether it is the last one. \<open>fails\<close> says for
  which messages the processor raises: that, like a number that cannot be read and a line that is not
  UTF-8, ends the thread.
\<close>

definition reader_iteration :: "bool \<Rightarrow> (bytes \<Rightarrow> bool) \<Rightarrow> reader_thread \<Rightarrow> bool \<times> reader_thread" where
  "reader_iteration killed fails st =
    (case pl_read_line (rt_link st) of
       (line, l) \<Rightarrow>
         let st = st\<lparr>rt_link := l\<rparr>; stop = (True, st\<lparr>rt_terminated := True\<rparr>) in
         if line = [] then stop
         else if killed then (False, st)
         else if starts_with line content_length_prefix then
           (case parse_int (header_value (strip line)) of
              None \<Rightarrow> stop
            | Some n \<Rightarrow> (False, st\<lparr>rt_content_len := n\<rparr>))
         else if rt_content_len st \<noteq> - 1 then
           if line = CRLF then
             (case pl_read (rt_content_len st) l of
                (body, l) \<Rightarrow>
                  let st = st\<lparr>rt_link := l, rt_content_len := - 1\<rparr> in
                  if body = [] then (True, st\<lparr>rt_terminated := True\<rparr>)
                  else
                    let st = st\<lparr>rt_json := rt_json st @ [body]\<rparr> in
                    if fails body then (True, st\<lparr>rt_terminated := True\<rparr>) else (False, st))
           else (False, st)
         else
           let line = without_newline line in
           if \<not> utf8_ok line then stop
           else (False, case parse_command line of None \<Rightarrow> st | Some c \<Rightarrow> st\<lparr>rt_commands := rt_commands st @ [c]\<rparr>))"

lemma cut_line_append: "LF \<notin> set l \<Longrightarrow> cut_line (l @ LF # t) = Some (l @ [LF], t)"
  by (simp add: cut_line_def takeWhile_LF dropWhile_LF)

lemma cut_line_obtain:
  assumes "cut_line s = Some (line, t)"
  obtains l where "s = l @ LF # t" and "LF \<notin> set l" and "line = l @ [LF]"
proof -
  have "LF \<in> set s" using assms by (simp add: cut_line_def split: if_splits)
  then obtain l r where "s = l @ LF # r" "LF \<notin> set l" using split_list_first by metis
  with assms that show ?thesis by (simp add: cut_line_append)
qed

lemma cut_line_Some: "cut_line s = Some (line, t) \<Longrightarrow> s = line @ t \<and> line \<noteq> []"
  by (erule cut_line_obtain) simp

lemma cut_line_more: "cut_line s = Some (line, t) \<Longrightarrow> cut_line (s @ u) = Some (line, t @ u)"
  by (erule cut_line_obtain) (simp add: cut_line_append)

text \<open>The line that is read is the first one of all that comes, however it comes.\<close>

lemma pl_read_line_spec:
  "case cut_line (unread l) of
     Some (line, t) \<Rightarrow> \<exists>l'. pl_read_line l = (line, l') \<and> unread l' = t
   | None \<Rightarrow> fst (pl_read_line l) = []"
proof (induction l rule: pl_read_line.induct)
  case (1 l)
  show ?case
  proof (cases "cut_line (lk_buffer l)")
    case (Some p)
    then obtain line t where p: "cut_line (lk_buffer l) = Some (line, t)" by (cases p) auto
    from cut_line_more [OF this, of "rd_data (lk_sock l)"] p show ?thesis
      by (simp add: unread_def pl_read_line.simps [of l])
  next
    case None
    show ?thesis
    proof (rule recv_cases [of 1024 l])
      fix c r assume *: "recv 1024 l = (c, l\<lparr>lk_sock := r\<rparr>)" "c \<noteq> []" "rd_data (lk_sock l) = c @ rd_data r"
      let ?l = "l\<lparr>lk_sock := r, lk_buffer := lk_buffer l @ c\<rparr>"
      have "unread ?l = unread l" by (simp add: unread_def *(3))
      moreover have "pl_read_line l = pl_read_line ?l" by (simp add: pl_read_line.simps [of l] None *)
      ultimately show ?thesis using 1 [OF None *(1) [symmetric] *(2)] by (cases "cut_line (unread l)") auto
    next
      fix r assume *: "recv 1024 l = ([], l\<lparr>lk_sock := r\<rparr>)" "rd_data (lk_sock l) = []"
      with None show ?thesis by (simp add: unread_def pl_read_line.simps [of l])
    qed simp
  qed
qed

lemma pl_read_line_shorter:
  assumes "pl_read_line l = (line, l')" and "line \<noteq> []"
  shows "length (unread l') < length (unread l)"
proof (cases "cut_line (unread l)")
  case (Some p)
  then obtain t where "unread l = line @ t" "unread l' = t"
    using pl_read_line_spec [of l] assms cut_line_Some by (cases p) fastforce
  with assms(2) show ?thesis by simp
qed (use pl_read_line_spec [of l] assms in simp)

text \<open>Exactly as many bytes as asked for, if they come.\<close>

lemma pl_read_exact:
  "unread l = body @ t \<Longrightarrow> length body = k \<Longrightarrow> \<exists>l'. pl_read (int k) l = (body, l') \<and> unread l' = t"
proof (induction "length (rd_data (lk_sock l))" arbitrary: l rule: less_induct)
  case less
  consider (all) "length (lk_buffer l) = k" | (more) "k < length (lk_buffer l)" | (less) "length (lk_buffer l) < k" by linarith
  then show ?case
  proof cases
    case all
    with less.prems show ?thesis by (simp add: pl_read.simps [of _ l] unread_def)
  next
    case more
    with less.prems have "take k (lk_buffer l) = body" "drop k (lk_buffer l) @ rd_data (lk_sock l) = t"
      by (auto simp: unread_def append_eq_append_conv_if)
    with more show ?thesis by (simp add: pl_read.simps [of _ l] unread_def slice_point_def)
  next
    case less
    let ?n = "nat (max (int k - int (length (lk_buffer l))) 1024)"
    show ?thesis
    proof (rule recv_cases [of ?n l])
      fix c r assume *: "recv ?n l = (c, l\<lparr>lk_sock := r\<rparr>)" "c \<noteq> []" "rd_data (lk_sock l) = c @ rd_data r"
      let ?l = "l\<lparr>lk_sock := r, lk_buffer := lk_buffer l @ c\<rparr>"
      have "unread ?l = body @ t" using \<open>unread l = body @ t\<close> by (simp add: unread_def *(3))
      with less.hyps [of ?l] * \<open>length body = k\<close> obtain l' where "pl_read (int k) ?l = (body, l')" "unread l' = t" by auto
      moreover have "pl_read (int k) l = pl_read (int k) ?l"
        using less by (simp add: pl_read.simps [of _ l] * Let_def)
      ultimately show ?thesis by simp
    next
      fix r assume "rd_data (lk_sock l) = []"
      with less.prems less show ?thesis by (simp add: unread_def)
    qed simp
  qed
qed

lemma pl_read_not_longer: "length (unread (snd (pl_read n l))) \<le> length (unread l)"
proof (induction n l rule: pl_read.induct)
  case (1 n l)
  show ?case
  proof (cases "int (length (lk_buffer l)) \<le> n \<and> int (length (lk_buffer l)) \<noteq> n")
    case False
    then show ?thesis by (auto simp: pl_read.simps [of n l] unread_def Let_def)
  next
    case True
    let ?n = "nat (max (n - int (length (lk_buffer l))) 1024)"
    show ?thesis
    proof (rule recv_cases [of ?n l])
      fix c r assume *: "recv ?n l = (c, l\<lparr>lk_sock := r\<rparr>)" "c \<noteq> []" "rd_data (lk_sock l) = c @ rd_data r"
      let ?l = "l\<lparr>lk_sock := r, lk_buffer := lk_buffer l @ c\<rparr>"
      have "pl_read n l = pl_read n ?l" using True by (simp add: pl_read.simps [of n l] * Let_def)
      moreover have "unread ?l = unread l" by (simp add: unread_def *(3))
      ultimately show ?thesis using 1 [OF refl refl _ _ *(1) [symmetric] *(2)] True by auto
    next
      fix r assume *: "recv ?n l = ([], l\<lparr>lk_sock := r\<rparr>)" "rd_data (lk_sock l) = []" "rd_data r = []"
      have "pl_read n l = ([], l\<lparr>lk_sock := r\<rparr>)" using True by (simp add: pl_read.simps [of n l] * Let_def)
      with * show ?thesis by (simp add: unread_def)
    qed simp
  qed
qed

lemma reader_iteration_shorter:
  assumes "reader_iteration killed fails st = (False, st')"
  shows "length (unread (rt_link st')) < length (unread (rt_link st))"
proof -
  obtain line l where l: "pl_read_line (rt_link st) = (line, l)" by fastforce
  with assms have "line \<noteq> []" by (auto simp: reader_iteration_def Let_def)
  from pl_read_line_shorter [OF l this] have *: "length (unread l) < length (unread (rt_link st))" .
  moreover have "length (unread (snd (pl_read (rt_content_len st) l))) \<le> length (unread l)" by (rule pl_read_not_longer)
  ultimately have "length (unread (snd (pl_read (rt_content_len st) l))) < length (unread (rt_link st))" by simp
  with * assms l show ?thesis
    by (cases "pl_read (rt_content_len st) l")
      (auto simp: reader_iteration_def Let_def split: if_splits option.splits)
qed

function reader_run :: "bool \<Rightarrow> (bytes \<Rightarrow> bool) \<Rightarrow> reader_thread \<Rightarrow> reader_thread" where
  "reader_run killed fails st =
    (case reader_iteration killed fails st of (True, st') \<Rightarrow> st' | (False, st') \<Rightarrow> reader_run killed fails st')"
  by pat_completeness auto
termination
  by (relation "measure (\<lambda>(_, _, st). length (unread (rt_link st)))") (auto dest: reader_iteration_shorter [OF sym])

declare reader_run.simps [simp del]

section \<open>What the adapter writes\<close>

lemma next_line:
  assumes "unread l = line @ LF # t" and "LF \<notin> set line"
  obtains l' where "pl_read_line l = (line @ [LF], l')" and "unread l' = t"
  using pl_read_line_spec [of l] assms that by (auto simp: cut_line_append)

definition header_line :: "nat \<Rightarrow> bytes" where
  "header_line n = content_length_prefix @ '' '' @ show_nat n @ CRLF"

lemma dropWhile_hd: "w \<noteq> [] \<Longrightarrow> \<not> P (hd w) \<Longrightarrow> dropWhile P (w @ v) = w @ v"
  by (cases w) auto

lemma strip_trailing:
  assumes "w \<noteq> []" and "\<not> is_blank (hd w)" and "\<not> is_blank (last w)" and "\<forall>c \<in> set ws. is_blank c"
  shows "strip (w @ ws) = w"
proof -
  have "dropWhile is_blank (rev ws @ rev w) = dropWhile is_blank (rev w)"
    using assms(4) by (intro dropWhile_append2) auto
  also have "\<dots> = rev w" using dropWhile_hd [of "rev w" is_blank "[]"] assms(1,3) by (simp add: hd_rev)
  finally show ?thesis using dropWhile_hd [of w is_blank ws] assms(1,2) by (simp add: strip_def)
qed

lemma strip_header: "strip (header_line n) = content_length_prefix @ '' '' @ show_nat n"
proof -
  have "last (show_nat n) \<in> set (show_nat n)" by simp
  then have "\<not> is_blank (last (show_nat n))" using show_nat_digits [of n] digit_not_blank by blast
  then show ?thesis
    using strip_trailing [of "content_length_prefix @ '' '' @ show_nat n" CRLF]
    by (simp add: header_line_def content_length_prefix_def is_blank_def)
qed

text \<open>The two lines of the header, and then the body.\<close>

lemma frame_handled:
  assumes "unread (rt_link st) = frame body @ t" and "body \<noteq> []"
  shows "\<exists>l. unread l = t \<and>
    (let st' = st\<lparr>rt_link := l, rt_content_len := - 1, rt_json := rt_json st @ [body]\<rparr>
     in reader_run False fails st = (if fails body then st'\<lparr>rt_terminated := True\<rparr> else reader_run False fails st'))"
proof -
  let ?line = "content_length_prefix @ '' '' @ show_nat (length body) @ [CR]"
  have "LF \<notin> set (show_nat (length body))" using show_nat_digits [of "length body"] by (auto simp: is_digit_def)
  then have no_LF: "LF \<notin> set ?line" by (simp add: content_length_prefix_def)
  have "unread (rt_link st) = ?line @ LF # (CRLF @ body @ t)"
    by (simp add: assms(1) frame_def header_def header_name_def content_length_prefix_def)
  from next_line [OF this no_LF] obtain l1 where l1: "pl_read_line (rt_link st) = (header_line (length body), l1)"
    "unread l1 = CRLF @ body @ t" by (auto simp: header_line_def)
  have number: "header_value (strip (header_line (length body))) = '' '' @ show_nat (length body)"
    by (simp add: strip_header header_value_def content_length_prefix_def)
  let ?st1 = "st\<lparr>rt_link := l1, rt_content_len := int (length body)\<rparr>"
  have "header_line (length body) \<noteq> []" "starts_with (header_line (length body)) content_length_prefix"
    by (simp_all add: header_line_def content_length_prefix_def starts_with_def)
  then have one: "reader_iteration False fails st = (False, ?st1)"
    by (simp add: reader_iteration_def l1(1) Let_def number parse_int_space)
  from next_line [of l1 "[CR]" "body @ t"] l1(2) obtain l2 where l2: "pl_read_line l1 = (CRLF, l2)" "unread l2 = body @ t" by auto
  from pl_read_exact [OF l2(2) refl] obtain l3 where l3: "pl_read (int (length body)) l2 = (body, l3)" "unread l3 = t" by blast
  let ?st3 = "st\<lparr>rt_link := l3, rt_content_len := - 1, rt_json := rt_json st @ [body]\<rparr>"
  have "reader_iteration False fails ?st1 = (if fails body then (True, ?st3\<lparr>rt_terminated := True\<rparr>) else (False, ?st3))"
    by (simp add: reader_iteration_def l2(1) Let_def starts_with_def content_length_prefix_def l3(1) assms(2))
  with one have "reader_run False fails st = (if fails body then ?st3\<lparr>rt_terminated := True\<rparr> else reader_run False fails ?st3)"
    by (simp add: reader_run.simps [of _ _ st] reader_run.simps [of _ _ ?st1])
  with l3(2) show ?thesis by (auto simp: Let_def)
qed

text \<open>The messages up to the first one that cannot be processed, this one included.\<close>

fun until_failure :: "('a \<Rightarrow> bool) \<Rightarrow> 'a list \<Rightarrow> 'a list" where
  "until_failure fails [] = []"
| "until_failure fails (x # xs) = (if fails x then [x] else x # until_failure fails xs)"

lemma until_failure_all: "\<forall>x \<in> set xs. \<not> fails x \<Longrightarrow> until_failure fails xs = xs"
  by (induction xs) auto

lemma frames_handled:
  "unread (rt_link st) = concat (map frame bodies) \<Longrightarrow> [] \<notin> set bodies \<Longrightarrow>
    rt_json (reader_run False fails st) = rt_json st @ until_failure fails bodies \<and>
    rt_terminated (reader_run False fails st) \<and> rt_commands (reader_run False fails st) = rt_commands st"
proof (induction bodies arbitrary: st)
  case Nil
  have "fst (pl_read_line (rt_link st)) = []" using pl_read_line_spec [of "rt_link st"] Nil by (simp add: cut_line_def)
  then have "\<exists>l. reader_iteration False fails st = (True, st\<lparr>rt_link := l, rt_terminated := True\<rparr>)"
    by (cases "pl_read_line (rt_link st)") (auto simp: reader_iteration_def Let_def)
  then show ?case by (auto simp: reader_run.simps [of _ _ st])
next
  case (Cons body bodies)
  then obtain l where l: "unread l = concat (map frame bodies)"
    "reader_run False fails st =
      (let st' = st\<lparr>rt_link := l, rt_content_len := - 1, rt_json := rt_json st @ [body]\<rparr>
       in if fails body then st'\<lparr>rt_terminated := True\<rparr> else reader_run False fails st')"
    using frame_handled [of st body "concat (map frame bodies)" fails] by (auto simp: Let_def)
  show ?case
    using Cons.IH [of "st\<lparr>rt_link := l, rt_content_len := - 1, rt_json := rt_json st @ [body]\<rparr>"] l Cons.prems(2)
    by (simp add: Let_def)
qed

section \<open>Commands and the writer thread\<close>

text \<open>
  A command of a dict: the number is the one given, or the next of the class for 0; \<open>dumps\<close> is
  \<open>json.dumps\<close> and the UTF-8 encoding.
\<close>

record net_command =
  nc_id :: int
  nc_seq :: int
  nc_dict :: "(string, jv) odict"
  nc_bytes :: bytes

definition new_net_command :: "(jv \<Rightarrow> bytes) \<Rightarrow> int \<Rightarrow> int \<Rightarrow> (string, jv) odict \<Rightarrow> int \<Rightarrow> net_command \<times> int" where
  "new_net_command dumps cmd_id seq dct next_seq =
    (let next_seq = (if seq = 0 then next_seq + 2 else next_seq);
         seq = (if seq = 0 then next_seq else seq);
         dct = od_set ''seq'' (JInt seq) (od_set ''pydevd_cmd_id'' (JInt cmd_id) dct)
     in (\<lparr>nc_id = cmd_id, nc_seq = seq, nc_dict = dct, nc_bytes = dumps (JObj dct)\<rparr>, next_seq))"

text \<open>\<open>NULL_EXIT_COMMAND\<close> and \<open>NULL_NET_COMMAND\<close> send nothing.\<close>

datatype queued = Command net_command | NullExit | NullCommand

definition cmd_exit :: int where "cmd_exit = 129"

definition is_exit :: "queued \<Rightarrow> bool" where
  "is_exit q = (case q of Command c \<Rightarrow> nc_id c = cmd_exit | NullExit \<Rightarrow> True | NullCommand \<Rightarrow> False)"

text \<open>\<open>sendall\<close>, twice; \<open>None\<close> is a socket that takes nothing for ever.\<close>

definition send :: "queued \<Rightarrow> writer \<Rightarrow> ((exn + unit) \<times> writer) option" where
  "send q w =
    (case q of
       Command c \<Rightarrow>
         (case write_all sock_write (header (length (nc_bytes c))) w of
            Some (Inr _, w') \<Rightarrow> write_all sock_write (nc_bytes c) w'
          | r \<Rightarrow> r)
     | _ \<Rightarrow> Some (Inr (), w))"

record writer_thread =
  wt_queue :: "queued list"
  wt_killed :: bool
  wt_terminated :: bool

definition add_command :: "queued \<Rightarrow> writer_thread \<Rightarrow> writer_thread" where
  "add_command q t = (if wt_killed t then t else t\<lparr>wt_queue := wt_queue t @ [q]\<rparr>)"

text \<open>The exit command is put into the queue before the flag is set.\<close>

definition kill_writer :: "queued \<Rightarrow> writer_thread \<Rightarrow> writer_thread" where
  "kill_writer exit_command t = (if wt_killed t then t else (add_command exit_command t)\<lparr>wt_killed := True\<rparr>)"

text \<open>The loop of \<open>_on_run\<close> over what is in the queue, and whether sending failed.\<close>

fun writer_run :: "queued list \<Rightarrow> writer \<Rightarrow> (bool \<times> writer) option" where
  "writer_run [] w = Some (False, w)"
| "writer_run (q # qs) w =
    (case send q w of
       None \<Rightarrow> None
     | Some (Inl e, w') \<Rightarrow> Some (True, w')
     | Some (Inr _, w') \<Rightarrow> if is_exit q then Some (False, w') else writer_run qs w')"

text \<open>What goes out: the commands up to the one that ends the thread.\<close>

definition body_of :: "queued \<Rightarrow> bytes list" where
  "body_of q = (case q of Command c \<Rightarrow> [nc_bytes c] | _ \<Rightarrow> [])"

definition sent_bodies :: "queued list \<Rightarrow> bytes list" where
  "sent_bodies qs = concat (map body_of (until_failure is_exit qs))"

lemma send_frame:
  assumes "no_failure w"
  shows "\<exists>w'. send q w = Some (Inr (), w') \<and> no_failure w' \<and> wr_out w' = wr_out w @ concat (map frame (body_of q))"
proof (cases q)
  case (Command c)
  from write_all_no_failure [OF assms, of "header (length (nc_bytes c))"] obtain w1 where w1:
    "write_all sock_write (header (length (nc_bytes c))) w = Some (Inr (), w1)" "no_failure w1" by blast
  from write_all_no_failure [OF w1(2), of "nc_bytes c"] obtain w2 where w2:
    "write_all sock_write (nc_bytes c) w1 = Some (Inr (), w2)" "no_failure w2" by blast
  from sockw.write_all_prefix [OF w1(1)] sockw.write_all_prefix [OF w2(1)]
  have "wr_out w2 = wr_out w @ frame (nc_bytes c)" by (auto simp: frame_def)
  with w1 w2 Command show ?thesis by (simp add: send_def body_of_def)
qed (use assms in \<open>simp_all add: send_def body_of_def\<close>)

lemma writer_run_frames:
  "no_failure w \<Longrightarrow> \<exists>w'. writer_run qs w = Some (False, w') \<and> wr_out w' = wr_out w @ concat (map frame (sent_bodies qs))"
proof (induction qs arbitrary: w)
  case (Cons q qs)
  from send_frame [OF Cons.prems, of q] obtain w1 where "send q w = Some (Inr (), w1)" "no_failure w1"
    "wr_out w1 = wr_out w @ concat (map frame (body_of q))" by blast
  with Cons.IH [of w1] show ?case by (cases "is_exit q") (auto simp: sent_bodies_def)
qed (simp add: sent_bodies_def)

section \<open>The link in both directions\<close>

lemma frames_bodies: "\<forall>v \<in> set vs. codec_ok enc dec v \<Longrightarrow> frames enc vs = concat (map frame (map (projr \<circ> enc) vs))"
  by (induction vs) (auto simp: frames_def codec_ok_def)

text \<open>
  C38: What the adapter writes with \<open>write_json\<close> reaches \<open>process_net_command_json\<close>, message by message and in order, whatever
  part of the data each \<open>send\<close> takes and each \<open>recv\<close> delivers, until a message for which the processor raises: that one
  ends the reader thread and the debugging with it, and what was sent after it is lost.
\<close>

theorem adapter_messages_reach_debugger:
  assumes "\<forall>v \<in> set vs. codec_ok enc dec v \<and> enc v \<noteq> Inr []" and "no_failure w"
    and "write_values sock_write sock_flush enc sid vs w = Some (res, w')"
    and "unread (rt_link st) = drop (length (wr_out w)) (wr_out w')"
  shows "rt_json (reader_run False fails st) = rt_json st @ until_failure fails (map (projr \<circ> enc) vs) \<and>
    rt_terminated (reader_run False fails st)"
proof -
  have codec: "\<forall>v \<in> set vs. codec_ok enc dec v" using assms(1) by blast
  have "unread (rt_link st) = concat (map frame (map (projr \<circ> enc) vs))"
    using write_values_frames [OF codec assms(2), of sid] assms(3,4) frames_bodies [OF codec] by auto
  moreover have "[] \<notin> set (map (projr \<circ> enc) vs)" using assms(1) by (force simp: codec_ok_def)
  ultimately show ?thesis using frames_handled by blast
qed

theorem adapter_messages_reach_debugger_witness:
  "\<exists>w' r. write_values sock_write sock_flush Inr 0 [''[1]'', ''{}''] slow_writer = Some (Inr (), w') \<and>
    r = \<lparr>rd_data = drop 1 (wr_out w'), rd_sched = [1, 7], rd_fail = None\<rparr> \<and>
    rt_json (reader_run False (\<lambda>_. False) \<lparr>rt_link = \<lparr>lk_buffer = [], lk_sock = r\<rparr>, rt_content_len = - 1, rt_json = [],
      rt_commands = [], rt_terminated = False\<rparr>) = [''[1]'', ''{}'']"
proof -
  have codec: "\<forall>v \<in> set [''[1]'', ''{}'']. codec_ok Inr Inr v \<and> Inr v \<noteq> (Inr [] :: exn + bytes)"
    by (auto simp: codec_ok_def max_body_size_def intro!: utf8_ok_ascii) (simp_all add: ascii_def)
  have ok: "no_failure slow_writer" by (simp add: no_failure_def slow_writer_def)
  obtain w' where w': "write_values sock_write sock_flush Inr 0 [''[1]'', ''{}''] slow_writer = Some (Inr (), w')"
    using write_values_frames [of "[''[1]'', ''{}'']" Inr Inr, OF _ ok, of 0] codec by blast
  let ?r = "\<lparr>rd_data = drop 1 (wr_out w'), rd_sched = [1, 7], rd_fail = None\<rparr>"
  let ?st = "\<lparr>rt_link = \<lparr>lk_buffer = [], lk_sock = ?r\<rparr>, rt_content_len = - 1, rt_json = [],
      rt_commands = [], rt_terminated = False\<rparr>"
  have "unread (rt_link ?st) = drop (length (wr_out slow_writer)) (wr_out w')" by (simp add: unread_def slow_writer_def)
  from adapter_messages_reach_debugger [OF codec ok w' this, of "\<lambda>_. False"] w' show ?thesis by auto
qed

lemma read_frames:
  "rd_data r = concat (map frame bs) \<Longrightarrow> \<forall>b \<in> set bs. utf8_ok b \<and> length b \<le> max_body_size \<and> dec b = Inr (val b) \<Longrightarrow>
    \<exists>r'. read_values sock_readline sock_read dec sid (length bs) r = Some (map (Inr \<circ> val) bs, r') \<and> rd_data r' = []"
proof (induction bs arbitrary: r)
  case (Cons b bs)
  then have b: "rd_data r = frame b @ concat (map frame bs)" "length b \<le> max_body_size" "utf8_ok b" "dec b = Inr (val b)"
    by simp_all
  from sock.read_json_frame [OF b(1,2), of dec sid] obtain r1 where
    "read_json sock_readline sock_read dec sid r = Some (Inr (val b), r1)" "rd_data r1 = concat (map frame bs)"
    using b(3,4) by auto
  with Cons.IH [of r1] Cons.prems(2) show ?case by auto
qed simp

text \<open>
  C39: What the debugger queues for the adapter, up to the command that ends its writer thread, is read there with
  \<open>read_json\<close> in the order of the queue.
\<close>

theorem debugger_messages_reach_adapter:
  assumes "no_failure w" and "\<forall>b \<in> set (sent_bodies qs). utf8_ok b \<and> length b \<le> max_body_size \<and> dec b = Inr (val b)"
    and "writer_run qs w = Some (failed, w')" and "rd_data r = drop (length (wr_out w)) (wr_out w')"
  shows "\<not> failed \<and> (\<exists>r'. read_values sock_readline sock_read dec sid (length (sent_bodies qs)) r =
    Some (map (Inr \<circ> val) (sent_bodies qs), r') \<and> rd_data r' = [])"
  using writer_run_frames [OF assms(1), of qs] assms(2-4) read_frames [of r "sent_bodies qs" dec val sid] by auto

theorem debugger_messages_reach_adapter_witness:
  "\<exists>w' r r'. writer_run [Command \<lparr>nc_id = 502, nc_seq = 2, nc_dict = [], nc_bytes = ''{}''\<rparr>, NullExit, NullCommand] slow_writer =
      Some (False, w') \<and> r = \<lparr>rd_data = drop 1 (wr_out w'), rd_sched = [1], rd_fail = None\<rparr> \<and>
    read_values sock_readline sock_read (Inr :: bytes \<Rightarrow> exn + bytes) 0 1 r = Some ([Inr ''{}''], r') \<and> rd_data r' = []"
proof -
  let ?qs = "[Command \<lparr>nc_id = 502, nc_seq = 2, nc_dict = [], nc_bytes = ''{}''\<rparr>, NullExit, NullCommand]"
  have bodies: "sent_bodies ?qs = [''{}'']" by (simp add: sent_bodies_def is_exit_def cmd_exit_def body_of_def)
  have ok: "no_failure slow_writer" by (simp add: no_failure_def slow_writer_def)
  obtain w' where w': "writer_run ?qs slow_writer = Some (False, w')" using writer_run_frames [OF ok] by blast
  let ?r = "\<lparr>rd_data = drop 1 (wr_out w'), rd_sched = [1], rd_fail = None\<rparr>"
  have "\<forall>b \<in> set (sent_bodies ?qs). utf8_ok b \<and> length b \<le> max_body_size \<and> (Inr b :: exn + bytes) = Inr (id b)"
    using utf8_ok_ascii [of "''{}''"] by (simp add: bodies max_body_size_def ascii_def)
  from debugger_messages_reach_adapter [OF ok this w', of ?r 0] w' show ?thesis
    by (simp add: bodies slow_writer_def)
qed

section \<open>The numbers of commands\<close>

text \<open>
  \<open>NetCommand.next_seq += 2; seq = NetCommand.next_seq\<close> on any number of threads, each read and each
  store being one step.
\<close>

datatype seq_phase = Idle | Adding int | Added

record numbering =
  nu_next :: int
  nu_phase :: "nat \<Rightarrow> seq_phase"
  nu_taken :: "int list"

definition new_numbering :: numbering where
  "new_numbering = \<lparr>nu_next = 0, nu_phase = (\<lambda>_. Idle), nu_taken = []\<rparr>"

inductive number_step :: "numbering \<Rightarrow> numbering \<Rightarrow> bool" where
  load: "nu_phase s t = Idle \<Longrightarrow> number_step s (s\<lparr>nu_phase := (nu_phase s)(t := Adding (nu_next s + 2))\<rparr>)"
| store: "nu_phase s t = Adding n \<Longrightarrow> number_step s (s\<lparr>nu_next := n, nu_phase := (nu_phase s)(t := Added)\<rparr>)"
| take: "nu_phase s t = Added \<Longrightarrow>
    number_step s (s\<lparr>nu_taken := nu_taken s @ [nu_next s], nu_phase := (nu_phase s)(t := Idle)\<rparr>)"

text \<open>Without a lock two threads can take the same number.\<close>

theorem command_numbers_can_repeat:
  "\<exists>s. reachable (\<lambda>s. s = new_numbering) number_step s \<and> \<not> distinct (nu_taken s)"
proof -
  let ?s0 = new_numbering
  let ?s1 = "?s0\<lparr>nu_phase := (nu_phase ?s0)(0 := Adding (nu_next ?s0 + 2))\<rparr>"
  let ?s2 = "?s1\<lparr>nu_phase := (nu_phase ?s1)(1 := Adding (nu_next ?s1 + 2))\<rparr>"
  let ?s3 = "?s2\<lparr>nu_next := 2, nu_phase := (nu_phase ?s2)(0 := Added)\<rparr>"
  let ?s4 = "?s3\<lparr>nu_next := 2, nu_phase := (nu_phase ?s3)(1 := Added)\<rparr>"
  let ?s5 = "?s4\<lparr>nu_taken := nu_taken ?s4 @ [nu_next ?s4], nu_phase := (nu_phase ?s4)(0 := Idle)\<rparr>"
  let ?s6 = "?s5\<lparr>nu_taken := nu_taken ?s5 @ [nu_next ?s5], nu_phase := (nu_phase ?s5)(1 := Idle)\<rparr>"
  have "reachable (\<lambda>s. s = new_numbering) number_step ?s0" by (rule reachable_init) (rule refl)
  then have "reachable (\<lambda>s. s = new_numbering) number_step ?s1" by (rule reachable_step, intro number_step.load) (simp add: new_numbering_def)
  then have "reachable (\<lambda>s. s = new_numbering) number_step ?s2" by (rule reachable_step, intro number_step.load) (simp add: new_numbering_def)
  then have "reachable (\<lambda>s. s = new_numbering) number_step ?s3" by (rule reachable_step, intro number_step.store) (simp add: new_numbering_def)
  then have "reachable (\<lambda>s. s = new_numbering) number_step ?s4" by (rule reachable_step, intro number_step.store) (simp add: new_numbering_def)
  then have "reachable (\<lambda>s. s = new_numbering) number_step ?s5" by (rule reachable_step, intro number_step.take) (simp add: new_numbering_def)
  then have "reachable (\<lambda>s. s = new_numbering) number_step ?s6" by (rule reachable_step, intro number_step.take) (simp add: new_numbering_def)
  moreover have "\<not> distinct (nu_taken ?s6)" by (simp add: new_numbering_def)
  ultimately show ?thesis by blast
qed

end
