(* ===== verification/PydevdGate.thy ===== *)
theory PydevdGate
  imports PydevdLink FileUtils
begin

text \<open>
  What happens to a request before its handler: \<open>process_net_command_json\<close> of
  \<open>pydevd_process_net_command_json.py\<close> with the authentication of \<open>PyDB\<close> (\<open>_Authentication\<close> in \<open>pydevd.py\<close>);
  and \<open>IDMap\<close>, by which "goto" finds the target of an earlier "gotoTargets".

  The handlers are a parameter: what \<open>on_<command>_request\<close> answers or raises, whether it has called
  \<open>on_disconnect\<close>, and what it does to the rest of the debugger.
\<close>

section \<open>Authentication\<close>

record authentication =
  au_access_token :: "string option"
  au_client_token :: "string option"
  au_authenticated :: "bool option"
  au_wrong :: nat

definition new_authentication :: authentication where
  "new_authentication = \<lparr>au_access_token = None, au_client_token = None, au_authenticated = None, au_wrong = 0\<rparr>"

definition is_authenticated :: "authentication \<Rightarrow> bool" where
  "is_authenticated a = (case au_authenticated a of None \<Rightarrow> au_access_token a = None | Some b \<Rightarrow> b)"

definition login :: "string option \<Rightarrow> authentication \<Rightarrow> authentication" where
  "login token a =
    (if 10 \<le> au_wrong a then a
     else if token = au_access_token a then a\<lparr>au_authenticated := Some True, au_wrong := 0\<rparr>
     else a\<lparr>au_authenticated := Some False, au_wrong := au_wrong a + 1\<rparr>)"

definition logout :: "authentication \<Rightarrow> authentication" where
  "logout a = a\<lparr>au_authenticated := None, au_wrong := 0\<rparr>"

section \<open>Processing a message\<close>

text \<open>The token is the one in the arguments of "pydevdAuthorize".\<close>

record dap_request =
  dr_type :: string
  dr_seq :: int
  dr_command :: string
  dr_token :: "string option"

text \<open>
  What \<open>from_json\<close> makes of a message; a \<open>KeyError\<close> is for an id that the client was never sent, and the
  message is then read again without looking ids up.
\<close>

datatype loaded = Loaded dap_request | UnknownId string dap_request | NotLoaded exn

datatype 'r reply = ClientNotAuthenticated int string | IdFailure int string string | Reply 'r

definition handled_commands :: "string list" where
  "handled_commands =
    [''pydevdauthorize'', ''initialize'', ''configurationdone'', ''threads'', ''terminate'', ''completions'', ''launch'',
     ''attach'', ''pause'', ''continue'', ''next'', ''stepin'', ''stepout'', ''disconnect'', ''setbreakpoints'',
     ''setexceptionbreakpoints'', ''stacktrace'', ''exceptioninfo'', ''scopes'', ''evaluate'', ''setexpression'',
     ''variables'', ''setvariable'', ''modules'', ''source'', ''gototargets'', ''goto'', ''setdebuggerproperty'',
     ''pydevdsysteminfo'', ''setpydevdsourcemap'']"

text \<open>\<open>pr_handled\<close> lists the requests whose handlers were called, \<open>pr_rest\<close> is what these work on.\<close>

record ('r, 's) processor =
  pr_auth :: authentication
  pr_replies :: "'r reply list"
  pr_handled :: "dap_request list"
  pr_rest :: 's

type_synonym ('r, 's) handler = "dap_request \<Rightarrow> 's \<Rightarrow> ((exn + 'r option) \<times> bool) \<times> 's"

definition call_handler :: "('r, 's) handler \<Rightarrow> dap_request \<Rightarrow> (('r, 's) processor, exn, 'r reply option) sem" where
  "call_handler on_request rq p =
    (case on_request rq (pr_rest p) of
       ((r, disconnected), s) \<Rightarrow>
         (case r of Inl e \<Rightarrow> Inl e | Inr x \<Rightarrow> Inr (map_option Reply x),
          p\<lparr>pr_handled := pr_handled p @ [rq], pr_rest := s,
            pr_auth := (if disconnected then logout (pr_auth p) else pr_auth p)\<rparr>))"

definition add_reply :: "'r reply \<Rightarrow> (('r, 's) processor, exn, unit) sem" where
  "add_reply r = modify (\<lambda>p. p\<lparr>pr_replies := pr_replies p @ [r]\<rparr>)"

definition authorize_command :: string where
  "authorize_command = ''pydevdAuthorize''"

definition pass_gate ::
  "dap_request \<Rightarrow> (('r, 's) processor, exn, 'r reply option) sem \<Rightarrow> (('r, 's) processor, exn, unit) sem" where
  "pass_gate rq on_request =
    andthen (modify (\<lambda>p. if dr_command rq = authorize_command
      then p\<lparr>pr_auth := login (dr_token rq) (pr_auth p)\<rparr> else p)) (\<lambda>_.
    andthen (gets (\<lambda>p. is_authenticated (pr_auth p))) (\<lambda>ok.
    if \<not> ok then add_reply (ClientNotAuthenticated (dr_seq rq) (dr_command rq))
    else andthen on_request (\<lambda>r. case r of None \<Rightarrow> ret () | Some r \<Rightarrow> add_reply r)))"

definition process_net_command_json ::
  "('r, 's) handler \<Rightarrow> loaded \<Rightarrow> (('r, 's) processor, exn, unit) sem" where
  "process_net_command_json on_request m =
    (case m of
       NotLoaded e \<Rightarrow> raise e
     | UnknownId msg rq \<Rightarrow> pass_gate rq (ret (Some (IdFailure (dr_seq rq) (dr_command rq) msg)))
     | Loaded rq \<Rightarrow>
         if dr_type rq \<noteq> ''request'' then raise (AssertionError [])
         else if lower (dr_command rq) \<notin> set handled_commands then ret ()
         else pass_gate rq (call_handler on_request rq))"

text \<open>The messages that the reader thread hands over, until one raises.\<close>

fun process_all :: "('r, 's) handler \<Rightarrow> loaded list \<Rightarrow> (('r, 's) processor, exn, unit) sem" where
  "process_all on_request [] = ret ()"
| "process_all on_request (m # ms) = andthen (process_net_command_json on_request m) (\<lambda>_. process_all on_request ms)"

section \<open>What the access token protects\<close>

definition request_of :: "loaded \<Rightarrow> dap_request option" where
  "request_of m = (case m of Loaded rq \<Rightarrow> Some rq | UnknownId _ rq \<Rightarrow> Some rq | NotLoaded _ \<Rightarrow> None)"

definition presents :: "string \<Rightarrow> loaded \<Rightarrow> bool" where
  "presents token m \<longleftrightarrow> (\<exists>rq. request_of m = Some rq \<and> dr_command rq = authorize_command \<and> dr_token rq = Some token)"

text \<open>An attempt that reaches \<open>login\<close>.\<close>

definition attempt :: "loaded \<Rightarrow> bool" where
  "attempt m \<longleftrightarrow> (\<exists>rq. request_of m = Some rq \<and> dr_command rq = authorize_command \<and>
     (m = Loaded rq \<longrightarrow> dr_type rq = ''request''))"

text \<open>Nothing has been handled since \<open>p\<close>, and the client is not let in.\<close>

definition kept_out :: "('r, 's) processor \<Rightarrow> string \<Rightarrow> ('r, 's) processor \<Rightarrow> bool" where
  "kept_out p token q \<longleftrightarrow> \<not> is_authenticated (pr_auth q) \<and> au_access_token (pr_auth q) = Some token \<and>
     pr_handled q = pr_handled p \<and> pr_rest q = pr_rest p"

lemma login_wrong:
  assumes "t \<noteq> au_access_token a \<or> 10 \<le> au_wrong a" and "\<not> is_authenticated a"
  shows "\<not> is_authenticated (login t a) \<and> au_access_token (login t a) = au_access_token a \<and>
    min 10 (au_wrong a + 1) \<le> au_wrong (login t a)"
  using assms by (auto simp: login_def is_authenticated_def)

lemma pass_gate_kept_out:
  assumes "kept_out p token q"
    and "dr_command rq = authorize_command \<Longrightarrow> dr_token rq \<noteq> Some token \<or> 10 \<le> au_wrong (pr_auth q)"
  shows "\<exists>q'. pass_gate rq on_request q = (Inr (), q') \<and> kept_out p token q' \<and>
    min 10 (au_wrong (pr_auth q) + (if dr_command rq = authorize_command then 1 else 0)) \<le> au_wrong (pr_auth q')"
proof -
  let ?q = "if dr_command rq = authorize_command then q\<lparr>pr_auth := login (dr_token rq) (pr_auth q)\<rparr> else q"
  have q: "\<not> is_authenticated (pr_auth ?q)" "au_access_token (pr_auth ?q) = Some token"
    "min 10 (au_wrong (pr_auth q) + (if dr_command rq = authorize_command then 1 else 0)) \<le> au_wrong (pr_auth ?q)"
    using assms login_wrong [of "dr_token rq" "pr_auth q"] by (auto simp: kept_out_def)
  then have "pass_gate rq on_request q =
      (Inr (), ?q\<lparr>pr_replies := pr_replies ?q @ [ClientNotAuthenticated (dr_seq rq) (dr_command rq)]\<rparr>)"
    by (simp add: pass_gate_def andthen_def modify_def gets_def add_reply_def)
  with q assms(1) show ?thesis by (auto simp: kept_out_def)
qed

lemma authorize_handled: "lower authorize_command \<in> set handled_commands"
  by code_simp

lemma process_kept_out:
  assumes "kept_out p token q" and "\<not> presents token m \<or> 10 \<le> au_wrong (pr_auth q)"
    and "process_net_command_json on_request m q = (r, q')"
  shows "kept_out p token q' \<and> (r = Inr () \<longrightarrow>
    min 10 (au_wrong (pr_auth q) + (if attempt m then 1 else 0)) \<le> au_wrong (pr_auth q'))"
proof (cases m)
  case (NotLoaded e)
  with assms show ?thesis by (auto simp: process_net_command_json_def raise_def)
next
  case (UnknownId msg rq)
  with pass_gate_kept_out [OF assms(1), of rq "ret (Some (IdFailure (dr_seq rq) (dr_command rq) msg))"] assms(2,3)
  show ?thesis by (auto simp: process_net_command_json_def presents_def attempt_def request_of_def)
next
  case (Loaded rq)
  with pass_gate_kept_out [OF assms(1), of rq "call_handler on_request rq"] assms authorize_handled
  show ?thesis
    by (auto simp: process_net_command_json_def presents_def attempt_def request_of_def raise_def ret_def split: if_splits)
qed

lemma process_all_kept_out:
  "kept_out p token q \<Longrightarrow> (\<forall>m \<in> set ms. \<not> presents token m) \<or> 10 \<le> au_wrong (pr_auth q) \<Longrightarrow>
    process_all on_request ms q = (r, q') \<Longrightarrow>
    kept_out p token q' \<and> (r = Inr () \<longrightarrow> min 10 (au_wrong (pr_auth q) + length (filter attempt ms)) \<le> au_wrong (pr_auth q'))"
proof (induction ms arbitrary: q)
  case (Cons m ms)
  obtain r1 q1 where q1: "process_net_command_json on_request m q = (r1, q1)" by fastforce
  from process_kept_out [OF Cons.prems(1) _ this] Cons.prems(2)
  have step: "kept_out p token q1" "r1 = Inr () \<longrightarrow>
    min 10 (au_wrong (pr_auth q) + (if attempt m then 1 else 0)) \<le> au_wrong (pr_auth q1)" by auto
  show ?case
  proof (cases r1)
    case (Inl e)
    with q1 step Cons.prems(3) show ?thesis by auto
  next
    case (Inr u)
    with q1 Cons.prems(3) have "process_all on_request ms q1 = (r, q')" by simp
    moreover have "(\<forall>m \<in> set ms. \<not> presents token m) \<or> 10 \<le> au_wrong (pr_auth q1)"
      using Cons.prems(2) step(2) Inr by auto
    ultimately show ?thesis using Cons.IH [OF step(1)] step(2) Inr by auto
  qed
qed (auto simp: ret_def)

lemma process_all_append:
  "process_all on_request (ms @ ns) = andthen (process_all on_request ms) (\<lambda>_. process_all on_request ns)"
  by (induction ms) (auto simp: fun_eq_iff andthen_def ret_def split: prod.splits sum.splits)

text \<open>
  C40: With an access token set, no request of a client that has not shown it reaches a handler, and after ten
  attempts with a wrong token none ever does, not even once the right token is shown.
\<close>

theorem access_token_required:
  assumes "au_access_token (pr_auth p) = Some token" and "\<not> is_authenticated (pr_auth p)"
    and "\<forall>m \<in> set ms. \<not> presents token m" and "ns = [] \<or> 10 \<le> length (filter attempt ms)"
  shows "pr_handled (snd (process_all on_request (ms @ ns) p)) = pr_handled p \<and>
    pr_rest (snd (process_all on_request (ms @ ns) p)) = pr_rest p"
proof -
  have p: "kept_out p token p" using assms(1,2) by (simp add: kept_out_def)
  obtain r q where q: "process_all on_request ms p = (r, q)" by fastforce
  from process_all_kept_out [OF p _ q] assms(3)
  have out: "kept_out p token q" "r = Inr () \<longrightarrow> min 10 (au_wrong (pr_auth p) + length (filter attempt ms)) \<le> au_wrong (pr_auth q)"
    by auto
  show ?thesis
  proof (cases r)
    case (Inl e)
    with q out show ?thesis by (simp add: process_all_append kept_out_def)
  next
    case (Inr u)
    obtain r' q' where q': "process_all on_request ns q = (r', q')" by fastforce
    have "kept_out p token q'"
      using process_all_kept_out [OF out(1) _ q'] assms(4) out q' Inr by (cases "ns = []") (auto simp: ret_def)
    with q q' Inr show ?thesis by (simp add: process_all_append kept_out_def)
  qed
qed

definition demo_request :: "string \<Rightarrow> string option \<Rightarrow> loaded" where
  "demo_request command token = Loaded \<lparr>dr_type = ''request'', dr_seq = 1, dr_command = command, dr_token = token\<rparr>"

definition demo_processor :: "(unit, nat) processor" where
  "demo_processor = \<lparr>pr_auth = new_authentication\<lparr>au_access_token := Some ''secret''\<rparr>, pr_replies = [], pr_handled = [], pr_rest = 0\<rparr>"

theorem access_token_required_witness:
  "pr_handled (snd (process_all (\<lambda>_ n. ((Inr (Some ()), False), n + 1))
     (replicate 10 (demo_request ''pydevdAuthorize'' (Some ''guess'')) @
      [demo_request ''pydevdAuthorize'' (Some ''secret''), demo_request ''threads'' None]) demo_processor)) = []"
  using access_token_required [of demo_processor "''secret''" "replicate 10 (demo_request ''pydevdAuthorize'' (Some ''guess''))"
      "[demo_request ''pydevdAuthorize'' (Some ''secret''), demo_request ''threads'' None]"
      "\<lambda>_ n. ((Inr (Some ()), False), n + 1)"]
  by (simp add: demo_processor_def new_authentication_def is_authenticated_def presents_def attempt_def request_of_def
      demo_request_def authorize_command_def)

section \<open>Targets of goto\<close>

record id_map =
  im_keys :: "(string \<times> int, nat) odict"
  im_values :: "(nat, string \<times> int) odict"
  im_next :: nat

definition new_id_map :: id_map where
  "new_id_map = \<lparr>im_keys = [], im_values = [], im_next = 0\<rparr>"

definition obtain_value :: "nat \<Rightarrow> id_map \<Rightarrow> exn + string \<times> int" where
  "obtain_value k m = (case map_of (im_values m) k of None \<Rightarrow> Inl (KeyError (show_nat k)) | Some v \<Rightarrow> Inr v)"

definition obtain_key :: "string \<times> int \<Rightarrow> id_map \<Rightarrow> nat \<times> id_map" where
  "obtain_key v m =
    (case map_of (im_keys m) v of
       Some k \<Rightarrow> (k, m)
     | None \<Rightarrow> (im_next m, m\<lparr>im_next := im_next m + 1, im_values := od_set (im_next m) v (im_values m),
         im_keys := od_set v (im_next m) (im_keys m)\<rparr>))"

inductive id_step :: "id_map \<Rightarrow> id_map \<Rightarrow> bool" where
  ask: "id_step m (snd (obtain_key v m))"

definition id_inv :: "id_map \<Rightarrow> bool" where
  "id_inv m \<longleftrightarrow> (\<forall>v k. map_of (im_keys m) v = Some k \<longleftrightarrow> map_of (im_values m) k = Some v) \<and>
     (\<forall>k v. map_of (im_values m) k = Some v \<longrightarrow> k < im_next m)"

lemma id_inv_obtain_key: "id_inv m \<Longrightarrow> id_inv (snd (obtain_key v m))"
  by (auto simp: id_inv_def obtain_key_def split: option.splits) (force dest: less_not_refl2)+

interpretation goto_targets: inductive_invariant "\<lambda>m. m = new_id_map" id_step id_inv
proof unfold_locales
  fix m n assume "id_inv m" and "id_step m n"
  then show "id_inv n" by (auto elim!: id_step.cases intro: id_inv_obtain_key)
qed (auto simp: new_id_map_def id_inv_def)

lemma id_invD:
  assumes "id_inv m"
  shows "map_of (im_keys m) v = Some k \<Longrightarrow> map_of (im_values m) k = Some v"
    and "map_of (im_values m) k = Some v \<Longrightarrow> k < im_next m"
  using assms unfolding id_inv_def by blast+

lemma obtain_key_found: "id_inv m \<Longrightarrow> map_of (im_values (snd (obtain_key v m))) (fst (obtain_key v m)) = Some v"
  by (cases "map_of (im_keys m) v") (simp_all add: obtain_key_def id_invD)

lemma ids_stay:
  assumes "id_inv m" and "map_of (im_values m) k = Some v"
  shows "map_of (im_values (snd (obtain_key u m))) k = Some v"
  using assms(2) id_invD(2) [OF assms] by (cases "map_of (im_keys m) u") (simp_all add: obtain_key_def)

lemma ids_stay_all:
  "id_inv m \<Longrightarrow> map_of (im_values m) k = Some v \<Longrightarrow> map_of (im_values (foldl (\<lambda>m u. snd (obtain_key u m)) m us)) k = Some v"
  by (induction us arbitrary: m) (auto simp: id_inv_obtain_key ids_stay)

text \<open>
  The id that a "gotoTargets" request answers with leads "goto" to the same file and line, whatever other
  targets are asked for before and after.
\<close>

theorem goto_target_found:
  assumes "reachable (\<lambda>m. m = new_id_map) id_step m"
  shows "obtain_value (fst (obtain_key v m)) (foldl (\<lambda>m u. snd (obtain_key u m)) (snd (obtain_key v m)) us) = Inr v"
proof -
  have "id_inv m" using assms by (rule goto_targets.holds)
  from ids_stay_all [OF id_inv_obtain_key [OF this] obtain_key_found [OF this]] show ?thesis by (simp add: obtain_value_def)
qed

theorem goto_target_found_witness:
  "let (k, m) = obtain_key (''/a.py'', 3) new_id_map; (k', m') = obtain_key (''/a.py'', 7) m
   in obtain_value k m' = Inr (''/a.py'', 3) \<and> k' \<noteq> k"
proof -
  have "reachable (\<lambda>m. m = new_id_map) id_step new_id_map" by (rule reachable_init) (rule refl)
  from goto_target_found [OF this, of "(''/a.py'', 3)" "[(''/a.py'', 7)]"] show ?thesis
    by (simp add: obtain_key_def new_id_map_def)
qed

end
