(* ===== verification/ExceptionBreakpoints.thy ===== *)
theory ExceptionBreakpoints
  imports LogPoints DebugOptions
begin

text \<open>
  Exception breakpoints: \<open>on_setexceptionbreakpoints_request\<close> of \<open>pydevd_process_net_command_json.py\<close> with the
  functions of \<open>pydevd_api.py\<close> and \<open>PyDB\<close> that it calls, finding the class of a name
  (\<open>pydevd_import_class.py\<close>), the breakpoint that an exception meets (\<open>get_exception_breakpoint\<close>), and whether
  the debugger stops at a caught exception (\<open>should_stop_on_exception\<close> of \<open>pydevd_frame.py\<close>) or at one that
  ends its thread (\<open>stop_on_unhandled_exception\<close>).

  The objects of the debugged program are a parameter, \<open>objects\<close>; so are the result of a template plugin and
  the evaluation of a condition. An exception's traceback is the list of its frames, the first one
  being where the exception is seen and the last one where it was raised.
\<close>

section \<open>Classes by their names\<close>

text \<open>
  Objects are numbers, 0 is \<open>None\<close>. \<open>ob_eval\<close> is \<open>eval\<close> in the module of the debugger and \<open>ob_import\<close> is
  \<open>__import__\<close>; both give \<open>None\<close> when they raise.
\<close>

record objects =
  ob_eval :: "string \<Rightarrow> nat option"
  ob_import :: "string \<Rightarrow> nat option"
  ob_attr :: "nat \<Rightarrow> string \<Rightarrow> nat option"
  ob_name :: "nat \<Rightarrow> string option"
  ob_module :: "nat \<Rightarrow> string"
  ob_issubclass :: "nat \<Rightarrow> nat \<Rightarrow> bool"
  ob_system_exit :: nat
  ob_generator_exit :: nat
  ob_stop_iteration :: nat
  ob_keyboard_interrupt :: nat

datatype lookup = Found nat | NotImported | LookupRaises exn

text \<open>\<open>name[0:name.rfind('.')]\<close> of a name with a dot.\<close>

definition before_last_dot :: "string \<Rightarrow> string" where
  "before_last_dot name = rev (drop 1 (dropWhile (\<lambda>c. c \<noteq> CHR ''.'') (rev name)))"

lemma before_last_dot_shorter: "CHR ''.'' \<in> set name \<Longrightarrow> length (before_last_dot name) < length name"
proof -
  assume "CHR ''.'' \<in> set name"
  then have "dropWhile (\<lambda>c. c \<noteq> CHR ''.'') (rev name) \<noteq> []" by auto
  moreover have "length (dropWhile (\<lambda>c. c \<noteq> CHR ''.'') (rev name)) \<le> length name"
    using length_dropWhile_le [of "\<lambda>c. c \<noteq> CHR ''.''" "rev name"] by simp
  ultimately show ?thesis
    by (cases "dropWhile (\<lambda>c. c \<noteq> CHR ''.'') (rev name)") (auto simp: before_last_dot_def)
qed

function imp :: "objects \<Rightarrow> string \<Rightarrow> nat option" where
  "imp G name =
    (case ob_import G name of
       Some m \<Rightarrow> Some m
     | None \<Rightarrow> if CHR ''.'' \<in> set name then imp G (before_last_dot name) else None)"
  by pat_completeness auto
termination by (relation "measure (\<lambda>(G, name). length name)") (auto simp: before_last_dot_shorter)

declare imp.simps [simp del]

text \<open>An attribute that is missing is passed over if it has the name of the one before.\<close>

fun walk_attributes :: "objects \<Rightarrow> nat \<Rightarrow> string option \<Rightarrow> string list \<Rightarrow> exn + nat" where
  "walk_attributes G m old [] = Inr m"
| "walk_attributes G m old (name # names) =
    (case ob_attr G m name of
       Some m' \<Rightarrow> walk_attributes G m' (Some name) names
     | None \<Rightarrow> if old \<noteq> Some name then Inl (AttributeError name) else walk_attributes G m (Some name) names)"

definition import_name :: "objects \<Rightarrow> string \<Rightarrow> lookup" where
  "import_name G name =
    (case imp G name of
       None \<Rightarrow> NotImported
     | Some m \<Rightarrow> (case walk_attributes G m None (drop 1 (split_on (CHR ''.'') name)) of
         Inl e \<Rightarrow> LookupRaises e | Inr x \<Rightarrow> Found x))"

definition get_exception_class :: "objects \<Rightarrow> string \<Rightarrow> lookup" where
  "get_exception_class G kls = (case ob_eval G kls of Some x \<Rightarrow> Found x | None \<Rightarrow> import_name G kls)"

section \<open>The breakpoints\<close>

record exception_breakpoint =
  xb_qname :: string
  xb_condition :: "string option"
  xb_expression :: "string option"
  xb_handled :: bool
  xb_unhandled :: bool
  xb_first_raise_only :: bool
  xb_ignore_libraries :: bool
  xb_type :: "nat option"

text \<open>\<open>ExceptionBreakpoint.__init__\<close>: an object without a \<open>__name__\<close> raises.\<close>

definition new_exception_breakpoint ::
  "objects \<Rightarrow> string \<Rightarrow> string option \<Rightarrow> string option \<Rightarrow> bool \<Rightarrow> bool \<Rightarrow> bool \<Rightarrow> bool \<Rightarrow> lookup + exception_breakpoint" where
  "new_exception_breakpoint G qname condition expression handled unhandled first_only libraries =
    (case get_exception_class G qname of
       Found x \<Rightarrow>
         if x \<noteq> 0 \<and> ob_name G x = None then Inl (LookupRaises (AttributeError ''__name__''))
         else Inr \<lparr>xb_qname = qname, xb_condition = condition, xb_expression = expression, xb_handled = handled,
           xb_unhandled = unhandled, xb_first_raise_only = first_only, xb_ignore_libraries = libraries,
           xb_type = (if x = 0 then None else Some x)\<rparr>
     | e \<Rightarrow> Inl e)"

text \<open>
  Beside the debugger's other state: the two tables, those of the plugins, and the settings of
  \<open>should_stop_on_exception\<close>.
\<close>

record exc_db =
  xd_db :: pydb
  xd_uncaught :: "(string, exception_breakpoint) odict"
  xd_caught :: "(string, exception_breakpoint) odict"
  xd_plugin :: "break_kind \<Rightarrow> (string, bool) odict"
  xd_has_plugin :: bool
  xd_exit_codes :: "jv list"
  xd_skip_same_context :: bool

type_synonym 'a xact = "(exc_db, exn, 'a) sem"

definition new_exc_db :: "break_env \<Rightarrow> exc_db" where
  "new_exc_db E = \<lparr>xd_db = new_pydb E, xd_uncaught = [], xd_caught = [], xd_plugin = (\<lambda>_. []), xd_has_plugin = False,
     xd_exit_codes = [], xd_skip_same_context = False\<rparr>"

definition on_pydb :: "'a dbact \<Rightarrow> 'a xact" where
  "on_pydb m s = (case m (xd_db s) of (r, db) \<Rightarrow> (r, s\<lparr>xd_db := db\<rparr>))"

definition add_break_on_exception ::
  "objects \<Rightarrow> string \<Rightarrow> string option \<Rightarrow> string option \<Rightarrow> bool \<Rightarrow> bool \<Rightarrow> bool \<Rightarrow> bool \<Rightarrow> exception_breakpoint option xact" where
  "add_break_on_exception G x condition expression handled unhandled first_only libraries s =
    (case new_exception_breakpoint G x condition expression handled unhandled first_only libraries of
       Inl (LookupRaises e) \<Rightarrow> (Inl e, s)
     | Inl _ \<Rightarrow> (Inr None, s)
     | Inr eb \<Rightarrow>
         let s = (if xb_unhandled eb then s\<lparr>xd_uncaught := od_set x eb (xd_uncaught s)\<rparr> else s);
             s = (if xb_handled eb then s\<lparr>xd_caught := od_set x eb (xd_caught s)\<rparr> else s)
         in (Inr (Some eb), s))"

definition add_python_exception_breakpoint ::
  "objects \<Rightarrow> string \<Rightarrow> string option \<Rightarrow> string option \<Rightarrow> bool \<Rightarrow> bool \<Rightarrow> bool \<Rightarrow> bool \<Rightarrow> unit xact" where
  "add_python_exception_breakpoint G x condition expression handled unhandled first_only libraries =
    andthen (add_break_on_exception G x condition expression handled unhandled first_only libraries) (\<lambda>eb.
    if eb \<noteq> None then on_pydb on_breakpoints_changed else ret ())"

text \<open>\<open>has_exception_breaks\<close> of the active plugins.\<close>

definition has_exception_breaks :: "exc_db \<Rightarrow> bool" where
  "has_exception_breaks s = list_ex (\<lambda>k. xd_plugin s k \<noteq> []) (db_active_plugins (xd_db s))"

definition exception_kind :: "string \<Rightarrow> break_kind option" where
  "exception_kind t = (if t = ''django'' then Some DjangoLine else if t = ''jinja2'' then Some Jinja2Line else None)"

definition add_plugins_exception_breakpoint :: "break_env \<Rightarrow> string \<Rightarrow> string \<Rightarrow> unit xact" where
  "add_plugins_exception_breakpoint E t x =
    (case (if be_plugins E then exception_kind t else None) of
       None \<Rightarrow> raise (RuntimeError (''NameError: '' @ t))
     | Some k \<Rightarrow>
         andthen (modify (\<lambda>s.
           let s = s\<lparr>xd_plugin := (xd_plugin s)(k := od_set x True (xd_plugin s k)), xd_db := activate k (xd_db s)\<rparr>
           in s\<lparr>xd_has_plugin := has_exception_breaks s\<rparr>)) (\<lambda>_.
         on_pydb on_breakpoints_changed))"

text \<open>The flag \<open>has_plugin_exception_breaks\<close> is left as it was.\<close>

definition remove_all_exception_breakpoints :: "unit xact" where
  "remove_all_exception_breakpoints =
    andthen (modify (\<lambda>s. s\<lparr>xd_uncaught := [], xd_caught := [],
      xd_plugin := (\<lambda>k. if k \<in> set (db_active_plugins (xd_db s)) then [] else xd_plugin s k)\<rparr>)) (\<lambda>_.
    on_pydb on_breakpoints_changed)"

definition remove_python_exception_breakpoint :: "string \<Rightarrow> unit xact" where
  "remove_python_exception_breakpoint x =
    andthen (modify (\<lambda>s. s\<lparr>xd_uncaught := od_del x (xd_uncaught s), xd_caught := od_del x (xd_caught s)\<rparr>)) (\<lambda>_.
    on_pydb on_breakpoints_changed)"

section \<open>The request\<close>

record path_segment =
  sg_names :: "string list"
  sg_negate :: "bool option"

record exception_option =
  eo_mode :: string
  eo_path :: "path_segment list option"

definition valid_modes :: "string list" where
  "valid_modes = [''never'', ''always'', ''unhandled'', ''userUnhandled'']"

definition category :: string where "category = ''Python Exceptions''"

text \<open>The names that a path selects; \<open>sg_negate\<close> is not looked at.\<close>

fun names_of_path :: "path_segment list \<Rightarrow> string list" where
  "names_of_path [] = []"
| "names_of_path [seg] = (if category \<in> set (sg_names seg) then [''BaseException''] else [])"
| "names_of_path (seg # rest) = (if category \<in> set (sg_names seg) then concat (map sg_names rest) else [])"

fun add_names :: "objects \<Rightarrow> bool \<Rightarrow> bool \<Rightarrow> bool \<Rightarrow> string list \<Rightarrow> unit xact" where
  "add_names G handled unhandled libraries [] = ret ()"
| "add_names G handled unhandled libraries (x # xs) =
    andthen (add_python_exception_breakpoint G x None None handled unhandled False libraries) (\<lambda>_.
    add_names G handled unhandled libraries xs)"

fun add_options :: "objects \<Rightarrow> bool \<Rightarrow> exception_option list \<Rightarrow> unit xact" where
  "add_options G libraries [] = ret ()"
| "add_options G libraries (opt # opts) =
    (if eo_mode opt \<notin> set valid_modes then raise (AssertionError [])
     else case eo_path opt of
         None \<Rightarrow> add_options G libraries opts
       | Some path \<Rightarrow>
           andthen (add_names G (eo_mode opt = ''always'') (eo_mode opt \<in> {''unhandled'', ''userUnhandled''}) libraries
             (names_of_path path)) (\<lambda>_.
           add_options G libraries opts))"

definition plugin_of :: "debug_options \<Rightarrow> string option" where
  "plugin_of d = (if do_django_debug d then Some ''django'' else if do_flask_debug d then Some ''jinja2'' else None)"

definition on_setexceptionbreakpoints_request ::
  "objects \<Rightarrow> break_env \<Rightarrow> debug_options \<Rightarrow> string list \<Rightarrow> exception_option list option \<Rightarrow> unit xact" where
  "on_setexceptionbreakpoints_request G E d filters options =
    andthen remove_all_exception_breakpoints (\<lambda>_.
    andthen (gets (\<lambda>s. ff_use_libraries_filter (fl_filtering (db_filters (xd_db s))))) (\<lambda>libraries.
    let opts = (case options of None \<Rightarrow> [] | Some opts \<Rightarrow> opts);
        raised = (opts \<noteq> [] \<or> ''raised'' \<in> set filters);
        uncaught = (opts \<noteq> [] \<or> ''uncaught'' \<in> set filters)
    in andthen
         (if opts \<noteq> [] then add_options G libraries opts
          else if raised \<or> uncaught
          then add_python_exception_breakpoint G ''BaseException'' None None raised uncaught False libraries
          else ret ()) (\<lambda>_.
       if raised \<or> uncaught
       then (case plugin_of d of
               None \<Rightarrow> ret ()
             | Some t \<Rightarrow> add_plugins_exception_breakpoint E t ''BaseException'')
       else ret ())))"

section \<open>Which breakpoint an exception meets\<close>

definition full_qname :: "objects \<Rightarrow> nat \<Rightarrow> string" where
  "full_qname G c = ob_module G c @ ''.'' @ (case ob_name G c of None \<Rightarrow> [] | Some n \<Rightarrow> n)"

definition more_specific :: "objects \<Rightarrow> nat \<Rightarrow> exception_breakpoint option \<Rightarrow> exception_breakpoint \<Rightarrow> exception_breakpoint option" where
  "more_specific G c exc eb =
    (case xb_type eb of
       None \<Rightarrow> exc
     | Some t \<Rightarrow>
         if ob_issubclass G c t \<and>
            (case exc of None \<Rightarrow> True | Some e \<Rightarrow> (case xb_type e of None \<Rightarrow> False | Some u \<Rightarrow> ob_issubclass G t u))
         then Some eb else exc)"

definition get_exception_breakpoint ::
  "objects \<Rightarrow> nat \<Rightarrow> (string, exception_breakpoint) odict \<Rightarrow> exception_breakpoint option" where
  "get_exception_breakpoint G c exceptions =
    (case map_of exceptions (full_qname G c) of
       Some eb \<Rightarrow> Some eb
     | None \<Rightarrow> foldl (more_specific G c) None (map snd exceptions))"

section \<open>Whether the debugger stops\<close>

record stop_env =
  se_objects :: objects
  se_filter :: filter_env
  se_eval :: evaluator
  se_skips :: "string \<Rightarrow> bool"
  se_text :: "string \<Rightarrow> string option"

definition import_hook_files :: "string list" where
  "import_hook_files = [''pydev_monkey_qt.py'', ''pydev_import_hook.py'']"

definition ignore_exception_trace :: "frame list \<Rightarrow> bool" where
  "ignore_exception_trace tb =
    list_ex (\<lambda>fr. let filename = co_filename (f_code fr) in
      filename \<in> {''<frozen importlib._bootstrap>'', ''<frozen importlib._bootstrap_external>''} \<or>
      list_ex (ends_with filename) import_hook_files) tb"

definition just_raised :: "frame list \<Rightarrow> bool" where
  "just_raised tb \<longleftrightarrow> length tb = 1"

text \<open>\<open>handle_breakpoint_condition\<close> of an exception breakpoint, which has no hit condition.\<close>

definition exception_condition :: "stop_env \<Rightarrow> string option \<Rightarrow> bool" where
  "exception_condition S condition =
    (case condition of
       None \<Rightarrow> True
     | Some c \<Rightarrow> if c = [] then False else (case se_eval S c of Some v \<Rightarrow> v | None \<Rightarrow> \<not> se_skips S c))"

text \<open>
  \<open>code\<close> is what \<open>ignore_system_exit_code\<close> compares. The result is whether to stop, in which frame, and the message
  that is set.
\<close>

definition should_stop_on_exception ::
  "stop_env \<Rightarrow> bool \<Rightarrow> (bool \<times> frame) option \<Rightarrow> frame \<Rightarrow> nat \<Rightarrow> jv \<Rightarrow> frame list \<Rightarrow> exc_db \<Rightarrow>
    (bool \<times> frame \<times> string option) \<times> exc_db" where
  "should_stop_on_exception S suspended plugin_result fr c code tb s =
    (let fr = (case plugin_result of Some (_, f) \<Rightarrow> f | None \<Rightarrow> fr) in
     if suspended \<or> tb = [] then ((False, fr, None), s)
     else if (case plugin_result of Some (stop, _) \<Rightarrow> stop | None \<Rightarrow> False) then ((True, fr, None), s)
     else case get_exception_breakpoint (se_objects S) c (xd_caught s) of
         None \<Rightarrow> ((False, fr, None), s)
       | Some eb \<Rightarrow>
           if c = ob_system_exit (se_objects S) \<and> py_in code (xd_exit_codes s) then ((False, fr, None), s)
           else if c \<in> {ob_generator_exit (se_objects S), ob_stop_iteration (se_objects S)} then ((False, fr, None), s)
           else if \<not> exception_condition S (xb_condition eb) then ((False, fr, None), s)
           else
             (case exclude_exception_by_filter (se_filter S) (xb_ignore_libraries eb) (Some (hd tb)) (db_filters (xd_db s)) of
                (x, fl) \<Rightarrow>
                  let s = s\<lparr>xd_db := (xd_db s)\<lparr>db_filters := fl\<rparr>\<rparr> in
                  if x then ((False, fr, None), s)
                  else if ignore_exception_trace tb then ((False, fr, None), s)
                  else if just_raised tb \<and> xd_skip_same_context s then ((False, fr, None), s)
                  else if xb_first_raise_only eb \<and>
                    (if xd_skip_same_context s then \<not> just_raised tb \<and> \<not> just_raised (tl tb) else \<not> just_raised tb)
                  then ((False, fr, None), s)
                  else ((True, fr, Some (case xb_expression eb of
                           None \<Rightarrow> xb_qname eb
                         | Some e \<Rightarrow> (case se_text S e of None \<Rightarrow> xb_qname eb | Some t \<Rightarrow> t))), s)))"

fun user_frame :: "filter_env \<Rightarrow> bool \<Rightarrow> frame list \<Rightarrow> frame option \<Rightarrow> filters \<Rightarrow> frame option \<times> filters" where
  "user_frame E libraries [] u s = (u, s)"
| "user_frame E libraries (fr # tb) u s =
    (case exclude_exception_by_filter E libraries (Some fr) s of
       (x, s) \<Rightarrow> user_frame E libraries tb (if x then u else Some fr) s)"

text \<open>The message is the exception's name even after an expression was evaluated.\<close>

definition stop_on_unhandled_exception ::
  "stop_env \<Rightarrow> nat \<Rightarrow> jv \<Rightarrow> frame list \<Rightarrow> exc_db \<Rightarrow> (frame \<times> string) option \<times> exc_db" where
  "stop_on_unhandled_exception S c code tb s =
    (case (if xd_uncaught s \<noteq> [] then get_exception_breakpoint (se_objects S) c (xd_uncaught s) else None) of
       None \<Rightarrow> (None, s)
     | Some eb \<Rightarrow>
         if tb = [] then (None, s)
         else if c = ob_keyboard_interrupt (se_objects S) then (None, s)
         else if c = ob_system_exit (se_objects S) \<and> py_in code (xd_exit_codes s) then (None, s)
         else
           (case user_frame (se_filter S) (xb_ignore_libraries eb) tb None (db_filters (xd_db s)) of
              (u, fl) \<Rightarrow>
                let s = s\<lparr>xd_db := (xd_db s)\<lparr>db_filters := fl\<rparr>\<rparr> in
                case u of
                  None \<Rightarrow> (None, s)
                | Some fr \<Rightarrow>
                    if \<not> exception_condition S (xb_condition eb) then (None, s) else (Some (fr, xb_qname eb), s)))"

section \<open>The most specific breakpoint\<close>

definition catches :: "objects \<Rightarrow> nat \<Rightarrow> exception_breakpoint \<Rightarrow> nat \<Rightarrow> bool" where
  "catches G c eb t \<longleftrightarrow> xb_type eb = Some t \<and> ob_issubclass G c t"

lemma more_specific_None: "more_specific G c None eb = (if \<exists>t. catches G c eb t then Some eb else None)"
  by (auto simp: more_specific_def catches_def split: option.splits)

lemma more_specific_Some:
  "xb_type e = Some t \<Longrightarrow>
    more_specific G c (Some e) eb = (if \<exists>u. catches G c eb u \<and> ob_issubclass G u t then Some eb else Some e)"
  by (auto simp: more_specific_def catches_def split: option.splits)

lemma more_specific_fold:
  assumes "transp (ob_issubclass G)"
  shows "case foldl (more_specific G c) None ebs of
      None \<Rightarrow> \<forall>eb \<in> set ebs. \<forall>t. \<not> catches G c eb t
    | Some eb \<Rightarrow> eb \<in> set ebs \<and> (\<exists>t. catches G c eb t \<and>
        (\<forall>eb' \<in> set ebs. \<forall>u. catches G c eb' u \<longrightarrow> ob_issubclass G u t \<longrightarrow> ob_issubclass G t u))"
proof (induction ebs rule: rev_induct)
  case (snoc x ebs)
  show ?case
  proof (cases "foldl (more_specific G c) None ebs")
    case None
    with snoc show ?thesis by (auto simp: more_specific_None catches_def)
  next
    case (Some e)
    with snoc obtain t where t: "e \<in> set ebs" "catches G c e t"
      "\<forall>eb' \<in> set ebs. \<forall>u. catches G c eb' u \<longrightarrow> ob_issubclass G u t \<longrightarrow> ob_issubclass G t u" by auto
    show ?thesis
    proof (cases "\<exists>u. catches G c x u \<and> ob_issubclass G u t")
      case True
      then obtain u where u: "catches G c x u" "ob_issubclass G u t" by blast
      have "\<forall>eb' \<in> set (ebs @ [x]). \<forall>v. catches G c eb' v \<longrightarrow> ob_issubclass G v u \<longrightarrow> ob_issubclass G u v"
      proof (intro ballI allI impI)
        fix eb' v assume *: "eb' \<in> set (ebs @ [x])" "catches G c eb' v" "ob_issubclass G v u"
        show "ob_issubclass G u v"
        proof (cases "eb' \<in> set ebs")
          case True
          with t(3) * transpD [OF assms *(3) u(2)] transpD [OF assms u(2)] show ?thesis by blast
        next
          case False
          with * u(1) show ?thesis by (auto simp: catches_def)
        qed
      qed
      with Some t(2) u show ?thesis by (auto simp: more_specific_Some catches_def)
    next
      case False
      with t have "\<forall>eb' \<in> set (ebs @ [x]). \<forall>u. catches G c eb' u \<longrightarrow> ob_issubclass G u t \<longrightarrow> ob_issubclass G t u" by auto
      moreover have "xb_type e = Some t" using t(2) by (simp add: catches_def)
      ultimately show ?thesis using Some t(1,2) False by (auto simp: more_specific_Some)
    qed
  qed
qed simp

text \<open>
  C36: Which breakpoint an exception meets: the one of its own full name if there is one; otherwise one of those
  for a class above its own, none of the others being for a class further down; and none only when there is
  no such breakpoint. Whether a class is below another is taken to be transitive.
\<close>

theorem get_exception_breakpoint_spec:
  assumes "transp (ob_issubclass G)"
  shows "case get_exception_breakpoint G c xs of
      None \<Rightarrow> full_qname G c \<notin> set (od_keys xs) \<and> (\<forall>eb \<in> snd ` set xs. \<forall>t. \<not> catches G c eb t)
    | Some eb \<Rightarrow> map_of xs (full_qname G c) = Some eb \<or>
        full_qname G c \<notin> set (od_keys xs) \<and> eb \<in> snd ` set xs \<and> (\<exists>t. catches G c eb t \<and>
          (\<forall>eb' \<in> snd ` set xs. \<forall>u. catches G c eb' u \<longrightarrow> ob_issubclass G u t \<longrightarrow> ob_issubclass G t u))"
proof (cases "map_of xs (full_qname G c)")
  case None
  then have "full_qname G c \<notin> set (od_keys xs)" by (simp add: in_od_keys_iff)
  with None more_specific_fold [OF assms, where c = c and ebs = "map snd xs"] show ?thesis
    by (auto simp: get_exception_breakpoint_def split: option.splits)
qed (simp add: get_exception_breakpoint_def)

section \<open>What the request sets\<close>

text \<open>A name that stands for a class, and the breakpoint that is made for it.\<close>

definition known :: "objects \<Rightarrow> string \<Rightarrow> bool" where
  "known G n \<longleftrightarrow> (\<exists>x. get_exception_class G n = Found x \<and> (x = 0 \<or> ob_name G x \<noteq> None))"

definition breakpoint_for :: "objects \<Rightarrow> bool \<Rightarrow> bool \<Rightarrow> bool \<Rightarrow> string \<Rightarrow> exception_breakpoint" where
  "breakpoint_for G h u libraries n =
    \<lparr>xb_qname = n, xb_condition = None, xb_expression = None, xb_handled = h, xb_unhandled = u,
     xb_first_raise_only = False, xb_ignore_libraries = libraries,
     xb_type = (case get_exception_class G n of Found x \<Rightarrow> if x = 0 then None else Some x | _ \<Rightarrow> None)\<rparr>"

definition option_names :: "exception_option \<Rightarrow> string list" where
  "option_names opt = (case eo_path opt of None \<Rightarrow> [] | Some path \<Rightarrow> names_of_path path)"

definition always :: "exception_option \<Rightarrow> bool" where
  "always opt \<longleftrightarrow> eo_mode opt = ''always''"

definition when_unhandled :: "exception_option \<Rightarrow> bool" where
  "when_unhandled opt \<longleftrightarrow> eo_mode opt \<in> {''unhandled'', ''userUnhandled''}"

lemma add_options_Cons:
  "add_options G l (opt # opts) =
    (if eo_mode opt \<notin> set valid_modes then raise (AssertionError [])
     else andthen (add_names G (always opt) (when_unhandled opt) l (option_names opt)) (\<lambda>_. add_options G l opts))"
  by (cases "eo_path opt") (auto simp: option_names_def always_def when_unhandled_def andthen_def ret_def)

declare add_options.simps(2) [simp del]

text \<open>Names are entered in the tables, and nothing else changes but the time of the last change.\<close>

definition rest_kept :: "exc_db \<Rightarrow> exc_db \<Rightarrow> bool" where
  "rest_kept s s' \<longleftrightarrow> (xd_db s')\<lparr>db_mtime := 0\<rparr> = (xd_db s)\<lparr>db_mtime := 0\<rparr> \<and> xd_plugin s' = xd_plugin s \<and>
     xd_has_plugin s' = xd_has_plugin s \<and> xd_exit_codes s' = xd_exit_codes s \<and> xd_skip_same_context s' = xd_skip_same_context s"

definition entered :: "objects \<Rightarrow> bool \<Rightarrow> string set \<Rightarrow> string set \<Rightarrow> exc_db \<Rightarrow> exc_db \<Rightarrow> bool" where
  "entered G libraries hs us s s' \<longleftrightarrow>
    (\<forall>n. map_of (xd_caught s') n = (if n \<in> hs then Some (breakpoint_for G True False libraries n) else map_of (xd_caught s) n)) \<and>
    (\<forall>n. map_of (xd_uncaught s') n = (if n \<in> us then Some (breakpoint_for G False True libraries n) else map_of (xd_uncaught s) n)) \<and>
    rest_kept s s'"

lemma rest_kept_trans: "rest_kept s t \<Longrightarrow> rest_kept t u \<Longrightarrow> rest_kept s u"
  by (simp add: rest_kept_def)

lemma entered_trans:
  "entered G l hs us s t \<Longrightarrow> entered G l hs' us' t u \<Longrightarrow> entered G l (hs \<union> hs') (us \<union> us') s u"
  using rest_kept_trans [of s t u] by (auto simp: entered_def)

lemma entered_refl: "entered G l {} {} s s"
  by (simp add: entered_def rest_kept_def)

lemma on_breakpoints_changed_effect:
  "on_pydb on_breakpoints_changed s = (Inr (), s') \<Longrightarrow> xd_caught s' = xd_caught s \<and> xd_uncaught s' = xd_uncaught s \<and> rest_kept s s'"
  by (auto simp: on_pydb_def on_breakpoints_changed_def modify_def rest_kept_def split: if_splits)

lemma on_breakpoints_changed_ok: "\<exists>s'. on_pydb on_breakpoints_changed s = (Inr (), s')"
  by (simp add: on_pydb_def on_breakpoints_changed_def modify_def)

lemma new_breakpoint_known:
  "known G n \<Longrightarrow> new_exception_breakpoint G n None None h u False l = Inr (breakpoint_for G h u l n)"
  by (auto simp: known_def new_exception_breakpoint_def breakpoint_for_def)

lemma add_known_any:
  assumes "known G n"
  shows "\<exists>s'. add_python_exception_breakpoint G n None None h u False l s = (Inr (), s') \<and> rest_kept s s' \<and>
    xd_caught s' = (if h then od_set n (breakpoint_for G h u l n) (xd_caught s) else xd_caught s) \<and>
    xd_uncaught s' = (if u then od_set n (breakpoint_for G h u l n) (xd_uncaught s) else xd_uncaught s)"
proof -
  let ?b = "breakpoint_for G h u l n"
  let ?t = "s\<lparr>xd_uncaught := (if u then od_set n ?b (xd_uncaught s) else xd_uncaught s),
    xd_caught := (if h then od_set n ?b (xd_caught s) else xd_caught s)\<rparr>"
  have *: "add_break_on_exception G n None None h u False l s = (Inr (Some ?b), ?t)"
    using assms by (simp add: add_break_on_exception_def new_breakpoint_known Let_def breakpoint_for_def)
  obtain s' where s': "on_pydb on_breakpoints_changed ?t = (Inr (), s')" using on_breakpoints_changed_ok by blast
  have "rest_kept s ?t" by (simp add: rest_kept_def)
  with on_breakpoints_changed_effect [OF s'] have "rest_kept s s'" using rest_kept_trans by blast
  with * s' on_breakpoints_changed_effect [OF s'] show ?thesis by (simp add: add_python_exception_breakpoint_def andthen_def)
qed

lemma add_known:
  assumes "known G n" and "\<not> (h \<and> u)"
  shows "\<exists>s'. add_python_exception_breakpoint G n None None h u False l s = (Inr (), s') \<and>
    entered G l (if h then {n} else {}) (if u then {n} else {}) s s'"
  using add_known_any [OF assms(1), of h u l s] assms(2) by (cases h; cases u) (auto simp: entered_def)

lemma add_names_known:
  "\<forall>n \<in> set ns. known G n \<Longrightarrow> \<not> (h \<and> u) \<Longrightarrow>
    \<exists>s'. add_names G h u l ns s = (Inr (), s') \<and>
      entered G l (if h then set ns else {}) (if u then set ns else {}) s s'"
proof (induction ns arbitrary: s)
  case Nil
  then show ?case using entered_refl by (cases h; cases u) (auto simp: ret_def)
next
  case (Cons n ns)
  from add_known [of G n h u l s] Cons.prems obtain t where t:
    "add_python_exception_breakpoint G n None None h u False l s = (Inr (), t)"
    "entered G l (if h then {n} else {}) (if u then {n} else {}) s t" by auto
  from Cons.IH [of t] Cons.prems obtain s' where s': "add_names G h u l ns t = (Inr (), s')"
    "entered G l (if h then set ns else {}) (if u then set ns else {}) t s'" by auto
  from entered_trans [OF t(2) s'(2)] t(1) s'(1) show ?case by (cases h; cases u) (simp_all add: andthen_def)
qed

definition asked :: "(exception_option \<Rightarrow> bool) \<Rightarrow> exception_option list \<Rightarrow> string set" where
  "asked P opts = (\<Union>opt \<in> {opt \<in> set opts. P opt}. set (option_names opt))"

definition good_option :: "objects \<Rightarrow> exception_option \<Rightarrow> bool" where
  "good_option G opt \<longleftrightarrow> eo_mode opt \<in> set valid_modes \<and> (\<forall>n \<in> set (option_names opt). known G n)"

lemma asked_Cons: "asked P (opt # opts) = (if P opt then set (option_names opt) else {}) \<union> asked P opts"
  by (auto simp: asked_def)

lemma asked_Nil [simp]: "asked P [] = {}"
  by (simp add: asked_def)

lemma add_options_good:
  "\<forall>opt \<in> set opts. good_option G opt \<Longrightarrow>
    \<exists>s'. add_options G l opts s = (Inr (), s') \<and> entered G l (asked always opts) (asked when_unhandled opts) s s'"
proof (induction opts arbitrary: s)
  case Nil
  then show ?case using entered_refl by (auto simp: ret_def)
next
  case (Cons opt opts)
  then have good: "eo_mode opt \<in> set valid_modes" "\<forall>n \<in> set (option_names opt). known G n" by (auto simp: good_option_def)
  from good(1) have "\<not> (always opt \<and> when_unhandled opt)" by (auto simp: always_def when_unhandled_def)
  with add_names_known [OF good(2), of "always opt" "when_unhandled opt" l s] obtain t where t:
    "add_names G (always opt) (when_unhandled opt) l (option_names opt) s = (Inr (), t)"
    "entered G l (if always opt then set (option_names opt) else {})
      (if when_unhandled opt then set (option_names opt) else {}) s t" by auto
  from Cons.IH [of t] Cons.prems obtain s' where s': "add_options G l opts t = (Inr (), s')"
    "entered G l (asked always opts) (asked when_unhandled opts) t s'" by auto
  from entered_trans [OF t(2) s'(2)] t(1) s'(1) good(1) show ?case
    by (simp add: asked_Cons add_options_Cons)
qed

lemma remove_all_exception_breakpoints_effect:
  "\<exists>s'. remove_all_exception_breakpoints s = (Inr (), s') \<and> xd_caught s' = [] \<and> xd_uncaught s' = [] \<and>
    db_filters (xd_db s') = db_filters (xd_db s)"
proof -
  let ?t = "s\<lparr>xd_uncaught := [], xd_caught := [],
    xd_plugin := (\<lambda>k. if k \<in> set (db_active_plugins (xd_db s)) then [] else xd_plugin s k)\<rparr>"
  obtain s' where s': "on_pydb on_breakpoints_changed ?t = (Inr (), s')" using on_breakpoints_changed_ok by blast
  then have "db_filters (xd_db s') = db_filters (xd_db ?t)"
    by (auto simp: on_pydb_def on_breakpoints_changed_def modify_def split: if_splits)
  with s' on_breakpoints_changed_effect [OF s'] show ?thesis
    by (simp add: remove_all_exception_breakpoints_def andthen_def modify_def)
qed

lemma plugin_supported: "plugin_of d = Some t \<Longrightarrow> \<exists>k. exception_kind t = Some k \<and> k \<noteq> PythonLine"
  by (auto simp: plugin_of_def exception_kind_def split: if_splits)

lemma add_plugins_effect:
  assumes "be_plugins E" and "exception_kind t = Some k" and "k \<noteq> PythonLine"
  shows "\<exists>s'. add_plugins_exception_breakpoint E t x s = (Inr (), s') \<and> xd_caught s' = xd_caught s \<and>
    xd_uncaught s' = xd_uncaught s \<and> xd_plugin s' k \<noteq> [] \<and> xd_has_plugin s'"
proof -
  let ?t = "s\<lparr>xd_plugin := (xd_plugin s)(k := od_set x True (xd_plugin s k)), xd_db := activate k (xd_db s)\<rparr>"
  let ?u = "?t\<lparr>xd_has_plugin := has_exception_breaks ?t\<rparr>"
  have "k \<in> set (db_active_plugins (activate k (xd_db s)))" using assms(3) by (auto simp: activate_def)
  then have "has_exception_breaks ?t" by (auto simp: has_exception_breaks_def list_ex_iff)
  moreover obtain s' where s': "on_pydb on_breakpoints_changed ?u = (Inr (), s')" using on_breakpoints_changed_ok by blast
  moreover have "add_plugins_exception_breakpoint E t x s = (Inr (), s')"
    using assms s' by (simp add: add_plugins_exception_breakpoint_def andthen_def modify_def Let_def)
  ultimately show ?thesis using on_breakpoints_changed_effect [OF s'] by (auto simp: rest_kept_def)
qed

text \<open>The names at whose exceptions to stop when they are raised, and when they end their thread.\<close>

definition handled_names :: "string list \<Rightarrow> exception_option list \<Rightarrow> string set" where
  "handled_names filters opts =
    (if opts = [] then (if ''raised'' \<in> set filters then {''BaseException''} else {}) else asked always opts)"

definition unhandled_names :: "string list \<Rightarrow> exception_option list \<Rightarrow> string set" where
  "unhandled_names filters opts =
    (if opts = [] then (if ''uncaught'' \<in> set filters then {''BaseException''} else {}) else asked when_unhandled opts)"

definition libraries_filtered :: "exc_db \<Rightarrow> bool" where
  "libraries_filtered s = ff_use_libraries_filter (fl_filtering (db_filters (xd_db s)))"

lemma exception_breakpoints_effect:
  assumes "\<forall>opt \<in> set opts. good_option G opt" and "known G ''BaseException''" and "be_plugins E \<or> plugin_of d = None"
  shows "\<exists>s'. on_setexceptionbreakpoints_request G E d filters (Some opts) s = (Inr (), s') \<and>
    (\<forall>n. map_of (xd_caught s') n = (if n \<in> handled_names filters opts
       then Some (breakpoint_for G True (opts = [] \<and> ''uncaught'' \<in> set filters) (libraries_filtered s) n) else None)) \<and>
    (\<forall>n. map_of (xd_uncaught s') n = (if n \<in> unhandled_names filters opts
       then Some (breakpoint_for G (opts = [] \<and> ''raised'' \<in> set filters) True (libraries_filtered s) n) else None))"
proof -
  let ?l = "libraries_filtered s" and ?raised = "opts \<noteq> [] \<or> ''raised'' \<in> set filters"
  let ?uncaught = "opts \<noteq> [] \<or> ''uncaught'' \<in> set filters"
  let ?add = "if opts \<noteq> [] then add_options G ?l opts
    else if ?raised \<or> ?uncaught
    then add_python_exception_breakpoint G ''BaseException'' None None ?raised ?uncaught False ?l else ret ()"
  let ?plug = "if ?raised \<or> ?uncaught then (case plugin_of d of None \<Rightarrow> ret ()
    | Some t \<Rightarrow> add_plugins_exception_breakpoint E t ''BaseException'') else ret ()"
  from remove_all_exception_breakpoints_effect [of s] obtain t where t: "remove_all_exception_breakpoints s = (Inr (), t)"
    "xd_caught t = []" "xd_uncaught t = []" "db_filters (xd_db t) = db_filters (xd_db s)" by blast
  have "\<exists>v. ?add t = (Inr (), v) \<and>
    (\<forall>n. map_of (xd_caught v) n = (if n \<in> handled_names filters opts
       then Some (breakpoint_for G True (opts = [] \<and> ''uncaught'' \<in> set filters) ?l n) else None)) \<and>
    (\<forall>n. map_of (xd_uncaught v) n = (if n \<in> unhandled_names filters opts
       then Some (breakpoint_for G (opts = [] \<and> ''raised'' \<in> set filters) True ?l n) else None))"
  proof (cases "opts = []")
    case False
    with add_options_good [OF assms(1), of ?l t] show ?thesis
      by (auto simp: entered_def t(2,3) handled_names_def unhandled_names_def)
  next
    case True
    with add_known_any [OF assms(2), of ?raised ?uncaught ?l t] t(2,3) show ?thesis
      by (cases "''raised'' \<in> set filters"; cases "''uncaught'' \<in> set filters")
        (auto simp: handled_names_def unhandled_names_def ret_def)
  qed
  then obtain v where v: "?add t = (Inr (), v)"
    "\<forall>n. map_of (xd_caught v) n = (if n \<in> handled_names filters opts
       then Some (breakpoint_for G True (opts = [] \<and> ''uncaught'' \<in> set filters) ?l n) else None)"
    "\<forall>n. map_of (xd_uncaught v) n = (if n \<in> unhandled_names filters opts
       then Some (breakpoint_for G (opts = [] \<and> ''raised'' \<in> set filters) True ?l n) else None)" by blast
  have "\<exists>s'. ?plug v = (Inr (), s') \<and> xd_caught s' = xd_caught v \<and> xd_uncaught s' = xd_uncaught v"
    using assms(3) plugin_supported [of d] add_plugins_effect [of E _ _ "''BaseException''" v]
    by (cases "plugin_of d") (auto simp: ret_def)
  then obtain s' where s': "?plug v = (Inr (), s')" "xd_caught s' = xd_caught v" "xd_uncaught s' = xd_uncaught v" by blast
  have "on_setexceptionbreakpoints_request G E d filters (Some opts) s = andthen ?add (\<lambda>_. ?plug) t"
    using t(1,4) by (simp add: on_setexceptionbreakpoints_request_def Let_def libraries_filtered_def andthen_def gets_def)
  with v s' show ?thesis by simp
qed


lemma exception_breakpoint_found:
  assumes "transp (ob_issubclass G)" and "eb \<in> snd ` set xs" and "catches G c eb t"
  shows "get_exception_breakpoint G c xs \<noteq> None"
  using more_specific_fold [OF assms(1), where c = c and ebs = "map snd xs"] assms(2,3)
  by (auto simp: get_exception_breakpoint_def split: option.splits)

text \<open>
  An exception with the mode \<open>never\<close> is not exempted from a category that always stops: the debugger still finds
  a breakpoint for it.
\<close>

theorem never_exempts_nothing:
  assumes "\<forall>opt \<in> set opts. good_option G opt" and "be_plugins E \<or> plugin_of d = None" and "transp (ob_issubclass G)"
    and "whole \<in> set opts" and "always whole" and "''BaseException'' \<in> set (option_names whole)"
    and "get_exception_class G ''BaseException'' = Found b" and "b \<noteq> 0"
    and "never \<in> set opts" and "eo_mode never = ''never''" and "n \<in> set (option_names never)"
    and "get_exception_class G n = Found c" and "ob_issubclass G c b"
  shows "\<exists>s'. on_setexceptionbreakpoints_request G E d filters (Some opts) s = (Inr (), s') \<and>
    get_exception_breakpoint G c (xd_caught s') \<noteq> None"
proof -
  let ?b = "breakpoint_for G True (opts = [] \<and> ''uncaught'' \<in> set filters) (libraries_filtered s) ''BaseException''"
  have base: "known G ''BaseException''" using assms(1,4,6) by (auto simp: good_option_def)
  from exception_breakpoints_effect [OF assms(1) base assms(2), of filters s] obtain s' where
    s': "on_setexceptionbreakpoints_request G E d filters (Some opts) s = (Inr (), s')"
    "\<forall>n. map_of (xd_caught s') n = (if n \<in> handled_names filters opts
       then Some (breakpoint_for G True (opts = [] \<and> ''uncaught'' \<in> set filters) (libraries_filtered s) n) else None)" by blast
  have "''BaseException'' \<in> handled_names filters opts" using assms(4,5,6) by (auto simp: handled_names_def asked_def)
  with s'(2) have "map_of (xd_caught s') ''BaseException'' = Some ?b" by simp
  then have "?b \<in> snd ` set (xd_caught s')" by (metis map_of_SomeD imageI snd_conv)
  moreover have "catches G c ?b b" using assms(7,8,13) by (simp add: catches_def breakpoint_for_def)
  ultimately show ?thesis using exception_breakpoint_found [OF assms(3)] s'(1) by blast
qed

section \<open>A name that cannot be looked up\<close>

lemma add_names_append:
  "add_names G h u l (xs @ ys) = andthen (add_names G h u l xs) (\<lambda>_. add_names G h u l ys)"
  by (induction xs) (auto simp: fun_eq_iff andthen_def ret_def split: prod.splits sum.splits)

lemma add_options_append:
  "add_options G l (xs @ ys) = andthen (add_options G l xs) (\<lambda>_. add_options G l ys)"
  by (induction xs) (auto simp: fun_eq_iff add_options_Cons andthen_def ret_def raise_def split: prod.splits sum.splits)

lemma add_bad_name:
  assumes "get_exception_class G n = LookupRaises e"
  shows "add_python_exception_breakpoint G n None None h u False l s = (Inl e, s)"
  using assms by (simp add: add_python_exception_breakpoint_def add_break_on_exception_def new_exception_breakpoint_def andthen_def)

text \<open>
  C37: One name whose module can be imported but that is not in it fails the whole request: \<open>add_break_on_exception\<close> only
  expects \<open>ImportError\<close>, and the lookup raises \<open>AttributeError\<close>. The names before it are set, those
  after it are not, and neither are the breakpoints of the template plugin.
\<close>

theorem bad_name_fails_request:
  assumes "\<forall>opt \<in> set before. good_option G opt" and "eo_mode opt \<in> set valid_modes"
    and "option_names opt = ns @ n # ms" and "\<forall>n \<in> set ns. known G n"
    and "ob_eval G n = None" and "imp G n = Some m"
    and "walk_attributes G m None (drop 1 (split_on (CHR ''.'') n)) = Inl e"
  shows "\<exists>s'. on_setexceptionbreakpoints_request G E d filters (Some (before @ opt # after)) s = (Inl e, s') \<and>
    set (od_keys (xd_caught s')) = asked always before \<union> (if always opt then set ns else {}) \<and>
    set (od_keys (xd_uncaught s')) = asked when_unhandled before \<union> (if when_unhandled opt then set ns else {})"
proof -
  let ?l = "libraries_filtered s" and ?opts = "before @ opt # after"
  from remove_all_exception_breakpoints_effect [of s] obtain t where t: "remove_all_exception_breakpoints s = (Inr (), t)"
    "xd_caught t = []" "xd_uncaught t = []" "db_filters (xd_db t) = db_filters (xd_db s)" by blast
  from add_options_good [OF assms(1), of ?l t] obtain v where v: "add_options G ?l before t = (Inr (), v)"
    "entered G ?l (asked always before) (asked when_unhandled before) t v" by blast
  have "\<not> (always opt \<and> when_unhandled opt)" by (auto simp: always_def when_unhandled_def)
  with add_names_known [OF assms(4), of "always opt" "when_unhandled opt" ?l v] obtain s' where
    s': "add_names G (always opt) (when_unhandled opt) ?l ns v = (Inr (), s')"
    "entered G ?l (if always opt then set ns else {}) (if when_unhandled opt then set ns else {}) v s'" by blast
  have "get_exception_class G n = LookupRaises e"
    using assms(5,6,7) by (simp add: get_exception_class_def import_name_def)
  from add_bad_name [OF this] have "add_names G (always opt) (when_unhandled opt) ?l (option_names opt) v = (Inl e, s')"
    using s'(1) by (simp add: assms(3) add_names_append)
  then have "add_options G ?l ?opts t = (Inl e, s')" using v(1) assms(2) by (simp add: add_options_append add_options_Cons)
  then have "on_setexceptionbreakpoints_request G E d filters (Some ?opts) s = (Inl e, s')"
    using t(1,4) by (simp add: on_setexceptionbreakpoints_request_def Let_def libraries_filtered_def andthen_def gets_def)
  moreover from entered_trans [OF v(2) s'(2)] t(2,3)
  have "map_of (xd_caught s') k \<noteq> None \<longleftrightarrow> k \<in> asked always before \<union> (if always opt then set ns else {})"
    "map_of (xd_uncaught s') k \<noteq> None \<longleftrightarrow> k \<in> asked when_unhandled before \<union> (if when_unhandled opt then set ns else {})" for k
    by (auto simp: entered_def)
  ultimately show ?thesis by (auto simp: in_od_keys_iff set_eq_iff simp del: Un_iff)
qed

section \<open>Where the debugger stops\<close>

text \<open>Whether an exception seen in a frame is ignored, from the current settings alone.\<close>

definition exception_filtered :: "filter_env \<Rightarrow> filters \<Rightarrow> bool \<Rightarrow> frame \<Rightarrow> bool" where
  "exception_filtered E s libraries fr \<longleftrightarrow>
    libraries \<and> \<not> in_scope E s fr \<or> use_exclude_filters (fl_filtering s) \<and> excluded E s fr = Some True"

text \<open>What no decision changes.\<close>

definition settings_kept :: "filters \<Rightarrow> filters \<Rightarrow> bool" where
  "settings_kept s s' \<longleftrightarrow> fl_filtering s' = fl_filtering s \<and> fl_patterns s' = fl_patterns s"

lemma exception_filtered_cong: "settings_kept s s' \<Longrightarrow> exception_filtered E s' libraries fr = exception_filtered E s libraries fr"
  using decisions_cong [of s' s E fr] by (simp add: exception_filtered_def settings_kept_def)

lemma exclude_exception_ok:
  assumes "told_apart E U" and "filters_inv E U s" and "fr \<in> U"
  shows "case exclude_exception_by_filter E libraries (Some fr) s of (x, s') \<Rightarrow>
    x = exception_filtered E s libraries fr \<and> filters_inv E U s' \<and> settings_kept s s'"
proof -
  have enabled: "fl_exclude_enabled s = use_exclude_filters (fl_filtering s)" using assms(2) by (simp add: filters_inv_def)
  obtain v t where t: "(if libraries then in_project_scope E fr s else (True, s)) = (v, t)" by fastforce
  have v: "v = (libraries \<longrightarrow> in_scope E s fr)" "filters_inv E U t" "settings_kept s t"
    using in_project_scope_ok [OF assms] t assms(2) by (cases libraries; auto simp: settings_kept_def)+
  obtain x u where u: "exclude_frame_by_filter E fr (co_filename (f_code fr)) t = (x, u)" by fastforce
  have x: "x = excluded E s fr" "filters_inv E U u" "settings_kept s u"
    using exclude_frame_by_filter_ok [OF assms(1) v(2) assms(3)] u v(3) decisions_cong(2) [of t s E fr]
    by (auto simp: settings_kept_def)
  have "fl_exclude_enabled t = fl_exclude_enabled s"
    using v(2,3) assms(2) by (simp add: filters_inv_def settings_kept_def)
  with enabled have t_enabled: "fl_exclude_enabled t = use_exclude_filters (fl_filtering s)" by simp
  show ?thesis
  proof (cases "\<not> libraries \<and> \<not> fl_exclude_enabled s")
    case True
    then show ?thesis
      using assms(2) enabled by (simp add: exclude_exception_by_filter_def exception_filtered_def settings_kept_def)
  next
    case False
    then have "exclude_exception_by_filter E libraries (Some fr) s =
        (if \<not> v then (True, t) else if fl_exclude_enabled t then (x = Some True, u) else (False, t))"
      unfolding exclude_exception_by_filter_def by (simp only: False t u if_False option.case prod.case)
    with v x t_enabled show ?thesis
      by (cases v; cases "fl_exclude_enabled t") (auto simp: exception_filtered_def)
  qed
qed

lemma user_frame_ok:
  "told_apart E U \<Longrightarrow> filters_inv E U s \<Longrightarrow> set tb \<subseteq> U \<Longrightarrow>
    fst (user_frame E libraries tb u s) =
      (case filter (\<lambda>fr. \<not> exception_filtered E s libraries fr) tb of [] \<Rightarrow> u | frs \<Rightarrow> Some (last frs))"
proof (induction tb arbitrary: u s)
  case (Cons fr tb)
  obtain x t where t: "exclude_exception_by_filter E libraries (Some fr) s = (x, t)" by fastforce
  have x: "x = exception_filtered E s libraries fr" "filters_inv E U t" "settings_kept s t"
    using exclude_exception_ok [OF Cons.prems(1,2), of fr libraries] Cons.prems(3) t by auto
  from Cons.IH [OF Cons.prems(1) x(2), of "if x then u else Some fr"] Cons.prems(3) exception_filtered_cong [OF x(3)]
  show ?case by (auto simp: t x(1) split: list.splits)
qed simp

lemma filters_of_state:
  assumes "told_apart E U" and "reachable (\<lambda>s. s = new_filters E) (filter_step E U) s"
  shows "filters_inv E U s"
  using filter_caches.holds [OF assms(2)] assms(1) by blast


text \<open>
  An exception that ends its thread stops the debugger in the frame nearest to where it was raised that the
  current filters do not exclude, and not at all if they exclude every frame.
\<close>

theorem unhandled_stop_frame:
  assumes "told_apart (se_filter S) U"
    and "reachable (\<lambda>s. s = new_filters (se_filter S)) (filter_step (se_filter S) U) (db_filters (xd_db s))"
    and "set tb \<subseteq> U" and "tb \<noteq> []"
    and "get_exception_breakpoint (se_objects S) c (xd_uncaught s) = Some eb" and "exception_condition S (xb_condition eb)"
    and "c \<noteq> ob_keyboard_interrupt (se_objects S)"
    and "\<not> (c = ob_system_exit (se_objects S) \<and> py_in code (xd_exit_codes s))"
  shows "fst (stop_on_unhandled_exception S c code tb s) =
    (case filter (\<lambda>fr. \<not> exception_filtered (se_filter S) (db_filters (xd_db s)) (xb_ignore_libraries eb) fr) tb of
       [] \<Rightarrow> None | frs \<Rightarrow> Some (last frs, xb_qname eb))"
proof -
  have "xd_uncaught s \<noteq> []" using assms(5) by (auto simp: get_exception_breakpoint_def)
  with user_frame_ok [OF assms(1) filters_of_state [OF assms(1,2)] assms(3), of "xb_ignore_libraries eb" None] assms(4-8)
  show ?thesis
    by (cases "user_frame (se_filter S) (xb_ignore_libraries eb) tb None (db_filters (xd_db s))")
      (auto simp: stop_on_unhandled_exception_def Let_def split: list.splits)
qed

section \<open>Witnesses\<close>

text \<open>\<open>BaseException\<close>, \<open>Exception\<close> and \<open>ValueError\<close> as 1, 2 and 3, each below the one before, and an empty module \<open>os\<close>.\<close>

definition demo_objects :: objects where
  "demo_objects =
    \<lparr>ob_eval = map_of [(''BaseException'', 1), (''Exception'', 2), (''ValueError'', 3)],
     ob_import = (\<lambda>n. if n = ''os'' then Some 9 else None), ob_attr = (\<lambda>_ _. None), ob_name = (\<lambda>_. Some ''C''),
     ob_module = (\<lambda>_. ''m''), ob_issubclass = (\<lambda>x y. y \<le> x), ob_system_exit = 20, ob_generator_exit = 21,
     ob_stop_iteration = 22, ob_keyboard_interrupt = 23\<rparr>"

definition demo_exc_env :: break_env where
  "demo_exc_env = \<lparr>be_filter = demo_filter_env, be_code_lines = (\<lambda>_. None), be_plugins = False, be_plugin_can_skip = (\<lambda>_. True)\<rparr>"

definition option_for :: "string \<Rightarrow> string list \<Rightarrow> exception_option" where
  "option_for mode names = \<lparr>eo_mode = mode, eo_path = Some (\<lparr>sg_names = [category], sg_negate = None\<rparr> #
     (if names = [] then [] else [\<lparr>sg_names = names, sg_negate = None\<rparr>]))\<rparr>"

lemma demo_transitive: "transp (ob_issubclass demo_objects)"
  by (auto simp: transp_def demo_objects_def)

lemma option_for_simps [simp]:
  "eo_mode (option_for mode names) = mode"
  "option_names (option_for mode names) = (if names = [] then [''BaseException''] else names)"
  by (cases names; simp add: option_for_def option_names_def)+

lemma demo_known: "known demo_objects ''BaseException''" "known demo_objects ''ValueError''"
  by (auto simp: known_def get_exception_class_def demo_objects_def)

definition demo_options :: "exception_option list" where
  "demo_options = [option_for ''always'' [], option_for ''never'' [''ValueError'']]"

lemma demo_options_good: "\<forall>opt \<in> set demo_options. good_option demo_objects opt"
  by (auto simp: demo_options_def good_option_def valid_modes_def demo_known)

definition demo_table :: "(string, exception_breakpoint) odict" where
  "demo_table = map (\<lambda>n. (n, breakpoint_for demo_objects True False False n)) [''BaseException'', ''Exception'']"

theorem get_exception_breakpoint_spec_witness:
  "\<exists>eb t. get_exception_breakpoint demo_objects 3 demo_table = Some eb \<and> catches demo_objects 3 eb t \<and>
    (\<forall>eb' \<in> snd ` set demo_table. \<forall>u. catches demo_objects 3 eb' u \<longrightarrow> t \<le> u \<longrightarrow> u \<le> t)"
proof -
  have "catches demo_objects 3 (breakpoint_for demo_objects True False False ''Exception'') 2"
    by (simp add: catches_def breakpoint_for_def get_exception_class_def demo_objects_def)
  moreover have "breakpoint_for demo_objects True False False ''Exception'' \<in> snd ` set demo_table" by (simp add: demo_table_def)
  moreover have "map_of demo_table (full_qname demo_objects 3) = None"
    by (simp add: demo_table_def full_qname_def demo_objects_def)
  ultimately show ?thesis
    using get_exception_breakpoint_spec [OF demo_transitive, of 3 demo_table]
    by (auto simp: demo_objects_def split: option.splits)
qed


theorem never_exempts_nothing_witness:
  "\<exists>s'. on_setexceptionbreakpoints_request demo_objects demo_exc_env new_debug_options [] (Some demo_options)
      (new_exc_db demo_exc_env) = (Inr (), s') \<and> get_exception_breakpoint demo_objects 3 (xd_caught s') \<noteq> None"
  by (rule never_exempts_nothing [OF demo_options_good _ demo_transitive, of _ _ "option_for ''always'' []" 1
        "option_for ''never'' [''ValueError'']" "''ValueError''"])
    (simp_all add: demo_options_def plugin_of_def new_debug_options_def always_def get_exception_class_def demo_objects_def)

theorem bad_name_fails_request_witness:
  "\<exists>s'. on_setexceptionbreakpoints_request demo_objects demo_exc_env new_debug_options []
      (Some [option_for ''always'' [''ValueError'', ''os.Gone'', ''BaseException'']]) (new_exc_db demo_exc_env) =
        (Inl (AttributeError ''Gone''), s') \<and>
    set (od_keys (xd_caught s')) = {''ValueError''}"
  using bad_name_fails_request [of "[]" demo_objects "option_for ''always'' [''ValueError'', ''os.Gone'', ''BaseException'']"
      "[''ValueError'']" "''os.Gone''" "[''BaseException'']" 9 "AttributeError ''Gone''" demo_exc_env new_debug_options "[]" "[]"
      "new_exc_db demo_exc_env"] demo_known(2)
  by (auto simp: valid_modes_def always_def when_unhandled_def imp.simps before_last_dot_def demo_objects_def)

definition demo_stop_env :: stop_env where
  "demo_stop_env = \<lparr>se_objects = demo_objects, se_filter = demo_filter_env, se_eval = (\<lambda>_. None), se_skips = (\<lambda>_. False),
     se_text = (\<lambda>_. None)\<rparr>"

definition demo_exc_db :: exc_db where
  "demo_exc_db = (new_exc_db demo_exc_env)\<lparr>xd_caught := demo_table, xd_uncaught := demo_table\<rparr>"

lemma demo_stop_facts:
  "told_apart (se_filter demo_stop_env) {demo_frame 1 ''__main__''}"
  "reachable (\<lambda>s. s = new_filters (se_filter demo_stop_env)) (filter_step (se_filter demo_stop_env) U) (db_filters (xd_db demo_exc_db))"
  "get_exception_breakpoint demo_objects 3 demo_table = Some (breakpoint_for demo_objects True False False ''Exception'')"
  "\<not> exception_filtered demo_filter_env (db_filters (xd_db demo_exc_db)) False (demo_frame 1 ''__main__'')"
proof -
  show "told_apart (se_filter demo_stop_env) {demo_frame 1 ''__main__''}" by (simp add: told_apart_def demo_frame_def)
  show "reachable (\<lambda>s. s = new_filters (se_filter demo_stop_env)) (filter_step (se_filter demo_stop_env) U)
    (db_filters (xd_db demo_exc_db))"
    by (rule reachable_init) (simp add: demo_stop_env_def demo_exc_db_def new_exc_db_def new_pydb_def demo_exc_env_def)
  show "get_exception_breakpoint demo_objects 3 demo_table = Some (breakpoint_for demo_objects True False False ''Exception'')"
    by (simp add: get_exception_breakpoint_def demo_table_def full_qname_def more_specific_def breakpoint_for_def
        get_exception_class_def demo_objects_def)
  show "\<not> exception_filtered demo_filter_env (db_filters (xd_db demo_exc_db)) False (demo_frame 1 ''__main__'')"
    by code_simp
qed


theorem unhandled_stop_frame_witness:
  "fst (stop_on_unhandled_exception demo_stop_env 3 JNull [demo_frame 1 ''__main__''] demo_exc_db) =
    Some (demo_frame 1 ''__main__'', ''Exception'')"
  using unhandled_stop_frame [OF demo_stop_facts(1,2), of "[demo_frame 1 ''__main__'']" 3
      "breakpoint_for demo_objects True False False ''Exception''" JNull] demo_stop_facts(3,4)
  by (simp add: demo_stop_env_def demo_exc_db_def new_exc_db_def breakpoint_for_def exception_condition_def demo_objects_def)

end
