(* ===== verification/Tracing.thy ===== *)
theory Tracing
  imports ExceptionBreakpoints
begin

text \<open>
  The tracer of \<open>pydevd\<close>: \<open>PyDBFrame\<close> of \<open>pydevd_frame.py\<close>, which Python calls at every call, line, return and
  exception of a traced frame, with \<open>ThreadTracer\<close> of \<open>pydevd_trace_dispatch_regular.py\<close> in front of it, the
  \<open>@DontTrace\<close> comments of \<open>pydevd_dont_trace.py\<close>, and the caches that let it return at once.

  One thread is modelled, whose stack is the list of its activations, the running one first; the
  frames are those of a program without template breakpoints. A suspended thread waits inside the
  tracer, and nothing but the return of a value follows: the result of a call is the new trace
  function and the frame in which the thread is suspended, if it is. Left out are the calls of the
  tracer on the debugger's own code (\<open>is_tracing\<close>), threads that have ended, the variables that the
  debugger adds to frames (but for return values), and suspending the other threads.
\<close>

section \<open>Frames and what is known of the thread\<close>

text \<open>An activation of a function has an identity, and the line at which it is.\<close>

record act =
  ac_id :: nat
  ac_code :: code
  ac_module :: "string option"
  ac_line :: int

type_synonym stack = "act list"

text \<open>A frame is the stack at and below it, \<open>f_back\<close> is its tail and \<open>None\<close> the empty one.\<close>

fun frame_of :: "act \<Rightarrow> stack \<Rightarrow> frame" where
  "frame_of a [] = Frame (ac_code a) (ac_module a) None"
| "frame_of a (b # st) = Frame (ac_code a) (ac_module a) (Some (frame_of b st))"

definition frame_id :: "stack \<Rightarrow> nat option" where
  "frame_id st = (case st of [] \<Rightarrow> None | a # _ \<Rightarrow> Some (ac_id a))"

datatype command =
    StepInto | StepIntoMyCode | StepIntoCoroutine | StepOver | StepOverMyCode | StepReturn | StepReturnMyCode
  | SmartStepInto | RunToLine | SetNextStatement | StepCaughtException | AddExceptionBreak | SetBreak
  | ThreadSuspend | StopOnStart

datatype run_state = StateRun | StateSuspend

text \<open>\<open>PyDBAdditionalThreadInfo\<close>, and \<open>stop_reason\<close> of the thread. A command of -1 is \<open>None\<close>.\<close>

record thread_info =
  ti_state :: run_state
  ti_step_stop :: "nat option"
  ti_original_step_cmd :: "command option"
  ti_step_cmd :: "command option"
  ti_smart_step_stop :: "nat option"
  ti_func_name :: string
  ti_next_line :: int
  ti_message :: string
  ti_stop_reason :: "command option"

definition new_thread_info :: thread_info where
  "new_thread_info = \<lparr>ti_state = StateRun, ti_step_stop = None, ti_original_step_cmd = None, ti_step_cmd = None,
     ti_smart_step_stop = None, ti_func_name = ''.invalid.'', ti_next_line = -1, ti_message = [], ti_stop_reason = None\<rparr>"

text \<open>What Python calls for the next event of a frame: nothing, the thread's tracer, or a method of its \<open>PyDBFrame\<close>.\<close>

datatype trace_function = NoTrace | ThreadTrace | FrameTrace | FrameExceptions

type_synonym frame_key = "int \<times> string \<times> string"

definition key_of :: "act \<Rightarrow> frame_key" where
  "key_of a = (co_firstlineno (ac_code a), co_name (ac_code a), co_filename (ac_code a))"

text \<open>
  The state: the debugger with its breakpoints, the thread, the skip caches, the trace functions of
  the activations, settings, and what was written. In \<open>td_cache_skips\<close> the value is 1 for a frame that is
  filtered, 2 for one without a breakpoint; \<open>td_should_skip\<close> is kept in the activation's \<open>PyDBFrame\<close>.
\<close>

record trace_db =
  td_exc :: exc_db
  td_info :: thread_info
  td_cache_skips :: "(frame_key, nat) odict"
  td_frame_skips :: "(frame_key, bool) odict"
  td_line_skips :: "(frame_key \<times> int) list"
  td_return_lines :: "(frame_key, int list) odict"
  td_should_skip :: "nat \<Rightarrow> bool option"
  td_trace :: "nat \<Rightarrow> trace_function"
  td_ignored :: "(string, (int, bool) odict) odict"
  td_stats :: "(string, int \<times> int) odict"
  td_user_ignored :: "(string, (int, bool) odict) odict"
  td_ignore_tagged :: bool
  td_dont_trace :: bool
  td_show_returns :: bool
  td_remove_returns :: bool
  td_returns :: "nat \<Rightarrow> (string, nat) odict option"
  td_quitting :: bool
  td_disposed :: bool
  td_notified :: bool
  td_written :: "string list"

text \<open>
  The world at one event: classes, filters, the values of expressions and conditions, code flags and return
  lines read from bytecode, the class whose method a function is, and the files that \<open>linecache\<close> and \<open>os.stat\<close> see.
\<close>

record trace_env =
  te_stop :: stop_env
  te_can_skip :: "frame \<Rightarrow> bool"
  te_generator :: "code \<Rightarrow> bool"
  te_coroutine :: "code \<Rightarrow> bool"
  te_return_lines :: "code \<Rightarrow> int list"
  te_class_of :: "act \<Rightarrow> string option"
  te_lines :: "string \<Rightarrow> string list"
  te_stat :: "string \<Rightarrow> (int \<times> int) option"
  te_python3 :: bool
  te_linesep :: string

abbreviation te_filter :: "trace_env \<Rightarrow> filter_env" where
  "te_filter E \<equiv> se_filter (te_stop E)"

abbreviation td_pydb :: "trace_db \<Rightarrow> pydb" where
  "td_pydb s \<equiv> xd_db (td_exc s)"

abbreviation td_filters :: "trace_db \<Rightarrow> filters" where
  "td_filters s \<equiv> db_filters (td_pydb s)"

definition set_pydb :: "pydb \<Rightarrow> trace_db \<Rightarrow> trace_db" where
  "set_pydb db s = s\<lparr>td_exc := (td_exc s)\<lparr>xd_db := db\<rparr>\<rparr>"

definition set_filters :: "filters \<Rightarrow> trace_db \<Rightarrow> trace_db" where
  "set_filters fl s = set_pydb ((td_pydb s)\<lparr>db_filters := fl\<rparr>) s"

definition on_info :: "(thread_info \<Rightarrow> thread_info) \<Rightarrow> trace_db \<Rightarrow> trace_db" where
  "on_info f s = s\<lparr>td_info := f (td_info s)\<rparr>"

definition real_file :: "os_env \<Rightarrow> code \<Rightarrow> string" where
  "real_file os c = fst (snd (get_abs_path_real_path_and_base_from_file os (co_filename c)))"

abbreviation code_file :: "trace_env \<Rightarrow> code \<Rightarrow> string" where
  "code_file E c \<equiv> real_file (fe_os (te_filter E)) c"

text \<open>\<open>apply_files_filter(frame, frame.f_code.co_filename, force)\<close> and \<open>get_file_type(frame)\<close>.\<close>

definition filter_frame :: "trace_env \<Rightarrow> bool \<Rightarrow> act \<Rightarrow> stack \<Rightarrow> trace_db \<Rightarrow> bool \<times> trace_db" where
  "filter_frame E force a st s =
    (case apply_files_filter (te_filter E) (te_can_skip E) (frame_of a st) (co_filename (ac_code a)) force (td_filters s) of
       (x, fl) \<Rightarrow> (x, set_filters fl s))"

definition type_of_frame :: "trace_env \<Rightarrow> act \<Rightarrow> stack \<Rightarrow> trace_db \<Rightarrow> file_type option \<times> trace_db" where
  "type_of_frame E a st s =
    (case get_file_type (te_filter E) (frame_of a st) (td_filters s) of (t, fl) \<Rightarrow> (t, set_filters fl s))"

definition is_type_pydev :: "trace_env \<Rightarrow> act \<Rightarrow> stack \<Rightarrow> trace_db \<Rightarrow> bool \<times> trace_db" where
  "is_type_pydev E a st s = (case type_of_frame E a st s of (t, s) \<Rightarrow> (t = Some PydevFile, s))"

fun set_trace_for_frame_and_parents :: "trace_env \<Rightarrow> stack \<Rightarrow> trace_db \<Rightarrow> trace_db" where
  "set_trace_for_frame_and_parents E [] s = s"
| "set_trace_for_frame_and_parents E (a # st) s =
    (case type_of_frame E a st s of
       (t, s) \<Rightarrow> set_trace_for_frame_and_parents E st
         (if t = None then s\<lparr>td_trace := (td_trace s)(ac_id a := ThreadTrace)\<rparr> else s))"

text \<open>\<open>_clear_skip_caches\<close>, with every change of breakpoints or filters.\<close>

definition clear_skip_caches :: "trace_db \<Rightarrow> trace_db" where
  "clear_skip_caches s = s\<lparr>td_cache_skips := [], td_frame_skips := [], td_line_skips := [], td_return_lines := []\<rparr>"

section \<open>\<open>@DontTrace\<close>\<close>

definition has_text :: "string \<Rightarrow> string \<Rightarrow> bool" where
  "has_text t s \<longleftrightarrow> list_ex (\<lambda>k. starts_with (drop k s) t) [0..<Suc (length s)]"

definition is_decorator :: "string \<Rightarrow> bool" where
  "is_decorator line \<longleftrightarrow> starts_with (dropWhile is_blank line) ''@''"

definition has_dont_trace_tag :: "string \<Rightarrow> bool" where
  "has_dont_trace_tag line \<longleftrightarrow> has_text ''@DontTrace'' (dropWhile (\<lambda>c. c \<noteq> CHR ''#'') line)"

text \<open>The decorator lines above and below a tagged one. Past the last line the search raises an \<open>IndexError\<close>.\<close>

fun decorators_above :: "string list \<Rightarrow> nat \<Rightarrow> nat list" where
  "decorators_above lines 0 = []"
| "decorators_above lines (Suc k) = (if is_decorator (lines ! k) then k # decorators_above lines k else [])"

function decorators_below :: "string list \<Rightarrow> nat \<Rightarrow> nat list option" where
  "decorators_below lines k =
    (if length lines \<le> k then None
     else if is_decorator (lines ! k) then map_option (Cons k) (decorators_below lines (Suc k)) else Some [])"
  by pat_completeness auto
termination by (relation "measure (\<lambda>(lines, k). length lines - k)") auto

declare decorators_below.simps [simp del]

fun tagged_lines :: "string list \<Rightarrow> nat list \<Rightarrow> nat list option" where
  "tagged_lines lines [] = Some []"
| "tagged_lines lines (i # is) =
    (if has_dont_trace_tag (lines ! i)
     then (case decorators_below lines (Suc i) of
             None \<Rightarrow> None
           | Some below \<Rightarrow> map_option (append (i # decorators_above lines i @ below)) (tagged_lines lines is))
     else tagged_lines lines is)"

text \<open>
  \<open>default_should_trace_hook\<close>; nothing for the \<open>IndexError\<close>. The table of the lines of a file
  that was read before is left out.
\<close>

definition should_trace_hook :: "trace_env \<Rightarrow> code \<Rightarrow> string \<Rightarrow> bool option" where
  "should_trace_hook E c filename =
    (let lines = te_lines E filename; func_line = co_firstlineno c - 1 in
     map_option (\<lambda>ignored. \<not> (func_line - 1 \<in> int ` set ignored \<or> func_line \<in> int ` set ignored))
       (tagged_lines lines [0..<length lines]))"

section \<open>Suspending\<close>

definition mark_suspend :: "command \<Rightarrow> command option \<Rightarrow> trace_db \<Rightarrow> trace_db" where
  "mark_suspend stop_reason original_step_cmd =
    on_info (\<lambda>i.
      let i = i\<lparr>ti_stop_reason := Some (case original_step_cmd of None \<Rightarrow> stop_reason | Some c \<Rightarrow> c)\<rparr>;
          i = (if ti_step_cmd i = None then i\<lparr>ti_step_cmd := Some StepInto, ti_step_stop := None\<rparr> else i)
      in i\<lparr>ti_state := StateSuspend\<rparr>)"

definition stop_stepping :: "trace_db \<Rightarrow> trace_db" where
  "stop_stepping = on_info (\<lambda>i. i\<lparr>ti_original_step_cmd := None, ti_step_cmd := None, ti_step_stop := None\<rparr>)"

text \<open>What an event's call of the tracer gives: the trace function, and where the thread is suspended.\<close>

type_synonym outcome = "trace_function \<times> stack option"

section \<open>Exceptions\<close>

text \<open>An exception event: the class, what \<open>ignore_system_exit_code\<close> compares, and the traceback with its lines.\<close>

record exc_arg =
  ea_class :: nat
  ea_code :: jv
  ea_traceback :: "(frame \<times> int) list"

datatype event = CallEvent | LineEvent | ReturnEvent nat | ExceptionEvent exc_arg | OtherEvent

definition has_exception_breakpoints :: "trace_db \<Rightarrow> bool" where
  "has_exception_breakpoints s \<longleftrightarrow> xd_caught (td_exc s) \<noteq> []"

definition stop_at_exception :: "trace_env \<Rightarrow> act \<Rightarrow> stack \<Rightarrow> exc_arg \<Rightarrow> trace_db \<Rightarrow> bool \<times> trace_db" where
  "stop_at_exception E a st e s =
    (case should_stop_on_exception (te_stop E) (ti_state (td_info s) = StateSuspend) None (frame_of a st)
            (ea_class e) (ea_code e) (map fst (ea_traceback e)) (td_exc s) of
       ((stop, _, message), x) \<Rightarrow>
         (stop, on_info (\<lambda>i. case message of None \<Rightarrow> i | Some m \<Rightarrow> i\<lparr>ti_message := m\<rparr>) (s\<lparr>td_exc := x\<rparr>)))"

definition has_ignore_tag :: "string \<Rightarrow> bool" where
  "has_ignore_tag line \<longleftrightarrow> has_text ''@IgnoreException'' (drop 1 (dropWhile (\<lambda>c. c \<noteq> CHR ''#'') line))"

definition getline :: "trace_env \<Rightarrow> string \<Rightarrow> int \<Rightarrow> string" where
  "getline E filename line =
    (let lines = te_lines E filename in if 1 \<le> line \<and> nat line \<le> length lines then lines ! (nat line - 1) else [])"

text \<open>The lines that were looked at, forgotten when the file has changed.\<close>

definition lines_ignored :: "trace_env \<Rightarrow> string \<Rightarrow> trace_db \<Rightarrow> (int, bool) odict \<times> trace_db" where
  "lines_ignored E filename s =
    (let seen = (case map_of (td_ignored s) filename of None \<Rightarrow> [] | Some m \<Rightarrow> m);
         curr = te_stat E filename;
         changed = map_of (td_stats s) filename \<noteq> curr;
         s = (if changed then s\<lparr>td_stats := (case curr of None \<Rightarrow> od_del filename (td_stats s)
                                             | Some st \<Rightarrow> od_set filename st (td_stats s))\<rparr> else s);
         seen = (if changed then [] else seen)
     in (seen, s\<lparr>td_ignored := od_set filename seen (td_ignored s)\<rparr>))"

definition raised_in_ignored_line :: "trace_env \<Rightarrow> frame \<times> int \<Rightarrow> trace_db \<Rightarrow> bool \<times> trace_db" where
  "raised_in_ignored_line E t s =
    (let filename = code_file E (f_code (fst t)); line = snd t in
     case lines_ignored E filename s of
       (seen, s) \<Rightarrow>
         let merged = (case map_of (td_user_ignored s) filename of None \<Rightarrow> seen | Some user \<Rightarrow> od_update seen user) in
         case map_of merged line of
           Some ignored \<Rightarrow> (ignored, s)
         | None \<Rightarrow>
             let ignored = has_ignore_tag (getline E filename line)
             in (ignored, s\<lparr>td_ignored := od_set filename (od_set line ignored seen) (td_ignored s)\<rparr>))"

text \<open>\<open>handle_exception\<close> up to where it waits; what it does then is in \<open>resumed\<close>.\<close>

definition handle_exception :: "trace_env \<Rightarrow> exc_arg \<Rightarrow> trace_db \<Rightarrow> bool \<times> trace_db" where
  "handle_exception E e s =
    (let tb = ea_traceback e;
         (ignored, s) = (if \<not> td_ignore_tagged s then (False, s)
           else case raised_in_ignored_line E (hd tb) s of
               (True, s) \<Rightarrow> (True, s)
             | (False, s) \<Rightarrow> raised_in_ignored_line E (last tb) s)
     in if ignored then (False, s) else (True, mark_suspend StepCaughtException None s))"

definition trace_exception :: "trace_env \<Rightarrow> act \<Rightarrow> stack \<Rightarrow> event \<Rightarrow> trace_db \<Rightarrow> outcome \<times> trace_db" where
  "trace_exception E a st ev s =
    (case ev of
       ExceptionEvent e \<Rightarrow>
         (case stop_at_exception E a st e s of
            (True, s) \<Rightarrow>
              (case handle_exception E e s of (wait, s) \<Rightarrow> ((FrameTrace, if wait then Some (a # st) else None), s))
          | (False, s) \<Rightarrow> ((FrameExceptions, None), s))
     | _ \<Rightarrow> ((FrameExceptions, None), s))"

section \<open>What kind of event it is for the debugger\<close>

fun unfiltered_frame :: "trace_env \<Rightarrow> stack \<Rightarrow> trace_db \<Rightarrow> stack \<times> trace_db" where
  "unfiltered_frame E [] s = ([], s)"
| "unfiltered_frame E (a # st) s =
    (if \<not> is_files_filter_enabled (td_filters s) then (a # st, s)
     else case filter_frame E False a st s of (skip, s) \<Rightarrow> if skip then unfiltered_frame E st s else (a # st, s))"

text \<open>\<open>_get_unfiltered_back_frame\<close> for the frame of an activation on the stack below it.\<close>

definition get_unfiltered_back_frame :: "trace_env \<Rightarrow> stack \<Rightarrow> trace_db \<Rightarrow> stack \<times> trace_db" where
  "get_unfiltered_back_frame E st s = unfiltered_frame E st s"

definition return_lines :: "trace_env \<Rightarrow> act \<Rightarrow> trace_db \<Rightarrow> int list \<times> trace_db" where
  "return_lines E a s =
    (case map_of (td_return_lines s) (key_of a) of
       Some ls \<Rightarrow> (ls, s)
     | None \<Rightarrow>
         let ls = te_return_lines E (ac_code a)
         in (ls, s\<lparr>td_return_lines := od_set (key_of a) ls (td_return_lines s)\<rparr>))"

definition set_step :: "command option \<Rightarrow> nat option \<Rightarrow> trace_db \<Rightarrow> trace_db" where
  "set_step cmd stop = on_info (\<lambda>i. i\<lparr>ti_step_cmd := cmd, ti_step_stop := stop\<rparr>)"

text \<open>A generator or coroutine that is stepped over or into and ends: the step goes on in its caller.\<close>

definition leave_generator :: "trace_env \<Rightarrow> act \<Rightarrow> stack \<Rightarrow> trace_db \<Rightarrow> trace_db" where
  "leave_generator E a st s =
    (let cmd = ti_step_cmd (td_info s) in
     if ti_step_stop (td_info s) \<noteq> Some (ac_id a) then s
     else if cmd \<in> {Some StepOver, Some StepOverMyCode, Some StepInto, Some StepIntoMyCode}
     then (case get_unfiltered_back_frame E st s of
             ([], s) \<Rightarrow> if cmd = Some StepOver then set_step (Some StepInto) None s
                       else if cmd = Some StepOverMyCode then set_step (Some StepIntoMyCode) None s else s
           | (f, s) \<Rightarrow> set_step (Some StepIntoCoroutine) (frame_id f) s)
     else if cmd = Some StepIntoCoroutine
     then (case get_unfiltered_back_frame E st s of
             ([], s) \<Rightarrow> set_step (Some StepInto) None s
           | (f, s) \<Rightarrow> set_step (Some StepIntoCoroutine) (frame_id f) s)
     else s)"

text \<open>A function that is stepped over or out of and ends: the step becomes a step into.\<close>

definition leave_function :: "act \<Rightarrow> trace_db \<Rightarrow> trace_db" where
  "leave_function a s =
    (let cmd = ti_step_cmd (td_info s) in
     if ti_step_stop (td_info s) \<noteq> Some (ac_id a) then s
     else if cmd \<in> {Some StepOver, Some StepReturn} then set_step (Some StepInto) None s
     else if cmd \<in> {Some StepOverMyCode, Some StepReturnMyCode} then set_step (Some StepIntoMyCode) None s
     else s)"

datatype kind = IsLine | IsCall | IsReturn | IsException

definition meet_exception :: "trace_env \<Rightarrow> act \<Rightarrow> stack \<Rightarrow> exc_arg \<Rightarrow> trace_db \<Rightarrow> outcome option \<times> trace_db" where
  "meet_exception E a st e s =
    (if \<not> has_exception_breakpoints s then (None, s)
     else case stop_at_exception E a st e s of
         (True, s) \<Rightarrow>
           (case handle_exception E e s of (wait, s) \<Rightarrow> (Some (FrameTrace, if wait then Some (a # st) else None), s))
       | (False, s) \<Rightarrow> (None, s))"

text \<open>Either the tracer returns at once, or it goes on with this kind of event.\<close>

definition perceive :: "trace_env \<Rightarrow> act \<Rightarrow> stack \<Rightarrow> event \<Rightarrow> trace_db \<Rightarrow> (outcome + kind) \<times> trace_db" where
  "perceive E a st ev s =
    (if te_generator E (ac_code a)
     then (case ev of
         LineEvent \<Rightarrow> (Inr IsLine, s)
       | ReturnEvent _ \<Rightarrow>
           (case return_lines E a s of
              (ls, s) \<Rightarrow> if ac_line a \<notin> set ls then (Inl (FrameTrace, None), s)
                        else (Inr IsReturn, leave_generator E a st s))
       | ExceptionEvent e \<Rightarrow>
           (case meet_exception E a st e s of
              (Some r, s) \<Rightarrow> (Inl r, s)
            | (None, s) \<Rightarrow> (Inl (FrameTrace, None), s))
       | _ \<Rightarrow> (Inl (FrameTrace, None), s))
     else (case ev of
         LineEvent \<Rightarrow> (Inr IsLine, s)
       | ReturnEvent _ \<Rightarrow> (Inr IsReturn, leave_function a s)
       | CallEvent \<Rightarrow> (Inr IsCall, s)
       | ExceptionEvent e \<Rightarrow>
           (case meet_exception E a st e s of
              (Some r, s) \<Rightarrow> (Inl r, s)
            | (None, s) \<Rightarrow> (Inr IsException, s))
       | OtherEvent \<Rightarrow> (Inl (FrameTrace, None), s)))"

section \<open>Events that can be skipped\<close>

text \<open>The command and the stop frame are those at the start of the event, before \<open>perceive\<close>.\<close>

definition over_or_return :: "command option set" where
  "over_or_return = {Some StepOver, Some StepReturn, Some StepOverMyCode, Some StepReturnMyCode}"

definition in_context :: "nat option \<Rightarrow> stack \<Rightarrow> bool" where
  "in_context stop st \<longleftrightarrow> list_ex (\<lambda>a. stop = Some (ac_id a)) st"

definition can_skip :: "command option \<Rightarrow> nat option \<Rightarrow> act \<Rightarrow> stack \<Rightarrow> trace_db \<Rightarrow> bool" where
  "can_skip cmd stop a st s \<longleftrightarrow>
    ti_state (td_info s) = StateRun \<and>
    (cmd = None \<or> cmd \<in> over_or_return \<and> stop \<noteq> Some (ac_id a) \<or>
      cmd = Some StepIntoCoroutine \<and> \<not> in_context stop (a # st)) \<and>
    \<not> (td_show_returns s \<and> ti_step_cmd (td_info s) \<in> {Some StepOver, Some StepOverMyCode} \<and> frame_id st = stop)"

definition context_name :: "act \<Rightarrow> string" where
  "context_name a = (let n = co_name (ac_code a) in if n \<in> {''?'', ''<module>'', ''<lambda>''} then [] else n)"

definition has_breakpoint_in_frame :: "act \<Rightarrow> id_to_breakpoint \<Rightarrow> bool" where
  "has_breakpoint_in_frame a bps \<longleftrightarrow> list_ex (\<lambda>(_, b). lb_func_name b \<in> {''None'', context_name a}) bps"

definition frame_breakpoints :: "act \<Rightarrow> id_to_breakpoint \<Rightarrow> trace_db \<Rightarrow> bool \<times> trace_db" where
  "frame_breakpoints a bps s =
    (case map_of (td_frame_skips s) (key_of a) of
       Some v \<Rightarrow> (v, s)
     | None \<Rightarrow>
         let v = has_breakpoint_in_frame a bps
         in (v, s\<lparr>td_frame_skips := od_set (key_of a) v (td_frame_skips s)\<rparr>))"

definition leave_untraced :: "trace_db \<Rightarrow> trace_function" where
  "leave_untraced s = (if has_exception_breakpoints s then FrameExceptions else NoTrace)"

definition skip_event :: "bool \<Rightarrow> id_to_breakpoint \<Rightarrow> act \<Rightarrow> trace_db \<Rightarrow> trace_function option \<times> trace_db" where
  "skip_event skip bps a s =
    (if bps = [] then (if skip then Some (leave_untraced s) else None, s)
     else if skip \<and> (key_of a, ac_line a) \<in> set (td_line_skips s) then (Some FrameTrace, s)
     else case frame_breakpoints a bps s of
         (has, s) \<Rightarrow> (if skip \<and> \<not> has then Some (leave_untraced s) else None, s))"

section \<open>Breakpoints\<close>

definition add_message :: "trace_env \<Rightarrow> string \<Rightarrow> trace_db \<Rightarrow> trace_db" where
  "add_message E e =
    on_info (\<lambda>i. case se_text (te_stop E) e of None \<Rightarrow> i | Some t \<Rightarrow> i\<lparr>ti_message := t\<rparr>)"

text \<open>Evaluates a breakpoint's condition, hit condition and expression, and is whether to stop.\<close>

definition evaluate_breakpoint :: "trace_env \<Rightarrow> line_breakpoint \<Rightarrow> trace_db \<Rightarrow> bool \<times> trace_db" where
  "evaluate_breakpoint E b s =
    (case (if has_condition b
           then (case handle_breakpoint_condition (se_eval (te_stop E)) (se_skips (te_stop E)) b (td_pydb s) of
                   (v, db) \<Rightarrow> (v, set_pydb db s))
           else (False, s)) of
       (eval_result, s) \<Rightarrow>
         let s = (case lb_expression b of
               None \<Rightarrow> s
             | Some e \<Rightarrow>
                 let s = add_message E e s; m = ti_message (td_info s)
                 in if lb_is_logpoint b \<and> m \<noteq> [] then s\<lparr>td_written := td_written s @ [m @ te_linesep E]\<rparr> else s)
         in (if has_condition b then eval_result else \<not> lb_is_logpoint b, s))"

definition breakpoint_at :: "kind \<Rightarrow> act \<Rightarrow> id_to_breakpoint \<Rightarrow> trace_db \<Rightarrow> line_breakpoint option" where
  "breakpoint_at k a bps s =
    (if k \<in> {IsLine, IsCall} \<and> ti_state (td_info s) \<noteq> StateSuspend then map_of bps (ac_line a) else None)"

text \<open>
  The breakpoint of the line, and whether the thread stops at it. Where a step over is about to stop the
  breakpoint is not evaluated.
\<close>

definition visit_breakpoint ::
  "trace_env \<Rightarrow> kind \<Rightarrow> command option \<Rightarrow> nat option \<Rightarrow> act \<Rightarrow> line_breakpoint option \<Rightarrow> trace_db \<Rightarrow> bool \<times> trace_db" where
  "visit_breakpoint E k cmd stop a b s =
    (case b of
       None \<Rightarrow> (False, s)
     | Some b \<Rightarrow>
         if cmd \<in> {Some StepOver, Some StepOverMyCode} \<and> stop = Some (ac_id a) \<and> k = IsLine then (False, s)
         else evaluate_breakpoint E b s)"

definition get_func_name :: "trace_env \<Rightarrow> act \<Rightarrow> string" where
  "get_func_name E a = (case te_class_of E a of None \<Rightarrow> co_name (ac_code a) | Some c \<Rightarrow> c @ ''.'' @ co_name (ac_code a))"

definition show_return_values :: "trace_env \<Rightarrow> act \<Rightarrow> stack \<Rightarrow> nat \<Rightarrow> trace_db \<Rightarrow> trace_db" where
  "show_return_values E a st v s =
    (case st of
       [] \<Rightarrow> s
     | b # _ \<Rightarrow>
         let shown = (case td_returns s (ac_id b) of None \<Rightarrow> [] | Some m \<Rightarrow> m)
         in s\<lparr>td_returns := (td_returns s)(ac_id b := Some (od_set (get_func_name E a) v shown))\<rparr>)"

definition remove_return_values :: "act \<Rightarrow> stack \<Rightarrow> trace_db \<Rightarrow> trace_db" where
  "remove_return_values a st s =
    (let r = (td_returns s)(ac_id a := None)
     in s\<lparr>td_returns := (case st of [] \<Rightarrow> r | b # _ \<Rightarrow> r(ac_id b := None))\<rparr>)"

text \<open>\<open>stop\<close> is the stop frame at the start of the event, but the command is the current one.\<close>

definition return_values :: "trace_env \<Rightarrow> kind \<Rightarrow> nat option \<Rightarrow> act \<Rightarrow> stack \<Rightarrow> event \<Rightarrow> trace_db \<Rightarrow> trace_db" where
  "return_values E k stop a st ev s =
    (let cmd = ti_step_cmd (td_info s) in
     if td_show_returns s then
       (if k = IsReturn \<and>
           (cmd \<in> {Some StepOver, Some StepOverMyCode} \<and> frame_id st = stop \<or>
            cmd \<in> {Some StepReturn, Some StepReturnMyCode} \<and> Some (ac_id a) = stop \<or>
            cmd \<in> {Some StepInto, Some StepIntoMyCode, Some StepIntoCoroutine})
        then (case ev of ReturnEvent v \<Rightarrow> show_return_values E a st v s | _ \<Rightarrow> s) else s)
     else if td_remove_returns s then (remove_return_values a st s)\<lparr>td_remove_returns := False\<rparr>
     else s)"

section \<open>Stepping\<close>

text \<open>Whether the function is not to be traced, kept in its \<open>PyDBFrame\<close>; nothing if finding out raises.\<close>

definition frame_should_skip :: "trace_env \<Rightarrow> act \<Rightarrow> trace_db \<Rightarrow> bool option \<times> trace_db" where
  "frame_should_skip E a s =
    (if \<not> td_dont_trace s then (Some False, s)
     else case td_should_skip s (ac_id a) of
         Some v \<Rightarrow> (Some v, s)
       | None \<Rightarrow>
           (case should_trace_hook E (ac_code a) (code_file E (ac_code a)) of
              None \<Rightarrow> (None, s)
            | Some trace \<Rightarrow> (Some (\<not> trace), s\<lparr>td_should_skip := (td_should_skip s)(ac_id a := Some (\<not> trace))\<rparr>)))"

definition in_step_scope :: "trace_env \<Rightarrow> bool \<Rightarrow> act \<Rightarrow> stack \<Rightarrow> trace_db \<Rightarrow> bool \<times> trace_db" where
  "in_step_scope E force a st s =
    (if force \<or> is_files_filter_enabled (td_filters s)
     then (case filter_frame E force a st s of (skip, s) \<Rightarrow> (\<not> skip, s))
     else (True, s))"

definition stop_into ::
  "trace_env \<Rightarrow> kind \<Rightarrow> command \<Rightarrow> nat option \<Rightarrow> act \<Rightarrow> stack \<Rightarrow> trace_db \<Rightarrow> bool \<times> trace_db" where
  "stop_into E k cmd stop a st s =
    (case (case k of
         IsLine \<Rightarrow> in_step_scope E (cmd = StepIntoMyCode) a st s
       | IsReturn \<Rightarrow>
           (case st of
              [] \<Rightarrow> (False, s)
            | b # st' \<Rightarrow>
                (case is_type_pydev E b st' s of
                   (True, s) \<Rightarrow> (False, s)
                 | (False, s) \<Rightarrow> in_step_scope E (cmd = StepIntoMyCode) b st' s))
       | _ \<Rightarrow> (False, s)) of
       (go, s) \<Rightarrow> (go \<and> (cmd = StepIntoCoroutine \<longrightarrow> in_context stop (a # st)), s))"

definition smart_step :: "act \<Rightarrow> trace_db \<Rightarrow> trace_db" where
  "smart_step a s =
    (if ti_smart_step_stop (td_info s) = Some (ac_id a)
     then on_info (\<lambda>i. i\<lparr>ti_func_name := ''.invalid.'', ti_smart_step_stop := None\<rparr>) s else s)"

definition module_context :: "act \<Rightarrow> string" where
  "module_context a = (let n = co_name (ac_code a) in if n \<in> {''?'', ''<module>''} then [] else n)"

definition step_stops ::
  "trace_env \<Rightarrow> kind \<Rightarrow> command option \<Rightarrow> nat option \<Rightarrow> act \<Rightarrow> stack \<Rightarrow> trace_db \<Rightarrow> bool \<times> trace_db" where
  "step_stops E k cmd stop a st s =
    (case cmd of
       None \<Rightarrow> (False, s)
     | Some c \<Rightarrow>
         if c \<in> {StepInto, StepIntoMyCode, StepIntoCoroutine} then stop_into E k c stop a st s
         else if c \<in> {StepOver, StepOverMyCode} then (stop = Some (ac_id a) \<and> k = IsLine, s)
         else if c = SmartStepInto
         then (let s = smart_step a s in (k \<in> {IsLine, IsException} \<and> module_context a = ti_func_name (td_info s), s))
         else if c \<in> {StepReturn, StepReturnMyCode} then (k = IsReturn \<and> stop = Some (ac_id a), s)
         else (False, s))"

text \<open>In Python 3 a return to a frame of the debugger does not stop.\<close>

definition not_into_debugger :: "trace_env \<Rightarrow> kind \<Rightarrow> command option \<Rightarrow> stack \<Rightarrow> bool \<times> trace_db \<Rightarrow> bool \<times> trace_db" where
  "not_into_debugger E k cmd st r =
    (case r of (stop, s) \<Rightarrow>
       if stop \<and> cmd \<noteq> None \<and> k = IsReturn \<and> te_python3 E
       then (case st of
           [] \<Rightarrow> (stop, s)
         | b # st' \<Rightarrow> (case is_type_pydev E b st' s of (pydev, s) \<Rightarrow> (\<not> pydev, s)))
       else (stop, s))"

text \<open>
  Stopping at a return event, in the frame below, if there is one and it is not where the program was
  started from: the tracer then forgets the step. It returns at once where the frame below is not to be
  traced.
\<close>

datatype return_stop = Raises | Leave | StopBack | Finish

definition return_stop_of :: "trace_env \<Rightarrow> stack \<Rightarrow> trace_db \<Rightarrow> return_stop" where
  "return_stop_of E st s =
    (case st of
       [] \<Rightarrow> Finish
     | b # _ \<Rightarrow>
         let base = code_base (te_filter E) (ac_code b) in
         if (base, co_name (ac_code b)) \<in> {(''pydevd.py'', ''run''), (''_pydev_execfile.py'', ''execfile'')} then Finish
         else if base = ''pydevd_traceproperty.py'' then Leave
         else if td_dont_trace s
         then (case should_trace_hook E (ac_code b) (code_file E (ac_code b)) of
                 None \<Rightarrow> Raises
               | Some trace \<Rightarrow> if trace then StopBack else Leave)
         else StopBack)"

definition skips_back :: "trace_env \<Rightarrow> stack \<Rightarrow> bool" where
  "skips_back E st = (case st of [] \<Rightarrow> False | b # _ \<Rightarrow> code_base (te_filter E) (ac_code b) \<noteq> ''pydevd_traceproperty.py'')"

definition go_on :: "trace_db \<Rightarrow> trace_function" where
  "go_on s = (if td_quitting s then NoTrace else FrameTrace)"

text \<open>A debugger that starts quitting while the thread waits here is seen at the next event.\<close>

definition perform_stop ::
  "trace_env \<Rightarrow> kind \<Rightarrow> command option \<Rightarrow> act \<Rightarrow> stack \<Rightarrow> trace_db \<Rightarrow> outcome \<times> trace_db" where
  "perform_stop E k cmd a st s =
    (let suspend = mark_suspend (the cmd) (ti_original_step_cmd (td_info s)) in
     case k of
       IsLine \<Rightarrow> let s = suspend s in ((go_on s, Some (a # st)), s)
     | IsReturn \<Rightarrow>
         (case return_stop_of E st s of
            Raises \<Rightarrow> let s = stop_stepping s in ((go_on s, None), s)
          | Leave \<Rightarrow> ((NoTrace, None), if skips_back E st then set_trace_for_frame_and_parents E st s else s)
          | StopBack \<Rightarrow> let s = suspend s in ((go_on s, Some st), s)
          | Finish \<Rightarrow> let s = on_info (\<lambda>i. i\<lparr>ti_state := StateRun\<rparr>) (stop_stepping s) in ((go_on s, None), s))
     | _ \<Rightarrow> ((go_on s, None), s))"

definition handle_step ::
  "trace_env \<Rightarrow> kind \<Rightarrow> command option \<Rightarrow> nat option \<Rightarrow> act \<Rightarrow> stack \<Rightarrow> trace_db \<Rightarrow> outcome \<times> trace_db" where
  "handle_step E k cmd stop a st s =
    (case frame_should_skip E a s of
       (None, s) \<Rightarrow> let s = stop_stepping s in ((go_on s, None), s)
     | (Some skip, s) \<Rightarrow>
         (case not_into_debugger E k cmd st (if skip then (False, s) else step_stops E k cmd stop a st s) of
            (True, s) \<Rightarrow> perform_stop E k cmd a st s
          | (False, s) \<Rightarrow> ((go_on s, None), s)))"

section \<open>\<open>trace_dispatch\<close>\<close>

definition bps_at :: "os_env \<Rightarrow> act \<Rightarrow> trace_db \<Rightarrow> id_to_breakpoint" where
  "bps_at os a s = (case map_of (db_breakpoints (td_pydb s)) (real_file os (ac_code a)) of None \<Rightarrow> [] | Some m \<Rightarrow> m)"

abbreviation bps_of :: "trace_env \<Rightarrow> act \<Rightarrow> trace_db \<Rightarrow> id_to_breakpoint" where
  "bps_of E a s \<equiv> bps_at (fe_os (te_filter E)) a s"

definition remember_line :: "kind \<Rightarrow> act \<Rightarrow> line_breakpoint option \<Rightarrow> trace_db \<Rightarrow> trace_db" where
  "remember_line k a b s =
    (if b = None \<and> k = IsLine \<and> (key_of a, ac_line a) \<notin> set (td_line_skips s)
     then s\<lparr>td_line_skips := (key_of a, ac_line a) # td_line_skips s\<rparr> else s)"

definition trace_dispatch :: "trace_env \<Rightarrow> act \<Rightarrow> stack \<Rightarrow> event \<Rightarrow> trace_db \<Rightarrow> outcome \<times> trace_db" where
  "trace_dispatch E a st ev s =
    (if td_disposed s then ((NoTrace, None), s)
     else
       let cmd = ti_step_cmd (td_info s); stop = ti_step_stop (td_info s) in
       case perceive E a st ev s of
         (Inl r, s) \<Rightarrow> (r, s)
       | (Inr k, s) \<Rightarrow>
           (case (if k = IsException then (None, s) else skip_event (can_skip cmd stop a st s) (bps_of E a s) a s) of
              (Some t, s) \<Rightarrow> ((t, None), s)
            | (None, s) \<Rightarrow>
                let b = breakpoint_at k a (bps_of E a s) s in
                case visit_breakpoint E k cmd stop a b s of
                  (hit, s) \<Rightarrow>
                    if b \<noteq> None \<and> k = IsCall \<and> co_name (ac_code a) \<in> {''<module>'', ''<lambda>''} then ((FrameTrace, None), s)
                    else
                      let s = return_values E k stop a st ev s;
                          s = (if hit then mark_suspend SetBreak None s else s)
                      in if ti_state (td_info s) = StateSuspend then ((FrameTrace, Some (a # st)), s)
                         else handle_step E k cmd stop a st (remember_line k a b s)))"

section \<open>The thread's tracer\<close>

definition into_or_return :: "command option set" where
  "into_or_return = {Some StepInto, Some StepIntoMyCode, Some StepReturn, Some StepReturnMyCode}"

text \<open>The client is told once that a step into a filtered function was skipped.\<close>

definition notify_skipped :: "bool \<Rightarrow> trace_db \<Rightarrow> trace_db" where
  "notify_skipped stepping s =
    (if stepping \<and> ti_original_step_cmd (td_info s) \<in> {Some StepInto, Some StepIntoMyCode}
     then s\<lparr>td_notified := True\<rparr> else s)"

definition cache_skip :: "act \<Rightarrow> nat \<Rightarrow> trace_db \<Rightarrow> trace_db" where
  "cache_skip a v s = s\<lparr>td_cache_skips := od_set (key_of a) v (td_cache_skips s)\<rparr>"

text \<open>Whether the tracer returns because of what it knows of the frame's code.\<close>

definition known_skip :: "act \<Rightarrow> stack \<Rightarrow> trace_db \<Rightarrow> bool \<times> trace_db" where
  "known_skip a st s =
    (let cmd = ti_step_cmd (td_info s) in
     case map_of (td_cache_skips s) (key_of a) of
       None \<Rightarrow> (False, s)
     | Some v \<Rightarrow>
         if cmd = None then (True, s)
         else if v = 1 then
           let s = notify_skipped True s in
           (case st of
              b # _ \<Rightarrow> (if cmd \<in> into_or_return then map_of (td_cache_skips s) (key_of b) = Some 1 else True, s)
            | [] \<Rightarrow> (True, s))
         else (False, s))"

text \<open>Files of the debugger, and of libraries it uses that are not in the project.\<close>

definition skip_by_type :: "trace_env \<Rightarrow> act \<Rightarrow> stack \<Rightarrow> trace_db \<Rightarrow> bool \<times> trace_db" where
  "skip_by_type E a st s =
    (case type_of_frame E a st s of
       (None, s) \<Rightarrow> (False, s)
     | (Some LibFile, s) \<Rightarrow>
         (case in_project_scope (te_filter E) (frame_of a st) (td_filters s) of
            (True, fl) \<Rightarrow> (False, set_filters fl s)
          | (False, fl) \<Rightarrow> (True, cache_skip a 1 (set_filters fl s)))
     | (Some PydevFile, s) \<Rightarrow> (True, cache_skip a 1 s))"

text \<open>
  Filtered files. A step into or a return may stop at a return event, and is shown in the frame below, so that
  a filtered frame is traced if the one below is not filtered.
\<close>

definition skip_by_filter :: "trace_env \<Rightarrow> act \<Rightarrow> stack \<Rightarrow> trace_db \<Rightarrow> bool \<times> trace_db" where
  "skip_by_filter E a st s =
    (let cmd = ti_step_cmd (td_info s) in
     if \<not> is_files_filter_enabled (td_filters s) then (False, s)
     else case apply_files_filter (te_filter E) (te_can_skip E) (frame_of a st) (code_file E (ac_code a)) False
                 (td_filters s) of
         (False, fl) \<Rightarrow> (False, set_filters fl s)
       | (True, fl) \<Rightarrow>
           let s = notify_skipped (cmd \<noteq> None) (cache_skip a 1 (set_filters fl s)) in
           case st of
             [] \<Rightarrow> (True, s)
           | b # st' \<Rightarrow>
               if cmd \<notin> into_or_return then (True, s)
               else (case filter_frame E False b st' s of
                       (True, s) \<Rightarrow> (True, cache_skip b 1 s)
                     | (False, s) \<Rightarrow> (False, s)))"

text \<open>\<open>ThreadTracer.__call__\<close>. It makes a new \<open>PyDBFrame\<close>.\<close>

definition thread_tracer :: "trace_env \<Rightarrow> act \<Rightarrow> stack \<Rightarrow> event \<Rightarrow> trace_db \<Rightarrow> outcome \<times> trace_db" where
  "thread_tracer E a st ev s =
    (if td_disposed s then ((NoTrace, None), s)
     else case known_skip a st s of
         (True, s) \<Rightarrow> ((NoTrace, None), s)
       | (False, s) \<Rightarrow>
           (case skip_by_type E a st s of
              (True, s) \<Rightarrow> ((NoTrace, None), s)
            | (False, s) \<Rightarrow>
                (case skip_by_filter E a st s of
                   (True, s) \<Rightarrow> ((NoTrace, None), s)
                 | (False, s) \<Rightarrow>
                     (case trace_dispatch E a st ev (s\<lparr>td_should_skip := (td_should_skip s)(ac_id a := None)\<rparr>) of
                        ((t, w), s) \<Rightarrow> ((t, w), if t = NoTrace \<and> ev = CallEvent then cache_skip a 2 s else s)))))"

text \<open>
  An event of the running program: a call goes to the thread's tracer, any other event to the
  frame's trace function. The new trace function is kept when the tracer returns, which is after the wait.
\<close>

definition call_tracer :: "trace_env \<Rightarrow> act \<Rightarrow> stack \<Rightarrow> event \<Rightarrow> trace_db \<Rightarrow> outcome \<times> trace_db" where
  "call_tracer E a st ev s =
    (case (if ev = CallEvent then ThreadTrace else td_trace s (ac_id a)) of
       NoTrace \<Rightarrow> ((NoTrace, None), s)
     | ThreadTrace \<Rightarrow> thread_tracer E a st ev s
     | FrameTrace \<Rightarrow> trace_dispatch E a st ev s
     | FrameExceptions \<Rightarrow> trace_exception E a st ev s)"

definition program_event :: "trace_env \<Rightarrow> act \<Rightarrow> stack \<Rightarrow> event \<Rightarrow> trace_db \<Rightarrow> outcome \<times> trace_db" where
  "program_event E a st ev s =
    (case call_tracer E a st ev s of
       ((t, None), s) \<Rightarrow> ((t, None), s\<lparr>td_trace := (td_trace s)(ac_id a := t)\<rparr>)
     | ((t, Some w), s) \<Rightarrow> ((t, Some w), s))"

end
