(* ===== verification/Stepping.thy ===== *)
theory Stepping
  imports Tracing
begin

text \<open>
  What a suspended thread does: the stepping commands of the IDE (\<open>on_next_request\<close>, \<open>on_stepin_request\<close> and
  \<open>on_stepout_request\<close> of \<open>pydevd_process_net_command_json.py\<close>, \<open>internal_step_in_thread\<close> and the others of
  \<open>pydevd_comm.py\<close>), what \<open>_do_wait_suspend\<close> of \<open>PyDB\<close> makes of them when the thread goes on, the reason that the
  client is told, and the run of a program under the tracer. Then what stepping and breakpoints promise:
  which events stop, whatever the caches hold and wherever tracing was turned off.
\<close>

section \<open>Commands\<close>

definition internal_run_thread :: "trace_db \<Rightarrow> trace_db" where
  "internal_run_thread s = on_info (\<lambda>i. i\<lparr>ti_state := StateRun\<rparr>) (stop_stepping s)"

definition internal_step_in_thread :: "command \<Rightarrow> trace_db \<Rightarrow> trace_db" where
  "internal_step_in_thread cmd =
    on_info (\<lambda>i. i\<lparr>ti_original_step_cmd := Some cmd, ti_step_cmd := Some cmd, ti_step_stop := None, ti_state := StateRun\<rparr>)"

text \<open>\<open>InternalSetNextStatementThread.do_it\<close>; the message is the number of the request.\<close>

definition internal_set_next_statement :: "command \<Rightarrow> int \<Rightarrow> string \<Rightarrow> string \<Rightarrow> trace_db \<Rightarrow> trace_db" where
  "internal_set_next_statement cmd line func seq =
    on_info (\<lambda>i. i\<lparr>ti_original_step_cmd := Some cmd, ti_step_cmd := Some cmd, ti_step_stop := None, ti_next_line := line,
      ti_func_name := func, ti_state := StateRun, ti_message := seq\<rparr>)"

definition get_use_libraries_filter :: "trace_db \<Rightarrow> bool" where
  "get_use_libraries_filter s = ff_use_libraries_filter (fl_filtering (td_filters s))"

definition on_next_request :: "trace_db \<Rightarrow> trace_db" where
  "on_next_request s = internal_step_in_thread (if get_use_libraries_filter s then StepOverMyCode else StepOver) s"

definition on_stepin_request :: "trace_db \<Rightarrow> trace_db" where
  "on_stepin_request s = internal_step_in_thread (if get_use_libraries_filter s then StepIntoMyCode else StepInto) s"

definition on_stepout_request :: "trace_db \<Rightarrow> trace_db" where
  "on_stepout_request s = internal_step_in_thread (if get_use_libraries_filter s then StepReturnMyCode else StepReturn) s"

definition stop_on_entry :: "trace_db \<Rightarrow> trace_db" where
  "stop_on_entry = on_info (\<lambda>i. i\<lparr>ti_original_step_cmd := Some StopOnStart, ti_step_cmd := Some StepIntoMyCode\<rparr>)"

text \<open>\<open>request_suspend_thread\<close> of the thread, on its stack.\<close>

definition pause_thread :: "trace_env \<Rightarrow> stack \<Rightarrow> trace_db \<Rightarrow> trace_db" where
  "pause_thread E st s = set_trace_for_frame_and_parents E st (mark_suspend ThreadSuspend None s)"

text \<open>The reason in \<open>make_thread_suspend_single_notification\<close>.\<close>

definition step_reasons :: "command set" where
  "step_reasons = {StepInto, StepIntoMyCode, StepOver, StepOverMyCode, StepReturn, StepReturnMyCode, StopOnStart, StepIntoCoroutine}"

definition reported_reason :: "command \<Rightarrow> trace_db \<Rightarrow> string \<times> trace_db" where
  "reported_reason stop_reason s =
    (if stop_reason \<in> step_reasons then
       if ti_original_step_cmd (td_info s) = Some StopOnStart
       then (''entry'', on_info (\<lambda>i. i\<lparr>ti_original_step_cmd := None\<rparr>) s) else (''step'', s)
     else if stop_reason \<in> {StepCaughtException, AddExceptionBreak} then (''exception'', s)
     else if stop_reason = SetBreak then (''breakpoint'', s)
     else if stop_reason = SetNextStatement then (''goto'', s)
     else (''pause'', s))"

section \<open>Going on\<close>

text \<open>
  The end of \<open>_do_wait_suspend\<close>, for the frame in which the thread was suspended: it runs; it is suspended
  again after a jump, on a stack with the new line; or it stays suspended since the jump was not possible.
\<close>

datatype wake = Runs | PausesAgain stack | StaysSuspended

fun frame_to_leave :: "trace_env \<Rightarrow> bool \<Rightarrow> act \<Rightarrow> stack \<Rightarrow> trace_db \<Rightarrow> (act \<times> stack) \<times> trace_db" where
  "frame_to_leave E force a [] s = ((a, []), s)"
| "frame_to_leave E force a (b # st) s =
    (case filter_frame E force b st s of
       (True, s) \<Rightarrow> frame_to_leave E force b st s
     | (False, s) \<Rightarrow> ((a, b # st), s))"

definition wake_step_return :: "trace_env \<Rightarrow> bool \<Rightarrow> act \<Rightarrow> stack \<Rightarrow> trace_db \<Rightarrow> trace_db" where
  "wake_step_return E force a st s =
    (case (if force \<or> is_files_filter_enabled (td_filters s) then frame_to_leave E force a st s else ((a, st), s)) of
       ((a, []), s) \<Rightarrow> internal_run_thread s
     | ((a, b # st), s) \<Rightarrow>
         set_trace_for_frame_and_parents E (a # b # st) (on_info (\<lambda>i. i\<lparr>ti_step_stop := Some (ac_id a)\<rparr>) s))"

text \<open>\<open>set_next_statement\<close>; whether Python lets the line be set is a parameter.\<close>

definition set_next_statement :: "(act \<Rightarrow> int \<Rightarrow> bool) \<Rightarrow> event \<Rightarrow> act \<Rightarrow> trace_db \<Rightarrow> act option \<times> trace_db" where
  "set_next_statement jump ev a s =
    (let line = ti_next_line (td_info s); func = ti_func_name (td_info s) in
     if (case ev of LineEvent \<Rightarrow> True | ExceptionEvent _ \<Rightarrow> True | _ \<Rightarrow> False) \<and> (func = ''*'' \<or> module_context a = func)
     then (if jump a line then Some (a\<lparr>ac_line := line\<rparr>) else None, s\<lparr>td_trace := (td_trace s)(ac_id a := ThreadTrace)\<rparr>)
     else (None, s))"

definition wake_up ::
  "trace_env \<Rightarrow> (act \<Rightarrow> int \<Rightarrow> bool) \<Rightarrow> event \<Rightarrow> act \<Rightarrow> stack \<Rightarrow> trace_db \<Rightarrow> wake \<times> trace_db" where
  "wake_up E jump ev a st s =
    (case ti_step_cmd (td_info s) of
       None \<Rightarrow> (Runs, s)
     | Some c \<Rightarrow>
         if c \<in> {StepInto, StepIntoMyCode}
         then (Runs, set_trace_for_frame_and_parents E (a # st) (on_info (\<lambda>i.
           (if te_coroutine E (ac_code a) then i\<lparr>ti_step_cmd := Some StepIntoCoroutine, ti_step_stop := Some (ac_id a)\<rparr>
            else i\<lparr>ti_step_stop := None\<rparr>)\<lparr>ti_smart_step_stop := None\<rparr>) s))
         else if c \<in> {StepOver, StepOverMyCode}
         then (Runs, set_trace_for_frame_and_parents E (a # st)
           (on_info (\<lambda>i. i\<lparr>ti_step_stop := Some (ac_id a), ti_smart_step_stop := None\<rparr>) s))
         else if c = SmartStepInto
         then (Runs, set_trace_for_frame_and_parents E (a # st)
           (on_info (\<lambda>i. i\<lparr>ti_step_stop := None, ti_smart_step_stop := Some (ac_id a)\<rparr>) s))
         else if c \<in> {RunToLine, SetNextStatement}
         then (case set_next_statement jump ev a
                 (set_trace_for_frame_and_parents E (a # st) (on_info (\<lambda>i. i\<lparr>ti_step_stop := None\<rparr>) s)) of
             (Some a', s) \<Rightarrow> (PausesAgain (a' # st), on_info (\<lambda>i. i\<lparr>ti_message := [], ti_state := StateSuspend,
               ti_stop_reason := Some SetNextStatement\<rparr>) s)
           | (None, s) \<Rightarrow> (StaysSuspended, on_info (\<lambda>i. i\<lparr>ti_message := [], ti_original_step_cmd := None, ti_step_cmd := None,
               ti_state := StateSuspend, ti_stop_reason := Some ThreadSuspend\<rparr>) s))
         else if c \<in> {StepReturn, StepReturnMyCode} then (Runs, wake_step_return E (c = StepReturnMyCode) a st s)
         else (Runs, s))"

text \<open>
  A thread that waits: the event of the activation that runs, the trace function the tracer is to
  return, and the frame that the thread is suspended in. Going on it returns, after
  \<open>handle_exception\<close> has set the trace functions again.
\<close>

record waiting =
  wt_event :: event
  wt_trace :: trace_function
  wt_frame :: stack
  wt_exception :: bool

definition waits_at :: "event \<Rightarrow> trace_function \<Rightarrow> stack \<Rightarrow> trace_db \<Rightarrow> waiting" where
  "waits_at ev t w s = \<lparr>wt_event = ev, wt_trace = t, wt_frame = w,
     wt_exception = (case ev of ExceptionEvent _ \<Rightarrow> ti_stop_reason (td_info s) = Some StepCaughtException | _ \<Rightarrow> False)\<rparr>"

definition resumed :: "trace_env \<Rightarrow> waiting \<Rightarrow> act \<Rightarrow> trace_db \<Rightarrow> trace_db" where
  "resumed E w a s =
    (let s = (if wt_exception w then set_trace_for_frame_and_parents E (wt_frame w) s else s)
     in s\<lparr>td_trace := (td_trace s)(ac_id a := wt_trace w)\<rparr>)"

section \<open>A program under the tracer\<close>

text \<open>
  The stack, what the thread waits for, the debugger, and which activations were excluded by file
  type or filters, when they were called or when tracing was last set for the whole stack.
\<close>

record config =
  cf_stack :: stack
  cf_waiting :: "waiting option"
  cf_db :: trace_db
  cf_filtered :: "nat set"

text \<open>After a return event the activation is gone.\<close>

definition stack_after :: "event \<Rightarrow> stack \<Rightarrow> stack" where
  "stack_after ev st = (case ev of ReturnEvent _ \<Rightarrow> tl st | _ \<Rightarrow> st)"

definition filtered_by :: "act \<Rightarrow> outcome \<Rightarrow> trace_db \<Rightarrow> nat set \<Rightarrow> nat set" where
  "filtered_by a r s F =
    (if fst r = NoTrace \<and> map_of (td_cache_skips s) (key_of a) = Some 1 then insert (ac_id a) F else F - {ac_id a})"

text \<open>The program's event \<open>ev\<close> in the activation \<open>a\<close> on the stack \<open>st\<close>.\<close>

definition after_event :: "trace_env \<Rightarrow> act \<Rightarrow> stack \<Rightarrow> event \<Rightarrow> config \<Rightarrow> config" where
  "after_event E a st ev c =
    (case program_event E a st ev (cf_db c) of
       (r, s) \<Rightarrow> \<lparr>
         cf_stack = (if snd r = None then stack_after ev (a # st) else a # st),
         cf_waiting = map_option (\<lambda>w. waits_at ev (fst r) w s) (snd r),
         cf_db = s,
         cf_filtered = (if ev \<noteq> CallEvent \<and> td_trace (cf_db c) (ac_id a) \<notin> {ThreadTrace, FrameTrace} then cf_filtered c
           else filtered_by a r s (cf_filtered c))\<rparr>)"

definition after_wake :: "trace_env \<Rightarrow> (act \<Rightarrow> int \<Rightarrow> bool) \<Rightarrow> waiting \<Rightarrow> config \<Rightarrow> config" where
  "after_wake E jump w c =
    (case wake_up E jump (wt_event w) (hd (wt_frame w)) (tl (wt_frame w)) (cf_db c) of
       (Runs, s) \<Rightarrow> c\<lparr>cf_stack := stack_after (wt_event w) (cf_stack c), cf_waiting := None,
         cf_db := resumed E w (hd (cf_stack c)) s\<rparr>
     | (PausesAgain st, s) \<Rightarrow> c\<lparr>cf_stack := st, cf_waiting := Some (w\<lparr>wt_frame := st\<rparr>), cf_db := s\<rparr>
     | (StaysSuspended, s) \<Rightarrow> c\<lparr>cf_db := s\<rparr>)"

text \<open>\<open>on_breakpoints_changed\<close> after breakpoints were added: tracing is set again for the whole stack.\<close>

definition breakpoints_added :: "trace_env \<Rightarrow> pydb \<Rightarrow> config \<Rightarrow> config" where
  "breakpoints_added E db c =
    (let s = set_trace_for_frame_and_parents E (cf_stack c) (clear_skip_caches (set_pydb db (cf_db c)))
     in c\<lparr>cf_db := s, cf_filtered := {i \<in> ac_id ` set (cf_stack c). td_trace s i \<noteq> ThreadTrace}\<rparr>)"

definition breakpoints_removed :: "pydb \<Rightarrow> config \<Rightarrow> config" where
  "breakpoints_removed db c = c\<lparr>cf_db := clear_skip_caches (set_pydb db (cf_db c))\<rparr>"

text \<open>Which event may come next: a call of a new activation, or an event of the running one at some line.\<close>

definition next_event :: "stack \<Rightarrow> event \<Rightarrow> act \<Rightarrow> stack \<Rightarrow> bool" where
  "next_event running ev a st \<longleftrightarrow>
    (if ev = CallEvent then st = running \<and> ac_id a \<notin> ac_id ` set running
     else \<exists>a0 line. running = a0 # st \<and> a = a0\<lparr>ac_line := line\<rparr>)"

definition user_commands :: "(trace_db \<Rightarrow> trace_db) set" where
  "user_commands = {internal_run_thread, on_next_request, on_stepin_request, on_stepout_request} \<union>
     {internal_set_next_statement c l f q | c l f q. True}"

definition has_visible :: "os_env \<Rightarrow> act \<Rightarrow> trace_db \<Rightarrow> bool" where
  "has_visible os a s \<longleftrightarrow> has_breakpoint_in_frame a (bps_at os a s)"

inductive debug_step :: "os_env \<Rightarrow> config \<Rightarrow> config \<Rightarrow> bool" for os where
  event: "cf_waiting c = None \<Longrightarrow> fe_os (te_filter E) = os \<Longrightarrow> next_event (cf_stack c) ev a st \<Longrightarrow>
    debug_step os c (after_event E a st ev c)"
| command: "cf_waiting c = Some w \<Longrightarrow> f \<in> user_commands \<Longrightarrow> debug_step os c (c\<lparr>cf_db := f (cf_db c)\<rparr>)"
| wake: "cf_waiting c = Some w \<Longrightarrow> ti_state (td_info (cf_db c)) \<noteq> StateSuspend \<Longrightarrow> fe_os (te_filter E) = os \<Longrightarrow>
    debug_step os c (after_wake E jump w c)"
| pause: "debug_step os c (c\<lparr>cf_db := pause_thread E (cf_stack c) (cf_db c)\<rparr>)"
| added: "debug_step os c (breakpoints_added E db c)"
| removed: "(\<And>a. has_visible os a (set_pydb db (cf_db c)) \<Longrightarrow> has_visible os a (cf_db c)) \<Longrightarrow>
    debug_step os c (breakpoints_removed db c)"

definition debug_start :: "config \<Rightarrow> bool" where
  "debug_start c \<longleftrightarrow> cf_stack c = [] \<and> cf_waiting c = None \<and> cf_filtered c = {} \<and>
    clear_skip_caches (cf_db c) = cf_db c \<and> \<not> td_disposed (cf_db c) \<and> \<not> td_quitting (cf_db c) \<and> \<not> td_dont_trace (cf_db c)"

end
