(* ===== verification/SkipCaches.thy ===== *)
theory SkipCaches
  imports Stepping
begin

text \<open>
  The tracer's skip caches are right: they hide no line with a breakpoint, and a function that is left untraced
  has no breakpoint, was filtered, or is returning. First, what each part of the tracer leaves alone.
\<close>

section \<open>What the parts of the tracer leave alone\<close>

text \<open>All but the skip caches' own functions, and those that set trace functions, leave these alone.\<close>

definition skips_view :: "trace_db \<Rightarrow> _" where
  "skips_view s = (td_cache_skips s, td_frame_skips s, td_line_skips s, td_trace s, db_breakpoints (td_pydb s),
     td_quitting s, td_disposed s, td_dont_trace s)"

named_theorems view

lemma view_set_filters [view]: "skips_view (set_filters fl s) = skips_view s"
  by (simp add: skips_view_def set_filters_def set_pydb_def)

lemma view_on_info [view]: "skips_view (on_info f s) = skips_view s"
  by (simp add: skips_view_def on_info_def)

lemma view_set_step [view]: "skips_view (set_step c p s) = skips_view s"
  by (simp add: set_step_def view)

lemma view_mark_suspend [view]: "skips_view (mark_suspend r c s) = skips_view s"
  by (simp add: mark_suspend_def view)

lemma view_stop_stepping [view]: "skips_view (stop_stepping s) = skips_view s"
  by (simp add: stop_stepping_def view)

lemma view_filter_frame [view]: "skips_view (snd (filter_frame E force a st s)) = skips_view s"
  by (simp add: filter_frame_def view split: prod.splits)

lemma view_type_of_frame [view]: "skips_view (snd (type_of_frame E a st s)) = skips_view s"
  by (simp add: type_of_frame_def view split: prod.splits)

lemma view_is_type_pydev [view]: "skips_view (snd (is_type_pydev E a st s)) = skips_view s"
  by (simp add: is_type_pydev_def view case_prod_beta)

lemma should_stop_keeps:
  "db_breakpoints (xd_db (snd (should_stop_on_exception S b p fr c code tb x))) = db_breakpoints (xd_db x)"
  by (simp add: should_stop_on_exception_def Let_def split: prod.splits option.splits)

lemma view_stop_at_exception [view]: "skips_view (snd (stop_at_exception E a st e s)) = skips_view s"
proof -
  have "skips_view (s\<lparr>td_exc := snd (should_stop_on_exception S b p fr c code tb (td_exc s))\<rparr>) = skips_view s"
    for S b p fr c code tb by (simp add: skips_view_def should_stop_keeps)
  then show ?thesis by (simp add: stop_at_exception_def view case_prod_beta)
qed

lemma view_lines_ignored [view]: "skips_view (snd (lines_ignored E f s)) = skips_view s"
  by (simp add: lines_ignored_def skips_view_def Let_def)

lemma view_raised_in_ignored_line [view]: "skips_view (snd (raised_in_ignored_line E t s)) = skips_view s"
proof -
  have *: "skips_view (s\<lparr>td_ignored := x\<rparr>) = skips_view s" for s x by (simp add: skips_view_def)
  show ?thesis
    by (simp add: raised_in_ignored_line_def view * Let_def case_prod_beta split: option.split)
qed

lemma view_handle_exception [view]: "skips_view (snd (handle_exception E e s)) = skips_view s"
  by (auto simp: handle_exception_def view Let_def case_prod_beta split: bool.split)

lemma view_trace_exception [view]: "skips_view (snd (trace_exception E a st ev s)) = skips_view s"
  by (auto simp: trace_exception_def view case_prod_beta split: event.split bool.split)

lemma view_unfiltered_frame [view]: "skips_view (snd (unfiltered_frame E st s)) = skips_view s"
  by (induction st arbitrary: s) (simp_all add: view case_prod_beta)

lemma view_leave_generator [view]: "skips_view (leave_generator E a st s) = skips_view s"
  by (auto simp: leave_generator_def get_unfiltered_back_frame_def view Let_def case_prod_beta split: list.split)

lemma view_leave_function [view]: "skips_view (leave_function a s) = skips_view s"
  by (simp add: leave_function_def view Let_def)

lemma view_return_lines [view]: "skips_view (snd (return_lines E a s)) = skips_view s"
  by (simp add: return_lines_def skips_view_def Let_def split: option.split)

lemma view_meet_exception [view]: "skips_view (snd (meet_exception E a st e s)) = skips_view s"
  by (auto simp: meet_exception_def view case_prod_beta split: bool.split)

lemma view_perceive [view]: "skips_view (snd (perceive E a st ev s)) = skips_view s"
  by (auto simp: perceive_def view case_prod_beta split: event.split option.split)

lemma handle_condition_keeps:
  "db_breakpoints (snd (handle_breakpoint_condition ev skips b db)) = db_breakpoints db"
  "db_filters (snd (handle_breakpoint_condition ev skips b db)) = db_filters db"
  by (auto simp: handle_breakpoint_condition_def handle_hit_condition_def Let_def split: prod.splits option.splits bool.splits)

lemma view_evaluate_breakpoint [view]: "skips_view (snd (evaluate_breakpoint E b s)) = skips_view s"
proof -
  have *: "skips_view (s\<lparr>td_written := x\<rparr>) = skips_view s" for s x by (simp add: skips_view_def)
  have **: "skips_view (set_pydb (snd (handle_breakpoint_condition ev skips b (td_pydb s))) s) = skips_view s" for ev skips
    by (simp add: skips_view_def set_pydb_def handle_condition_keeps)
  show ?thesis
    by (simp add: evaluate_breakpoint_def add_message_def view * ** Let_def case_prod_beta split: option.split)
qed

lemma view_visit_breakpoint [view]: "skips_view (snd (visit_breakpoint E k cmd stop a b s)) = skips_view s"
  by (simp add: visit_breakpoint_def view split: option.split)

lemma view_return_values [view]: "skips_view (return_values E k stop a st ev s) = skips_view s"
  by (simp add: return_values_def show_return_values_def remove_return_values_def skips_view_def Let_def
      split: event.split list.split)

lemma view_frame_should_skip [view]: "skips_view (snd (frame_should_skip E a s)) = skips_view s"
  by (simp add: frame_should_skip_def skips_view_def Let_def split: option.split)

lemma view_in_step_scope [view]: "skips_view (snd (in_step_scope E force a st s)) = skips_view s"
  by (simp add: in_step_scope_def view case_prod_beta)

lemma view_step_stops [view]: "skips_view (snd (step_stops E k cmd stop a st s)) = skips_view s"
  by (auto simp: step_stops_def stop_into_def smart_step_def view Let_def case_prod_beta
      split: option.split kind.split list.split bool.split)

lemma view_not_into_debugger [view]: "skips_view (snd (not_into_debugger E k cmd st r)) = skips_view (snd r)"
  by (auto simp: not_into_debugger_def view case_prod_beta split: list.split)


text \<open>Setting trace functions for a stack turns some on.\<close>

definition only_retraced :: "trace_db \<Rightarrow> trace_db \<Rightarrow> bool" where
  "only_retraced s s' \<longleftrightarrow> skips_view (s'\<lparr>td_trace := td_trace s\<rparr>) = skips_view s \<and>
     (\<forall>i. td_trace s' i \<in> {td_trace s i, ThreadTrace})"

lemma only_retraced_view: "skips_view s' = skips_view s \<Longrightarrow> only_retraced s s'"
  by (auto simp: only_retraced_def skips_view_def)

lemma only_retraced_trans: "only_retraced s t \<Longrightarrow> only_retraced t u \<Longrightarrow> only_retraced s u"
  by (auto simp: only_retraced_def skips_view_def) metis+

lemma only_retraced_set_trace: "only_retraced s (set_trace_for_frame_and_parents E st s)"
proof (induction st arbitrary: s)
  case (Cons a st)
  have *: "only_retraced s (s'\<lparr>td_trace := (td_trace s')(i := ThreadTrace)\<rparr>)" if "skips_view s' = skips_view s" for s' i
    using that by (auto simp: only_retraced_def skips_view_def)
  show ?case
    by (simp add: case_prod_beta) (intro conjI impI only_retraced_trans [OF _ Cons.IH] * only_retraced_view; simp add: view)
qed (simp add: only_retraced_view)

lemma only_retraced_perform: "only_retraced s (snd (perform_stop E k cmd a st s))"
  by (auto simp: perform_stop_def Let_def view only_retraced_set_trace intro: only_retraced_view
      split: kind.split return_stop.split)

lemma only_retraced_step: "only_retraced s (snd (handle_step E k cmd stop a st s))"
proof (cases "fst (frame_should_skip E a s)")
  case None
  then show ?thesis by (simp add: handle_step_def case_prod_beta Let_def view only_retraced_view)
next
  case (Some skip)
  let ?s = "snd (frame_should_skip E a s)"
  let ?r = "not_into_debugger E k cmd st (if skip then (False, ?s) else step_stops E k cmd stop a st ?s)"
  obtain go s2 where r: "?r = (go, s2)" by (cases ?r)
  have "skips_view (snd ?r) = skips_view s" by (simp add: view)
  with r have s2: "only_retraced s s2" by (simp add: only_retraced_view)
  have "handle_step E k cmd stop a st s = (if go then perform_stop E k cmd a st s2 else ((go_on s2, None), s2))"
    using r Some by (simp add: handle_step_def case_prod_beta)
  with s2 only_retraced_trans [OF s2 only_retraced_perform] show ?thesis by simp
qed

section \<open>The skip caches are right\<close>

definition caches_right :: "os_env \<Rightarrow> trace_db \<Rightarrow> bool" where
  "caches_right os s \<longleftrightarrow> (\<forall>a.
     (\<forall>line. (key_of a, line) \<in> set (td_line_skips s) \<longrightarrow> map_of (bps_at os a s) line = None) \<and>
     (\<forall>v. map_of (td_frame_skips s) (key_of a) = Some v \<longrightarrow> v = has_visible os a s) \<and>
     (\<forall>v. map_of (td_cache_skips s) (key_of a) = Some v \<longrightarrow> v \<noteq> 1 \<longrightarrow> \<not> has_visible os a s))"

lemma key_decides:
  assumes "key_of a = key_of b"
  shows "bps_at os a s = bps_at os b s" "has_visible os a s = has_visible os b s"
  using assms by (simp_all add: key_of_def bps_at_def real_file_def has_visible_def has_breakpoint_in_frame_def context_name_def)

lemma same_breakpoints:
  assumes "db_breakpoints (td_pydb s') = db_breakpoints (td_pydb s)"
  shows "bps_at os a s' = bps_at os a s" "has_visible os a s' = has_visible os a s"
  using assms by (simp_all add: bps_at_def has_visible_def)

lemma same_breakpoints_caches [simp]:
  "has_visible os a (s\<lparr>td_cache_skips := c\<rparr>) = has_visible os a s"
  "has_visible os a (s\<lparr>td_frame_skips := f\<rparr>) = has_visible os a s"
  "has_visible os a (s\<lparr>td_line_skips := l\<rparr>) = has_visible os a s"
  "bps_at os a (s\<lparr>td_cache_skips := c\<rparr>) = bps_at os a s"
  "bps_at os a (s\<lparr>td_frame_skips := f\<rparr>) = bps_at os a s"
  "bps_at os a (s\<lparr>td_line_skips := l\<rparr>) = bps_at os a s"
  by (simp_all add: bps_at_def has_visible_def)

lemma caches_rightD:
  assumes "caches_right os s"
  shows "(key_of a, line) \<in> set (td_line_skips s) \<Longrightarrow> map_of (bps_at os a s) line = None"
    and "map_of (td_frame_skips s) (key_of a) = Some v \<Longrightarrow> v = has_visible os a s"
    and "map_of (td_cache_skips s) (key_of a) = Some v' \<Longrightarrow> v' \<noteq> 1 \<Longrightarrow> \<not> has_visible os a s"
  using assms unfolding caches_right_def by blast+

lemma caches_rightI:
  assumes "\<And>a line. (key_of a, line) \<in> set (td_line_skips s) \<Longrightarrow> map_of (bps_at os a s) line = None"
    and "\<And>a v. map_of (td_frame_skips s) (key_of a) = Some v \<Longrightarrow> v = has_visible os a s"
    and "\<And>a v. map_of (td_cache_skips s) (key_of a) = Some v \<Longrightarrow> v \<noteq> 1 \<Longrightarrow> \<not> has_visible os a s"
  shows "caches_right os s"
  using assms unfolding caches_right_def by blast

lemma caches_right_retraced:
  assumes "only_retraced s s'"
  shows "caches_right os s' = caches_right os s"
proof -
  have "db_breakpoints (td_pydb s') = db_breakpoints (td_pydb s)" and
    "td_cache_skips s' = td_cache_skips s" "td_frame_skips s' = td_frame_skips s" "td_line_skips s' = td_line_skips s"
    using assms by (simp_all add: only_retraced_def skips_view_def)
  from this(2-) show ?thesis by (simp add: caches_right_def same_breakpoints [OF \<open>db_breakpoints _ = _\<close>])
qed

lemma caches_right_cleared: "caches_right os (clear_skip_caches s)"
  by (simp add: caches_right_def clear_skip_caches_def)

lemma caches_right_filtered: "caches_right os s \<Longrightarrow> caches_right os (cache_skip a 1 s)"
  by (rule caches_rightI) (auto simp: cache_skip_def dest: caches_rightD split: if_splits)

lemma caches_right_untraced:
  assumes "caches_right os s" and "\<not> has_visible os a s"
  shows "caches_right os (cache_skip a 2 s)"
proof (rule caches_rightI)
  fix b v assume "map_of (td_cache_skips (cache_skip a 2 s)) (key_of b) = Some v" "v \<noteq> 1"
  then show "\<not> has_visible os b (cache_skip a 2 s)"
    using assms(2) key_decides(2) [of a b os s] caches_rightD(3) [OF assms(1)]
    by (cases "key_of a = key_of b") (auto simp: cache_skip_def)
qed (use assms(1) in \<open>auto simp: cache_skip_def dest: caches_rightD\<close>)

lemma caches_right_line:
  assumes "caches_right os s" and "map_of (bps_at os a s) (ac_line a) = None"
  shows "caches_right os (remember_line k a None s)"
proof (rule caches_rightI)
  fix b line assume "(key_of b, line) \<in> set (td_line_skips (remember_line k a None s))"
  then show "map_of (bps_at os b (remember_line k a None s)) line = None"
    using assms(2) key_decides(1) [of a b os s] caches_rightD(1) [OF assms(1)]
    by (cases "key_of a = key_of b \<and> line = ac_line a") (auto simp: remember_line_def split: if_splits)
qed (use assms(1) in \<open>auto simp: remember_line_def dest: caches_rightD\<close>)

lemma remember_line_some [simp]: "remember_line k a (Some b) s = s"
  by (simp add: remember_line_def)

text \<open>What an event may be skipped for, and the caches after it.\<close>

lemma skip_event_right:
  assumes "caches_right os s" and "skip_event skip (bps_at os a s) a s = (r, s')"
  shows "caches_right os s'" "s' = s\<lparr>td_frame_skips := td_frame_skips s'\<rparr>"
    and "r = Some t \<Longrightarrow> skip \<and> (t = FrameTrace \<and> map_of (bps_at os a s) (ac_line a) = None \<or>
      t = leave_untraced s \<and> \<not> has_visible os a s)"
proof -
  let ?new = "s\<lparr>td_frame_skips := od_set (key_of a) (has_visible os a s) (td_frame_skips s)\<rparr>"
  have new: "caches_right os ?new"
  proof (rule caches_rightI)
    fix b v assume "map_of (td_frame_skips ?new) (key_of b) = Some v"
    then show "v = has_visible os b ?new"
      using key_decides(2) [of a b os s] caches_rightD(2) [OF assms(1)]
      by (cases "key_of a = key_of b") auto
  qed (use assms(1) in \<open>auto dest: caches_rightD\<close>)
  have v: "has_breakpoint_in_frame a (bps_at os a s) = has_visible os a s" by (simp add: has_visible_def)
  have f: "frame_breakpoints a (bps_at os a s) s = (has_visible os a s, s) \<or>
      frame_breakpoints a (bps_at os a s) s = (has_visible os a s, ?new)"
    using caches_rightD(2) [OF assms(1)] by (auto simp: frame_breakpoints_def v Let_def split: option.split)
  have e: "bps_at os a s = [] \<Longrightarrow> \<not> has_visible os a s" by (simp add: has_visible_def has_breakpoint_in_frame_def)
  have l: "(key_of a, ac_line a) \<in> set (td_line_skips s) \<Longrightarrow> map_of (bps_at os a s) (ac_line a) = None"
    by (rule caches_rightD(1) [OF assms(1)])
  show "caches_right os s'" "s' = s\<lparr>td_frame_skips := td_frame_skips s'\<rparr>"
    using assms f new by (auto simp: skip_event_def split: if_splits)
  show "r = Some t \<Longrightarrow> skip \<and> (t = FrameTrace \<and> map_of (bps_at os a s) (ac_line a) = None \<or>
      t = leave_untraced s \<and> \<not> has_visible os a s)"
    using assms(2) f e l by (auto simp: skip_event_def leave_untraced_def has_exception_breakpoints_def split: if_splits)
qed

text \<open>A part of the tracer that keeps the caches right and may set trace functions.\<close>

definition goes_right :: "os_env \<Rightarrow> trace_db \<Rightarrow> trace_db \<Rightarrow> bool" where
  "goes_right os s s' \<longleftrightarrow> (caches_right os s \<longrightarrow> caches_right os s') \<and>
     td_cache_skips s' = td_cache_skips s \<and> db_breakpoints (td_pydb s') = db_breakpoints (td_pydb s) \<and>
     td_quitting s' = td_quitting s \<and> td_disposed s' = td_disposed s \<and> td_dont_trace s' = td_dont_trace s \<and>
     (\<forall>i. td_trace s' i \<in> {td_trace s i, ThreadTrace})"

lemma goes_right_refl [simp]: "goes_right os s s"
  by (simp add: goes_right_def)

lemma goes_right_trans: "goes_right os s t \<Longrightarrow> goes_right os t u \<Longrightarrow> goes_right os s u"
  unfolding goes_right_def by (metis insert_iff singletonD)

lemma goes_right_retraced: "only_retraced s s' \<Longrightarrow> goes_right os s s'"
  using caches_right_retraced [of s s' os] by (simp add: goes_right_def only_retraced_def skips_view_def)

lemma goes_right_view: "skips_view s' = skips_view s \<Longrightarrow> goes_right os s s'"
  by (rule goes_right_retraced) (rule only_retraced_view)

lemma goes_right_skip:
  assumes "caches_right os s"
  shows "goes_right os s (snd (skip_event skip (bps_at os a s) a s))"
proof -
  obtain r s' where r: "skip_event skip (bps_at os a s) a s = (r, s')" by force
  obtain fs where e: "s' = s\<lparr>td_frame_skips := fs\<rparr>" using skip_event_right(2) [OF assms r] by blast
  from skip_event_right(1) [OF assms r] r show ?thesis by (simp add: goes_right_def e)
qed

lemma perceive_early:
  assumes "perceive E a st ev s = (Inl (t, w), s')"
  shows "t = FrameTrace" "w = Some f \<Longrightarrow> f = a # st \<and> ti_state (td_info s') = StateSuspend \<and> (\<exists>e. ev = ExceptionEvent e)"
  using assms
  by (auto simp: perceive_def meet_exception_def handle_exception_def mark_suspend_def on_info_def Let_def
      split: if_splits event.splits prod.splits option.splits bool.splits)

lemma perceive_kind:
  assumes "perceive E a st ev s = (Inr k, s')"
  shows "k = IsLine \<Longrightarrow> ev = LineEvent" "k = IsCall \<Longrightarrow> ev = CallEvent" "k = IsReturn \<Longrightarrow> \<exists>v. ev = ReturnEvent v"
    "k = IsException \<Longrightarrow> \<exists>e. ev = ExceptionEvent e"
  using assms
  by (auto simp: perceive_def split: if_splits event.splits prod.splits option.splits)

lemma return_values_info [simp]: "td_info (return_values E k stop a st ev s) = td_info s"
  by (simp add: return_values_def show_return_values_def remove_return_values_def Let_def split: event.split list.split)

lemma goes_right_remember:
  assumes "k = IsLine \<Longrightarrow> b = None \<Longrightarrow> map_of (bps_at os a s) (ac_line a) = None"
  shows "goes_right os s (remember_line k a b s)"
proof (cases "b = None \<and> k = IsLine")
  case True
  with assms caches_right_line [of os s a k] show ?thesis by (auto simp: goes_right_def remember_line_def)
qed (auto simp: remember_line_def)

lemma perform_stop_outcome:
  assumes "perform_stop E k cmd a st s = ((t, w), s')" and "\<not> td_quitting s"
  shows "t = FrameTrace \<or> k = IsReturn" "w = Some f \<Longrightarrow> f = (if k = IsReturn then st else a # st) \<and> f \<noteq> []"
    "w = Some f \<Longrightarrow> t = FrameTrace"
  using assms
  by (auto simp: perform_stop_def go_on_def mark_suspend_def on_info_def stop_stepping_def return_stop_of_def Let_def
      split: kind.splits return_stop.splits list.splits option.splits if_splits)

lemma handle_step_outcome:
  assumes "handle_step E k cmd stop a st s = ((t, w), s')" and "\<not> td_quitting s"
  shows "t = FrameTrace \<or> k = IsReturn" "w = Some f \<Longrightarrow> f = (if k = IsReturn then st else a # st) \<and> f \<noteq> []"
    "w = Some f \<Longrightarrow> t = FrameTrace"
proof -
  have q: "\<not> td_quitting s'" if "skips_view s' = skips_view s" for s' using that assms(2) by (simp add: skips_view_def)
  have p: "(t = FrameTrace \<or> k = IsReturn) \<and> (w = Some f \<longrightarrow> f = (if k = IsReturn then st else a # st) \<and> f \<noteq> [] \<and> t = FrameTrace)"
  proof (cases "fst (frame_should_skip E a s)")
    case None
    with assms(1) q [of "stop_stepping (snd (frame_should_skip E a s))"] show ?thesis
      by (auto simp: handle_step_def case_prod_beta Let_def go_on_def view)
  next
    case (Some skip)
    let ?s = "snd (frame_should_skip E a s)"
    let ?r = "not_into_debugger E k cmd st (if skip then (False, ?s) else step_stops E k cmd stop a st ?s)"
    obtain go s2 where r: "?r = (go, s2)" by (cases ?r)
    have "skips_view (snd ?r) = skips_view s" by (simp add: view)
    with r q have s2: "\<not> td_quitting s2" by simp
    have "handle_step E k cmd stop a st s = (if go then perform_stop E k cmd a st s2 else ((go_on s2, None), s2))"
      using r Some by (simp add: handle_step_def case_prod_beta)
    with assms(1) have o: "(if go then perform_stop E k cmd a st s2 else ((go_on s2, None), s2)) = ((t, w), s')" by simp
    show ?thesis
    proof (cases go)
      case True
      with o have "perform_stop E k cmd a st s2 = ((t, w), s')" by simp
      from perform_stop_outcome [OF this s2] show ?thesis by blast
    qed (use o s2 in \<open>simp add: go_on_def\<close>)
  qed
  then show "t = FrameTrace \<or> k = IsReturn" "w = Some f \<Longrightarrow> f = (if k = IsReturn then st else a # st) \<and> f \<noteq> []"
    "w = Some f \<Longrightarrow> t = FrameTrace" by auto
qed

text \<open>The rest of \<open>trace_dispatch\<close>, for an event that is neither left early nor skipped.\<close>

definition dispatch_rest ::
  "trace_env \<Rightarrow> kind \<Rightarrow> command option \<Rightarrow> nat option \<Rightarrow> act \<Rightarrow> stack \<Rightarrow> event \<Rightarrow> trace_db \<Rightarrow> outcome \<times> trace_db" where
  "dispatch_rest E k cmd stop a st ev s =
    (let b = breakpoint_at k a (bps_of E a s) s in
     case visit_breakpoint E k cmd stop a b s of
       (hit, s) \<Rightarrow>
         if b \<noteq> None \<and> k = IsCall \<and> co_name (ac_code a) \<in> {''<module>'', ''<lambda>''} then ((FrameTrace, None), s)
         else
           let s = return_values E k stop a st ev s;
               s = (if hit then mark_suspend SetBreak None s else s)
           in if ti_state (td_info s) = StateSuspend then ((FrameTrace, Some (a # st)), s)
              else handle_step E k cmd stop a st (remember_line k a b s))"

lemma trace_dispatch_cases:
  assumes "\<not> td_disposed s" and "perceive E a st ev s = (Inr k, s1)"
    and "(if k = IsException then (None, s1)
      else skip_event (can_skip (ti_step_cmd (td_info s)) (ti_step_stop (td_info s)) a st s1) (bps_of E a s1) a s1) = (r, s2)"
  shows "trace_dispatch E a st ev s = (case r of Some t \<Rightarrow> ((t, None), s2)
    | None \<Rightarrow> dispatch_rest E k (ti_step_cmd (td_info s)) (ti_step_stop (td_info s)) a st ev s2)"
  using assms by (simp add: trace_dispatch_def dispatch_rest_def Let_def split: option.split prod.split)

lemma dispatch_rest_right:
  assumes "fe_os (te_filter E) = os" and "\<not> td_quitting s" and "dispatch_rest E k cmd stop a st ev s = ((t, w), s')"
  shows "goes_right os s s' \<and> (t = FrameTrace \<or> k = IsReturn) \<and>
    (\<forall>f. w = Some f \<longrightarrow> t = FrameTrace \<and> f \<noteq> [] \<and> (f = a # st \<or> f = st \<and> k = IsReturn))"
proof -
  define b where "b = breakpoint_at k a (bps_of E a s) s"
  obtain hit s1 where v: "visit_breakpoint E k cmd stop a b s = (hit, s1)" by force
  have g1: "skips_view s1 = skips_view s" using view_visit_breakpoint [of E k cmd stop a b s] v by simp
  define s2 where "s2 = (if hit then mark_suspend SetBreak None (return_values E k stop a st ev s1) else return_values E k stop a st ev s1)"
  have g2: "skips_view s2 = skips_view s" by (simp add: s2_def view g1)
  define early where "early \<longleftrightarrow> b \<noteq> None \<and> k = IsCall \<and> co_name (ac_code a) \<in> {''<module>'', ''<lambda>''}"
  have d: "dispatch_rest E k cmd stop a st ev s =
    (if early then ((FrameTrace, None), s1)
     else if ti_state (td_info s2) = StateSuspend then ((FrameTrace, Some (a # st)), s2)
     else handle_step E k cmd stop a st (remember_line k a b s2))"
    by (simp only: dispatch_rest_def b_def [symmetric] s2_def early_def Let_def v prod.case)
  show ?thesis
  proof (cases "early \<or> ti_state (td_info s2) = StateSuspend")
    case True
    with d assms(3) goes_right_view [OF g1] goes_right_view [OF g2] show ?thesis by (auto split: if_splits)
  next
    case False
    then have h: "handle_step E k cmd stop a st (remember_line k a b s2) = ((t, w), s')" using d assms(3) by simp
    have "map_of (bps_at os a s2) (ac_line a) = None" if k: "k = IsLine" "b = None"
    proof -
      have "s2 = return_values E k stop a st ev s" using v k by (simp add: visit_breakpoint_def s2_def)
      with False have "ti_state (td_info s) \<noteq> StateSuspend" by simp
      moreover have "bps_at os a s2 = bps_at os a s" using g2 by (intro same_breakpoints) (simp add: skips_view_def)
      ultimately show ?thesis using k assms(1) by (simp add: b_def breakpoint_at_def)
    qed
    then have "goes_right os s2 (remember_line k a b s2)" by (rule goes_right_remember)
    moreover have "goes_right os (remember_line k a b s2) s'"
      using goes_right_retraced [OF only_retraced_step] h by (metis snd_conv)
    ultimately have g: "goes_right os s s'" using goes_right_view [OF g2] goes_right_trans by blast
    have "\<not> td_quitting (remember_line k a b s2)" using g2 assms(2) by (simp add: remember_line_def skips_view_def)
    note o = handle_step_outcome [OF h this]
    from o(2,3) have "\<forall>f. w = Some f \<longrightarrow> t = FrameTrace \<and> f \<noteq> [] \<and> (f = a # st \<or> f = st \<and> k = IsReturn)"
      by (metis)
    with g o(1) show ?thesis by blast
  qed
qed

lemma dispatch_right:
  assumes "fe_os (te_filter E) = os" and "caches_right os s" and "\<not> td_disposed s" and "\<not> td_quitting s"
    and "trace_dispatch E a st ev s = ((t, w), s')"
  shows "goes_right os s s'" "t \<noteq> FrameTrace \<Longrightarrow> \<not> has_visible os a s \<or> (\<exists>v. ev = ReturnEvent v)"
    and "w = Some f \<Longrightarrow> t = FrameTrace \<and> f \<noteq> [] \<and> (f = a # st \<or> f = st \<and> (\<exists>v. ev = ReturnEvent v))"
proof -
  obtain p s1 where p: "perceive E a st ev s = (p, s1)" by force
  have v1: "skips_view s1 = skips_view s" using view_perceive [of E a st ev s] p by simp
  have g1: "goes_right os s s1" by (rule goes_right_view [OF v1])
  have "goes_right os s s' \<and> (t \<noteq> FrameTrace \<longrightarrow> \<not> has_visible os a s \<or> (\<exists>v. ev = ReturnEvent v)) \<and>
    (\<forall>f. w = Some f \<longrightarrow> t = FrameTrace \<and> f \<noteq> [] \<and> (f = a # st \<or> f = st \<and> (\<exists>v. ev = ReturnEvent v)))"
  proof (cases p)
    case (Inl r)
    with p assms(3,5) have "perceive E a st ev s = (Inl (t, w), s')" "s' = s1" by (simp_all add: trace_dispatch_def Let_def)
    with perceive_early [OF this(1)] g1 show ?thesis by blast
  next
    case (Inr k)
    define skip where "skip = can_skip (ti_step_cmd (td_info s)) (ti_step_stop (td_info s)) a st s1"
    obtain r s2 where r: "(if k = IsException then (None, s1) else skip_event skip (bps_of E a s1) a s1) = (r, s2)" by force
    have c1: "caches_right os s1" using g1 assms(2) by (simp add: goes_right_def)
    have vis: "has_visible os a s1 = has_visible os a s" using v1 by (intro same_breakpoints) (simp add: skips_view_def)
    have g2: "goes_right os s s2"
      using r goes_right_skip [OF c1, of skip a] assms(1) goes_right_trans [OF g1] by (auto split: if_splits)
    have d: "trace_dispatch E a st ev s = (case r of Some t \<Rightarrow> ((t, None), s2)
        | None \<Rightarrow> dispatch_rest E k (ti_step_cmd (td_info s)) (ti_step_stop (td_info s)) a st ev s2)"
      by (rule trace_dispatch_cases [OF assms(3) p [unfolded Inr] r [unfolded skip_def]])
    show ?thesis
    proof (cases r)
      case (Some t')
      with r have "skip_event skip (bps_at os a s1) a s1 = (Some t', s2)" using assms(1) by (auto split: if_splits)
      from skip_event_right(3) [OF c1 this, of t'] d Some assms(5) g2 vis show ?thesis by auto
    next
      case None
      have q: "\<not> td_quitting s2" using g2 assms(4) by (simp add: goes_right_def)
      from d None assms(5) have
        "dispatch_rest E k (ti_step_cmd (td_info s)) (ti_step_stop (td_info s)) a st ev s2 = ((t, w), s')" by simp
      from dispatch_rest_right [OF assms(1) q this] goes_right_trans [OF g2] perceive_kind(3) [OF p [unfolded Inr]] show ?thesis by blast
    qed
  qed
  then show "goes_right os s s'" "t \<noteq> FrameTrace \<Longrightarrow> \<not> has_visible os a s \<or> (\<exists>v. ev = ReturnEvent v)"
    "w = Some f \<Longrightarrow> t = FrameTrace \<and> f \<noteq> [] \<and> (f = a # st \<or> f = st \<and> (\<exists>v. ev = ReturnEvent v))" by blast+
qed

definition run_right :: "os_env \<Rightarrow> trace_db \<Rightarrow> trace_db \<Rightarrow> bool" where
  "run_right os s s' \<longleftrightarrow> (caches_right os s \<longrightarrow> caches_right os s') \<and>
     db_breakpoints (td_pydb s') = db_breakpoints (td_pydb s) \<and>
     td_quitting s' = td_quitting s \<and> td_disposed s' = td_disposed s \<and> td_dont_trace s' = td_dont_trace s \<and>
     (\<forall>i. td_trace s' i \<in> {td_trace s i, ThreadTrace})"

lemma run_right_refl [simp]: "run_right os s s"
  by (simp add: run_right_def)

lemma run_right_trans: "run_right os s t \<Longrightarrow> run_right os t u \<Longrightarrow> run_right os s u"
  unfolding run_right_def by (metis insert_iff singletonD)

lemma run_right_goes: "goes_right os s s' \<Longrightarrow> run_right os s s'"
  by (simp add: run_right_def goes_right_def)

lemma run_right_view: "skips_view s' = skips_view s \<Longrightarrow> run_right os s s'"
  by (rule run_right_goes) (rule goes_right_view)

lemma run_right_filtered: "run_right os s (cache_skip a 1 s)"
  using caches_right_filtered [of os s a] by (auto simp: run_right_def cache_skip_def)

lemma view_notify_skipped [view]: "skips_view (notify_skipped b s) = skips_view s"
  by (simp add: notify_skipped_def skips_view_def)

lemma cache_skip_same [simp]: "map_of (td_cache_skips (cache_skip a v s)) (key_of b) =
    (if key_of a = key_of b then Some v else map_of (td_cache_skips s) (key_of b))"
  by (simp add: cache_skip_def)

lemma view_cache: "skips_view s' = skips_view s \<Longrightarrow> td_cache_skips s' = td_cache_skips s"
  by (simp add: skips_view_def)

lemma known_skip_right:
  assumes "known_skip a st s = (r, s')" and "caches_right os s"
  shows "skips_view s' = skips_view s"
    and "r \<Longrightarrow> \<not> has_visible os a s \<or> map_of (td_cache_skips s') (key_of a) = Some 1"
proof -
  note n = view_notify_skipped [of True s] view_cache [OF view_notify_skipped [of True s]]
  show "skips_view s' = skips_view s"
    using assms(1) n(1) by (auto simp: known_skip_def Let_def split: option.splits if_splits list.splits)
  show "\<not> has_visible os a s \<or> map_of (td_cache_skips s') (key_of a) = Some 1" if r
    using assms(1) that n(2) caches_rightD(3) [OF assms(2)]
    by (auto simp: known_skip_def Let_def split: option.splits if_splits list.splits)
qed

lemma skip_by_type_right:
  assumes "skip_by_type E a st s = (r, s')"
  shows "run_right os s s'" "r \<Longrightarrow> map_of (td_cache_skips s') (key_of a) = Some 1"
proof -
  obtain t s1 where t: "type_of_frame E a st s = (t, s1)" by force
  have v: "skips_view s1 = skips_view s" using view_type_of_frame [of E a st s] t by simp
  have vf: "skips_view (set_filters fl s1) = skips_view s" for fl by (simp add: view v)
  show "run_right os s s'"
    using assms t run_right_view [OF v] run_right_view [OF vf] run_right_trans [OF _ run_right_filtered]
    by (auto simp: skip_by_type_def split: option.splits file_type.splits prod.splits bool.splits)
  show "map_of (td_cache_skips s') (key_of a) = Some 1" if r
    using assms t that
    by (auto simp: skip_by_type_def split: option.splits file_type.splits prod.splits bool.splits)
qed

lemma skip_by_filter_right:
  assumes "skip_by_filter E a st s = (r, s')"
  shows "run_right os s s'" "r \<Longrightarrow> map_of (td_cache_skips s') (key_of a) = Some 1"
proof -
  obtain x fl where x: "apply_files_filter (te_filter E) (te_can_skip E) (frame_of a st) (code_file E (ac_code a)) False
    (td_filters s) = (x, fl)" by force
  define s1 where "s1 = notify_skipped (ti_step_cmd (td_info s) \<noteq> None) (cache_skip a 1 (set_filters fl s))"
  have n: "run_right os s s1"
    unfolding s1_def
    by (intro run_right_trans [OF run_right_view run_right_trans [OF run_right_filtered run_right_view]]) (simp_all add: view)
  have c: "map_of (td_cache_skips s1) (key_of a) = Some 1"
    using view_cache [OF view_notify_skipped] by (simp add: s1_def)
  have f: "run_right os s (set_filters fl s)" by (rule run_right_view) (simp add: view)
  have r: "skip_by_filter E a st s =
    (if \<not> is_files_filter_enabled (td_filters s) then (False, s)
     else if x then (case st of [] \<Rightarrow> (True, s1) | b # st' \<Rightarrow>
       if ti_step_cmd (td_info s) \<notin> into_or_return then (True, s1)
       else if fst (filter_frame E False b st' s1) then (True, cache_skip b 1 (snd (filter_frame E False b st' s1)))
       else (False, snd (filter_frame E False b st' s1)))
     else (False, set_filters fl s))"
    by (simp add: skip_by_filter_def Let_def x s1_def case_prod_beta split: list.split bool.split)
  have ff: "run_right os s (snd (filter_frame E False b st' s1))"
    "td_cache_skips (snd (filter_frame E False b st' s1)) = td_cache_skips s1" for b st'
    using run_right_trans [OF n run_right_view [OF view_filter_frame]] view_cache [OF view_filter_frame] by auto
  show "run_right os s s'"
    using assms n f ff(1) run_right_trans [OF ff(1) run_right_filtered]
    unfolding r by (auto split: if_splits list.splits)
  show "map_of (td_cache_skips s') (key_of a) = Some 1" if r
    using assms that c ff(2) unfolding r by (auto split: if_splits list.splits)
qed

text \<open>What a call of the tracer may give for an activation.\<close>

definition outcome_right :: "os_env \<Rightarrow> act \<Rightarrow> stack \<Rightarrow> event \<Rightarrow> trace_db \<Rightarrow> outcome \<Rightarrow> trace_db \<Rightarrow> bool" where
  "outcome_right os a st ev s r s' \<longleftrightarrow> run_right os s s' \<and>
    (fst r \<noteq> FrameTrace \<longrightarrow> \<not> has_visible os a s \<or> (\<exists>v. ev = ReturnEvent v) \<or>
       fst r = NoTrace \<and> map_of (td_cache_skips s') (key_of a) = Some 1) \<and>
    (\<forall>f. snd r = Some f \<longrightarrow> fst r = FrameTrace \<and> f \<noteq> [] \<and> (f = a # st \<or> f = st \<and> (\<exists>v. ev = ReturnEvent v)))"

lemma visible_after: "run_right os s s' \<Longrightarrow> has_visible os b s' = has_visible os b s"
  by (rule same_breakpoints) (simp add: run_right_def)

lemma dispatch_outcome:
  assumes "fe_os (te_filter E) = os" and "caches_right os s" and "\<not> td_disposed s" and "\<not> td_quitting s"
  shows "outcome_right os a st ev s (fst (trace_dispatch E a st ev s)) (snd (trace_dispatch E a st ev s))"
proof -
  obtain t w s' where r: "trace_dispatch E a st ev s = ((t, w), s')" by (metis surj_pair)
  from dispatch_right [OF assms r] run_right_goes show ?thesis unfolding outcome_right_def r by auto
qed

lemma thread_tracer_outcome:
  assumes "fe_os (te_filter E) = os" and "caches_right os s" and "\<not> td_disposed s" and "\<not> td_quitting s"
  shows "outcome_right os a st ev s (fst (thread_tracer E a st ev s)) (snd (thread_tracer E a st ev s))"
proof -
  obtain r1 s1 where 1: "known_skip a st s = (r1, s1)" by force
  obtain r2 s2 where 2: "skip_by_type E a st s1 = (r2, s2)" by force
  obtain r3 s3 where 3: "skip_by_filter E a st s2 = (r3, s3)" by force
  define s4 where "s4 = s3\<lparr>td_should_skip := (td_should_skip s3)(ac_id a := None)\<rparr>"
  obtain t w s5 where 5: "trace_dispatch E a st ev s4 = ((t, w), s5)" by (metis surj_pair)
  have e: "thread_tracer E a st ev s =
    (if r1 then ((NoTrace, None), s1) else if r2 then ((NoTrace, None), s2) else if r3 then ((NoTrace, None), s3)
     else ((t, w), if t = NoTrace \<and> ev = CallEvent then cache_skip a 2 s5 else s5))"
    using assms(3) by (simp add: thread_tracer_def 1 2 3 5 s4_def [symmetric] del: fun_upd_apply split: bool.split)
  have g1: "run_right os s s1" using known_skip_right(1) [OF 1 assms(2)] by (rule run_right_view)
  have g2: "run_right os s s2" by (rule run_right_trans [OF g1 skip_by_type_right(1) [OF 2]])
  have g3: "run_right os s s3" by (rule run_right_trans [OF g2 skip_by_filter_right(1) [OF 3]])
  have g4: "run_right os s s4" by (rule run_right_trans [OF g3 run_right_view]) (simp add: s4_def skips_view_def)
  have s4: "caches_right os s4" "\<not> td_disposed s4" "\<not> td_quitting s4" using g4 assms by (simp_all add: run_right_def)
  note o = dispatch_right [OF assms(1) s4 5]
  have g5: "run_right os s s5" by (rule run_right_trans [OF g4 run_right_goes [OF o(1)]])
  have vis: "has_visible os a s1 = has_visible os a s" "has_visible os a s4 = has_visible os a s"
    "has_visible os a s5 = has_visible os a s"
    using visible_after [OF g1] visible_after [OF g4] visible_after [OF g5] by simp_all
  have call: "run_right os s (cache_skip a 2 s5)" if "t = NoTrace" "ev = CallEvent"
  proof -
    have "\<not> has_visible os a s5" using o(2) that vis by auto
    from caches_right_untraced [OF _ this] g5 show ?thesis by (auto simp: run_right_def cache_skip_def)
  qed
  have x: "x = CallEvent \<Longrightarrow> \<not> (\<exists>v. x = ReturnEvent v)" for x by simp
  consider r1 | "\<not> r1" r2 | "\<not> r1" "\<not> r2" r3 | "\<not> r1" "\<not> r2" "\<not> r3" by blast
  then show ?thesis
  proof cases
    case 1
    with known_skip_right(2) [OF \<open>known_skip a st s = _\<close> assms(2)] g1 show ?thesis by (simp add: e outcome_right_def)
  next
    case 2
    with skip_by_type_right(2) [OF \<open>skip_by_type E a st s1 = _\<close>] g2 show ?thesis by (simp add: e outcome_right_def)
  next
    case 3
    with skip_by_filter_right(2) [OF \<open>skip_by_filter E a st s2 = _\<close>] g3 show ?thesis by (simp add: e outcome_right_def)
  next
    case 4
    have "run_right os s (if t = NoTrace \<and> ev = CallEvent then cache_skip a 2 s5 else s5)" using call g5 by simp
    with o(2,3) vis 4 show ?thesis by (auto simp: e outcome_right_def)
  qed
qed

lemma call_tracer_outcome:
  assumes "fe_os (te_filter E) = os" and "caches_right os s" and "\<not> td_disposed s" and "\<not> td_quitting s"
    and "ev = CallEvent \<or> td_trace s (ac_id a) \<in> {ThreadTrace, FrameTrace}"
  shows "outcome_right os a st ev s (fst (call_tracer E a st ev s)) (snd (call_tracer E a st ev s))"
  using dispatch_outcome [OF assms(1-4), of a st ev] thread_tracer_outcome [OF assms(1-4), of a st ev] assms(5)
  by (auto simp: call_tracer_def)

lemma trace_exception_outcome:
  assumes "trace_exception E a st ev s = ((t, w), s')"
  shows "run_right os s s'" "t \<in> {FrameTrace, FrameExceptions}"
    "w = Some f \<Longrightarrow> t = FrameTrace \<and> f = a # st \<and> (\<exists>e. ev = ExceptionEvent e)"
proof -
  show "run_right os s s'" using run_right_view [OF view_trace_exception [of E a st ev s]] assms by simp
  show "t \<in> {FrameTrace, FrameExceptions}" "w = Some f \<Longrightarrow> t = FrameTrace \<and> f = a # st \<and> (\<exists>e. ev = ExceptionEvent e)"
    using assms by (auto simp: trace_exception_def split: event.splits prod.splits bool.splits if_splits)
qed

end
