(* ===== verification/StepFacts.thy ===== *)
theory StepFacts
  imports SkipCaches
begin

text \<open>
  What breakpoints and steps promise of a program that runs under the tracer: which line events stop, that no
  breakpoint is missed, and where a step over ends; and where the code does otherwise than it says.
\<close>

section \<open>The run of a program\<close>

text \<open>The trace function that an activation has, or will have when the thread goes on.\<close>

definition will_trace :: "config \<Rightarrow> nat \<Rightarrow> trace_function" where
  "will_trace c i = (case cf_waiting c of
     Some w \<Rightarrow> if frame_id (cf_stack c) = Some i then wt_trace w else td_trace (cf_db c) i
   | None \<Rightarrow> td_trace (cf_db c) i)"

definition waiting_right :: "config \<Rightarrow> bool" where
  "waiting_right c \<longleftrightarrow> (\<forall>w. cf_waiting c = Some w \<longrightarrow>
     wt_trace w = FrameTrace \<and> cf_stack c \<noteq> [] \<and> wt_frame w \<noteq> [] \<and>
     (wt_frame w = cf_stack c \<or> wt_frame w = tl (cf_stack c) \<and> (\<exists>v. wt_event w = ReturnEvent v)))"

definition debug_inv :: "os_env \<Rightarrow> config \<Rightarrow> bool" where
  "debug_inv os c \<longleftrightarrow> caches_right os (cf_db c) \<and> \<not> td_disposed (cf_db c) \<and> \<not> td_quitting (cf_db c) \<and>
     \<not> td_dont_trace (cf_db c) \<and> waiting_right c \<and> distinct (map ac_id (cf_stack c)) \<and>
     (\<forall>a \<in> set (cf_stack c). will_trace c (ac_id a) \<in> {ThreadTrace, FrameTrace} \<or> ac_id a \<in> cf_filtered c \<or>
        \<not> has_visible os a (cf_db c))"

lemma run_right_retraced: "only_retraced s s' \<Longrightarrow> run_right os s s'"
  by (rule run_right_goes) (rule goes_right_retraced)

lemma debug_inv_db:
  assumes "debug_inv os c" and "run_right os (cf_db c) s"
  shows "debug_inv os (c\<lparr>cf_db := s\<rparr>)"
proof -
  have t: "td_trace s i = td_trace (cf_db c) i \<or> td_trace s i = ThreadTrace" for i
    using assms(2) by (auto simp: run_right_def)
  have w: "will_trace (c\<lparr>cf_db := s\<rparr>) i = will_trace c i \<or> will_trace (c\<lparr>cf_db := s\<rparr>) i = ThreadTrace" for i
    using t [of i] by (simp add: will_trace_def split: option.split)
  have v: "waiting_right (c\<lparr>cf_db := s\<rparr>) = waiting_right c" by (simp add: waiting_right_def)
  have "will_trace (c\<lparr>cf_db := s\<rparr>) (ac_id a) \<in> {ThreadTrace, FrameTrace} \<or> ac_id a \<in> cf_filtered c \<or> \<not> has_visible os a s"
    if "a \<in> set (cf_stack c)" for a
    using assms(1) that w [of "ac_id a"] visible_after [OF assms(2)] by (auto simp: debug_inv_def)
  with assms v show ?thesis by (simp add: debug_inv_def run_right_def)
qed

lemma caches_right_trace [simp]: "caches_right os (s\<lparr>td_trace := x\<rparr>) = caches_right os s"
  by (simp add: caches_right_def has_visible_def bps_at_def)

lemma has_visible_trace [simp]: "has_visible os a (s\<lparr>td_trace := x\<rparr>) = has_visible os a s"
  by (simp add: has_visible_def bps_at_def)

text \<open>The activation that runs, at another line.\<close>

lemma line_irrelevant [simp]:
  "has_visible os (a\<lparr>ac_line := l\<rparr>) s = has_visible os a s" "key_of (a\<lparr>ac_line := l\<rparr>) = key_of a"
  by (simp_all add: has_visible_def has_breakpoint_in_frame_def context_name_def bps_at_def real_file_def key_of_def)

text \<open>An event whose tracer call is as it should be keeps the invariant.\<close>

lemma debug_inv_outcome:
  assumes inv: "debug_inv os c" "cf_waiting c = None" and nxt: "next_event (cf_stack c) ev a st"
    and run: "run_right os (cf_db c) s"
    and waits: "\<And>f. w = Some f \<Longrightarrow> t = FrameTrace \<and> f \<noteq> [] \<and> (f = a # st \<or> f = st \<and> (\<exists>v. ev = ReturnEvent v))"
    and traced: "(\<exists>v. ev = ReturnEvent v) \<or> t \<in> {ThreadTrace, FrameTrace} \<or> ac_id a \<in> F \<or> \<not> has_visible os a (cf_db c)"
    and F: "cf_filtered c - {ac_id a} \<subseteq> F"
  shows "debug_inv os \<lparr>cf_stack = (if w = None then stack_after ev (a # st) else a # st),
    cf_waiting = map_option (\<lambda>w. waits_at ev t w s) w,
    cf_db = (if w = None then s\<lparr>td_trace := (td_trace s)(ac_id a := t)\<rparr> else s), cf_filtered = F\<rparr>"
proof -
  have d: "distinct (map ac_id (a # st))" and below: "set st \<subseteq> set (cf_stack c)"
    using inv(1) nxt by (auto simp: next_event_def debug_inv_def split: if_splits)
  have "ac_id a \<notin> set (map ac_id st)" using d by simp
  then have ids: "ac_id b \<noteq> ac_id a" if "b \<in> set st" for b using that by (metis image_eqI list.set_map)
  have t: "td_trace s i = td_trace (cf_db c) i \<or> td_trace s i = ThreadTrace" for i
    using run by (auto simp: run_right_def)
  have old: "td_trace s (ac_id b) \<in> {ThreadTrace, FrameTrace} \<or> ac_id b \<in> F \<or> \<not> has_visible os b s" if "b \<in> set st" for b
  proof -
    note ids [OF that]
    moreover have "will_trace c (ac_id b) \<in> {ThreadTrace, FrameTrace} \<or> ac_id b \<in> cf_filtered c \<or> \<not> has_visible os b (cf_db c)"
      using inv(1) that below by (auto simp: debug_inv_def)
    ultimately show ?thesis using t [of "ac_id b"] F visible_after [OF run] inv(2) by (auto simp: will_trace_def)
  qed
  have w: "(f = a # st \<or> f = st \<and> (\<exists>v. ev = ReturnEvent v)) \<and> f \<noteq> [] \<and> t = FrameTrace" if "w = Some f" for f
    using waits [OF that] by blast
  have after: "stack_after ev (a # st) = (if \<exists>v. ev = ReturnEvent v then st else a # st)"
    by (cases ev) (simp_all add: stack_after_def)
  have "caches_right os s" "\<not> td_disposed s" "\<not> td_quitting s" "\<not> td_dont_trace s"
    using inv(1) run by (auto simp: debug_inv_def run_right_def)
  then show ?thesis
    using d old w traced visible_after [OF run] ids
    by (cases w) (auto simp: debug_inv_def after waiting_right_def waits_at_def will_trace_def frame_id_def)
qed

lemma after_event_eq:
  assumes "call_tracer E a st ev (cf_db c) = ((t, w), s)"
  shows "after_event E a st ev c = \<lparr>cf_stack = (if w = None then stack_after ev (a # st) else a # st),
    cf_waiting = map_option (\<lambda>w. waits_at ev t w s) w,
    cf_db = (if w = None then s\<lparr>td_trace := (td_trace s)(ac_id a := t)\<rparr> else s),
    cf_filtered = (if ev \<noteq> CallEvent \<and> td_trace (cf_db c) (ac_id a) \<notin> {ThreadTrace, FrameTrace} then cf_filtered c
           else filtered_by a (t, w) s (cf_filtered c))\<rparr>"
  using assms by (cases w) (simp_all add: after_event_def program_event_def filtered_by_def del: fun_upd_apply)

lemma debug_inv_event:
  assumes inv: "debug_inv os c" "cf_waiting c = None" and nxt: "next_event (cf_stack c) ev a st"
    and os: "fe_os (te_filter E) = os"
  shows "debug_inv os (after_event E a st ev c)"
proof -
  obtain t w s where r: "call_tracer E a st ev (cf_db c) = ((t, w), s)" by (metis surj_pair)
  have c: "caches_right os (cf_db c)" "\<not> td_disposed (cf_db c)" "\<not> td_quitting (cf_db c)"
    using inv(1) by (simp_all add: debug_inv_def)
  show ?thesis
  proof (cases "ev \<noteq> CallEvent \<and> td_trace (cf_db c) (ac_id a) \<notin> {ThreadTrace, FrameTrace}")
    case True
    then obtain a0 l where a0: "cf_stack c = a0 # st" "a = a0\<lparr>ac_line := l\<rparr>"
      using nxt by (auto simp: next_event_def)
    then have old: "ac_id a \<in> cf_filtered c \<or> \<not> has_visible os a (cf_db c)"
      using inv True by (auto simp: debug_inv_def will_trace_def)
    have run: "run_right os (cf_db c) s" and w: "w = Some f \<Longrightarrow> t = FrameTrace \<and> f = a # st" for f
      using r True trace_exception_outcome [of E a st ev "cf_db c" t w s]
      by (cases "td_trace (cf_db c) (ac_id a)"; auto simp: call_tracer_def)+
    have "w = Some f \<Longrightarrow> t = FrameTrace \<and> f \<noteq> [] \<and> (f = a # st \<or> f = st \<and> (\<exists>v. ev = ReturnEvent v))" for f
      using w by blast
    from debug_inv_outcome [OF inv nxt run this, of w "cf_filtered c"] old True show ?thesis
      by (simp add: after_event_eq [OF r] del: fun_upd_apply)
  next
    case False
    then have o: "outcome_right os a st ev (cf_db c) (t, w) s"
      using call_tracer_outcome [OF os c, of ev a st] r by auto
    let ?F = "filtered_by a (t, w) s (cf_filtered c)"
    have run: "run_right os (cf_db c) s"
      and waits: "\<And>f. w = Some f \<Longrightarrow> t = FrameTrace \<and> f \<noteq> [] \<and> (f = a # st \<or> f = st \<and> (\<exists>v. ev = ReturnEvent v))"
      and traced: "(\<exists>v. ev = ReturnEvent v) \<or> t \<in> {ThreadTrace, FrameTrace} \<or> ac_id a \<in> ?F \<or> \<not> has_visible os a (cf_db c)"
      and F: "cf_filtered c - {ac_id a} \<subseteq> ?F"
      using o by (auto simp: outcome_right_def filtered_by_def)
    have "(if ev \<noteq> CallEvent \<and> td_trace (cf_db c) (ac_id a) \<notin> {ThreadTrace, FrameTrace} then cf_filtered c else ?F) = ?F"
      using False by argo
    with debug_inv_outcome [OF inv nxt run waits traced F] show ?thesis
      by (simp only: after_event_eq [OF r])
  qed
qed

lemma only_retraced_info: "only_retraced s (on_info f s)"
  by (rule only_retraced_view) (simp add: view)

lemma view_frame_to_leave: "skips_view (snd (frame_to_leave E force a st s)) = skips_view s"
  by (induction st arbitrary: a s) (simp_all add: view case_prod_beta split: bool.split)

lemma view_internal_run [view]: "skips_view (internal_run_thread s) = skips_view s"
  by (simp add: internal_run_thread_def view)

lemma only_retraced_wake_return: "only_retraced s (wake_step_return E force a st s)"
proof -
  obtain b st' s' where r: "(if force \<or> is_files_filter_enabled (td_filters s) then frame_to_leave E force a st s else ((a, st), s)) =
    ((b, st'), s')" by (metis surj_pair)
  have "skips_view s' = skips_view s"
    using r view_frame_to_leave [of E force a st s] by (auto split: if_splits)
  then have "only_retraced s s'" by (rule only_retraced_view)
  then have "only_retraced s (internal_run_thread s')"
    "only_retraced s (set_trace_for_frame_and_parents E st2 (on_info f s'))" for st2 f
    using only_retraced_view [OF view_internal_run]
      only_retraced_trans [OF only_retraced_trans [OF _ only_retraced_info] only_retraced_set_trace]
    by (blast intro: only_retraced_trans)+
  with r show ?thesis
    by (simp add: wake_step_return_def del: set_trace_for_frame_and_parents.simps split: list.split)
qed

lemma set_next_statement_right:
  assumes "set_next_statement jump ev a s = (r, s')"
  shows "only_retraced s s'" "r = Some a' \<Longrightarrow> ac_id a' = ac_id a \<and> ac_code a' = ac_code a \<and> \<not> (\<exists>v. ev = ReturnEvent v)"
  using assms
  by (auto simp: set_next_statement_def Let_def only_retraced_def skips_view_def split: if_splits event.splits)

lemma wake_up_right:
  assumes "wake_up E jump ev a st s = (r, s')"
  shows "only_retraced s s'" "r = PausesAgain st' \<Longrightarrow> \<exists>a'. st' = a' # st \<and> ac_id a' = ac_id a \<and> ac_code a' = ac_code a \<and>
    \<not> (\<exists>v. ev = ReturnEvent v)"
proof -
  note g = only_retraced_trans [OF only_retraced_info only_retraced_set_trace]
  define s1 where "s1 = set_trace_for_frame_and_parents E (a # st) (on_info (\<lambda>i. i\<lparr>ti_step_stop := None\<rparr>) s)"
  have s1: "only_retraced s s1" unfolding s1_def by (rule g)
  obtain n s2 where n: "set_next_statement jump ev a s1 = (n, s2)" by force
  note s2 = only_retraced_trans [OF s1 set_next_statement_right(1) [OF n]]
  show "only_retraced s s'"
    using assms g only_retraced_trans [OF s2 only_retraced_info] only_retraced_wake_return only_retraced_view [OF refl]
    by (auto simp: wake_up_def s1_def [symmetric] n simp del: set_trace_for_frame_and_parents.simps
        split: option.splits if_splits)
  show "r = PausesAgain st' \<Longrightarrow> \<exists>a'. st' = a' # st \<and> ac_id a' = ac_id a \<and> ac_code a' = ac_code a \<and> \<not> (\<exists>v. ev = ReturnEvent v)"
    using assms set_next_statement_right(2) [OF n]
    by (auto simp: wake_up_def s1_def [symmetric] n simp del: set_trace_for_frame_and_parents.simps
        split: option.splits if_splits)
qed

lemma debug_inv_wake:
  assumes inv: "debug_inv os c" and w: "cf_waiting c = Some w"
  shows "debug_inv os (after_wake E jump w c)"
proof -
  have wt: "wt_trace w = FrameTrace" "cf_stack c \<noteq> []" "wt_frame w \<noteq> []"
    "wt_frame w = cf_stack c \<or> wt_frame w = tl (cf_stack c) \<and> (\<exists>v. wt_event w = ReturnEvent v)"
    using inv w by (auto simp: debug_inv_def waiting_right_def)
  obtain a st where st: "cf_stack c = a # st" using wt(2) by (cases "cf_stack c") auto
  obtain r s where r: "wake_up E jump (wt_event w) (hd (wt_frame w)) (tl (wt_frame w)) (cf_db c) = (r, s)" by force
  have s: "only_retraced (cf_db c) s" by (rule wake_up_right(1) [OF r])
  have inv_s: "debug_inv os (c\<lparr>cf_db := s\<rparr>)" by (rule debug_inv_db [OF inv run_right_retraced [OF s]])
  show ?thesis
  proof (cases r)
    case StaysSuspended
    with r inv_s show ?thesis by (simp add: after_wake_def)
  next
    case (PausesAgain st')
    from wake_up_right(2) [OF r this] obtain a' where a': "st' = a' # tl (wt_frame w)" "ac_id a' = ac_id (hd (wt_frame w))"
      "ac_code a' = ac_code (hd (wt_frame w))" "\<not> (\<exists>v. wt_event w = ReturnEvent v)" by blast
    with wt(4) st have e: "wt_frame w = a # st" "st' = a' # st" "ac_id a' = ac_id a" "ac_code a' = ac_code a" by auto
    have v: "has_visible os a' s = has_visible os a s" by (rule key_decides(2)) (simp add: key_of_def e)
    have "after_wake E jump w c = c\<lparr>cf_stack := st', cf_waiting := Some (w\<lparr>wt_frame := st'\<rparr>), cf_db := s\<rparr>"
      using r PausesAgain by (simp add: after_wake_def)
    with inv_s e w st v wt(1) show ?thesis
      by (auto simp: debug_inv_def waiting_right_def will_trace_def frame_id_def)
  next
    case Runs
    define s1 where "s1 = (if wt_exception w then set_trace_for_frame_and_parents E (wt_frame w) s else s)"
    have "only_retraced (cf_db c) s1"
      using s only_retraced_trans [OF s only_retraced_set_trace] by (simp add: s1_def)
    from debug_inv_db [OF inv run_right_retraced [OF this]] have i: "debug_inv os (c\<lparr>cf_db := s1\<rparr>)" .
    have e: "after_wake E jump w c = c\<lparr>cf_stack := stack_after (wt_event w) (a # st), cf_waiting := None,
        cf_db := s1\<lparr>td_trace := (td_trace s1)(ac_id a := FrameTrace)\<rparr>\<rparr>"
      using r Runs wt(1) by (simp add: after_wake_def resumed_def s1_def st Let_def)
    have sub: "set (stack_after (wt_event w) (a # st)) \<subseteq> set (a # st)" "distinct (map ac_id (stack_after (wt_event w) (a # st)))"
      using i st by (auto simp: stack_after_def debug_inv_def split: event.split)
    have "td_trace s1 (ac_id b) \<in> {ThreadTrace, FrameTrace} \<or> ac_id b \<in> cf_filtered c \<or> \<not> has_visible os b s1"
      if "b \<in> set (a # st)" "ac_id b \<noteq> ac_id a" for b
      using i that w st by (auto simp: debug_inv_def will_trace_def frame_id_def)
    with i sub show ?thesis unfolding e by (auto simp: debug_inv_def waiting_right_def will_trace_def)
  qed
qed

lemma view_user_command:
  assumes "f \<in> user_commands"
  shows "skips_view (f s) = skips_view s"
  using assms
  by (auto simp: user_commands_def on_next_request_def on_stepin_request_def on_stepout_request_def
      internal_step_in_thread_def internal_set_next_statement_def view)

lemma debug_inv_added:
  assumes "debug_inv os c"
  shows "debug_inv os (breakpoints_added E db c)"
proof -
  define s0 where "s0 = clear_skip_caches (set_pydb db (cf_db c))"
  define s where "s = set_trace_for_frame_and_parents E (cf_stack c) s0"
  have g: "only_retraced s0 s" unfolding s_def by (rule only_retraced_set_trace)
  have "caches_right os s" using caches_right_retraced [OF g] by (simp add: s0_def caches_right_cleared)
  moreover have "\<not> td_disposed s" "\<not> td_quitting s" "\<not> td_dont_trace s"
    using assms g by (simp_all add: debug_inv_def only_retraced_def skips_view_def s0_def clear_skip_caches_def set_pydb_def)
  moreover have "breakpoints_added E db c =
      c\<lparr>cf_db := s, cf_filtered := {i \<in> ac_id ` set (cf_stack c). td_trace s i \<noteq> ThreadTrace}\<rparr>"
    by (simp add: breakpoints_added_def s_def s0_def Let_def)
  ultimately show ?thesis
    using assms by (auto simp: debug_inv_def waiting_right_def will_trace_def split: option.split)
qed

lemma debug_inv_removed:
  assumes "debug_inv os c" and "\<And>a. has_visible os a (set_pydb db (cf_db c)) \<Longrightarrow> has_visible os a (cf_db c)"
  shows "debug_inv os (breakpoints_removed db c)"
proof -
  let ?s = "clear_skip_caches (set_pydb db (cf_db c))"
  have v: "has_visible os a ?s = has_visible os a (set_pydb db (cf_db c))" for a
    by (rule same_breakpoints) (simp add: clear_skip_caches_def)
  have w: "will_trace (breakpoints_removed db c) i = will_trace c i" for i
    by (simp add: will_trace_def breakpoints_removed_def clear_skip_caches_def set_pydb_def split: option.split)
  have "td_disposed ?s = td_disposed (cf_db c)" "td_quitting ?s = td_quitting (cf_db c)"
    "td_dont_trace ?s = td_dont_trace (cf_db c)" by (simp_all add: clear_skip_caches_def set_pydb_def)
  moreover have "caches_right os ?s" by (rule caches_right_cleared)
  ultimately show ?thesis
    using assms v w by (auto simp: debug_inv_def waiting_right_def breakpoints_removed_def)
qed

lemma debug_inv_step:
  assumes "debug_inv os c" and "debug_step os c d"
  shows "debug_inv os d"
  using assms(2)
proof cases
  case (event E ev a st)
  then show ?thesis using debug_inv_event [OF assms(1)] by simp
next
  case (command w f)
  from debug_inv_db [OF assms(1) run_right_view [OF view_user_command [OF command(3)]]] command(1) show ?thesis by simp
next
  case (wake w E jump)
  then show ?thesis using debug_inv_wake [OF assms(1)] by simp
next
  case (pause E)
  have "run_right os (cf_db c) (pause_thread E (cf_stack c) (cf_db c))"
    unfolding pause_thread_def
    by (rule run_right_trans [OF run_right_view run_right_retraced [OF only_retraced_set_trace]]) (simp add: view)
  from debug_inv_db [OF assms(1) this] pause show ?thesis by simp
next
  case (added E db)
  then show ?thesis using debug_inv_added [OF assms(1)] by simp
next
  case (removed db)
  then show ?thesis using debug_inv_removed [OF assms(1)] by simp
qed

lemma debug_inv_start: "debug_start c \<Longrightarrow> debug_inv os c"
  using caches_right_cleared [of os "cf_db c"] by (auto simp: debug_start_def debug_inv_def waiting_right_def)

interpretation debugging: inductive_invariant debug_start "debug_step os" "debug_inv os" for os
  by unfold_locales (auto intro: debug_inv_start debug_inv_step)

section \<open>Which line events stop\<close>

text \<open>
  Whether the thread stops at a line, from the breakpoints and the step alone: there is no skip cache, no
  context that is passed over, and no order of checks. A step over that ends at the line stops
  there whatever the breakpoint.
\<close>

definition lands :: "act \<Rightarrow> trace_db \<Rightarrow> bool" where
  "lands a s \<longleftrightarrow> ti_step_cmd (td_info s) \<in> {Some StepOver, Some StepOverMyCode} \<and> ti_step_stop (td_info s) = Some (ac_id a)"

definition breakpoint_fires :: "trace_env \<Rightarrow> act \<Rightarrow> trace_db \<Rightarrow> bool" where
  "breakpoint_fires E a s \<longleftrightarrow>
    (\<exists>b. map_of (bps_of E a s) (ac_line a) = Some b \<and> fst (evaluate_breakpoint E b s))"

definition step_ends_at :: "trace_env \<Rightarrow> act \<Rightarrow> stack \<Rightarrow> trace_db \<Rightarrow> bool" where
  "step_ends_at E a st s \<longleftrightarrow>
    (case ti_step_cmd (td_info s) of
       None \<Rightarrow> False
     | Some c \<Rightarrow>
         if c \<in> {StepInto, StepIntoMyCode} then fst (in_step_scope E (c = StepIntoMyCode) a st s)
         else if c = StepIntoCoroutine then fst (in_step_scope E False a st s) \<and> in_context (ti_step_stop (td_info s)) (a # st)
         else if c = SmartStepInto then module_context a =
           (if ti_smart_step_stop (td_info s) = Some (ac_id a) then ''.invalid.'' else ti_func_name (td_info s))
         else c \<in> {StepOver, StepOverMyCode} \<and> ti_step_stop (td_info s) = Some (ac_id a))"

definition line_stops :: "trace_env \<Rightarrow> act \<Rightarrow> stack \<Rightarrow> trace_db \<Rightarrow> bool" where
  "line_stops E a st s \<longleftrightarrow>
    \<not> lands a s \<and> breakpoint_fires E a s \<or> fst (frame_should_skip E a s) = Some False \<and> step_ends_at E a st s"

lemma step_stops_line: "fst (step_stops E IsLine (ti_step_cmd (td_info s)) (ti_step_stop (td_info s)) a st s) = step_ends_at E a st s"
  by (auto simp: step_stops_def step_ends_at_def stop_into_def smart_step_def on_info_def Let_def case_prod_beta
      split: option.split)

text \<open>The parts of the state that these decisions read.\<close>

definition step_view :: "trace_db \<Rightarrow> _" where
  "step_view s = (td_filters s, td_dont_trace s, td_should_skip s, ti_step_cmd (td_info s), ti_step_stop (td_info s),
     ti_smart_step_stop (td_info s), ti_func_name (td_info s), ti_state (td_info s))"

lemma in_step_scope_cong: "td_filters s' = td_filters s \<Longrightarrow> fst (in_step_scope E force a st s') = fst (in_step_scope E force a st s)"
  by (simp add: in_step_scope_def filter_frame_def case_prod_beta)

lemma step_ends_at_cong: "step_view s' = step_view s \<Longrightarrow> step_ends_at E a st s' = step_ends_at E a st s"
  using in_step_scope_cong [of s' s] by (cases "ti_step_cmd (td_info s)") (auto simp: step_ends_at_def step_view_def)

lemma should_skip_cong:
  "step_view s' = step_view s \<Longrightarrow> fst (frame_should_skip E a s') = fst (frame_should_skip E a s)"
  by (auto simp: frame_should_skip_def step_view_def Let_def split: option.split)

lemma step_view_should_skip:
  "fst (frame_should_skip E a s) = Some x \<Longrightarrow> step_ends_at E b st (snd (frame_should_skip E a s)) = step_ends_at E b st s"
  using in_step_scope_cong [of "snd (frame_should_skip E a s)" s]
  by (auto simp: frame_should_skip_def Let_def step_ends_at_def in_step_scope_def filter_frame_def
      split: option.splits if_splits prod.splits)

lemma info_should_skip: "td_info (snd (frame_should_skip E a s)) = td_info s"
  by (simp add: frame_should_skip_def Let_def split: option.split)

lemma handle_step_line:
  assumes "ti_step_cmd (td_info s) = cmd" and "ti_step_stop (td_info s) = stop"
  shows "snd (fst (handle_step E IsLine cmd stop a st s)) =
    (if fst (frame_should_skip E a s) = Some False \<and> step_ends_at E a st s then Some (a # st) else None)"
proof (cases "fst (frame_should_skip E a s)")
  case None
  then show ?thesis by (simp add: handle_step_def case_prod_beta Let_def)
next
  case (Some skip)
  let ?s = "snd (frame_should_skip E a s)"
  have "fst (step_stops E IsLine cmd stop a st ?s) = step_ends_at E a st s"
    using step_stops_line [of E ?s a st] step_view_should_skip [OF Some] assms by (simp add: info_should_skip)
  then show ?thesis
    using Some by (auto simp: handle_step_def not_into_debugger_def perform_stop_def case_prod_beta Let_def split: bool.split)
qed

lemma step_view_evaluate: "step_view (snd (evaluate_breakpoint E b s)) = step_view s"
  by (simp add: evaluate_breakpoint_def add_message_def on_info_def step_view_def set_pydb_def handle_condition_keeps
      Let_def case_prod_beta split: option.split)

lemma step_view_visit: "step_view (snd (visit_breakpoint E k cmd stop a b s)) = step_view s"
  by (simp add: visit_breakpoint_def step_view_evaluate split: option.split)

lemma evaluate_cong:
  "td_pydb s' = td_pydb s \<Longrightarrow> fst (evaluate_breakpoint E b s') = fst (evaluate_breakpoint E b s)"
  by (simp add: evaluate_breakpoint_def case_prod_beta Let_def)

lemma perceive_line [simp]: "perceive E a st LineEvent s = (Inr IsLine, s)"
  by (simp add: perceive_def)

lemma can_skip_no_step:
  assumes "can_skip (ti_step_cmd (td_info s)) (ti_step_stop (td_info s)) a st s"
  shows "\<not> lands a s" "\<not> step_ends_at E a st s"
  using assms by (auto simp: can_skip_def lands_def step_ends_at_def over_or_return_def)

lemma step_view_frames: "step_view (s\<lparr>td_frame_skips := f\<rparr>) = step_view s"
  by (simp add: step_view_def)

lemma step_view_remember: "step_view (remember_line k a b s) = step_view s"
  by (simp add: step_view_def remember_line_def)

lemma step_view_return_values: "step_view (return_values E k stop a st ev s) = step_view s"
  by (simp add: return_values_def show_return_values_def remove_return_values_def step_view_def Let_def
      split: event.split list.split)

text \<open>The line of an event that is not skipped.\<close>

lemma dispatch_rest_line:
  assumes "ti_state (td_info s) = StateRun" and "cmd = ti_step_cmd (td_info s)" and "stop = ti_step_stop (td_info s)"
  shows "snd (fst (dispatch_rest E IsLine cmd stop a st LineEvent s)) = (if line_stops E a st s then Some (a # st) else None)"
proof -
  define b where "b = breakpoint_at IsLine a (bps_of E a s) s"
  obtain hit s1 where v: "visit_breakpoint E IsLine cmd stop a b s = (hit, s1)" by force
  have b: "b = map_of (bps_of E a s) (ac_line a)" using assms(1) by (simp add: b_def breakpoint_at_def)
  have hit: "hit \<longleftrightarrow> \<not> lands a s \<and> breakpoint_fires E a s"
    using v assms(2,3) by (cases b) (auto simp: visit_breakpoint_def lands_def breakpoint_fires_def b split: if_splits)
  have s1: "step_view s1 = step_view s"
    using v step_view_visit [of E IsLine cmd stop a b s] by simp
  define s2 where "s2 = return_values E IsLine stop a st LineEvent s1"
  define s3 where "s3 = remember_line IsLine a b s2"
  have s2: "step_view s2 = step_view s" by (simp add: s2_def step_view_return_values s1)
  then have s3: "step_view s3 = step_view s" by (simp add: s3_def step_view_remember)
  have d: "dispatch_rest E IsLine cmd stop a st LineEvent s =
    (let s = (if hit then mark_suspend SetBreak None s2 else s2)
     in if ti_state (td_info s) = StateSuspend then ((FrameTrace, Some (a # st)), s)
        else handle_step E IsLine cmd stop a st (remember_line IsLine a b s))"
    by (simp add: dispatch_rest_def b_def [symmetric] v s2_def Let_def)
  show ?thesis
  proof (cases hit)
    case True
    then show ?thesis
      using hit by (simp add: d Let_def line_stops_def mark_suspend_def on_info_def)
  next
    case False
    have "ti_state (td_info s2) = StateRun" using s2 assms(1) by (simp add: step_view_def)
    moreover have "ti_step_cmd (td_info s3) = cmd" "ti_step_stop (td_info s3) = stop"
      using s3 assms by (simp_all add: step_view_def)
    moreover have "line_stops E a st s \<longleftrightarrow> fst (frame_should_skip E a s) = Some False \<and> step_ends_at E a st s"
      using False hit by (auto simp: line_stops_def)
    ultimately show ?thesis
      using False handle_step_line [of s3 cmd stop E a st] step_ends_at_cong [OF s3] should_skip_cong [OF s3]
      by (simp add: d Let_def s3_def [symmetric])
  qed
qed

lemma line_stop_exact:
  assumes "caches_right (fe_os (te_filter E)) s" and "\<not> td_disposed s" and "ti_state (td_info s) = StateRun"
    and "\<And>b. map_of (bps_of E a s) (ac_line a) = Some b \<Longrightarrow> lb_func_name b \<in> {''None'', context_name a}"
  shows "snd (fst (trace_dispatch E a st LineEvent s)) = (if line_stops E a st s then Some (a # st) else None)"
proof -
  define cmd stop where "cmd = ti_step_cmd (td_info s)" "stop = ti_step_stop (td_info s)"
  define skip where "skip = can_skip cmd stop a st s"
  obtain r s2 where r: "skip_event skip (bps_of E a s) a s = (r, s2)" by force
  have d: "trace_dispatch E a st LineEvent s = (case r of Some t \<Rightarrow> ((t, None), s2)
      | None \<Rightarrow> dispatch_rest E IsLine cmd stop a st LineEvent s2)"
    unfolding cmd_stop_def by (rule trace_dispatch_cases [OF assms(2) perceive_line]) (simp add: r [unfolded skip_def cmd_stop_def])
  note right = skip_event_right [OF assms(1) r]
  show ?thesis
  proof (cases r)
    case (Some t)
    from right(3) [OF this] have "skip" and b: "map_of (bps_of E a s) (ac_line a) = None \<or> \<not> has_visible (fe_os (te_filter E)) a s"
      by auto
    have "map_of (bps_of E a s) (ac_line a) = None"
    proof (rule ccontr)
      assume "map_of (bps_of E a s) (ac_line a) \<noteq> None"
      then obtain x where x: "map_of (bps_of E a s) (ac_line a) = Some x" by blast
      then have "(ac_line a, x) \<in> set (bps_of E a s)" by (rule map_of_SomeD)
      with assms(4) [OF x] have "has_visible (fe_os (te_filter E)) a s"
        by (auto simp: has_visible_def has_breakpoint_in_frame_def list_ex_iff)
      with b x show False by simp
    qed
    moreover have "\<not> step_ends_at E a st s"
      using can_skip_no_step(2) [of s a st E] \<open>skip\<close> by (simp add: skip_def cmd_stop_def)
    ultimately show ?thesis using Some d by (simp add: line_stops_def breakpoint_fires_def)
  next
    case None
    obtain fs where s2: "s2 = s\<lparr>td_frame_skips := fs\<rparr>" using right(2) by blast
    have v: "step_view s2 = step_view s" by (simp add: s2 step_view_frames)
    have "line_stops E a st s2 = line_stops E a st s"
      using step_ends_at_cong [OF v] should_skip_cong [OF v] evaluate_cong [of s2 s]
      by (simp add: line_stops_def lands_def breakpoint_fires_def s2)
    moreover have "snd (fst (dispatch_rest E IsLine cmd stop a st LineEvent s2)) =
        (if line_stops E a st s2 then Some (a # st) else None)"
      by (rule dispatch_rest_line) (simp_all add: s2 assms(3) cmd_stop_def)
    ultimately show ?thesis using None d by simp
  qed
qed

text \<open>
  C4: The tracer's fast paths lose nothing. Wherever the skip caches are right, a line event of a thread that is
  not suspended stops exactly where the line's breakpoint fires or the step ends: the caches of lines and
  of functions, and passing over what cannot be a step's end, make no difference. The breakpoint of the line is to
  be one for any function, as those of the protocol are, or for this one.
\<close>

theorem line_stops_iff:
  assumes "caches_right (fe_os (te_filter E)) s" and "\<not> td_disposed s" and "ti_state (td_info s) = StateRun"
    and "\<And>b. map_of (bps_of E a s) (ac_line a) = Some b \<Longrightarrow> lb_func_name b \<in> {''None'', context_name a}"
  shows "snd (fst (trace_dispatch E a st LineEvent s)) = (if line_stops E a st s then Some (a # st) else None)"
  using line_stop_exact [OF assms] .

section \<open>No breakpoint is missed\<close>

text \<open>A thread that was asked to pause stops at the next line it is traced at.\<close>

lemma suspended_line_stops:
  assumes "\<not> td_disposed s" and "ti_state (td_info s) = StateSuspend"
  shows "snd (fst (trace_dispatch E a st LineEvent s)) = Some (a # st)"
proof -
  define cmd stop where "cmd = ti_step_cmd (td_info s)" "stop = ti_step_stop (td_info s)"
  have skip: "\<not> can_skip cmd stop a st s" using assms(2) by (simp add: can_skip_def)
  obtain r s2 where r: "skip_event (can_skip cmd stop a st s) (bps_of E a s) a s = (r, s2)" by force
  then have none: "r = None" using skip by (auto simp: skip_event_def split: if_splits prod.splits)
  have "td_info s2 = td_info s"
    using r by (auto simp: skip_event_def frame_breakpoints_def Let_def split: if_splits prod.splits option.splits)
  then have i: "ti_state (td_info s2) = StateSuspend" using assms(2) by simp
  have "trace_dispatch E a st LineEvent s = dispatch_rest E IsLine cmd stop a st LineEvent s2"
    using trace_dispatch_cases [OF assms(1) perceive_line, where r = r and ?s2.0 = s2] r none by (simp add: cmd_stop_def)
  with i show ?thesis by (simp add: dispatch_rest_def breakpoint_at_def visit_breakpoint_def Let_def)
qed

lemma unconditional_fires: "\<not> has_condition b \<Longrightarrow> \<not> lb_is_logpoint b \<Longrightarrow> fst (evaluate_breakpoint E b s)"
  by (simp add: evaluate_breakpoint_def Let_def)

lemma breakpoint_line_stops:
  assumes "caches_right (fe_os (te_filter E)) s" and "\<not> td_disposed s" and "\<not> td_dont_trace s"
    and b: "map_of (bps_of E a s) (ac_line a) = Some b" "lb_func_name b \<in> {''None'', context_name a}"
    and "\<not> has_condition b" and "\<not> lb_is_logpoint b"
  shows "snd (fst (trace_dispatch E a st LineEvent s)) = Some (a # st)"
proof (cases "ti_state (td_info s)")
  case StateRun
  have f: "breakpoint_fires E a s"
    using b(1) unconditional_fires [OF assms(6,7)] by (auto simp: breakpoint_fires_def)
  have "line_stops E a st s"
  proof (cases "lands a s")
    case True
    with assms(3) show ?thesis by (auto simp: line_stops_def lands_def step_ends_at_def frame_should_skip_def)
  qed (use f in \<open>simp add: line_stops_def\<close>)
  moreover have "lb_func_name x \<in> {''None'', context_name a}" if "map_of (bps_of E a s) (ac_line a) = Some x" for x
    using b that by simp
  ultimately show ?thesis using line_stop_exact [OF assms(1,2) StateRun, of a st] by simp
qed (rule suspended_line_stops [OF assms(2)])

lemma thread_tracer_cases:
  assumes "fe_os (te_filter E) = os" and "caches_right os s" and "\<not> td_disposed s"
  shows "(\<exists>s'. thread_tracer E a st ev s = ((NoTrace, None), s') \<and>
      (\<not> has_visible os a s \<or> map_of (td_cache_skips s') (key_of a) = Some 1)) \<or>
    (\<exists>s'. run_right os s s' \<and> fst (thread_tracer E a st ev s) = fst (trace_dispatch E a st ev s'))"
proof -
  obtain r1 s1 where 1: "known_skip a st s = (r1, s1)" by force
  obtain r2 s2 where 2: "skip_by_type E a st s1 = (r2, s2)" by force
  obtain r3 s3 where 3: "skip_by_filter E a st s2 = (r3, s3)" by force
  define s4 where "s4 = s3\<lparr>td_should_skip := (td_should_skip s3)(ac_id a := None)\<rparr>"
  have e: "thread_tracer E a st ev s =
    (if r1 then ((NoTrace, None), s1) else if r2 then ((NoTrace, None), s2) else if r3 then ((NoTrace, None), s3)
     else case trace_dispatch E a st ev s4 of
       ((t, w), s) \<Rightarrow> ((t, w), if t = NoTrace \<and> ev = CallEvent then cache_skip a 2 s else s))"
    using assms(3) by (simp add: thread_tracer_def 1 2 3 s4_def [symmetric] del: fun_upd_apply split: bool.split)
  have "run_right os s s1" using known_skip_right(1) [OF 1 assms(2)] by (rule run_right_view)
  moreover have "run_right os s1 s2" by (rule skip_by_type_right(1) [OF 2])
  moreover have "run_right os s2 s3" by (rule skip_by_filter_right(1) [OF 3])
  moreover have "run_right os s3 s4" by (rule run_right_view) (simp add: s4_def skips_view_def)
  ultimately have "run_right os s s4" by (blast intro: run_right_trans)
  with known_skip_right(2) [OF 1 assms(2)] skip_by_type_right(2) [OF 2] skip_by_filter_right(2) [OF 3] show ?thesis
    by (cases r1; cases r2; cases r3) (auto simp: e case_prod_beta)
qed

lemma breakpoint_event_stops:
  assumes inv: "debug_inv os c" "cf_waiting c = None" and os: "fe_os (te_filter E) = os"
    and nxt: "next_event (cf_stack c) LineEvent a st"
    and b: "map_of (bps_at os a (cf_db c)) (ac_line a) = Some b" "lb_func_name b \<in> {''None'', context_name a}"
      "\<not> has_condition b" "\<not> lb_is_logpoint b"
    and unfiltered: "ac_id a \<notin> cf_filtered (after_event E a st LineEvent c)"
  shows "snd (fst (call_tracer E a st LineEvent (cf_db c))) = Some (a # st)"
proof -
  have c: "caches_right os (cf_db c)" "\<not> td_disposed (cf_db c)" "\<not> td_dont_trace (cf_db c)"
    using inv(1) by (simp_all add: debug_inv_def)
  have vis: "has_visible os a (cf_db c)"
    using map_of_SomeD [OF b(1)] b(2) by (auto simp: has_visible_def has_breakpoint_in_frame_def list_ex_iff)
  have stops: "snd (fst (trace_dispatch E a st LineEvent s)) = Some (a # st)" if "run_right os (cf_db c) s" for s
  proof (rule breakpoint_line_stops)
    have "bps_at os a s = bps_at os a (cf_db c)" using that by (intro same_breakpoints) (simp add: run_right_def)
    with b(1) os show "map_of (bps_of E a s) (ac_line a) = Some b" by simp
  qed (use that c os b in \<open>simp_all add: run_right_def\<close>)
  obtain t w s where r: "call_tracer E a st LineEvent (cf_db c) = ((t, w), s)" by (metis surj_pair)
  obtain a0 l where a0: "cf_stack c = a0 # st" "a = a0\<lparr>ac_line := l\<rparr>" using nxt by (auto simp: next_event_def)
  have "td_trace (cf_db c) (ac_id a) \<in> {ThreadTrace, FrameTrace}"
  proof (rule ccontr)
    assume not: "\<not> ?thesis"
    then have "ac_id a \<in> cf_filtered c" using inv a0 vis by (auto simp: debug_inv_def will_trace_def)
    with not unfiltered show False by (simp add: after_event_eq [OF r])
  qed
  then consider "td_trace (cf_db c) (ac_id a) = ThreadTrace" | "td_trace (cf_db c) (ac_id a) = FrameTrace" by blast
  then show ?thesis
  proof cases
    case 1
    then have tt: "call_tracer E a st LineEvent (cf_db c) = thread_tracer E a st LineEvent (cf_db c)"
      by (simp add: call_tracer_def)
    have "\<not> (t = NoTrace \<and> map_of (td_cache_skips s) (key_of a) = Some 1)"
      using unfiltered 1 by (auto simp: after_event_eq [OF r] filtered_by_def)
    with thread_tracer_cases [OF os c(1,2), of a st LineEvent] vis r tt obtain s' where "run_right os (cf_db c) s'"
      "fst (thread_tracer E a st LineEvent (cf_db c)) = fst (trace_dispatch E a st LineEvent s')" by auto
    with stops tt show ?thesis by simp
  qed (use stops in \<open>simp add: call_tracer_def\<close>)
qed

text \<open>
  C1: No breakpoint is missed. However the program has run under the tracer so far (calls, lines, returns and
  exceptions in any order, stops, steps, jumps and pauses, and breakpoints added and removed in between, with
  tracing turned off for functions without breakpoints), when a function comes to a line with a breakpoint that
  has no condition and is no log point, the thread is suspended at that line. Exempt is a function that
  its file's type or the file filters exclude.
\<close>

theorem breakpoints_never_missed:
  assumes "reachable debug_start (debug_step os) c" and "cf_waiting c = None" and "fe_os (te_filter E) = os"
    and "next_event (cf_stack c) LineEvent a st"
    and "map_of (bps_at os a (cf_db c)) (ac_line a) = Some b" and "lb_func_name b \<in> {''None'', context_name a}"
    and "\<not> has_condition b" and "\<not> lb_is_logpoint b"
    and "ac_id a \<notin> cf_filtered (after_event E a st LineEvent c)"
  shows "\<exists>w. cf_waiting (after_event E a st LineEvent c) = Some w \<and> wt_frame w = a # st"
proof -
  have "debug_inv os c" by (rule debugging.holds [OF assms(1)])
  from breakpoint_event_stops [OF this assms(2-9)]
  obtain t s where "call_tracer E a st LineEvent (cf_db c) = ((t, Some (a # st)), s)" by (metis surj_pair snd_conv fst_conv)
  from after_event_eq [OF this] show ?thesis by (simp add: waits_at_def)
qed

section \<open>Stepping over\<close>

text \<open>What no part of the tracer changes while a step over is in the callees.\<close>

definition quiet_view :: "trace_db \<Rightarrow> _" where
  "quiet_view s = (td_info s, xd_caught (td_exc s), td_trace s, db_breakpoints (td_pydb s), db_hits (td_pydb s),
     td_quitting s, td_disposed s, td_dont_trace s, td_written s)"

named_theorems quiet

lemma quiet_set_filters [quiet]: "quiet_view (set_filters fl s) = quiet_view s"
  by (simp add: quiet_view_def set_filters_def set_pydb_def)

lemma quiet_type_of_frame [quiet]: "quiet_view (snd (type_of_frame E a st s)) = quiet_view s"
  by (simp add: type_of_frame_def quiet split: prod.splits)

lemma quiet_filter_frame [quiet]: "quiet_view (snd (filter_frame E force a st s)) = quiet_view s"
  by (simp add: filter_frame_def quiet split: prod.splits)

lemma quiet_cache_skip [quiet]: "quiet_view (cache_skip a v s) = quiet_view s"
  by (simp add: quiet_view_def cache_skip_def)

lemma quiet_notify_skipped [quiet]: "quiet_view (notify_skipped b s) = quiet_view s"
  by (simp add: quiet_view_def notify_skipped_def)

lemma quiet_known_skip [quiet]: "quiet_view (snd (known_skip a st s)) = quiet_view s"
  by (simp add: known_skip_def quiet Let_def split: option.split list.split)

lemma quiet_skip_by_type [quiet]: "quiet_view (snd (skip_by_type E a st s)) = quiet_view s"
proof -
  obtain t s1 where "type_of_frame E a st s = (t, s1)" by force
  with quiet_type_of_frame [of E a st s] show ?thesis
    by (simp add: skip_by_type_def case_prod_beta quiet split: option.split file_type.split bool.split)
qed

lemma quiet_skip_by_filter [quiet]: "quiet_view (snd (skip_by_filter E a st s)) = quiet_view s"
  by (simp add: skip_by_filter_def quiet Let_def case_prod_beta split: list.split bool.split)

lemma quiet_remember_line [quiet]: "quiet_view (remember_line k a b s) = quiet_view s"
  by (simp add: quiet_view_def remember_line_def)

lemma quiet_return_values [quiet]: "quiet_view (return_values E k stop a st ev s) = quiet_view s"
  by (simp add: return_values_def show_return_values_def remove_return_values_def quiet_view_def Let_def
      split: event.split list.split)

lemma quiet_frame_should_skip [quiet]: "quiet_view (snd (frame_should_skip E a s)) = quiet_view s"
  by (simp add: frame_should_skip_def quiet_view_def Let_def split: option.split)

lemma quiet_skip_event [quiet]: "quiet_view (snd (skip_event skip bps a s)) = quiet_view s"
  by (simp add: skip_event_def frame_breakpoints_def quiet_view_def Let_def case_prod_beta split: option.split)

text \<open>A step over that is to end in the activation \<open>i\<close>, without exception breakpoints.\<close>

definition stepping_over :: "nat \<Rightarrow> trace_db \<Rightarrow> bool" where
  "stepping_over i s \<longleftrightarrow> ti_step_cmd (td_info s) \<in> {Some StepOver, Some StepOverMyCode} \<and>
     ti_step_stop (td_info s) = Some i \<and> ti_state (td_info s) = StateRun \<and> xd_caught (td_exc s) = [] \<and>
     td_trace s i = FrameTrace \<and> \<not> td_quitting s \<and> \<not> td_disposed s \<and> \<not> td_dont_trace s"

lemma stepping_over_quiet: "quiet_view s' = quiet_view s \<Longrightarrow> stepping_over i s' = stepping_over i s"
  by (simp add: stepping_over_def quiet_view_def)

text \<open>An event of another activation, at a line without a breakpoint unless it returns.\<close>

definition passes :: "os_env \<Rightarrow> act \<Rightarrow> event \<Rightarrow> trace_db \<Rightarrow> bool" where
  "passes os a ev s \<longleftrightarrow> (\<exists>v. ev = ReturnEvent v) \<or> map_of (bps_at os a s) (ac_line a) = None"

lemma perceive_passes:
  assumes "stepping_over i s" and "ac_id a \<noteq> i" and "perceive E a st ev s = (p, s')"
  shows "quiet_view s' = quiet_view s" "p = Inl r \<Longrightarrow> snd r = None"
proof -
  have info: "td_info (snd (return_lines E a s)) = td_info s" and q: "quiet_view (snd (return_lines E a s)) = quiet_view s"
    by (simp_all add: return_lines_def quiet_view_def Let_def split: option.split)
  have leave: "leave_function a s = s" "leave_generator E a st (snd (return_lines E a s)) = snd (return_lines E a s)"
    using assms(1,2) info by (auto simp: leave_function_def leave_generator_def stepping_over_def Let_def)
  have "\<not> has_exception_breakpoints s" using assms(1) by (simp add: has_exception_breakpoints_def stepping_over_def)
  then show "quiet_view s' = quiet_view s" "p = Inl r \<Longrightarrow> snd r = None"
    using assms(3) leave q
    by (auto simp: perceive_def meet_exception_def case_prod_beta split: if_splits event.splits)
qed

lemma handle_step_passes:
  assumes "stepping_over i s" and "cmd = ti_step_cmd (td_info s)" and "ac_id a \<noteq> i"
  shows "snd (fst (handle_step E k cmd (Some i) a st s)) = None" "quiet_view (snd (handle_step E k cmd (Some i) a st s)) = quiet_view s"
proof -
  have f: "fst (frame_should_skip E a s) = Some False" "snd (frame_should_skip E a s) = s"
    using assms(1) by (simp_all add: frame_should_skip_def stepping_over_def)
  have "step_stops E k cmd (Some i) a st s = (False, s)"
    using assms by (auto simp: step_stops_def stepping_over_def)
  then have "handle_step E k cmd (Some i) a st s = ((go_on s, None), s)"
    using f by (simp add: handle_step_def not_into_debugger_def case_prod_beta)
  then show "snd (fst (handle_step E k cmd (Some i) a st s)) = None" "quiet_view (snd (handle_step E k cmd (Some i) a st s)) = quiet_view s"
    by simp_all
qed

lemma dispatch_passes:
  assumes "stepping_over i s" and "ac_id a \<noteq> i" and "passes (fe_os (te_filter E)) a ev s"
  shows "snd (fst (trace_dispatch E a st ev s)) = None \<and> quiet_view (snd (trace_dispatch E a st ev s)) = quiet_view s"
proof -
  obtain p s1 where p: "perceive E a st ev s = (p, s1)" by force
  note q1 = perceive_passes [OF assms(1,2) p]
  have nd: "\<not> td_disposed s" and stop: "ti_step_stop (td_info s) = Some i" using assms(1) by (simp_all add: stepping_over_def)
  show ?thesis
  proof (cases p)
    case (Inl r)
    with p q1 nd show ?thesis by (simp add: trace_dispatch_def Let_def)
  next
    case (Inr k)
    let ?cmd = "ti_step_cmd (td_info s)"
    obtain r s2 where r: "(if k = IsException then (None, s1)
        else skip_event (can_skip ?cmd (ti_step_stop (td_info s)) a st s1) (bps_of E a s1) a s1) = (r, s2)" by force
    have q2: "quiet_view s2 = quiet_view s"
      using r q1(1) quiet_skip_event [of "can_skip ?cmd (ti_step_stop (td_info s)) a st s1" "bps_of E a s1" a s1]
      by (auto split: if_splits)
    note d = trace_dispatch_cases [OF nd p [unfolded Inr] r]
    show ?thesis
    proof (cases r)
      case (Some t)
      with d q2 show ?thesis by simp
    next
      case None
      have "bps_of E a s2 = bps_of E a s" using q2 by (intro same_breakpoints) (simp add: quiet_view_def)
      then have b: "breakpoint_at k a (bps_of E a s2) s2 = None"
        using assms(3) perceive_kind(1,2) [OF p [unfolded Inr]] by (auto simp: breakpoint_at_def passes_def)
      define s3 where "s3 = remember_line k a None (return_values E k (Some i) a st ev s2)"
      have q3: "quiet_view s3 = quiet_view s" by (simp add: s3_def quiet q2)
      then have so: "stepping_over i s3" using assms(1) stepping_over_quiet by blast
      have run: "ti_state (td_info s2) = StateRun"
        using q2 assms(1) by (simp add: quiet_view_def stepping_over_def)
      have "trace_dispatch E a st ev s = handle_step E k ?cmd (Some i) a st s3"
        unfolding d None stop option.case by (simp add: dispatch_rest_def visit_breakpoint_def s3_def b run Let_def)
      moreover have "?cmd = ti_step_cmd (td_info s3)" using q3 by (simp add: quiet_view_def)
      ultimately show ?thesis using handle_step_passes [OF so _ assms(2)] q3 by simp
    qed
  qed
qed

lemma thread_tracer_passes:
  assumes "stepping_over i s" and "ac_id a \<noteq> i" and "passes (fe_os (te_filter E)) a ev s"
  shows "snd (fst (thread_tracer E a st ev s)) = None \<and> quiet_view (snd (thread_tracer E a st ev s)) = quiet_view s"
proof -
  obtain r1 s1 where 1: "known_skip a st s = (r1, s1)" by force
  obtain r2 s2 where 2: "skip_by_type E a st s1 = (r2, s2)" by force
  obtain r3 s3 where 3: "skip_by_filter E a st s2 = (r3, s3)" by force
  define s4 where "s4 = s3\<lparr>td_should_skip := (td_should_skip s3)(ac_id a := None)\<rparr>"
  have q1: "quiet_view s1 = quiet_view s" using quiet_known_skip [of a st s] 1 by simp
  have q2: "quiet_view s2 = quiet_view s" using quiet_skip_by_type [of E a st s1] 2 q1 by simp
  have q3: "quiet_view s3 = quiet_view s" using quiet_skip_by_filter [of E a st s2] 3 q2 by simp
  have q4: "quiet_view s4 = quiet_view s" using q3 by (simp add: s4_def quiet_view_def)
  have "passes (fe_os (te_filter E)) a ev s4"
    using assms(3) same_breakpoints(1) [of s4 s] q4 by (simp add: passes_def quiet_view_def)
  with dispatch_passes [OF _ assms(2)] q4 assms(1) stepping_over_quiet have
    d: "snd (fst (trace_dispatch E a st ev s4)) = None" "quiet_view (snd (trace_dispatch E a st ev s4)) = quiet_view s"
    by metis+
  obtain t s5 where d5: "trace_dispatch E a st ev s4 = ((t, None), s5)" using d(1) by (metis surj_pair fst_conv snd_conv)
  have "thread_tracer E a st ev s =
    (if r1 then ((NoTrace, None), s1) else if r2 then ((NoTrace, None), s2) else if r3 then ((NoTrace, None), s3)
     else ((t, None), if t = NoTrace \<and> ev = CallEvent then cache_skip a 2 s5 else s5))"
    using assms(1) by (simp add: stepping_over_def thread_tracer_def 1 2 3 s4_def [symmetric] d5 del: fun_upd_apply split: bool.split)
  moreover have "quiet_view s5 = quiet_view s" using d(2) by (simp add: d5)
  ultimately show ?thesis using q1 q2 q3 by (simp add: quiet)
qed

lemma trace_exception_passes:
  assumes "stepping_over i s"
  shows "snd (fst (trace_exception E a st ev s)) = None \<and> quiet_view (snd (trace_exception E a st ev s)) = quiet_view s"
proof -
  have c: "xd_caught (td_exc s) = []" using assms by (simp add: stepping_over_def)
  have "get_exception_breakpoint G x [] = None" for G x by (simp add: get_exception_breakpoint_def)
  then have "should_stop_on_exception S b None fr x code tb (td_exc s) = ((False, fr, None), td_exc s)" for S b fr x code tb
    by (simp add: should_stop_on_exception_def c)
  then have "stop_at_exception E a st e s = (False, s)" for e by (simp add: stop_at_exception_def on_info_def)
  then show ?thesis by (simp add: trace_exception_def split: event.split)
qed

lemma event_passes:
  assumes "stepping_over i s" and "ac_id a \<noteq> i" and "passes (fe_os (te_filter E)) a ev s"
  shows "snd (fst (program_event E a st ev s)) = None" "stepping_over i (snd (program_event E a st ev s))"
    "td_info (snd (program_event E a st ev s)) = td_info s"
    "db_breakpoints (td_pydb (snd (program_event E a st ev s))) = db_breakpoints (td_pydb s)"
proof -
  have c: "snd (fst (call_tracer E a st ev s)) = None \<and> quiet_view (snd (call_tracer E a st ev s)) = quiet_view s"
    using dispatch_passes [OF assms, of st] thread_tracer_passes [OF assms, of st]
      trace_exception_passes [OF assms(1), of E a st ev]
    by (auto simp: call_tracer_def split: trace_function.split)
  then obtain t s' where t: "call_tracer E a st ev s = ((t, None), s')" by (metis surj_pair fst_conv snd_conv)
  with c have q: "quiet_view s' = quiet_view s" by simp
  have "stepping_over i s'" using q assms(1) stepping_over_quiet by blast
  then have "stepping_over i (s'\<lparr>td_trace := (td_trace s')(ac_id a := t)\<rparr>)" using assms(2) by (simp add: stepping_over_def)
  with t q show "snd (fst (program_event E a st ev s)) = None" "stepping_over i (snd (program_event E a st ev s))"
    "td_info (snd (program_event E a st ev s)) = td_info s"
    "db_breakpoints (td_pydb (snd (program_event E a st ev s))) = db_breakpoints (td_pydb s)"
    by (simp_all add: program_event_def quiet_view_def del: fun_upd_apply)
qed

text \<open>A run of events up to the first stop.\<close>

type_synonym program_run = "(trace_env \<times> act \<times> stack \<times> event) list"

fun run_events :: "program_run \<Rightarrow> trace_db \<Rightarrow> stack option \<times> trace_db" where
  "run_events [] s = (None, s)"
| "run_events ((E, a, st, ev) # es) s =
    (case program_event E a st ev s of
       ((_, Some w), s) \<Rightarrow> (Some w, s)
     | ((_, None), s) \<Rightarrow> run_events es s)"

definition elsewhere :: "os_env \<Rightarrow> nat \<Rightarrow> trace_db \<Rightarrow> program_run \<Rightarrow> bool" where
  "elsewhere os i s es \<longleftrightarrow> (\<forall>(E, a, st, ev) \<in> set es. fe_os (te_filter E) = os \<and> ac_id a \<noteq> i \<and> passes os a ev s)"

lemma run_passes:
  assumes "stepping_over i s" and "elsewhere os i s es"
  shows "\<exists>s'. run_events es s = (None, s') \<and> stepping_over i s' \<and> td_info s' = td_info s"
  using assms
proof (induction es arbitrary: s)
  case (Cons e es)
  obtain E a st ev where e: "e = (E, a, st, ev)" by (cases e) auto
  with Cons.prems(2) have p: "ac_id a \<noteq> i" "passes (fe_os (te_filter E)) a ev s" by (auto simp: elsewhere_def)
  obtain t w s1 where r: "program_event E a st ev s = ((t, w), s1)" by (metis surj_pair)
  note q = event_passes [OF Cons.prems(1) p, of st, unfolded r, simplified]
  have "passes os' b ev' s1 = passes os' b ev' s" for os' b ev'
    using same_breakpoints(1) [OF q(4)] by (simp add: passes_def)
  with Cons.prems(2) have "elsewhere os i s1 es" by (auto simp: elsewhere_def)
  from Cons.IH [OF q(2) this] q(1,3) r show ?case by (auto simp: e)
qed simp

lemma run_events_append:
  "run_events es s = (None, s') \<Longrightarrow> run_events (es @ es') s = run_events es' s'"
proof (induction es arbitrary: s)
  case (Cons e es)
  then show ?case by (cases e) (auto split: prod.splits option.splits)
qed simp

text \<open>An event of the activation itself is not skipped.\<close>

lemma dispatch_here:
  assumes "stepping_over (ac_id a) s" and "perceive E a st ev s = (Inr k, s1)" and "k \<noteq> IsException"
  shows "\<exists>s2. quiet_view s2 = quiet_view s1 \<and>
    trace_dispatch E a st ev s = dispatch_rest E k (ti_step_cmd (td_info s)) (Some (ac_id a)) a st ev s2"
proof -
  have i: "ti_step_stop (td_info s) = Some (ac_id a)" "\<not> td_disposed s"
    "ti_step_cmd (td_info s) \<in> {Some StepOver, Some StepOverMyCode}" using assms(1) by (auto simp: stepping_over_def)
  obtain r s2 where r: "skip_event (can_skip (ti_step_cmd (td_info s)) (ti_step_stop (td_info s)) a st s1) (bps_of E a s1) a s1 = (r, s2)"
    by force
  have "\<not> can_skip (ti_step_cmd (td_info s)) (ti_step_stop (td_info s)) a st s1"
    using i by (auto simp: can_skip_def)
  with r have "r = None" by (auto simp: skip_event_def case_prod_beta split: if_splits)
  moreover have "(if k = IsException then (None, s1)
      else skip_event (can_skip (ti_step_cmd (td_info s)) (ti_step_stop (td_info s)) a st s1) (bps_of E a s1) a s1) = (r, s2)"
    using r assms(3) by simp
  ultimately have "trace_dispatch E a st ev s = dispatch_rest E k (ti_step_cmd (td_info s)) (Some (ac_id a)) a st ev s2"
    using trace_dispatch_cases [OF i(2) assms(2)] i(1) by simp
  moreover have "quiet_view s2 = quiet_view s1"
    using quiet_skip_event [of "can_skip (ti_step_cmd (td_info s)) (ti_step_stop (td_info s)) a st s1" "bps_of E a s1" a s1] r by simp
  ultimately show ?thesis by blast
qed

lemma no_dont_trace: "\<not> td_dont_trace s \<Longrightarrow> frame_should_skip E a s = (Some False, s)"
  by (simp add: frame_should_skip_def)

lemma step_over_lands:
  assumes "stepping_over (ac_id a) s"
  shows "\<exists>s'. program_event E a st LineEvent s = ((FrameTrace, Some (a # st)), s') \<and>
    ti_stop_reason (td_info s') =
      Some (case ti_original_step_cmd (td_info s) of None \<Rightarrow> the (ti_step_cmd (td_info s)) | Some c \<Rightarrow> c) \<and>
    td_written s' = td_written s \<and> db_hits (td_pydb s') = db_hits (td_pydb s)"
proof -
  let ?cmd = "ti_step_cmd (td_info s)" and ?i = "ac_id a"
  obtain s2 where q2: "quiet_view s2 = quiet_view s"
    and d: "trace_dispatch E a st LineEvent s = dispatch_rest E IsLine ?cmd (Some ?i) a st LineEvent s2"
    using dispatch_here [OF assms perceive_line] by auto
  have cmd: "?cmd \<in> {Some StepOver, Some StepOverMyCode}" using assms by (simp add: stepping_over_def)
  define b where "b = breakpoint_at IsLine a (bps_of E a s2) s2"
  have v: "visit_breakpoint E IsLine ?cmd (Some ?i) a b s2 = (False, s2)"
    using cmd by (auto simp: visit_breakpoint_def split: option.split)
  define s3 where "s3 = remember_line IsLine a b (return_values E IsLine (Some ?i) a st LineEvent s2)"
  have q3: "quiet_view s3 = quiet_view s" by (simp add: s3_def quiet q2)
  then have so: "stepping_over ?i s3" using assms stepping_over_quiet by blast
  have run: "ti_state (td_info s2) = StateRun" using q2 assms by (simp add: quiet_view_def stepping_over_def)
  have "trace_dispatch E a st LineEvent s = handle_step E IsLine ?cmd (Some ?i) a st s3"
    unfolding d by (simp add: dispatch_rest_def b_def [symmetric] v run s3_def Let_def)
  moreover have "step_stops E IsLine ?cmd (Some ?i) a st s3 = (True, s3)"
    using cmd by (auto simp: step_stops_def)
  moreover have "\<not> td_dont_trace s3" "\<not> td_quitting s3" using so by (simp_all add: stepping_over_def)
  ultimately have "trace_dispatch E a st LineEvent s =
      ((FrameTrace, Some (a # st)), mark_suspend (the ?cmd) (ti_original_step_cmd (td_info s3)) s3)"
    by (simp add: handle_step_def no_dont_trace not_into_debugger_def perform_stop_def go_on_def Let_def mark_suspend_def on_info_def)
  moreover have "td_info s3 = td_info s" "td_written s3 = td_written s" "db_hits (td_pydb s3) = db_hits (td_pydb s)"
    using q3 by (simp_all add: quiet_view_def)
  moreover have "call_tracer E a st LineEvent s = trace_dispatch E a st LineEvent s"
    using assms by (simp add: call_tracer_def stepping_over_def)
  ultimately show ?thesis by (simp add: program_event_def mark_suspend_def on_info_def Let_def)
qed

lemma step_over_leaves:
  assumes "stepping_over (ac_id a) s" and "\<not> te_generator E (ac_code a)"
  shows "\<exists>t s'. program_event E a st (ReturnEvent v) s = ((t, None), s') \<and> ti_state (td_info s') = StateRun \<and>
    ti_step_stop (td_info s') = None \<and>
    ti_step_cmd (td_info s') = Some (if ti_step_cmd (td_info s) = Some StepOver then StepInto else StepIntoMyCode)"
proof -
  let ?cmd = "ti_step_cmd (td_info s)" and ?i = "ac_id a" and ?ev = "ReturnEvent v"
  have cmd: "?cmd \<in> {Some StepOver, Some StepOverMyCode}" using assms by (simp add: stepping_over_def)
  define s1 where "s1 = leave_function a s"
  have p: "perceive E a st ?ev s = (Inr IsReturn, s1)" using assms(2) by (simp add: perceive_def s1_def)
  obtain s2 where q2: "quiet_view s2 = quiet_view s1"
    and d: "trace_dispatch E a st ?ev s = dispatch_rest E IsReturn ?cmd (Some ?i) a st ?ev s2"
    using dispatch_here [OF assms(1) p] by auto
  define s3 where "s3 = return_values E IsReturn (Some ?i) a st ?ev s2"
  have q3: "quiet_view s3 = quiet_view s1" by (simp add: s3_def quiet q2)
  have i1: "td_info s1 = (td_info s)\<lparr>ti_step_cmd := Some (if ?cmd = Some StepOver then StepInto else StepIntoMyCode), ti_step_stop := None\<rparr>"
    "td_dont_trace s1 = td_dont_trace s"
    using cmd assms by (auto simp: s1_def leave_function_def set_step_def on_info_def stepping_over_def Let_def)
  have run: "ti_state (td_info s2) = StateRun" using q2 i1 assms by (simp add: quiet_view_def stepping_over_def)
  have "trace_dispatch E a st ?ev s = handle_step E IsReturn ?cmd (Some ?i) a st s3"
    unfolding d by (simp add: dispatch_rest_def breakpoint_at_def visit_breakpoint_def remember_line_def run s3_def Let_def)
  moreover have "step_stops E IsReturn ?cmd (Some ?i) a st s3 = (False, s3)" using cmd by (auto simp: step_stops_def)
  moreover have "\<not> td_dont_trace s3" "td_info s3 = td_info s1" using q3 i1 assms by (simp_all add: quiet_view_def stepping_over_def)
  ultimately have "trace_dispatch E a st ?ev s = ((go_on s3, None), s3)" "td_info s3 = td_info s1"
    by (simp_all add: handle_step_def no_dont_trace not_into_debugger_def)
  moreover have "call_tracer E a st ?ev s = trace_dispatch E a st ?ev s"
    using assms by (simp add: call_tracer_def stepping_over_def)
  ultimately show ?thesis using i1 assms by (simp add: program_event_def stepping_over_def)
qed

text \<open>The thread goes on, with a step over, from a stop in the running function.\<close>

definition after_next :: "trace_env \<Rightarrow> (act \<Rightarrow> int \<Rightarrow> bool) \<Rightarrow> waiting \<Rightarrow> act \<Rightarrow> stack \<Rightarrow> trace_db \<Rightarrow> trace_db" where
  "after_next E jump w a st s = resumed E w a (snd (wake_up E jump (wt_event w) a st (on_next_request s)))"

lemma quiet_set_trace:
  "quiet_view ((set_trace_for_frame_and_parents E st s)\<lparr>td_trace := f\<rparr>) = quiet_view (s\<lparr>td_trace := f\<rparr>)"
proof (induction st arbitrary: s)
  case (Cons a st)
  have *: "quiet_view (snd (type_of_frame E a st s)\<lparr>td_trace := f\<rparr>) = quiet_view (s\<lparr>td_trace := f\<rparr>)" for f
    using quiet_type_of_frame [of E a st s] by (simp add: quiet_view_def)
  then show ?case by (simp add: case_prod_beta Cons.IH)
qed simp

lemma after_next_quiet:
  "\<exists>f. quiet_view (after_next E jump w a st s) = quiet_view
    ((on_info (\<lambda>i. i\<lparr>ti_step_stop := Some (ac_id a), ti_smart_step_stop := None\<rparr>) (on_next_request s))\<lparr>td_trace := f(ac_id a := wt_trace w)\<rparr>)"
proof -
  let ?s = "on_info (\<lambda>i. i\<lparr>ti_step_stop := Some (ac_id a), ti_smart_step_stop := None\<rparr>) (on_next_request s)"
  have w: "wake_up E jump (wt_event w) a st (on_next_request s) = (Runs, set_trace_for_frame_and_parents E (a # st) ?s)"
    by (simp add: wake_up_def on_next_request_def internal_step_in_thread_def on_info_def del: set_trace_for_frame_and_parents.simps)
  define x where "x = (if wt_exception w
    then set_trace_for_frame_and_parents E (wt_frame w) (set_trace_for_frame_and_parents E (a # st) ?s)
    else set_trace_for_frame_and_parents E (a # st) ?s)"
  have "quiet_view (x\<lparr>td_trace := f\<rparr>) = quiet_view (?s\<lparr>td_trace := f\<rparr>)" for f
    by (simp add: x_def quiet_set_trace del: set_trace_for_frame_and_parents.simps)
  moreover have "after_next E jump w a st s = x\<lparr>td_trace := (td_trace x)(ac_id a := wt_trace w)\<rparr>"
    by (simp add: after_next_def w resumed_def x_def Let_def del: set_trace_for_frame_and_parents.simps fun_upd_apply)
  ultimately show ?thesis by metis
qed


text \<open>A stop on entry is reported as such once, and as a step from then on.\<close>

theorem entry_reported_once:
  assumes "c \<in> step_reasons"
  shows "fst (reported_reason c (stop_on_entry s)) = ''entry''"
    and "fst (reported_reason c (snd (reported_reason c (stop_on_entry s)))) = ''step''"
  using assms by (simp_all add: reported_reason_def stop_on_entry_def on_info_def)

section \<open>Where the code does otherwise\<close>

text \<open>
  A step over that ends at a line with a breakpoint does not evaluate the breakpoint at all: a log point at the
  line writes nothing, and a hit is not counted. The code says the breakpoint will be processed later, but it
  is not, since the next event is at another line.
\<close>

theorem step_over_loses_log_point:
  assumes "stepping_over (ac_id a) s"
  shows "let s' = snd (program_event E a st LineEvent s)
    in td_written s' = td_written s \<and> db_hits (td_pydb s') = db_hits (td_pydb s)"
  using step_over_lands [OF assms, of E st] by auto

text \<open>
  The call event of a module or a lambda is meant to be ignored at a breakpoint, because the line event at the
  same line follows. But the hit is counted before, so that one execution of the line counts two hits.
\<close>

lemma event_counts_hit:
  assumes "\<not> td_disposed s" and "ti_state (td_info s) = StateRun" and "ti_step_cmd (td_info s) = None"
    and "\<not> te_generator E (ac_code a)" and "ev \<in> {CallEvent, LineEvent}"
    and right: "caches_right (fe_os (te_filter E)) s"
    and b: "map_of (bps_of E a s) (ac_line a) = Some b" "lb_func_name b \<in> {''None'', context_name a}"
      "\<not> falsy (lb_hit_condition b)" "lb_expression b = None"
  shows "\<exists>s2 s3. td_info s2 = td_info s \<and> evaluate_breakpoint E b s2 = (fst (evaluate_breakpoint E b s2), s3) \<and>
    db_hits (td_pydb s3) = (db_hits (td_pydb s))(lb_object b := Suc (db_hits (td_pydb s) (lb_object b))) \<and>
    trace_dispatch E a st ev s = dispatch_rest E (if ev = CallEvent then IsCall else IsLine) None (ti_step_stop (td_info s)) a st ev s2 \<and>
    bps_of E a s2 = bps_of E a s"
proof -
  let ?k = "if ev = CallEvent then IsCall else IsLine"
  have p: "perceive E a st ev s = (Inr ?k, s)" using assms(4,5) by (auto simp: perceive_def)
  obtain r s2 where r: "skip_event (can_skip None (ti_step_stop (td_info s)) a st s) (bps_of E a s) a s = (r, s2)" by force
  have vis: "has_visible (fe_os (te_filter E)) a s"
    using map_of_SomeD [OF b(1)] b(2) by (auto simp: has_visible_def has_breakpoint_in_frame_def list_ex_iff)
  note ok = skip_event_right [OF right r]
  have "r = None" using ok(3) vis b(1) by (cases r) auto
  with trace_dispatch_cases [OF assms(1) p, of r s2] r assms(3)
  have d: "trace_dispatch E a st ev s = dispatch_rest E ?k None (ti_step_stop (td_info s)) a st ev s2" by simp
  obtain fs where s2: "s2 = s\<lparr>td_frame_skips := fs\<rparr>" using ok(2) by blast
  have h: "has_condition b" using b(3) by (simp add: has_condition_def)
  have "db_hits (td_pydb (snd (evaluate_breakpoint E b s2))) =
      (db_hits (td_pydb s))(lb_object b := Suc (db_hits (td_pydb s) (lb_object b)))"
    using b(3,4) h
    by (auto simp: evaluate_breakpoint_def handle_breakpoint_condition_def handle_hit_condition_def set_pydb_def s2 Let_def
        split: prod.splits bool.splits option.splits)
  with d show ?thesis by (intro exI [of _ s2] exI [of _ "snd (evaluate_breakpoint E b s2)"]) (simp add: s2)
qed

theorem module_line_hit_twice:
  assumes "\<not> td_disposed s" and "ti_state (td_info s) = StateRun" and "ti_step_cmd (td_info s) = None"
    and "\<not> te_generator E (ac_code a)" and "co_name (ac_code a) \<in> {''<module>'', ''<lambda>''}"
    and "caches_right (fe_os (te_filter E)) s"
    and "map_of (bps_of E a s) (ac_line a) = Some b" and "lb_func_name b \<in> {''None'', context_name a}"
    and "\<not> falsy (lb_hit_condition b)" and "lb_expression b = None"
  shows "let (r, s') = trace_dispatch E a st CallEvent s
    in r = (FrameTrace, None) \<and> db_hits (td_pydb s') (lb_object b) = Suc (db_hits (td_pydb s) (lb_object b))"
proof -
  obtain s2 s3 where s: "td_info s2 = td_info s" "evaluate_breakpoint E b s2 = (fst (evaluate_breakpoint E b s2), s3)"
    "db_hits (td_pydb s3) = (db_hits (td_pydb s))(lb_object b := Suc (db_hits (td_pydb s) (lb_object b)))"
    "trace_dispatch E a st CallEvent s = dispatch_rest E IsCall None (ti_step_stop (td_info s)) a st CallEvent s2"
    "bps_of E a s2 = bps_of E a s"
    using event_counts_hit [OF assms(1-4) _ assms(6-10), of CallEvent st] by auto
  obtain hit where e: "evaluate_breakpoint E b s2 = (hit, s3)" using s(2) by blast
  have "trace_dispatch E a st CallEvent s = ((FrameTrace, None), s3)"
    using assms(2,5,7) s(1,5) by (auto simp: s(4) dispatch_rest_def breakpoint_at_def visit_breakpoint_def e Let_def)
  with s(3) show ?thesis by simp
qed

text \<open>
  A \<open>@DontTrace\<close> comment in the last line of a file: the search for decorators below it runs past the end of the
  file, the tracer catches the \<open>IndexError\<close> and forgets the step that is under way, whichever function of
  the file the event is in.
\<close>

lemma tagged_lines_raise:
  "i \<in> set is \<Longrightarrow> has_dont_trace_tag (lines ! i) \<Longrightarrow> decorators_below lines (Suc i) = None \<Longrightarrow> tagged_lines lines is = None"
  by (induction "is") (auto split: option.split)

theorem dont_trace_in_last_line:
  assumes "te_lines E (code_file E (ac_code a)) = lines @ [line]" and "has_dont_trace_tag line"
    and "td_dont_trace s" and "td_should_skip s (ac_id a) = None"
  shows "handle_step E k cmd stop a st s = ((go_on s, None), stop_stepping s)"
proof -
  have "decorators_below (lines @ [line]) (Suc (length lines)) = None" by (subst decorators_below.simps) simp
  with assms(2) have "tagged_lines (lines @ [line]) [0..<length (lines @ [line])] = None"
    by (intro tagged_lines_raise [where i = "length lines"]) auto
  with assms(1) have "should_trace_hook E (ac_code a) (code_file E (ac_code a)) = None"
    by (simp add: should_trace_hook_def Let_def)
  with assms(3,4) show ?thesis
    by (simp add: handle_step_def frame_should_skip_def go_on_def stop_stepping_def on_info_def Let_def)
qed

text \<open>
  A project's file that is named as a module of the library (\<open>queue.py\<close>, \<open>io.py\<close>) is traced, but
  \<open>set_trace_for_frame_and_parents\<close> goes by the name alone: a function of such a file that was left untraced, and
  into which the user has stepped out, is never stopped at again by a step over in it.
\<close>

lemma set_trace_others: "i \<notin> ac_id ` set st \<Longrightarrow> td_trace (set_trace_for_frame_and_parents E st s) i = td_trace s i"
proof (induction st arbitrary: s)
  case (Cons a st)
  have "td_trace (snd (type_of_frame E a st s)) i = td_trace s i"
    using view_type_of_frame [of E a st s] by (simp add: skips_view_def)
  with Cons show ?case by (simp add: case_prod_beta)
qed simp

theorem step_over_lost_in_own_queue:
  assumes "fst (type_of_frame E b st (on_info (\<lambda>i. i\<lparr>ti_step_stop := Some (ac_id b), ti_smart_step_stop := None\<rparr>)
      (on_next_request s))) = Some LibFile"
    and "td_trace s (ac_id b) = NoTrace" and "ac_id b \<notin> ac_id ` set st" and "ac_id a \<noteq> ac_id b"
    and "\<not> wt_exception w" and "ac_id b' = ac_id b"
    and "s1 = resumed E w a (snd (wake_up E jump ev b st (on_next_request s)))"
  shows "program_event E' b' st LineEvent s1 = ((NoTrace, None), s1)"
proof -
  let ?s = "on_info (\<lambda>i. i\<lparr>ti_step_stop := Some (ac_id b), ti_smart_step_stop := None\<rparr>) (on_next_request s)"
  have w: "wake_up E jump ev b st (on_next_request s) = (Runs, set_trace_for_frame_and_parents E (b # st) ?s)"
    by (simp add: wake_up_def on_next_request_def internal_step_in_thread_def on_info_def del: set_trace_for_frame_and_parents.simps)
  have "td_trace (snd (type_of_frame E b st ?s)) (ac_id b) = td_trace ?s (ac_id b)"
    using view_type_of_frame [of E b st ?s] by (simp add: skips_view_def)
  also have "\<dots> = NoTrace" using assms(2) by (simp add: on_next_request_def internal_step_in_thread_def on_info_def)
  finally have "td_trace (set_trace_for_frame_and_parents E (b # st) ?s) (ac_id b) = NoTrace"
    using assms(1,3) by (simp add: case_prod_beta set_trace_others)
  then have t: "td_trace s1 (ac_id b) = NoTrace"
    using assms(4,5) by (simp add: assms(7) w resumed_def Let_def del: set_trace_for_frame_and_parents.simps)
  then have "s1\<lparr>td_trace := (td_trace s1)(ac_id b := NoTrace)\<rparr> = s1" by (metis fun_upd_triv trace_db.surjective trace_db.update_convs(8))
  with t show ?thesis by (simp add: program_event_def call_tracer_def assms(6) del: fun_upd_apply)
qed

section \<open>Examples\<close>

definition demo_trace_env :: trace_env where
  "demo_trace_env = \<lparr>te_stop = demo_stop_env, te_can_skip = (\<lambda>_. True), te_generator = (\<lambda>_. False), te_coroutine = (\<lambda>_. False),
     te_return_lines = (\<lambda>_. []), te_class_of = (\<lambda>_. None), te_lines = (\<lambda>_. []), te_stat = (\<lambda>_. None), te_python3 = True,
     te_linesep = [CHR 0x0A]\<rparr>"

definition demo_act :: "nat \<Rightarrow> string \<Rightarrow> int \<Rightarrow> act" where
  "demo_act i name line = \<lparr>ac_id = i,
     ac_code = \<lparr>co_firstlineno = 1, co_filename = ''/app/x.py'', co_name = name, co_rest = 0\<rparr>, ac_module = Some ''x'', ac_line = line\<rparr>"

definition demo_breakpoint :: line_breakpoint where
  "demo_breakpoint = \<lparr>lb_object = 0, lb_line = 3, lb_condition = None, lb_func_name = ''None'', lb_expression = None,
     lb_suspend_policy = ''ALL'', lb_hit_condition = None, lb_is_logpoint = False\<rparr>"

definition demo_trace_db :: trace_db where
  "demo_trace_db = \<lparr>td_exc = (new_exc_db demo_exc_env)\<lparr>xd_db := (new_pydb demo_exc_env)\<lparr>db_breakpoints :=
       [(''/app/x.py'', [(3, demo_breakpoint)])]\<rparr>\<rparr>,
     td_info = new_thread_info, td_cache_skips = [], td_frame_skips = [], td_line_skips = [], td_return_lines = [],
     td_should_skip = (\<lambda>_. None), td_trace = (\<lambda>_. NoTrace), td_ignored = [], td_stats = [], td_user_ignored = [],
     td_ignore_tagged = True, td_dont_trace = False, td_show_returns = False, td_remove_returns = False,
     td_returns = (\<lambda>_. None), td_quitting = False, td_disposed = False, td_notified = False, td_written = []\<rparr>"

definition demo_config :: config where
  "demo_config = \<lparr>cf_stack = [], cf_waiting = None, cf_db = demo_trace_db, cf_filtered = {}\<rparr>"

lemma demo_start: "debug_start demo_config"
  by (simp add: debug_start_def demo_config_def demo_trace_db_def clear_skip_caches_def)

abbreviation demo_called :: config where
  "demo_called \<equiv> after_event demo_trace_env (demo_act 7 ''f'' 1) [] CallEvent demo_config"

lemma demo_called_facts:
  "cf_waiting demo_called = None" "cf_stack demo_called = [demo_act 7 ''f'' 1]"
  "7 \<notin> cf_filtered (after_event demo_trace_env (demo_act 7 ''f'' 3) [] LineEvent demo_called)"
  "map_of (bps_at demo_os (demo_act 7 ''f'' 3) (cf_db demo_called)) 3 = Some demo_breakpoint"
  by code_simp+

theorem breakpoints_never_missed_witness:
  "\<exists>w. cf_waiting (after_event demo_trace_env (demo_act 7 ''f'' 3) [] LineEvent demo_called) = Some w \<and>
    wt_frame w = [demo_act 7 ''f'' 3]"
proof (rule breakpoints_never_missed [where os = demo_os and b = demo_breakpoint])
  show os: "fe_os (te_filter demo_trace_env) = demo_os"
    by (simp add: demo_trace_env_def demo_stop_env_def demo_filter_env_def)
  show "reachable debug_start (debug_step demo_os) demo_called"
    by (rule reachable_step, rule reachable_init, rule demo_start, rule debug_step.event [OF _ os])
      (simp_all add: demo_config_def next_event_def)
  show "next_event (cf_stack demo_called) LineEvent (demo_act 7 ''f'' 3) []"
    unfolding demo_called_facts by (auto simp: next_event_def demo_act_def intro: exI [of _ 3])
  show "ac_id (demo_act 7 ''f'' 3) \<notin> cf_filtered (after_event demo_trace_env (demo_act 7 ''f'' 3) [] LineEvent demo_called)"
    using demo_called_facts(3) by (simp add: demo_act_def)
  show "map_of (bps_at demo_os (demo_act 7 ''f'' 3) (cf_db demo_called)) (ac_line (demo_act 7 ''f'' 3)) = Some demo_breakpoint"
    using demo_called_facts(4) by (simp add: demo_act_def)
qed (simp_all add: demo_called_facts demo_breakpoint_def has_condition_def falsy_def)

theorem line_stops_iff_witness:
  "snd (fst (trace_dispatch demo_trace_env (demo_act 7 ''f'' 3) [] LineEvent demo_trace_db)) = Some [demo_act 7 ''f'' 3] \<and>
   snd (fst (trace_dispatch demo_trace_env (demo_act 7 ''f'' 4) [] LineEvent demo_trace_db)) = None"
proof -
  have c: "caches_right (fe_os (te_filter demo_trace_env)) demo_trace_db"
    using demo_start caches_right_cleared [of _ demo_trace_db] by (simp add: debug_start_def demo_config_def)
  have s: "\<not> td_disposed demo_trace_db" "ti_state (td_info demo_trace_db) = StateRun"
    by (simp_all add: demo_trace_db_def new_thread_info_def)
  have b: "bps_of demo_trace_env (demo_act 7 ''f'' l) demo_trace_db = [(3, demo_breakpoint)]" for l
  proof -
    have "bps_of demo_trace_env (demo_act 7 ''f'' 0) demo_trace_db = [(3, demo_breakpoint)]" by code_simp
    then show ?thesis by (simp add: bps_at_def demo_act_def)
  qed
  have f: "lb_func_name x \<in> {''None'', context_name a}"
    if "map_of [(3, demo_breakpoint)] l = Some x" for x a and l :: int
    using that by (auto simp: demo_breakpoint_def split: if_splits)
  have cmd: "ti_step_cmd (td_info demo_trace_db) = None" by (simp add: demo_trace_db_def new_thread_info_def)
  have line: "ac_line (demo_act 7 ''f'' l) = l" for l by (simp add: demo_act_def)
  have fires: "fst (evaluate_breakpoint demo_trace_env demo_breakpoint demo_trace_db)"
    by (rule unconditional_fires) (simp_all add: demo_breakpoint_def has_condition_def falsy_def)
  have "line_stops demo_trace_env (demo_act 7 ''f'' 3) [] demo_trace_db"
    "\<not> line_stops demo_trace_env (demo_act 7 ''f'' 4) [] demo_trace_db"
    by (simp_all add: line_stops_def breakpoint_fires_def b line fires lands_def step_ends_at_def cmd)
  with line_stops_iff [OF c s, of "demo_act 7 ''f'' 3" "[]"] line_stops_iff [OF c s, of "demo_act 7 ''f'' 4" "[]"] f
  show ?thesis by (simp add: b line)
qed

definition demo_waiting :: waiting where
  "demo_waiting = \<lparr>wt_event = LineEvent, wt_trace = FrameTrace, wt_frame = [demo_act 7 ''f'' 3], wt_exception = False\<rparr>"


end
